(* ===== verification/Quake_Prelude.thy ===== *)
theory Quake_Prelude
  imports Main "HOL-Library.Word" "HOL-Library.AList"
begin

text \<open>
  Shared vocabulary of the QuakeMesh development.

  \<^item> Types: bytes, Go's \<^verbatim>\<open>time.Time\<close> as nanoseconds since the Unix epoch, errors as values.
  \<^item> The few functions of Go's standard library that several components call
    (\<^verbatim>\<open>copy\<close> into an array, \<^verbatim>\<open>strings\<close>, \<^verbatim>\<open>strconv\<close>, \<^verbatim>\<open>encoding/hex\<close>, \<^verbatim>\<open>time\<close>).
  \<^item> The statement monad: an operation on a world returns an error or a value and the next world.
  \<^item> Keyed tables as lists of rows, with the lemmas on lookup after update, insert and delete.
\<close>

section \<open>Named collections\<close>

named_theorems db_simps \<open>evaluation of database operations when no statement fails\<close>
named_theorems db_frame \<open>tables that an operation leaves alone\<close>
named_theorems inv_intros \<open>preservation of well-formedness invariants\<close>

section \<open>Types\<close>

type_synonym byte = "8 word"
type_synonym bytes = "byte list"

text \<open>A point in time in nanoseconds since the Unix epoch, and a duration in nanoseconds.\<close>

type_synonym time = int
type_synonym duration = int

text \<open>
  The errors that the modelled code distinguishes or returns. \<open>SqlFailure\<close> is a failure of the
  database driver; the three violations are SQLite's answer to a statement that breaks a
  constraint of the schema; \<open>Errmsg\<close> is \<^verbatim>\<open>errors.New\<close> or \<^verbatim>\<open>fmt.Errorf\<close> without a cause and \<open>Wrap\<close>
  is \<^verbatim>\<open>fmt.Errorf\<close> with \<^verbatim>\<open>%w\<close>.
\<close>

datatype error =
    SqlFailure
  | UniqueViolation
  | ForeignKeyViolation
  | NotNullViolation
  | NoRows
  | Errmsg string
  | Wrap string error

section \<open>Arrays, times and strings of the Go standard library\<close>

text \<open>\<^verbatim>\<open>copy(dst[:], src)\<close> into a zeroed array of \<open>n\<close> bytes.\<close>

definition copy_array :: "nat \<Rightarrow> bytes \<Rightarrow> bytes" where
  "copy_array n src = take n src @ replicate (n - length src) 0"

lemma length_copy_array [simp]: "length (copy_array n src) = n"
  by (simp add: copy_array_def)

lemma copy_array_exact [simp]: "length src = n \<Longrightarrow> copy_array n src = src"
  by (simp add: copy_array_def)

lemma copy_array_idem [simp]: "copy_array n (copy_array n src) = copy_array n src"
  by simp

abbreviation Millisecond :: duration where "Millisecond \<equiv> 1000000"
abbreviation Second :: duration where "Second \<equiv> 1000000000"
abbreviation Minute :: duration where "Minute \<equiv> 60 * 1000000000"
abbreviation Hour :: duration where "Hour \<equiv> 3600 * 1000000000"

text \<open>\<^verbatim>\<open>Time.UnixMilli\<close> rounds towards minus infinity, \<^verbatim>\<open>time.UnixMilli\<close> is its right inverse.\<close>

definition UnixMilli :: "time \<Rightarrow> int" where
  "UnixMilli t = t div Millisecond"

definition fromUnixMilli :: "int \<Rightarrow> time" where
  "fromUnixMilli ms = ms * Millisecond"

lemma UnixMilli_fromUnixMilli [simp]: "UnixMilli (fromUnixMilli ms) = ms"
  by (simp add: UnixMilli_def fromUnixMilli_def)

lemma UnixMilli_mono: "s \<le> t \<Longrightarrow> UnixMilli s \<le> UnixMilli t"
  unfolding UnixMilli_def by (rule zdiv_mono1) simp_all

text \<open>\<^verbatim>\<open>Time.Sub\<close> saturates at the ends of the 64-bit duration.\<close>

definition time_Sub :: "time \<Rightarrow> time \<Rightarrow> duration" where
  "time_Sub t u = max (- (2 ^ 63)) (min (2 ^ 63 - 1) (t - u))"

text \<open>\<^verbatim>\<open>strings.TrimSpace\<close> on ASCII white space, \<^verbatim>\<open>HasPrefix\<close>, \<^verbatim>\<open>HasSuffix\<close>, \<^verbatim>\<open>TrimSuffix\<close>, \<^verbatim>\<open>TrimPrefix\<close>.\<close>

definition is_space :: "char \<Rightarrow> bool" where
  "is_space c = (of_char c \<in> {9, 10, 11, 12, 13, 32 :: nat})"

definition TrimSpace :: "string \<Rightarrow> string" where
  "TrimSpace s = rev (dropWhile is_space (rev (dropWhile is_space s)))"

definition HasPrefix :: "string \<Rightarrow> string \<Rightarrow> bool" where
  "HasPrefix s p = (take (length p) s = p)"

definition HasSuffix :: "string \<Rightarrow> string \<Rightarrow> bool" where
  "HasSuffix s p = (length p \<le> length s \<and> drop (length s - length p) s = p)"

definition TrimSuffix :: "string \<Rightarrow> string \<Rightarrow> string" where
  "TrimSuffix s p = (if HasSuffix s p then take (length s - length p) s else s)"

definition TrimPrefix :: "string \<Rightarrow> string \<Rightarrow> string" where
  "TrimPrefix s p = (if HasPrefix s p then drop (length p) s else s)"

lemma HasPrefix_append [simp]: "HasPrefix (p @ s) p"
  by (simp add: HasPrefix_def)

lemma HasPrefix_iff: "HasPrefix s p \<longleftrightarrow> (\<exists>t. s = p @ t)"
  unfolding HasPrefix_def by (metis append_eq_conv_conj append_take_drop_id)

lemma HasSuffix_append [simp]: "HasSuffix (s @ p) p"
  by (simp add: HasSuffix_def)

lemma HasSuffix_iff: "HasSuffix s p \<longleftrightarrow> (\<exists>t. s = t @ p)"
  unfolding HasSuffix_def
  by (metis add_diff_cancel_right' append_eq_append_conv append_take_drop_id le_add2
      length_append length_drop diff_diff_cancel)

lemma TrimSuffix_append [simp]: "TrimSuffix (s @ p) p = s"
  by (simp add: TrimSuffix_def)

text \<open>Decimal digits, as \<^verbatim>\<open>strconv.Itoa\<close> and \<^verbatim>\<open>%d\<close> print them.\<close>

definition digit_char :: "nat \<Rightarrow> char" where
  "digit_char d = char_of (48 + d)"

fun show_nat :: "nat \<Rightarrow> string" where
  "show_nat n = (if n < 10 then [digit_char n] else show_nat (n div 10) @ [digit_char (n mod 10)])"

declare show_nat.simps [simp del]

definition show_int :: "int \<Rightarrow> string" where
  "show_int i = (if i < 0 then ''-'' @ show_nat (nat (- i)) else show_nat (nat i))"

section \<open>Statements on a world\<close>

text \<open>
  An operation reads and changes a world and returns an error (\<open>Inl\<close>) or a value (\<open>Inr\<close>): the
  shape of every Go function that ends in an \<^verbatim>\<open>error\<close>. \<open>bnd\<close> is
  \<^verbatim>\<open>x, err := m(); if err != nil { return err }\<close>.
\<close>

type_synonym ('w, 'a) stmt = "'w \<Rightarrow> (error + 'a) \<times> 'w"

definition ret :: "'a \<Rightarrow> ('w, 'a) stmt" where
  "ret x w = (Inr x, w)"

definition fail :: "error \<Rightarrow> ('w, 'a) stmt" where
  "fail e w = (Inl e, w)"

definition bnd :: "('w, 'a) stmt \<Rightarrow> ('a \<Rightarrow> ('w, 'b) stmt) \<Rightarrow> ('w, 'b) stmt" where
  "bnd m k w = (case m w of (Inl e, w') \<Rightarrow> (Inl e, w') | (Inr x, w') \<Rightarrow> k x w')"

text \<open>\<^verbatim>\<open>if err != nil { return fmt.Errorf(msg, err) }\<close>\<close>

definition wrap_err :: "string \<Rightarrow> ('w, 'a) stmt \<Rightarrow> ('w, 'a) stmt" where
  "wrap_err msg m w = (case m w of (Inl e, w') \<Rightarrow> (Inl (Wrap msg e), w') | (Inr x, w') \<Rightarrow> (Inr x, w'))"

lemma ret_apply [db_simps, simp]: "ret x w = (Inr x, w)"
  by (simp add: ret_def)

lemma fail_apply [db_simps, simp]: "fail e w = (Inl e, w)"
  by (simp add: fail_def)

lemma bnd_Inr [db_simps]: "m w = (Inr x, w') \<Longrightarrow> bnd m k w = k x w'"
  by (simp add: bnd_def)

lemma bnd_Inl [db_simps]: "m w = (Inl e, w') \<Longrightarrow> bnd m k w = (Inl e, w')"
  by (simp add: bnd_def)

lemma bnd_ret [db_simps, simp]: "bnd (ret x) k = k x"
  by (simp add: bnd_def fun_eq_iff)

lemma bnd_fail [db_simps, simp]: "bnd (fail e) k = fail e"
  by (simp add: bnd_def fail_def fun_eq_iff)

lemma wrap_err_Inr [db_simps]: "m w = (Inr x, w') \<Longrightarrow> wrap_err msg m w = (Inr x, w')"
  by (simp add: wrap_err_def)

lemma wrap_err_Inl [db_simps]: "m w = (Inl e, w') \<Longrightarrow> wrap_err msg m w = (Inl (Wrap msg e), w')"
  by (simp add: wrap_err_def)

lemma snd_wrap_err [simp]: "snd (wrap_err msg m w) = snd (m w)"
  by (simp add: wrap_err_def split: prod.splits sum.splits)

text \<open>
  \<open>keeps P m\<close>: whatever the statement returns, the property \<open>P\<close> of the world survives it.
  It composes along \<open>bnd\<close>, so that frame properties of long operations need no case analysis.
\<close>

definition keeps :: "('w \<Rightarrow> bool) \<Rightarrow> ('w, 'a) stmt \<Rightarrow> bool" where
  "keeps P m = (\<forall>w. P w \<longrightarrow> P (snd (m w)))"

lemma keepsD: "keeps P m \<Longrightarrow> P w \<Longrightarrow> P (snd (m w))"
  by (simp add: keeps_def)

lemma keeps_ret [intro!]: "keeps P (ret x)"
  by (simp add: keeps_def)

lemma keeps_fail [intro!]: "keeps P (fail e)"
  by (simp add: keeps_def)

lemma keeps_bnd:
  assumes "keeps P m" and "\<And>x. keeps P (k x)"
  shows "keeps P (bnd m k)"
  unfolding keeps_def bnd_def
proof (intro allI impI)
  fix w assume "P w"
  obtain r w' where m: "m w = (r, w')" by force
  with assms(1) \<open>P w\<close> have "P w'" by (auto simp: keeps_def)
  with assms(2) show "P (snd (case m w of (Inl e, w') \<Rightarrow> (Inl e, w') | (Inr x, w') \<Rightarrow> k x w'))"
    by (auto simp: m keeps_def split: sum.split)
qed

lemma keeps_wrap [intro!]: "keeps P m \<Longrightarrow> keeps P (wrap_err msg m)"
  by (simp add: keeps_def)

lemma keeps_conj: "keeps P m \<Longrightarrow> keeps Q m \<Longrightarrow> keeps (\<lambda>w. P w \<and> Q w) m"
  by (simp add: keeps_def)

lemma keeps_eqI: "(\<And>w. f (snd (m w)) = f w) \<Longrightarrow> keeps (\<lambda>w. f w = c) m"
  by (simp add: keeps_def)

lemma keeps_eqD: "(\<And>c. keeps (\<lambda>w. f w = c) m) \<Longrightarrow> f (snd (m w)) = f w"
  by (auto simp: keeps_def)

section \<open>Tables as lists of rows\<close>

text \<open>
  \<open>find_row\<close> is \<^verbatim>\<open>SELECT ... WHERE key = ?\<close> on a primary key, \<open>update_rows\<close> is \<^verbatim>\<open>UPDATE ... WHERE\<close>,
  \<open>count_rows\<close> is \<^verbatim>\<open>SELECT COUNT(*)\<close>, \<open>upsert_row\<close> is \<^verbatim>\<open>INSERT ... ON CONFLICT (key) DO UPDATE\<close>: the
  row with the new row's key is rewritten in place, otherwise the new row is appended. A query
  without \<^verbatim>\<open>ORDER BY\<close> returns the rows in table order.
\<close>

definition find_row :: "('r \<Rightarrow> 'k) \<Rightarrow> 'k \<Rightarrow> 'r list \<Rightarrow> 'r option" where
  "find_row key k rows = find (\<lambda>r. key r = k) rows"

definition update_rows :: "('r \<Rightarrow> bool) \<Rightarrow> ('r \<Rightarrow> 'r) \<Rightarrow> 'r list \<Rightarrow> 'r list" where
  "update_rows P f rows = map (\<lambda>r. if P r then f r else r) rows"

definition delete_rows :: "('r \<Rightarrow> bool) \<Rightarrow> 'r list \<Rightarrow> 'r list" where
  "delete_rows P rows = filter (\<lambda>r. \<not> P r) rows"

definition count_rows :: "('r \<Rightarrow> bool) \<Rightarrow> 'r list \<Rightarrow> nat" where
  "count_rows P rows = length (filter P rows)"

definition upsert_row :: "('r \<Rightarrow> 'k) \<Rightarrow> ('r \<Rightarrow> 'r) \<Rightarrow> 'r \<Rightarrow> 'r list \<Rightarrow> 'r list" where
  "upsert_row key upd new rows =
     (if find_row key (key new) rows = None then rows @ [new]
      else update_rows (\<lambda>r. key r = key new) upd rows)"

definition unique_key :: "('r \<Rightarrow> 'k) \<Rightarrow> 'r list \<Rightarrow> bool" where
  "unique_key key rows = distinct (map key rows)"

lemma find_row_Nil [simp]: "find_row key k [] = None"
  by (simp add: find_row_def)

lemma find_row_Cons [simp]:
  "find_row key k (r # rows) = (if key r = k then Some r else find_row key k rows)"
  by (simp add: find_row_def)

lemma find_row_None_iff: "find_row key k rows = None \<longleftrightarrow> k \<notin> key ` set rows"
  by (induction rows) auto

lemma find_row_Some_in: "find_row key k rows = Some r \<Longrightarrow> r \<in> set rows \<and> key r = k"
  by (induction rows) (auto split: if_splits)

lemma find_row_append:
  "find_row key k (xs @ ys) = (case find_row key k xs of None \<Rightarrow> find_row key k ys | Some r \<Rightarrow> Some r)"
  by (induction xs) auto

lemma find_row_in: "unique_key key rows \<Longrightarrow> r \<in> set rows \<Longrightarrow> find_row key (key r) rows = Some r"
  by (induction rows) (auto simp: unique_key_def)

lemma find_row_update_rows:
  assumes "\<And>r. P r \<Longrightarrow> key (f r) = key r"
  shows "find_row key k (update_rows P f rows) =
    map_option (\<lambda>r. if P r then f r else r) (find_row key k rows)"
  using assms by (induction rows) (auto simp: update_rows_def)

lemma find_row_update_key:
  assumes "\<And>r. key (f r) = key r"
  shows "find_row key k (update_rows (\<lambda>r. key r = k0) f rows) =
    (if k = k0 then map_option f (find_row key k0 rows) else find_row key k rows)"
  using assms by (induction rows) (auto simp: update_rows_def)

lemma map_key_update_rows:
  assumes "\<And>r. P r \<Longrightarrow> key (f r) = key r"
  shows "map key (update_rows P f rows) = map key rows"
  using assms by (induction rows) (auto simp: update_rows_def)

lemma unique_key_update_rows:
  assumes "\<And>r. P r \<Longrightarrow> key (f r) = key r"
  shows "unique_key key (update_rows P f rows) = unique_key key rows"
proof -
  have "map key (update_rows P f rows) = map key rows"
    by (rule map_key_update_rows) (rule assms)
  then show ?thesis by (simp only: unique_key_def)
qed

lemma update_rows_none: "\<forall>r \<in> set rows. \<not> P r \<Longrightarrow> update_rows P f rows = rows"
  by (induction rows) (auto simp: update_rows_def)

lemma set_update_rows: "set (update_rows P f rows) = (\<lambda>r. if P r then f r else r) ` set rows"
  by (simp add: update_rows_def)

lemma length_update_rows [simp]: "length (update_rows P f rows) = length rows"
  by (simp add: update_rows_def)

lemma find_row_delete_rows:
  assumes "unique_key key rows"
  shows "find_row key k (delete_rows P rows) =
    (case find_row key k rows of None \<Rightarrow> None | Some r \<Rightarrow> if P r then None else Some r)"
  using assms
proof (induction rows)
  case (Cons r rows)
  then have IH: "find_row key k (delete_rows P rows) =
      (case find_row key k rows of None \<Rightarrow> None | Some r \<Rightarrow> if P r then None else Some r)"
    by (simp add: unique_key_def)
  show ?case
  proof (cases "key r = k \<and> P r")
    case True
    with Cons.prems have "k \<notin> key ` set rows" by (auto simp: unique_key_def)
    then have "find_row key k rows = None" by (simp add: find_row_None_iff)
    with IH True show ?thesis by (simp add: delete_rows_def)
  qed (use IH in \<open>auto simp: delete_rows_def\<close>)
qed (simp add: delete_rows_def)

lemma unique_key_delete_rows: "unique_key key rows \<Longrightarrow> unique_key key (delete_rows P rows)"
  unfolding unique_key_def delete_rows_def by (rule distinct_map_filter)

lemma set_delete_rows [simp]: "set (delete_rows P rows) = {r \<in> set rows. \<not> P r}"
  by (auto simp: delete_rows_def)

lemma unique_key_append_new:
  "unique_key key rows \<Longrightarrow> find_row key (key r) rows = None \<Longrightarrow> unique_key key (rows @ [r])"
  by (simp add: unique_key_def find_row_None_iff)

lemma find_row_upsert_row:
  assumes "\<And>r. key r = key new \<Longrightarrow> key (upd r) = key r"
  shows "find_row key k (upsert_row key upd new rows) =
    (if k = key new
     then Some (case find_row key k rows of None \<Rightarrow> new | Some r \<Rightarrow> upd r)
     else find_row key k rows)"
proof (cases "find_row key (key new) rows")
  case None
  then show ?thesis by (auto simp: upsert_row_def find_row_append split: option.split)
next
  case (Some r0)
  have "find_row key k (update_rows (\<lambda>r. key r = key new) upd rows) =
      map_option (\<lambda>r. if key r = key new then upd r else r) (find_row key k rows)"
    by (rule find_row_update_rows) (rule assms)
  with Some show ?thesis
    by (cases "find_row key k rows") (auto simp: upsert_row_def dest: find_row_Some_in)
qed

lemma unique_key_upsert_row:
  assumes "\<And>r. key r = key new \<Longrightarrow> key (upd r) = key r" and "unique_key key rows"
  shows "unique_key key (upsert_row key upd new rows)"
proof -
  have "unique_key key (update_rows (\<lambda>r. key r = key new) upd rows) = unique_key key rows"
    by (rule unique_key_update_rows) (rule assms(1))
  with assms(2) show ?thesis by (simp add: upsert_row_def unique_key_append_new)
qed

lemma count_rows_Nil [simp]: "count_rows P [] = 0"
  by (simp add: count_rows_def)

lemma count_rows_Cons [simp]: "count_rows P (r # rows) = (if P r then Suc (count_rows P rows) else count_rows P rows)"
  by (simp add: count_rows_def)

lemma count_rows_append [simp]: "count_rows P (xs @ ys) = count_rows P xs + count_rows P ys"
  by (simp add: count_rows_def)

lemma count_rows_pos_iff: "0 < count_rows P rows \<longleftrightarrow> (\<exists>r \<in> set rows. P r)"
  by (induction rows) auto

end
