(* ===== verification/Float64.thy ===== *)
theory Float64
  imports Complex_Main Quake_Prelude "HOL-Library.Log_Nat"
begin

text \<open>
  Go's \<^verbatim>\<open>float64\<close>: IEEE 754 binary64 with round-to-nearest, ties to even, every operation rounded on
  its own (as the compiler does on amd64, where it fuses no multiply-add). A finite value is the
  rational number it denotes; the two zeroes are one value, so the sign of a zero is not modelled
  (no modelled operation observes it). NaN, the infinities, subnormals and overflow are modelled.

  The lemmas: \<open>rnd\<close> is monotone, odd, idempotent and exact on integers below \<open>2 ^ 53\<close>, and the
  operations on finite values inherit these laws while they stay below the overflow threshold.
\<close>

section \<open>Rounding a rational to binary64\<close>

text \<open>The binary exponent: \<open>2 powi fexp x \<le> \<bar>x\<bar> < 2 powi (fexp x + 1)\<close>.\<close>

definition fexp :: "rat \<Rightarrow> int" where
  "fexp x = (let q = quotient_of \<bar>x\<bar>;
                 k = bitlen (fst q) - bitlen (snd q)
             in if 2 powi k \<le> \<bar>x\<bar> then k else k - 1)"

definition ulp_exp :: "rat \<Rightarrow> int" where
  "ulp_exp x = max (fexp x - 52) (- 1074)"

definition round_even :: "rat \<Rightarrow> int" where
  "round_even x = (let n = \<lfloor>x\<rfloor>; d = x - of_int n
     in if d < 1 / 2 then n else if 1 / 2 < d then n + 1 else if even n then n else n + 1)"

definition rnd :: "rat \<Rightarrow> rat" where
  "rnd x = (if x = 0 then 0
            else of_int (round_even (x / 2 powi ulp_exp x)) * 2 powi ulp_exp x)"

lemma fexp_bounds:
  assumes "x \<noteq> 0"
  shows "2 powi fexp x \<le> \<bar>x\<bar>" and "\<bar>x\<bar> < 2 powi (fexp x + 1)"
proof -
  obtain n d where q: "quotient_of \<bar>x\<bar> = (n, d)" by force
  then have d: "0 < d" by (rule quotient_of_denom_pos)
  have x: "\<bar>x\<bar> = of_int n / of_int d" using q by (rule quotient_of_div)
  with d assms have n: "0 < n"
    by (metis abs_ge_zero abs_zero divide_eq_0_iff linorder_not_le not_less_iff_gr_or_eq of_int_0 of_int_0_less_iff of_int_0_eq_iff of_int_less_0_iff zero_less_abs_iff zero_less_divide_iff)
  define a where "a = floorlog 2 (nat n)"
  define b where "b = floorlog 2 (nat d)"
  have a0: "0 < a" and b0: "0 < b" using n d by (simp_all add: a_def b_def floorlog_def)
  have na: "2 ^ (a - 1) \<le> nat n" "nat n < 2 ^ a"
    using n floorlog_bounds [of "nat n" 2] by (simp_all add: a_def)
  have db: "2 ^ (b - 1) \<le> nat d" "nat d < 2 ^ b"
    using d floorlog_bounds [of "nat d" 2] by (simp_all add: b_def)
  have toq: "\<And>m i. 0 < i \<Longrightarrow> m \<le> nat i \<Longrightarrow> (of_nat m :: rat) \<le> of_int i"
    by (metis of_int_le_iff of_int_of_nat_eq of_nat_le_iff zless_nat_eq_int_zless
        nat_eq_iff2 order_less_imp_le zle_int int_nat_eq)
  have toq': "\<And>m i. 0 < i \<Longrightarrow> nat i < m \<Longrightarrow> (of_int i :: rat) < of_nat m"
    by (metis of_int_less_iff of_int_of_nat_eq zless_nat_eq_int_zless nat_less_iff order_less_imp_le)
  have n1: "2 ^ (a - 1) \<le> (of_int n :: rat)" and n2: "(of_int n :: rat) < 2 ^ a"
    using toq [OF n na(1)] toq' [OF n na(2)] by simp_all
  have d1: "2 ^ (b - 1) \<le> (of_int d :: rat)" and d2: "(of_int d :: rat) < 2 ^ b"
    using toq [OF d db(1)] toq' [OF d db(2)] by simp_all
  have pa: "2 * (2::rat) ^ (a - 1) = 2 ^ a" and pb: "2 * (2::rat) ^ (b - 1) = 2 ^ b"
    using a0 b0 by (simp_all flip: power_Suc)
  define k where "k = int a - int b"
  have pk: "(2::rat) powi k = 2 ^ a / 2 ^ b"
    by (simp add: k_def power_int_diff)
  have pk1: "(2::rat) powi (k + 1) = 2 * 2 ^ a / 2 ^ b" and pk2: "(2::rat) powi (k - 1) = 2 ^ a / (2 * 2 ^ b)"
    by (simp_all add: power_int_add power_int_diff pk)
  have dpos: "(0::rat) < of_int d" using d by simp
  have up: "\<bar>x\<bar> < 2 powi (k + 1)"
  proof -
    have "of_int n * (2::rat) ^ b \<le> of_int n * (2 * of_int d)"
      by (rule mult_left_mono) (use d1 n pb in linarith, use n in simp)
    also have "\<dots> < 2 ^ a * (2 * of_int d)"
      using n2 dpos by (intro mult_strict_right_mono) simp_all
    finally have "of_int n * (2::rat) ^ b < 2 * 2 ^ a * of_int d" by (simp add: algebra_simps)
    with dpos show ?thesis unfolding x pk1 by (simp add: field_simps)
  qed
  have low: "2 powi (k - 1) \<le> \<bar>x\<bar>"
  proof -
    have "2 ^ a * of_int d \<le> 2 ^ a * (2::rat) ^ b" using d2 by (intro mult_left_mono) simp_all
    also have "\<dots> \<le> 2 * of_int n * 2 ^ b"
      by (rule mult_right_mono) (use n1 pa in linarith, simp)
    finally show ?thesis using dpos unfolding x pk2 by (simp add: field_simps)
  qed
  have f: "fexp x = (if 2 powi k \<le> \<bar>x\<bar> then k else k - 1)"
    by (simp add: fexp_def q k_def a_def b_def Let_def bitlen_def)
  show "2 powi fexp x \<le> \<bar>x\<bar>" and "\<bar>x\<bar> < 2 powi (fexp x + 1)"
    using up low by (simp_all add: f)
qed

lemma powi_mono: "i \<le> j \<Longrightarrow> (2::rat) powi i \<le> 2 powi j"
  by (rule power_int_increasing) simp_all

lemma powi_strict_mono: "i < j \<Longrightarrow> (2::rat) powi i < 2 powi j"
  by (rule power_int_strict_increasing) simp_all

lemma powi_less_iff [simp]: "(2::rat) powi i < 2 powi j \<longleftrightarrow> i < j"
  by (meson powi_mono powi_strict_mono linorder_not_le)

lemma powi_le_iff [simp]: "(2::rat) powi i \<le> 2 powi j \<longleftrightarrow> i \<le> j"
  by (meson powi_mono powi_strict_mono linorder_not_le)

lemma powi_pos [simp]: "(0::rat) < 2 powi i"
  by simp

lemma fexp_unique:
  assumes "x \<noteq> 0" and "2 powi e \<le> \<bar>x\<bar>" and "\<bar>x\<bar> < 2 powi (e + 1)"
  shows "fexp x = e"
proof -
  have "2 powi e < (2::rat) powi (fexp x + 1)" "2 powi fexp x < (2::rat) powi (e + 1)"
    using assms fexp_bounds [OF assms(1)] by linarith+
  then show ?thesis by simp
qed

lemma fexp_mono:
  assumes "0 < x" and "x \<le> y"
  shows "fexp x \<le> fexp y"
proof -
  have "2 powi fexp x \<le> x" and "y < 2 powi (fexp y + 1)"
    using fexp_bounds(1) [of x] fexp_bounds(2) [of y] assms by simp_all
  with assms(2) have "2 powi fexp x < (2::rat) powi (fexp y + 1)" by linarith
  then show ?thesis by simp
qed

lemma fexp_minus [simp]: "fexp (- x) = fexp x"
  by (simp add: fexp_def)

lemma ulp_exp_minus [simp]: "ulp_exp (- x) = ulp_exp x"
  by (simp add: ulp_exp_def)

section \<open>Rounding to an integer, ties to even\<close>

lemma round_even_of_int [simp]: "round_even (of_int n) = n"
  by (simp add: round_even_def)

lemma round_even_bounds: "of_int (round_even x) \<le> x + 1 / 2" "x - 1 / 2 \<le> of_int (round_even x)"
  by (auto simp: round_even_def Let_def) linarith+

lemma round_even_mono: "x \<le> y \<Longrightarrow> round_even x \<le> round_even y"
proof -
  assume "x \<le> y"
  show ?thesis
  proof (cases "\<lfloor>x\<rfloor> = \<lfloor>y\<rfloor>")
    case True
    with \<open>x \<le> y\<close> show ?thesis by (auto simp: round_even_def Let_def)
  next
    case False
    with floor_mono [OF \<open>x \<le> y\<close>] have "\<lfloor>x\<rfloor> + 1 \<le> \<lfloor>y\<rfloor>" by simp
    moreover have "round_even x \<le> \<lfloor>x\<rfloor> + 1" "\<lfloor>y\<rfloor> \<le> round_even y"
      by (auto simp: round_even_def Let_def)
    ultimately show ?thesis by simp
  qed
qed

lemma round_even_minus: "round_even (- x) = - round_even x"
proof (cases "x = of_int \<lfloor>x\<rfloor>")
  case True
  then obtain n where "x = of_int n" by blast
  then show ?thesis by (metis of_int_minus round_even_of_int)
next
  case False
  have le: "of_int \<lfloor>x\<rfloor> \<le> x" "x < of_int \<lfloor>x\<rfloor> + 1" by linarith+
  with False have lt: "of_int \<lfloor>x\<rfloor> < x" by (metis order_le_neq_trans)
  have fl: "\<lfloor>- x\<rfloor> = - \<lfloor>x\<rfloor> - 1"
    by (rule floor_unique) (use lt le in simp_all)
  have "- x - of_int \<lfloor>- x\<rfloor> = 1 - (x - of_int \<lfloor>x\<rfloor>)" by (simp add: fl)
  then show ?thesis by (auto simp: round_even_def Let_def fl)
qed

section \<open>Monotonicity, exactness, idempotence\<close>

lemma rnd_0 [simp]: "rnd 0 = 0"
  by (simp add: rnd_def)

lemma rnd_minus: "rnd (- x) = - rnd x"
  by (simp add: rnd_def round_even_minus)

lemma powi_quotient_int:
  assumes "j \<le> i"
  shows "\<exists>n. (2::rat) powi i / 2 powi j = of_int n"
proof -
  have "(2::rat) powi i / 2 powi j = 2 powi (i - j)" by (simp add: power_int_diff)
  also have "\<dots> = of_int (2 ^ nat (i - j))" using assms by (simp add: power_int_def)
  finally show ?thesis by blast
qed

lemma rnd_le_powi:
  assumes "0 < x" and "x \<le> 2 powi m" and "ulp_exp x \<le> m"
  shows "rnd x \<le> 2 powi m"
proof -
  obtain n where n: "(2::rat) powi m / 2 powi ulp_exp x = of_int n"
    using powi_quotient_int [OF assms(3)] by blast
  have "x / 2 powi ulp_exp x \<le> 2 powi m / 2 powi ulp_exp x"
    using assms(2) by (simp add: divide_right_mono)
  then have "round_even (x / 2 powi ulp_exp x) \<le> n"
    using round_even_mono n by (metis round_even_of_int)
  then have "of_int (round_even (x / 2 powi ulp_exp x)) \<le> (2::rat) powi m / 2 powi ulp_exp x"
    by (simp add: n)
  then show ?thesis using assms(1) by (simp add: rnd_def field_simps)
qed

lemma powi_le_rnd:
  assumes "2 powi m \<le> x" and "ulp_exp x \<le> m"
  shows "2 powi m \<le> rnd x"
proof -
  have x: "0 < x" using assms(1) powi_pos by (rule less_le_trans [rotated])
  obtain n where n: "(2::rat) powi m / 2 powi ulp_exp x = of_int n"
    using powi_quotient_int [OF assms(2)] by blast
  have "2 powi m / 2 powi ulp_exp x \<le> x / 2 powi ulp_exp x"
    using assms(1) by (simp add: divide_right_mono)
  then have "n \<le> round_even (x / 2 powi ulp_exp x)"
    using round_even_mono n by (metis round_even_of_int)
  then have "(2::rat) powi m / 2 powi ulp_exp x \<le> of_int (round_even (x / 2 powi ulp_exp x))"
    by (simp add: n)
  then show ?thesis using x by (simp add: rnd_def field_simps)
qed

lemma rnd_nonneg: "0 \<le> x \<Longrightarrow> 0 \<le> rnd x"
proof -
  assume "0 \<le> x"
  then have "round_even 0 \<le> round_even (x / 2 powi ulp_exp x)"
    by (intro round_even_mono) simp
  then have "0 \<le> round_even (x / 2 powi ulp_exp x)"
    using round_even_of_int [of 0] by simp
  then show ?thesis by (simp add: rnd_def)
qed

lemma rnd_mono_pos:
  assumes "0 < x" and "x \<le> y"
  shows "rnd x \<le> rnd y"
proof (cases "ulp_exp x = ulp_exp y")
  case True
  have "x / 2 powi ulp_exp y \<le> y / 2 powi ulp_exp y"
    using assms(2) by (simp add: divide_right_mono)
  then have "round_even (x / 2 powi ulp_exp y) \<le> round_even (y / 2 powi ulp_exp y)"
    by (rule round_even_mono)
  with True assms show ?thesis by (simp add: rnd_def mult_right_mono)
next
  case False
  have f: "fexp x \<le> fexp y" using assms by (rule fexp_mono)
  with False have y: "ulp_exp y = fexp y - 52" and lt: "fexp x < fexp y" and ux: "ulp_exp x < ulp_exp y"
    by (auto simp: ulp_exp_def)
  have b1: "2 powi fexp y \<le> y" using fexp_bounds(1) [of y] assms by simp
  have "x < 2 powi (fexp x + 1)" using fexp_bounds(2) [of x] assms by simp
  also have "\<dots> \<le> 2 powi fexp y" using lt by simp
  finally have b2: "x \<le> 2 powi fexp y" by simp
  have "rnd x \<le> 2 powi fexp y" using assms(1) b2 by (rule rnd_le_powi) (use ux y in simp)
  also have "\<dots> \<le> rnd y" using b1 by (rule powi_le_rnd) (simp add: y)
  finally show ?thesis .
qed

theorem rnd_mono: "x \<le> y \<Longrightarrow> rnd x \<le> rnd y"
proof -
  assume le: "x \<le> y"
  consider "0 < x" | "x \<le> 0" "0 \<le> y" | "y < 0" by linarith
  then show ?thesis
  proof cases
    case 1 then show ?thesis using le by (rule rnd_mono_pos)
  next
    case 2
    have "rnd x \<le> 0" using rnd_nonneg [of "- x"] 2 by (simp add: rnd_minus)
    also have "0 \<le> rnd y" using 2 by (intro rnd_nonneg)
    finally show ?thesis .
  next
    case 3
    then have "rnd (- y) \<le> rnd (- x)" using le by (intro rnd_mono_pos) simp_all
    then show ?thesis by (simp add: rnd_minus)
  qed
qed

lemma rnd_exactI:
  assumes "x = of_int n * 2 powi ulp_exp x"
  shows "rnd x = x"
proof (cases "x = 0")
  case False
  have "x / 2 powi ulp_exp x = of_int n" by (subst assms) simp
  with False show ?thesis using assms by (simp add: rnd_def)
qed simp

lemma rnd_exact:
  assumes "\<bar>n\<bar> < 2 ^ 53" and "- 1074 \<le> k"
  shows "rnd (of_int n * 2 powi k) = of_int n * 2 powi k"
proof (cases "n = 0")
  case False
  define x where "x = of_int n * (2::rat) powi k"
  have x0: "x \<noteq> 0" using False by (simp add: x_def)
  have "\<bar>of_int n\<bar> < (2::rat) ^ 53" using assms(1)
    by (metis of_int_abs of_int_less_iff of_int_numeral of_int_power)
  then have "\<bar>x\<bar> < 2 ^ 53 * 2 powi k" by (simp add: x_def abs_mult)
  also have "\<dots> = 2 powi (53 + k)" by (simp add: power_int_add)
  finally have "2 powi fexp x < (2::rat) powi (53 + k)" using fexp_bounds(1) [OF x0] by linarith
  then have u: "ulp_exp x \<le> k" using assms(2) by (simp add: ulp_exp_def)
  obtain m where m: "(2::rat) powi k / 2 powi ulp_exp x = of_int m"
    using powi_quotient_int [OF u] by blast
  have "x = of_int (n * m) * 2 powi ulp_exp x" using m by (simp add: x_def field_simps)
  then have "rnd x = x" by (rule rnd_exactI)
  then show ?thesis by (simp add: x_def)
qed simp

lemma rnd_of_int: "\<bar>n\<bar> < 2 ^ 53 \<Longrightarrow> rnd (of_int n) = of_int n"
  using rnd_exact [of n 0] by simp

lemma rnd_1 [simp]: "rnd 1 = 1"
  using rnd_of_int [of 1] by simp

lemma rnd_powi: "- 1074 \<le> k \<Longrightarrow> rnd (2 powi k) = 2 powi k"
  using rnd_exact [of 1 k] by simp

lemma rnd_unit: "0 \<le> x \<Longrightarrow> x \<le> 1 \<Longrightarrow> 0 \<le> rnd x \<and> rnd x \<le> 1"
  using rnd_mono [of 0 x] rnd_mono [of x 1] by simp

theorem rnd_idem: "rnd (rnd x) = rnd x"
proof (cases "x = 0")
  case False
  define e where "e = ulp_exp x"
  define n where "n = round_even (x / 2 powi e)"
  have r: "rnd x = of_int n * 2 powi e" using False by (simp add: rnd_def n_def e_def)
  have e: "- 1074 \<le> e" by (simp add: e_def ulp_exp_def)
  have "\<bar>x\<bar> < 2 powi (fexp x + 1)" using fexp_bounds(2) [OF False] .
  also have "\<dots> \<le> 2 powi (e + 53)" by (simp add: e_def ulp_exp_def)
  also have "\<dots> = 2 ^ 53 * 2 powi e" by (simp add: power_int_add)
  finally have "\<bar>x\<bar> / 2 powi e \<le> 2 ^ 53" by (simp add: field_simps)
  then have "\<bar>x / 2 powi e\<bar> \<le> 2 ^ 53" by (simp add: abs_divide)
  then have "x / 2 powi e \<le> 2 ^ 53" "- (2 ^ 53) \<le> x / 2 powi e"
    using abs_le_D1 [of "x / 2 powi e" "2 ^ 53"] abs_le_D2 [of "x / 2 powi e" "2 ^ 53"] by simp_all
  then have xb: "x / 2 powi e \<le> of_int (2 ^ 53)" "of_int (- (2 ^ 53)) \<le> x / 2 powi e"
    by simp_all
  have nb: "\<bar>n\<bar> \<le> 2 ^ 53"
    using round_even_mono [OF xb(1)] round_even_mono [OF xb(2)]
    by (simp only: round_even_of_int n_def [symmetric] abs_le_iff minus_le_iff)
  show ?thesis
  proof (cases "\<bar>n\<bar> = 2 ^ 53")
    case True
    then consider "n = 2 ^ 53" | "n = - (2 ^ 53)" by linarith
    moreover have "(2::rat) ^ 53 * 2 powi e = 2 powi (53 + e)" by (simp add: power_int_add)
    moreover have "rnd (2 powi (53 + e)) = 2 powi (53 + e)" using e by (intro rnd_powi) simp
    ultimately show ?thesis
    proof cases
      case 1 with \<open>rnd (2 powi (53 + e)) = _\<close> \<open>2 ^ 53 * 2 powi e = _\<close> show ?thesis by (simp add: r)
    next
      case 2 with \<open>rnd (2 powi (53 + e)) = _\<close> \<open>2 ^ 53 * 2 powi e = _\<close> show ?thesis
        by (simp add: r rnd_minus)
    qed
  next
    case False
    with nb e show ?thesis by (simp add: r rnd_exact)
  qed
qed simp

section \<open>Values and operations\<close>

datatype float64 = Fin rat | PInf | NInf | NaN

text \<open>A result whose magnitude reaches \<open>2 powi 1024\<close> after rounding overflows to an infinity.\<close>

definition fl :: "rat \<Rightarrow> float64" where
  "fl x = (let r = rnd x in
     if r \<noteq> 0 \<and> 1024 \<le> fexp r then (if 0 < r then PInf else NInf) else Fin r)"

definition float_of_int :: "int \<Rightarrow> float64" where
  "float_of_int i = fl (of_int i)"

fun fneg :: "float64 \<Rightarrow> float64" where
  "fneg (Fin a) = Fin (- a)"
| "fneg PInf = NInf"
| "fneg NInf = PInf"
| "fneg NaN = NaN"

fun fadd :: "float64 \<Rightarrow> float64 \<Rightarrow> float64" where
  "fadd (Fin a) (Fin b) = fl (a + b)"
| "fadd NaN _ = NaN"
| "fadd _ NaN = NaN"
| "fadd PInf NInf = NaN"
| "fadd NInf PInf = NaN"
| "fadd PInf _ = PInf"
| "fadd _ PInf = PInf"
| "fadd NInf _ = NInf"
| "fadd _ NInf = NInf"

definition fsub :: "float64 \<Rightarrow> float64 \<Rightarrow> float64" where
  "fsub a b = fadd a (fneg b)"

definition inf_of_sign :: "rat \<Rightarrow> float64" where
  "inf_of_sign a = (if 0 < a then PInf else if a < 0 then NInf else NaN)"

fun fmul :: "float64 \<Rightarrow> float64 \<Rightarrow> float64" where
  "fmul (Fin a) (Fin b) = fl (a * b)"
| "fmul NaN _ = NaN"
| "fmul _ NaN = NaN"
| "fmul (Fin a) PInf = inf_of_sign a"
| "fmul PInf (Fin a) = inf_of_sign a"
| "fmul (Fin a) NInf = inf_of_sign (- a)"
| "fmul NInf (Fin a) = inf_of_sign (- a)"
| "fmul PInf PInf = PInf"
| "fmul NInf NInf = PInf"
| "fmul PInf NInf = NInf"
| "fmul NInf PInf = NInf"

text \<open>Division by zero has the sign of the dividend: the divisor's zero is the positive one.\<close>

fun fdiv :: "float64 \<Rightarrow> float64 \<Rightarrow> float64" where
  "fdiv (Fin a) (Fin b) = (if b = 0 then inf_of_sign a else fl (a / b))"
| "fdiv NaN _ = NaN"
| "fdiv _ NaN = NaN"
| "fdiv (Fin a) _ = Fin 0"
| "fdiv PInf (Fin b) = (if b < 0 then NInf else PInf)"
| "fdiv NInf (Fin b) = (if b < 0 then PInf else NInf)"
| "fdiv _ _ = NaN"

fun flt :: "float64 \<Rightarrow> float64 \<Rightarrow> bool" where
  "flt (Fin a) (Fin b) = (a < b)"
| "flt NaN _ = False"
| "flt _ NaN = False"
| "flt NInf NInf = False"
| "flt NInf _ = True"
| "flt _ NInf = False"
| "flt PInf _ = False"
| "flt _ PInf = True"

fun feq :: "float64 \<Rightarrow> float64 \<Rightarrow> bool" where
  "feq NaN _ = False"
| "feq _ NaN = False"
| "feq a b = (a = b)"

definition fgt :: "float64 \<Rightarrow> float64 \<Rightarrow> bool" where
  "fgt a b = flt b a"

fun fabs :: "float64 \<Rightarrow> float64" where
  "fabs (Fin a) = Fin \<bar>a\<bar>"
| "fabs NaN = NaN"
| "fabs _ = PInf"

text \<open>\<^verbatim>\<open>math.Round\<close>: to the nearest integer, half away from zero.\<close>

definition round_away :: "rat \<Rightarrow> int" where
  "round_away x = (if 0 \<le> x then \<lfloor>x + 1 / 2\<rfloor> else - \<lfloor>- x + 1 / 2\<rfloor>)"

text \<open>\<^verbatim>\<open>math.Round\<close> followed by a conversion to \<^verbatim>\<open>int\<close>, on the finite values the code converts.\<close>

fun round_to_int :: "float64 \<Rightarrow> int" where
  "round_to_int (Fin a) = round_away a"
| "round_to_int _ = 0"

definition is_fin :: "float64 \<Rightarrow> bool" where
  "is_fin x = (\<exists>a. x = Fin a)"

definition representable :: "rat \<Rightarrow> bool" where
  "representable a = (rnd a = a)"

section \<open>Laws on finite values\<close>

lemma representable_rnd [simp]: "representable (rnd x)"
  by (simp add: representable_def rnd_idem)

lemma representable_01 [simp]: "representable 0" "representable 1"
  by (simp_all add: representable_def)

lemma representable_of_int: "\<bar>n\<bar> < 2 ^ 53 \<Longrightarrow> representable (of_int n)"
  by (simp add: representable_def rnd_of_int)

lemma rnd_small:
  assumes "\<bar>x\<bar> \<le> 2 ^ 100"
  shows "\<bar>rnd x\<bar> \<le> 2 ^ 100"
proof -
  have "rnd (2 ^ 100) = 2 ^ 100" using rnd_powi [of 100] by (simp add: power_int_def)
  moreover have "x \<le> 2 ^ 100" "- (2 ^ 100) \<le> x" using assms abs_le_D1 abs_le_D2 [OF assms] by (auto simp: minus_le_iff)
  ultimately have "rnd x \<le> 2 ^ 100" "- (2 ^ 100) \<le> rnd x"
    using rnd_mono [of x "2 ^ 100"] rnd_mono [of "- (2 ^ 100)" x] rnd_minus [of "2 ^ 100"] by simp_all
  then show ?thesis by (simp only: abs_le_iff minus_le_iff)
qed

text \<open>Far below the overflow threshold the result is the rounded exact value.\<close>

lemma fl_small: "\<bar>x\<bar> \<le> 2 ^ 100 \<Longrightarrow> fl x = Fin (rnd x)"
proof -
  assume "\<bar>x\<bar> \<le> 2 ^ 100"
  then have b: "\<bar>rnd x\<bar> \<le> 2 ^ 100" by (rule rnd_small)
  have "fexp (rnd x) \<le> 100" if "rnd x \<noteq> 0"
  proof -
    have "2 powi fexp (rnd x) \<le> (2::rat) ^ 100" using fexp_bounds(1) [OF that] b by linarith
    also have "(2::rat) ^ 100 = 2 powi 100" by (simp add: power_int_def)
    finally show ?thesis by (simp only: powi_le_iff)
  qed
  then show ?thesis by (auto simp: fl_def Let_def)
qed

lemma float_of_int_small: "\<bar>i\<bar> < 2 ^ 53 \<Longrightarrow> float_of_int i = Fin (of_int i)"
proof -
  assume i: "\<bar>i\<bar> < 2 ^ 53"
  then have "\<bar>of_int i :: rat\<bar> < 2 ^ 53"
    by (metis of_int_abs of_int_less_iff of_int_numeral of_int_power)
  also have "(2::rat) ^ 53 \<le> 2 ^ 100" by (rule power_increasing) simp_all
  finally show ?thesis using i by (simp add: float_of_int_def fl_small rnd_of_int)
qed

text \<open>Rounding stays between integers that the exact value lies between.\<close>

lemma rnd_between:
  assumes "of_int lo \<le> x" and "x \<le> of_int hi" and "\<bar>lo\<bar> < 2 ^ 53" and "\<bar>hi\<bar> < 2 ^ 53"
  shows "of_int lo \<le> rnd x" and "rnd x \<le> of_int hi"
  using rnd_mono [OF assms(1)] rnd_mono [OF assms(2)] assms(3,4) by (simp_all add: rnd_of_int)

lemma fl_between:
  assumes "of_int lo \<le> x" and "x \<le> of_int hi" and "\<bar>lo\<bar> < 2 ^ 53" and "\<bar>hi\<bar> < 2 ^ 53"
  obtains y where "fl x = Fin y" and "of_int lo \<le> y" and "y \<le> of_int hi"
proof -
  have "\<bar>of_int lo :: rat\<bar> < 2 ^ 53" "\<bar>of_int hi :: rat\<bar> < 2 ^ 53"
    using assms(3,4) by (metis of_int_abs of_int_less_iff of_int_numeral of_int_power)+
  then have "\<bar>x\<bar> < 2 ^ 53" using assms(1,2) by (simp add: abs_less_iff)
  moreover have "(2::rat) ^ 53 \<le> 2 ^ 100" by (rule power_increasing) simp_all
  ultimately have "fl x = Fin (rnd x)" by (intro fl_small) simp
  then show ?thesis using that rnd_between [OF assms] by blast
qed

lemma round_away_between:
  assumes "of_int lo \<le> x" and "x \<le> of_int hi" and "0 \<le> lo"
  shows "lo \<le> round_away x \<and> round_away x \<le> hi"
proof -
  have "0 \<le> (of_int lo :: rat)" using assms(3) by simp
  then have "0 \<le> x" using assms(1) by linarith
  moreover have "lo \<le> \<lfloor>x + 1 / 2\<rfloor>" using assms(1) by (simp add: le_floor_iff)
  moreover have "\<lfloor>x + 1 / 2\<rfloor> \<le> hi" using assms(2) by (simp add: floor_le_iff)
  ultimately show ?thesis by (simp add: round_away_def)
qed

lemma round_away_of_int [simp]: "round_away (of_int n) = n"
  by (simp add: round_away_def floor_unique)

end
