(* ===== verification/Storage.thy ===== *)
theory Storage
  imports Quake_Prelude Float64
begin

text \<open>
  The SQLite database that the packages of \<^verbatim>\<open>core\<close> and \<^verbatim>\<open>hub\<close> share (schema of
  \<^verbatim>\<open>core/storage/migrations.go\<close> after its last migration): one record per table row, one list of
  rows per table, and the statements of \<^verbatim>\<open>database/sql\<close> on it.

  A statement can fail. \<open>faults\<close> scripts which ones do: every statement, \<^verbatim>\<open>Begin\<close> and \<^verbatim>\<open>Commit\<close>
  consumes one entry and fails when it is \<open>True\<close>; an exhausted script means no more failures.
  Theorems that quantify over the database therefore cover every pattern of driver failures.

  The \<^verbatim>\<open>AUTOINCREMENT\<close> identifiers and \<^verbatim>\<open>node_registry.pubkey\<close> are read and written nowhere in the
  program and have no field. A row without \<^verbatim>\<open>ORDER BY\<close> comes in table order, ties of an
  \<^verbatim>\<open>ORDER BY\<close> too.
\<close>

section \<open>Rows\<close>

record node_row =
  nr_id :: bytes
  nr_first_seen :: int
  nr_last_seen :: int
  nr_last_lat :: "float64 option"
  nr_last_lon :: "float64 option"
  nr_status :: string
  nr_handle :: "string option"
  nr_home_lat :: "float64 option"
  nr_home_lon :: "float64 option"

record route_row =
  rt_dest :: bytes
  rt_next :: bytes
  rt_tq :: float64
  rt_latency :: int
  rt_hops :: int

record proximity_row =
  pe_observer :: bytes
  pe_observed :: bytes
  pe_rssi :: int
  pe_transport :: string
  pe_at :: int

record endorsement_row =
  te_endorser :: bytes
  te_endorsed :: bytes
  te_at :: int
  te_signature :: bytes

record hub_row =
  hr_id :: bytes
  hr_ip :: "string option"
  hr_port :: "int option"
  hr_relay :: int
  hr_first_seen :: int
  hr_last_seen :: int
  hr_status :: string
  hr_manual_lat :: "float64 option"
  hr_manual_lon :: "float64 option"

record relay_row =
  rh_id :: bytes
  rh_ip :: string
  rh_port :: int
  rh_source :: string
  rh_verified :: int

record app_row =
  ap_node :: bytes
  ap_app :: string
  ap_name :: string
  ap_version :: string
  ap_reported :: int

record ban_row =
  bl_id :: bytes
  bl_app :: string
  bl_range :: string
  bl_reason :: string
  bl_proposer :: bytes
  bl_at :: int
  bl_signature :: bytes

record verdict_row =
  bv_ban :: bytes
  bv_hub :: bytes
  bv_agree :: int
  bv_at :: int

record bundle_row =
  dq_id :: bytes
  dq_src :: bytes
  dq_dst :: bytes
  dq_payload :: bytes
  dq_expires :: int
  dq_retry :: int

record metric_row =
  hm_name :: string
  hm_node :: "bytes option"
  hm_value :: float64
  hm_at :: int

record admin_row =
  au_username :: string
  au_hash :: bytes
  au_salt :: bytes
  au_must_change :: int

record segment_row =
  ls_id :: string
  ls_gateway :: string
  ls_ssid :: "string option"
  ls_bssid :: "string option"
  ls_first_seen :: int
  ls_last_seen :: int
  ls_est_lat :: "float64 option"
  ls_est_lon :: "float64 option"
  ls_manual_lat :: "float64 option"
  ls_manual_lon :: "float64 option"

record member_row =
  lm_segment :: string
  lm_type :: string
  lm_entity :: bytes
  lm_local_ip :: "string option"
  lm_last_seen :: int

section \<open>The database\<close>

text \<open>
  \<open>nil_blob\<close> is what the driver binds for a nil byte slice: \<^verbatim>\<open>NULL\<close> (\<open>None\<close>) or a blob. It belongs
  to the driver, which is not part of the repository.
\<close>

record DB =
  node_registry :: "node_row list"
  routing_table :: "route_row list"
  proximity_events :: "proximity_row list"
  trust_endorsements :: "endorsement_row list"
  hub_registry :: "hub_row list"
  relay_hubs :: "relay_row list"
  app_presence :: "app_row list"
  ban_list :: "ban_row list"
  ban_verdicts :: "verdict_row list"
  dtq_queue :: "bundle_row list"
  historical_metrics :: "metric_row list"
  admin_users :: "admin_row list"
  config_table :: "(string \<times> string) list"
  lan_segments :: "segment_row list"
  lan_segment_members :: "member_row list"
  nil_blob :: "bytes option"
  faults :: "bool list"

definition ap_key :: "app_row \<Rightarrow> bytes \<times> string" where
  "ap_key r = (ap_node r, ap_app r)"

definition te_key :: "endorsement_row \<Rightarrow> bytes \<times> bytes" where
  "te_key r = (te_endorser r, te_endorsed r)"

definition bv_key :: "verdict_row \<Rightarrow> bytes \<times> bytes" where
  "bv_key r = (bv_ban r, bv_hub r)"

definition lm_key :: "member_row \<Rightarrow> string \<times> string \<times> bytes" where
  "lm_key r = (lm_segment r, lm_type r, lm_entity r)"

text \<open>
  The constraints of the schema: primary keys and \<^verbatim>\<open>UNIQUE\<close>, and the two \<^verbatim>\<open>REFERENCES\<close> (the
  connection sets \<^verbatim>\<open>PRAGMA foreign_keys = ON\<close>).
\<close>

definition db_wf :: "'a DB_scheme \<Rightarrow> bool" where
  "db_wf w =
    (unique_key nr_id (node_registry w) \<and> unique_key rt_dest (routing_table w) \<and>
     unique_key te_key (trust_endorsements w) \<and> unique_key hr_id (hub_registry w) \<and>
     unique_key rh_id (relay_hubs w) \<and> unique_key ap_key (app_presence w) \<and>
     unique_key bl_id (ban_list w) \<and> unique_key bv_key (ban_verdicts w) \<and>
     unique_key dq_id (dtq_queue w) \<and> unique_key au_username (admin_users w) \<and>
     unique_key fst (config_table w) \<and> unique_key ls_id (lan_segments w) \<and>
     unique_key lm_key (lan_segment_members w) \<and>
     bv_ban ` set (ban_verdicts w) \<subseteq> bl_id ` set (ban_list w) \<and>
     lm_segment ` set (lan_segment_members w) \<subseteq> ls_id ` set (lan_segments w))"

definition empty_DB :: DB where
  "empty_DB = \<lparr>node_registry = [], routing_table = [], proximity_events = [],
     trust_endorsements = [], hub_registry = [], relay_hubs = [], app_presence = [],
     ban_list = [], ban_verdicts = [], dtq_queue = [], historical_metrics = [],
     admin_users = [], config_table = [], lan_segments = [], lan_segment_members = [],
     nil_blob = None, faults = []\<rparr>"

lemma db_wf_empty: "db_wf empty_DB"
  by (simp add: db_wf_def empty_DB_def unique_key_def)

text \<open>The database without the script of failures: what survives on disk.\<close>

definition tables :: "'a DB_scheme \<Rightarrow> 'a DB_scheme" where
  "tables w = w\<lparr>faults := []\<rparr>"

lemma tables_faults [simp]: "tables (w\<lparr>faults := fs\<rparr>) = tables w"
  by (simp add: tables_def)

lemma faults_tables [simp]: "faults (tables w) = []"
  by (simp add: tables_def)

lemma tables_id: "faults w = [] \<Longrightarrow> tables w = w"
  by (simp add: tables_def)

lemma tables_fields [simp]:
  "node_registry (tables w) = node_registry w"
  "routing_table (tables w) = routing_table w"
  "hub_registry (tables w) = hub_registry w"
  "dtq_queue (tables w) = dtq_queue w"
  "ban_list (tables w) = ban_list w"
  "ban_verdicts (tables w) = ban_verdicts w"
  "lan_segments (tables w) = lan_segments w"
  "lan_segment_members (tables w) = lan_segment_members w"
  by (simp_all add: tables_def)

lemma tables_updates [simp]:
  "tables (node_registry_update f w) = node_registry_update f (tables w)"
  "tables (routing_table_update g w) = routing_table_update g (tables w)"
  "tables (hub_registry_update h w) = hub_registry_update h (tables w)"
  "tables (lan_segments_update i w) = lan_segments_update i (tables w)"
  "tables (lan_segment_members_update j w) = lan_segment_members_update j (tables w)"
  by (simp_all add: tables_def)

lemma tables_same [simp]:
  "(tables w)\<lparr>node_registry := node_registry w\<rparr> = tables w"
  "(tables w)\<lparr>hub_registry := hub_registry w\<rparr> = tables w"
  "(tables w)\<lparr>routing_table := routing_table w\<rparr> = tables w"
  by (cases w; simp add: tables_def)+

lemma db_wf_faults [simp]: "db_wf (w\<lparr>faults := fs\<rparr>) = db_wf w"
  by (simp add: db_wf_def)

lemma db_wf_tables: "db_wf (tables w) = db_wf w"
  by (simp add: tables_def)

section \<open>Values bound to a statement\<close>

text \<open>SQLite stores a NaN as \<^verbatim>\<open>NULL\<close>.\<close>

definition bind_real :: "float64 \<Rightarrow> float64 option" where
  "bind_real x = (if x = NaN then None else Some x)"

text \<open>A Go byte slice is \<open>None\<close> when it is nil.\<close>

definition bind_blob :: "'a DB_scheme \<Rightarrow> bytes option \<Rightarrow> bytes option" where
  "bind_blob w b = (case b of None \<Rightarrow> nil_blob w | Some x \<Rightarrow> Some x)"

definition COALESCE :: "'b option \<Rightarrow> 'b option \<Rightarrow> 'b option" where
  "COALESCE x y = (case x of None \<Rightarrow> y | Some v \<Rightarrow> Some v)"

text \<open>\<^verbatim>\<open>ORDER BY f DESC\<close> and \<^verbatim>\<open>ORDER BY f\<close>.\<close>

definition order_desc :: "('r \<Rightarrow> int) \<Rightarrow> 'r list \<Rightarrow> 'r list" where
  "order_desc f rows = sort_key (\<lambda>r. - f r) rows"

definition order_asc :: "('r \<Rightarrow> int) \<Rightarrow> 'r list \<Rightarrow> 'r list" where
  "order_asc f rows = sort_key f rows"

lemma set_order_desc [simp]: "set (order_desc f rows) = set rows"
  by (simp add: order_desc_def)

lemma set_order_asc [simp]: "set (order_asc f rows) = set rows"
  by (simp add: order_asc_def)

section \<open>Statements\<close>

definition driver :: "('a DB_scheme, unit) stmt" where
  "driver w = (case faults w of
      [] \<Rightarrow> (Inr (), w)
    | f # fs \<Rightarrow> (if f then Inl SqlFailure else Inr (), w\<lparr>faults := fs\<rparr>))"

definition query :: "('a DB_scheme \<Rightarrow> 'b) \<Rightarrow> ('a DB_scheme, 'b) stmt" where
  "query f = bnd driver (\<lambda>_ w. (Inr (f w), w))"

text \<open>\<^verbatim>\<open>Exec\<close>: the statement's effect is an error or the number of affected rows and the new database.\<close>

definition exec :: "('a DB_scheme \<Rightarrow> error + nat \<times> 'a DB_scheme) \<Rightarrow> ('a DB_scheme, nat) stmt" where
  "exec f = bnd driver (\<lambda>_ w. case f w of Inl e \<Rightarrow> (Inl e, w) | Inr (n, w') \<Rightarrow> (Inr n, w'))"

text \<open>
  \<^verbatim>\<open>tx, err := db.Begin(); defer tx.Rollback(); ...; tx.Commit()\<close>: an error of the body or of the
  commit leaves the tables as they were before \<^verbatim>\<open>Begin\<close>.
\<close>

definition transaction :: "('a DB_scheme, 'b) stmt \<Rightarrow> ('a DB_scheme, 'b) stmt" where
  "transaction body w = (case driver w of
      (Inl e, w1) \<Rightarrow> (Inl e, w1)
    | (Inr _, w1) \<Rightarrow> (case body w1 of
        (Inl e, w2) \<Rightarrow> (Inl e, w1\<lparr>faults := faults w2\<rparr>)
      | (Inr x, w2) \<Rightarrow> (case driver w2 of
          (Inl e, w3) \<Rightarrow> (Inl e, w1\<lparr>faults := faults w3\<rparr>)
        | (Inr _, w3) \<Rightarrow> (Inr x, w3))))"

lemma driver_ok [db_simps]: "faults w = [] \<Longrightarrow> driver w = (Inr (), w)"
  by (simp add: driver_def)

lemma query_ok [db_simps]: "faults w = [] \<Longrightarrow> query f w = (Inr (f w), w)"
  by (simp add: query_def db_simps)

lemma exec_ok [db_simps]:
  "faults w = [] \<Longrightarrow> exec f w = (case f w of Inl e \<Rightarrow> (Inl e, w) | Inr (n, w') \<Rightarrow> (Inr n, w'))"
  by (simp add: exec_def db_simps)

lemma tables_driver [simp]: "tables (snd (driver w)) = tables w"
  by (simp add: driver_def split: list.split)

lemma driver_cases:
  obtains fs where "driver w = (Inr (), w\<lparr>faults := fs\<rparr>)"
  | fs where "driver w = (Inl SqlFailure, w\<lparr>faults := fs\<rparr>)"
proof (cases "faults w")
  case Nil
  then have "driver w = (Inr (), w\<lparr>faults := faults w\<rparr>)" by (simp add: driver_def)
  then show ?thesis by (rule that(1))
next
  case (Cons f fs)
  show ?thesis
  proof (cases f)
    case True
    with Cons have "driver w = (Inl SqlFailure, w\<lparr>faults := fs\<rparr>)" by (simp add: driver_def)
    then show ?thesis by (rule that(2))
  next
    case False
    with Cons have "driver w = (Inr (), w\<lparr>faults := fs\<rparr>)" by (simp add: driver_def)
    then show ?thesis by (rule that(1))
  qed
qed

lemma query_cases:
  obtains fs where "query f w = (Inr (f (w\<lparr>faults := fs\<rparr>)), w\<lparr>faults := fs\<rparr>)"
  | fs where "query f w = (Inl SqlFailure, w\<lparr>faults := fs\<rparr>)"
proof (rule driver_cases [of w])
  fix fs assume "driver w = (Inr (), w\<lparr>faults := fs\<rparr>)"
  then have "query f w = (Inr (f (w\<lparr>faults := fs\<rparr>)), w\<lparr>faults := fs\<rparr>)"
    by (simp add: query_def bnd_def)
  then show ?thesis by (rule that(1))
next
  fix fs assume "driver w = (Inl SqlFailure, w\<lparr>faults := fs\<rparr>)"
  then have "query f w = (Inl SqlFailure, w\<lparr>faults := fs\<rparr>)"
    by (simp add: query_def bnd_def)
  then show ?thesis by (rule that(2))
qed

lemma exec_cases:
  obtains fs where "exec f w = (Inl SqlFailure, w\<lparr>faults := fs\<rparr>)"
  | fs e where "f (w\<lparr>faults := fs\<rparr>) = Inl e" "exec f w = (Inl e, w\<lparr>faults := fs\<rparr>)"
  | fs n w' where "f (w\<lparr>faults := fs\<rparr>) = Inr (n, w')" "exec f w = (Inr n, w')"
proof (rule driver_cases [of w])
  fix fs assume d: "driver w = (Inr (), w\<lparr>faults := fs\<rparr>)"
  show ?thesis
  proof (cases "f (w\<lparr>faults := fs\<rparr>)")
    case (Inl e)
    with d have "exec f w = (Inl e, w\<lparr>faults := fs\<rparr>)" by (simp add: exec_def bnd_def)
    with Inl show ?thesis by (rule that(2))
  next
    case (Inr r)
    obtain n w' where r: "r = (n, w')" by force
    with d Inr have "exec f w = (Inr n, w')" by (simp add: exec_def bnd_def)
    with Inr r show ?thesis using that(3) by blast
  qed
next
  fix fs assume "driver w = (Inl SqlFailure, w\<lparr>faults := fs\<rparr>)"
  then have "exec f w = (Inl SqlFailure, w\<lparr>faults := fs\<rparr>)" by (simp add: exec_def bnd_def)
  then show ?thesis by (rule that(1))
qed

lemma keeps_driver: "(\<And>w fs. P w \<Longrightarrow> P (w\<lparr>faults := fs\<rparr>)) \<Longrightarrow> keeps P driver"
  unfolding keeps_def
proof (intro allI impI)
  fix w assume a: "\<And>w fs. P w \<Longrightarrow> P (w\<lparr>faults := fs\<rparr>)" and w: "P w"
  show "P (snd (driver w))"
    by (rule driver_cases [of w]) (simp_all add: a [OF w])
qed

lemma keeps_query: "(\<And>w fs. P w \<Longrightarrow> P (w\<lparr>faults := fs\<rparr>)) \<Longrightarrow> keeps P (query f)"
  unfolding query_def by (rule keeps_bnd [OF keeps_driver]) (auto simp: keeps_def)

lemma keeps_exec:
  assumes "\<And>w fs. P w \<Longrightarrow> P (w\<lparr>faults := fs\<rparr>)"
    and "\<And>w n w'. P w \<Longrightarrow> f w = Inr (n, w') \<Longrightarrow> P w'"
  shows "keeps P (exec f)"
  unfolding exec_def
  by (rule keeps_bnd [OF keeps_driver]) (use assms in \<open>auto simp: keeps_def split: sum.split\<close>)

lemma keeps_transaction:
  assumes P: "\<And>w fs. P w \<Longrightarrow> P (w\<lparr>faults := fs\<rparr>)" and body: "keeps P body"
  shows "keeps P (transaction body)"
  unfolding keeps_def
proof (intro allI impI)
  fix w assume "P w"
  obtain r1 w1 where d: "driver w = (r1, w1)" by force
  with P \<open>P w\<close> have w1: "P w1" using keepsD [OF keeps_driver, of P w] by fastforce
  obtain r2 w2 where b: "body w1 = (r2, w2)" by force
  with body w1 have w2: "P w2" using keepsD [of P body w1] by simp
  obtain r3 w3 where c: "driver w2 = (r3, w3)" by force
  with P w2 have w3: "P w3" using keepsD [OF keeps_driver, of P w2] by fastforce
  show "P (snd (transaction body w))"
    using w1 w3 P by (simp add: transaction_def d b c split: sum.split)
qed

text \<open>
  The atomicity that every transactional operation inherits: an error leaves the tables
  untouched, whatever the body did before it failed.
\<close>

lemma transaction_atomic:
  assumes "transaction body w = (Inl e, w')"
  shows "tables w' = tables w"
proof -
  obtain r1 w1 where d: "driver w = (r1, w1)" by force
  then have "tables w1 = tables w" using tables_driver [of w] by simp
  with assms d show ?thesis
    by (auto simp: transaction_def split: sum.splits prod.splits)
qed

lemma transaction_ok [db_simps]:
  assumes "faults w = []" and "body w = (Inr x, w')" and "faults w' = []"
  shows "transaction body w = (Inr x, w')"
  using assms by (simp add: transaction_def db_simps)

lemma transaction_err [db_simps]:
  assumes "faults w = []" and "body w = (Inl e, w')" and "faults w' = []"
  shows "transaction body w = (Inl e, w)"
  using assms by (simp add: transaction_def db_simps)

text \<open>
  A successful transaction is the body run on the same tables: only the script of failures was
  read in between.
\<close>

lemma transaction_success:
  assumes "transaction body w = (Inr x, w')"
  obtains w1 w2 where "tables w1 = tables w" and "body w1 = (Inr x, w2)" and "tables w' = tables w2"
proof -
  obtain r1 w1 where d: "driver w = (r1, w1)" by force
  obtain r2 w2 where b: "body w1 = (r2, w2)" by force
  obtain r3 w3 where c: "driver w2 = (r3, w3)" by force
  have "tables w1 = tables w" "tables w3 = tables w2"
    using tables_driver [of w] tables_driver [of w2] d c by simp_all
  moreover have "r2 = Inr x \<and> w' = w3"
    using assms by (auto simp: transaction_def d b c split: sum.splits)
  ultimately show ?thesis using that b by blast
qed

section \<open>The effects of the SQL statements\<close>

text \<open>
  \<open>tab\<close> selects a table and \<open>upd\<close> updates it: \<^verbatim>\<open>INSERT\<close> fails on a taken key, \<^verbatim>\<open>UPDATE\<close> and \<^verbatim>\<open>DELETE\<close>
  count the rows they touch, \<^verbatim>\<open>INSERT ... ON CONFLICT DO UPDATE\<close> writes one row.
\<close>

definition insert_stmt where
  "insert_stmt key tab upd row w =
     (if find_row key (key row) (tab w) = None then Inr (1 :: nat, upd (\<lambda>rows. rows @ [row]) w)
      else Inl UniqueViolation)"

definition update_stmt where
  "update_stmt tab upd P f w = Inr (count_rows P (tab w), upd (update_rows P f) w)"

definition delete_stmt where
  "delete_stmt tab upd P w = Inr (count_rows P (tab w), upd (delete_rows P) w)"

definition upsert_stmt where
  "upsert_stmt key upd f row w = Inr (1 :: nat, upd (upsert_row key f row) w)"

lemmas stmt_defs = insert_stmt_def update_stmt_def delete_stmt_def upsert_stmt_def

text \<open>A property of the tables survives a statement if it survives the statement's effect.\<close>

lemma keeps_insert:
  fixes P :: "'a DB_scheme \<Rightarrow> bool"
  assumes "\<And>w fs. P w \<Longrightarrow> P (w\<lparr>faults := fs\<rparr>)"
    and "\<And>w. P w \<Longrightarrow> find_row key (key row) (tab w) = None \<Longrightarrow> P (upd (\<lambda>rows. rows @ [row]) w)"
  shows "keeps P (exec (insert_stmt key tab upd row))"
  by (rule keeps_exec) (use assms in \<open>auto simp: insert_stmt_def split: if_splits\<close>)

lemma keeps_update:
  fixes P :: "'a DB_scheme \<Rightarrow> bool"
  assumes "\<And>w fs. P w \<Longrightarrow> P (w\<lparr>faults := fs\<rparr>)" and "\<And>w. P w \<Longrightarrow> P (upd (update_rows Q f) w)"
  shows "keeps P (exec (update_stmt tab upd Q f))"
  by (rule keeps_exec) (use assms in \<open>auto simp: update_stmt_def\<close>)

lemma keeps_delete:
  fixes P :: "'a DB_scheme \<Rightarrow> bool"
  assumes "\<And>w fs. P w \<Longrightarrow> P (w\<lparr>faults := fs\<rparr>)" and "\<And>w. P w \<Longrightarrow> P (upd (delete_rows Q) w)"
  shows "keeps P (exec (delete_stmt tab upd Q))"
  by (rule keeps_exec) (use assms in \<open>auto simp: delete_stmt_def\<close>)

lemma keeps_upsert:
  fixes P :: "'a DB_scheme \<Rightarrow> bool"
  assumes "\<And>w fs. P w \<Longrightarrow> P (w\<lparr>faults := fs\<rparr>)" and "\<And>w. P w \<Longrightarrow> P (upd (upsert_row key g new) w)"
  shows "keeps P (exec (upsert_stmt key upd g new))"
  by (rule keeps_exec) (use assms in \<open>auto simp: upsert_stmt_def\<close>)

lemmas keeps_stmts = keeps_query keeps_insert keeps_update keeps_delete keeps_upsert keeps_transaction

lemma db_wf_updates:
  assumes "db_wf w"
  shows "unique_key nr_id (f1 (node_registry w)) \<Longrightarrow> db_wf (node_registry_update f1 w)"
    and "unique_key rt_dest (f2 (routing_table w)) \<Longrightarrow> db_wf (routing_table_update f2 w)"
    and "db_wf (proximity_events_update f3 w)"
    and "unique_key te_key (f4 (trust_endorsements w)) \<Longrightarrow> db_wf (trust_endorsements_update f4 w)"
    and "unique_key hr_id (f5 (hub_registry w)) \<Longrightarrow> db_wf (hub_registry_update f5 w)"
    and "unique_key rh_id (f6 (relay_hubs w)) \<Longrightarrow> db_wf (relay_hubs_update f6 w)"
    and "unique_key ap_key (f7 (app_presence w)) \<Longrightarrow> db_wf (app_presence_update f7 w)"
    and "unique_key dq_id (f8 (dtq_queue w)) \<Longrightarrow> db_wf (dtq_queue_update f8 w)"
    and "db_wf (historical_metrics_update f9 w)"
    and "unique_key au_username (f10 (admin_users w)) \<Longrightarrow> db_wf (admin_users_update f10 w)"
    and "unique_key fst (f11 (config_table w)) \<Longrightarrow> db_wf (config_table_update f11 w)"
  using assms by (simp_all add: db_wf_def)

lemma db_wf_unique:
  assumes "db_wf w"
  shows "unique_key nr_id (node_registry w)" "unique_key rt_dest (routing_table w)"
    "unique_key te_key (trust_endorsements w)" "unique_key hr_id (hub_registry w)"
    "unique_key rh_id (relay_hubs w)" "unique_key ap_key (app_presence w)"
    "unique_key bl_id (ban_list w)" "unique_key bv_key (ban_verdicts w)"
    "unique_key dq_id (dtq_queue w)" "unique_key au_username (admin_users w)"
    "unique_key fst (config_table w)" "unique_key ls_id (lan_segments w)"
    "unique_key lm_key (lan_segment_members w)"
  using assms by (simp_all add: db_wf_def)

lemmas db_wf_simps = db_wf_updates db_wf_unique unique_key_append_new unique_key_delete_rows
  unique_key_upsert_row unique_key_update_rows

lemmas keeps_wf_stmts = keeps_stmts [where P = db_wf, OF db_wf_faults [THEN iffD2]]

end
