(* ===== verification/Routing.thy ===== *)
theory Routing
  imports Float64
begin

text \<open>
  \<^verbatim>\<open>core/routing/routing.go\<close>: link quality, route cost and route comparison, over the binary64
  arithmetic of \<open>Float64\<close>.

  Shown: a link quality is in the unit interval and is the rounded, capped ratio; a path quality
  never exceeds either factor; the cost is monotone in hops and latency and antitone in quality;
  \<open>Better\<close> never replaces a route by one that is no better in any respect, and no two routes are
  each better than the other; but \<open>Better\<close> is not transitive, because costs within a tolerance are
  compared by quality.
\<close>

section \<open>Definitions\<close>

type_synonym TransmitQuality = float64

definition node_id_len :: nat where
  "node_id_len = 32"

definition zero_id :: bytes where
  "zero_id = replicate 32 0"

record RRoute =
  DestinationNodeID :: bytes
  NextHopNodeID :: bytes
  RTQ :: TransmitQuality
  LatencyMillis :: "32 word"
  RHopCount :: "32 word"

definition ComputeTQ :: "32 word \<Rightarrow> 32 word \<Rightarrow> TransmitQuality" where
  "ComputeTQ eq rq =
     (if rq = 0 then Fin 0
      else let tq = fdiv (float_of_int (uint eq)) (float_of_int (uint rq));
               tq' = (if fgt tq (Fin 1) then Fin 1 else tq)
           in if flt tq' (Fin 0) then Fin 0 else tq')"

definition Cost :: "RRoute \<Rightarrow> float64" where
  "Cost r =
     (let hopPenalty = fmul (float_of_int (uint (RHopCount r))) (Fin 10);
          latencyPenalty = fmul (float_of_int (uint (LatencyMillis r))) (fl (5 / 100));
          tqPenalty = fmul (fsub (Fin 1) (RTQ r)) (Fin 40)
      in fadd (fadd hopPenalty latencyPenalty) tqPenalty)"

definition Better :: "RRoute \<Rightarrow> RRoute \<Rightarrow> bool" where
  "Better candidate current =
     (if DestinationNodeID current = zero_id then True
      else let c1 = Cost candidate; c2 = Cost current in
        if fgt (fabs (fsub c1 c2)) (fl (1 / 1000)) then flt c1 c2
        else if \<not> feq (RTQ candidate) (RTQ current) then fgt (RTQ candidate) (RTQ current)
        else RHopCount candidate < RHopCount current)"

definition PathTQ :: "TransmitQuality \<Rightarrow> TransmitQuality \<Rightarrow> TransmitQuality" where
  "PathTQ linkTQ viaTQ = (let v = fmul linkTQ viaTQ in if fgt v (Fin 1) then Fin 1 else v)"

text \<open>The qualities the engine computes: finite, representable, in the unit interval.\<close>

definition unit_tq :: "TransmitQuality \<Rightarrow> bool" where
  "unit_tq t = (case t of Fin q \<Rightarrow> 0 \<le> q \<and> q \<le> 1 \<and> representable q | _ \<Rightarrow> False)"

lemma unit_tqE:
  assumes "unit_tq t"
  obtains q where "t = Fin q" "0 \<le> q" "q \<le> 1" "representable q"
  using assms by (cases t) (auto simp: unit_tq_def)

lemma unit_tq_Fin [simp]: "unit_tq (Fin q) \<longleftrightarrow> 0 \<le> q \<and> q \<le> 1 \<and> representable q"
  by (simp add: unit_tq_def)

section \<open>Qualities\<close>

text \<open>The exact rational value of an unsigned 32-bit integer.\<close>

definition u32 :: "32 word \<Rightarrow> rat" where
  "u32 x = of_int (uint x)"

lemma u32_float: "float_of_int (uint x) = Fin (u32 x)"
proof -
  have "uint x < 2 ^ 32" using uint_lt2p [of x] by simp
  then have "\<bar>uint x\<bar> < 2 ^ 53" by simp
  then show ?thesis unfolding u32_def by (rule float_of_int_small)
qed

lemma u32_nonneg [simp]: "0 \<le> u32 x"
  unfolding u32_def by (subst of_int_0_le_iff) simp

lemma u32_bound: "u32 x \<le> 2 ^ 32"
proof -
  have "uint x \<le> 2 ^ 32" using uint_lt2p [of x] by simp
  then have "(of_int (uint x) :: rat) \<le> of_int (2 ^ 32)" by (subst of_int_le_iff)
  then show ?thesis unfolding u32_def by simp
qed

lemma u32_mono: "x \<le> y \<Longrightarrow> u32 x \<le> u32 y"
  unfolding u32_def by (subst of_int_le_iff) (simp add: word_le_def)

lemma u32_ge_1: "x \<noteq> 0 \<Longrightarrow> 1 \<le> u32 x"
proof -
  assume "x \<noteq> 0"
  then have "uint x \<noteq> 0" by (simp add: uint_0_iff)
  then have "1 \<le> uint x" using uint_ge_0 [of x] by linarith
  then show ?thesis unfolding u32_def by (subst of_int_1_le_iff)
qed

lemma u32_quotient_small:
  assumes "rq \<noteq> 0"
  shows "0 \<le> u32 eq / u32 rq" and "u32 eq / u32 rq \<le> 2 ^ 100"
proof -
  have rq: "1 \<le> u32 rq" using assms by (rule u32_ge_1)
  show "0 \<le> u32 eq / u32 rq" by (rule divide_nonneg_nonneg) simp_all
  have "u32 eq / u32 rq \<le> u32 eq / 1" using rq by (intro divide_left_mono) simp_all
  also have "\<dots> \<le> 2 ^ 32" using u32_bound by simp
  also have "\<dots> \<le> 2 ^ 100" by (rule power_increasing) simp_all
  finally show "u32 eq / u32 rq \<le> 2 ^ 100" .
qed

lemma ComputeTQ_value:
  "ComputeTQ eq rq = Fin (if rq = 0 then 0 else min 1 (rnd (u32 eq / u32 rq)))"
proof (cases "rq = 0")
  case False
  have "u32 rq \<noteq> 0" using u32_ge_1 [OF False] by auto
  moreover have q: "0 \<le> u32 eq / u32 rq" "u32 eq / u32 rq \<le> 2 ^ 100"
    using u32_quotient_small [OF False] by blast+
  ultimately have "fdiv (float_of_int (uint eq)) (float_of_int (uint rq)) = Fin (rnd (u32 eq / u32 rq))"
    unfolding u32_float by (simp add: fl_small)
  moreover have "0 \<le> rnd (u32 eq / u32 rq)" using q(1) by (rule rnd_nonneg)
  ultimately show ?thesis using False by (simp add: ComputeTQ_def fgt_def Let_def min_def)
qed (simp add: ComputeTQ_def)

lemma ComputeTQ_unit [inv_intros]: "unit_tq (ComputeTQ eq rq)"
proof (cases "rq = 0")
  case False
  have "0 \<le> rnd (u32 eq / u32 rq)" using u32_quotient_small(1) [OF False] by (rule rnd_nonneg)
  then show ?thesis using False by (auto simp: ComputeTQ_value min_def)
qed (simp add: ComputeTQ_value)

lemma unit_mult_small:
  fixes a b :: rat
  assumes "0 \<le> a" "a \<le> 1" "0 \<le> b" "b \<le> 1"
  shows "\<bar>a * b\<bar> \<le> 2 ^ 100" and "a * b \<le> a" and "a * b \<le> b" and "0 \<le> a * b"
proof -
  show "a * b \<le> a" "a * b \<le> b" "0 \<le> a * b"
    using assms by (simp_all add: mult_left_le mult_left_le_one_le)
  then have "a * b \<le> 1" using assms by linarith
  also have "(1::rat) \<le> 2 ^ 100" by simp
  finally show "\<bar>a * b\<bar> \<le> 2 ^ 100" using \<open>0 \<le> a * b\<close> by simp
qed

lemma PathTQ_value:
  assumes "unit_tq (Fin a)" "unit_tq (Fin b)"
  shows "PathTQ (Fin a) (Fin b) = Fin (rnd (a * b))"
proof -
  have ab: "0 \<le> a" "a \<le> 1" "0 \<le> b" "b \<le> 1" using assms by simp_all
  have "fmul (Fin a) (Fin b) = Fin (rnd (a * b))"
    using unit_mult_small(1) [OF ab] by (simp add: fl_small)
  moreover have "rnd (a * b) \<le> 1"
    using rnd_unit [of "a * b"] unit_mult_small(2,4) [OF ab] ab by simp
  ultimately show ?thesis by (simp add: PathTQ_def Let_def fgt_def)
qed

lemma PathTQ_unit [inv_intros]: "unit_tq s \<Longrightarrow> unit_tq t \<Longrightarrow> unit_tq (PathTQ s t)"
proof -
  assume "unit_tq s" "unit_tq t"
  then obtain a b where ab: "s = Fin a" "t = Fin b" and u: "unit_tq (Fin a)" "unit_tq (Fin b)"
    by (metis unit_tqE)
  then have "0 \<le> a * b \<and> a * b \<le> 1"
    using unit_mult_small(2,4) [of a b] by force
  then have "0 \<le> rnd (a * b) \<and> rnd (a * b) \<le> 1" by (intro rnd_unit) simp_all
  with ab PathTQ_value [OF u] show ?thesis by simp
qed

section \<open>Cost and comparison\<close>

text \<open>The cost of a route of unit quality, as nested roundings of exact sums and products.\<close>

definition cost_rat :: "rat \<Rightarrow> rat \<Rightarrow> rat \<Rightarrow> rat" where
  "cost_rat hops lat q =
     rnd (rnd (rnd (hops * 10) + rnd (lat * rnd (5 / 100))) + rnd (rnd (1 - q) * 40))"

lemma abs_small_mono: "\<bar>x :: rat\<bar> \<le> 2 ^ k \<Longrightarrow> k \<le> 100 \<Longrightarrow> \<bar>x\<bar> \<le> 2 ^ 100"
  by (rule order_trans, assumption) (rule power_increasing, simp_all)

lemma rnd_abs_pow:
  assumes "\<bar>x\<bar> \<le> 2 ^ k"
  shows "\<bar>rnd x\<bar> \<le> 2 ^ k"
proof -
  have r: "rnd (2 ^ k) = 2 ^ k" using rnd_powi [of "int k"] by (simp add: power_int_def)
  have "x \<le> 2 ^ k" "- (2 ^ k) \<le> x" using abs_le_D1 [OF assms] abs_le_D2 [OF assms] by (simp_all add: minus_le_iff)
  then have "rnd x \<le> 2 ^ k" "- (2 ^ k) \<le> rnd x"
    using rnd_mono [of x "2 ^ k"] rnd_mono [of "- (2 ^ k)" x] rnd_minus [of "2 ^ k"] r by simp_all
  then show ?thesis by (simp only: abs_le_iff minus_le_iff)
qed

lemma cost_rat_bounded:
  assumes "0 \<le> hops" "hops \<le> 2 ^ 32" "0 \<le> lat" "lat \<le> 2 ^ 32" "0 \<le> q" "q \<le> 1"
  shows "\<bar>hops * 10\<bar> \<le> 2 ^ 40" "\<bar>lat * rnd (5 / 100)\<bar> \<le> 2 ^ 40" "\<bar>1 - q\<bar> \<le> 2 ^ 40"
    "\<bar>rnd (hops * 10) + rnd (lat * rnd (5 / 100))\<bar> \<le> 2 ^ 41"
    "\<bar>rnd (1 - q) * 40\<bar> \<le> 2 ^ 41"
    "\<bar>rnd (rnd (hops * 10) + rnd (lat * rnd (5 / 100))) + rnd (rnd (1 - q) * 40)\<bar> \<le> 2 ^ 42"
proof -
  have c: "0 \<le> rnd (5 / 100)" "rnd (5 / 100) \<le> 1" using rnd_unit [of "5 / 100"] by simp_all
  show 1: "\<bar>hops * 10\<bar> \<le> 2 ^ 40" using assms by simp
  have "lat * rnd (5 / 100) \<le> lat" using assms c by (simp add: mult_left_le)
  then show 2: "\<bar>lat * rnd (5 / 100)\<bar> \<le> 2 ^ 40" using assms c by simp
  show 3: "\<bar>1 - q\<bar> \<le> 2 ^ 40" using assms by simp
  show 4: "\<bar>rnd (hops * 10) + rnd (lat * rnd (5 / 100))\<bar> \<le> 2 ^ 41"
    using rnd_abs_pow [OF 1] rnd_abs_pow [OF 2] abs_triangle_ineq [of "rnd (hops * 10)" "rnd (lat * rnd (5 / 100))"]
    by simp
  have "0 \<le> rnd (1 - q) \<and> rnd (1 - q) \<le> 1" using assms by (intro rnd_unit) simp_all
  then show 5: "\<bar>rnd (1 - q) * 40\<bar> \<le> 2 ^ 41" by simp
  show "\<bar>rnd (rnd (hops * 10) + rnd (lat * rnd (5 / 100))) + rnd (rnd (1 - q) * 40)\<bar> \<le> 2 ^ 42"
    using rnd_abs_pow [OF 4] rnd_abs_pow [OF 5]
      abs_triangle_ineq [of "rnd (rnd (hops * 10) + rnd (lat * rnd (5 / 100)))" "rnd (rnd (1 - q) * 40)"]
    by simp
qed

lemma Cost_value:
  assumes "RTQ r = Fin q" "0 \<le> q" "q \<le> 1"
  shows "Cost r = Fin (cost_rat (u32 (RHopCount r)) (u32 (LatencyMillis r)) q)"
proof -
  let ?h = "u32 (RHopCount r)" and ?l = "u32 (LatencyMillis r)"
  have h: "0 \<le> ?h" "?h \<le> 2 ^ 32" "0 \<le> ?l" "?l \<le> 2 ^ 32"
    using u32_bound [of "RHopCount r"] u32_bound [of "LatencyMillis r"] by simp_all
  note b = cost_rat_bounded [OF h assms(2,3), THEN abs_small_mono, simplified]
  have c: "fl (5 / 100) = Fin (rnd (5 / 100))" by (rule fl_small) simp
  have s: "fsub (Fin 1) (Fin q) = Fin (rnd (1 - q))" using b(3) by (simp add: fsub_def fl_small)
  show ?thesis using b by (simp add: Cost_def Let_def u32_float c s assms(1) fl_small cost_rat_def)
qed

lemma cost_rat_mono:
  assumes "h \<le> h'" "l \<le> l'" "q' \<le> q"
  shows "cost_rat h l q \<le> cost_rat h' l' q'"
proof -
  have c: "0 \<le> rnd (5 / 100)" by (rule rnd_nonneg) simp
  have "rnd (h * 10) \<le> rnd (h' * 10)" using assms(1) by (intro rnd_mono) simp
  moreover have "rnd (l * rnd (5 / 100)) \<le> rnd (l' * rnd (5 / 100))"
    using assms(2) c by (intro rnd_mono mult_right_mono)
  ultimately have 1: "rnd (rnd (h * 10) + rnd (l * rnd (5 / 100))) \<le> rnd (rnd (h' * 10) + rnd (l' * rnd (5 / 100)))"
    by (rule rnd_mono [OF add_mono])
  have "rnd (1 - q) \<le> rnd (1 - q')" using assms(3) by (intro rnd_mono) simp
  then have 2: "rnd (rnd (1 - q) * 40) \<le> rnd (rnd (1 - q') * 40)" by (intro rnd_mono) simp
  from 1 2 show ?thesis unfolding cost_rat_def by (rule rnd_mono [OF add_mono])
qed

text \<open>One route dominates another when it is at least as good in hops, latency and quality.\<close>

definition dominates :: "RRoute \<Rightarrow> RRoute \<Rightarrow> bool" where
  "dominates r s = (RHopCount r \<le> RHopCount s \<and> LatencyMillis r \<le> LatencyMillis s \<and>
     \<not> flt (RTQ r) (RTQ s))"

lemma dominates_Cost:
  assumes "unit_tq (RTQ r)" "unit_tq (RTQ s)" "dominates r s"
  shows "\<not> flt (Cost s) (Cost r)"
proof -
  obtain q p where qp: "RTQ r = Fin q" "RTQ s = Fin p" "0 \<le> q" "q \<le> 1" "0 \<le> p" "p \<le> 1"
    using assms(1,2) by (metis unit_tqE)
  with assms(3) have le: "p \<le> q" by (simp add: dominates_def)
  have "cost_rat (u32 (RHopCount r)) (u32 (LatencyMillis r)) q \<le>
      cost_rat (u32 (RHopCount s)) (u32 (LatencyMillis s)) p"
    using assms(3) le by (intro cost_rat_mono) (simp_all add: dominates_def u32_mono)
  then show ?thesis using qp by (simp add: Cost_value)
qed

lemma fabs_fsub_commute: "fabs (fsub a b) = fabs (fsub b a)"
proof (cases a; cases b)
  fix x y assume ab: "a = Fin x" "b = Fin y"
  have "rnd (y - x) = - rnd (x - y)" using rnd_minus [of "x - y"] by simp
  then show ?thesis using ab by (auto simp: fsub_def fl_def Let_def)
qed (simp_all add: fsub_def)

lemma flt_asym: "flt a b \<Longrightarrow> \<not> flt b a"
  by (cases a; cases b) simp_all

lemma feq_commute: "feq a b = feq b a"
  by (cases a; cases b) auto

section \<open>Properties\<close>

text \<open>
  \<^verbatim>\<open>ComputeTQ\<close> is total and always lands in the unit interval: zero when nothing was received,
  otherwise the correctly rounded ratio of echoed to received messages, capped at one.
\<close>

theorem ComputeTQ_ratio:
  "unit_tq (ComputeTQ eq rq) \<and>
   ComputeTQ eq rq = Fin (if rq = 0 then 0 else min 1 (rnd (u32 eq / u32 rq)))"
  using ComputeTQ_unit ComputeTQ_value by blast

text \<open>
  A path is never rated above any of its links: the product of two unit qualities is a unit
  quality and, rounding included, not above either factor.
\<close>

theorem PathTQ_degrades:
  assumes "unit_tq s" and "unit_tq t"
  shows "unit_tq (PathTQ s t) \<and> \<not> flt s (PathTQ s t) \<and> \<not> flt t (PathTQ s t)"
proof -
  obtain a b where ab: "s = Fin a" "t = Fin b" and u: "unit_tq (Fin a)" "unit_tq (Fin b)"
    using assms by (metis unit_tqE)
  then have "rnd (a * b) \<le> rnd a" "rnd (a * b) \<le> rnd b"
    using unit_mult_small(2,3) [of a b] by (auto intro: rnd_mono)
  with u have "rnd (a * b) \<le> a" "rnd (a * b) \<le> b" by (simp_all add: representable_def)
  with ab PathTQ_value [OF u] PathTQ_unit [OF assms] show ?thesis by simp
qed

theorem PathTQ_degrades_witness:
  "\<not> flt (ComputeTQ 1 3) (PathTQ (ComputeTQ 1 3) (ComputeTQ 85 100))"
  using PathTQ_degrades [OF ComputeTQ_unit ComputeTQ_unit, of 1 3 85 100] by blast

text \<open>
  \<^verbatim>\<open>Better\<close> never prefers a candidate that has at least as many hops, at least the latency and at
  most the quality of a route that is already known: no rounding of the cost and no tie-break
  lets a dominated route win.
\<close>

theorem Better_no_downgrade:
  assumes "unit_tq (RTQ current)" and "unit_tq (RTQ candidate)"
    and "dominates current candidate" and "DestinationNodeID current \<noteq> zero_id"
  shows "\<not> Better candidate current"
proof -
  have "\<not> flt (Cost candidate) (Cost current)"
    using assms(1,2,3) by (rule dominates_Cost)
  moreover have "\<not> flt (RTQ current) (RTQ candidate)" "\<not> RHopCount candidate < RHopCount current"
    using assms(3) by (auto simp: dominates_def)
  ultimately show ?thesis using assms(4) by (simp add: Better_def Let_def fgt_def)
qed

definition sample_route :: "32 word \<Rightarrow> TransmitQuality \<Rightarrow> RRoute" where
  "sample_route hops tq =
     \<lparr>DestinationNodeID = replicate 32 7, NextHopNodeID = replicate 32 9, RTQ = tq,
      LatencyMillis = 0, RHopCount = hops\<rparr>"

theorem Better_no_downgrade_witness:
  "\<not> Better (sample_route 3 (ComputeTQ 1 2)) (sample_route 2 (ComputeTQ 1 2))"
proof (rule Better_no_downgrade)
  show "dominates (sample_route 2 (ComputeTQ 1 2)) (sample_route 3 (ComputeTQ 1 2))"
    by (simp add: dominates_def sample_route_def ComputeTQ_value)
qed (simp_all add: sample_route_def zero_id_def ComputeTQ_unit)

text \<open>Exact costs of the sample routes: every intermediate value is a dyadic rational.\<close>

lemma rnd_frac:
  assumes "x = of_int n / 2 ^ k" and "\<bar>n\<bar> < 2 ^ 53" and "k \<le> 1074"
  shows "rnd x = x"
  using rnd_exact [of n "- int k"] assms by (simp add: power_int_minus divide_inverse)

lemma sample_rnds:
  shows "rnd (10) = 10" "rnd (20) = 20" "rnd (30) = 30" "rnd (40) = 40"
    "rnd (3 / 4) = 3 / 4" "rnd (32769 / 65536) = 32769 / 65536" "rnd (163845 / 8192) = 163845 / 8192" "rnd (327685 / 8192) = 327685 / 8192"
    "rnd (8193 / 32768) = 8193 / 32768" "rnd (40965 / 4096) = 40965 / 4096" "rnd (163845 / 4096) = 163845 / 4096" "rnd (5 / 8192) = 5 / 8192"
    "rnd (5 / 4096) = 5 / 4096" "rnd (1 / 4) = 1 / 4" "rnd (32767 / 65536) = 32767 / 65536" "rnd (24575 / 32768) = 24575 / 32768"
proof -
  show "rnd (10) = 10" by (rule rnd_frac [of _ 10 0]) simp_all
  show "rnd (20) = 20" by (rule rnd_frac [of _ 20 0]) simp_all
  show "rnd (30) = 30" by (rule rnd_frac [of _ 30 0]) simp_all
  show "rnd (40) = 40" by (rule rnd_frac [of _ 40 0]) simp_all
  show "rnd (3 / 4) = 3 / 4" by (rule rnd_frac [of _ 3 2]) simp_all
  show "rnd (32769 / 65536) = 32769 / 65536" by (rule rnd_frac [of _ 32769 16]) simp_all
  show "rnd (163845 / 8192) = 163845 / 8192" by (rule rnd_frac [of _ 163845 13]) simp_all
  show "rnd (327685 / 8192) = 327685 / 8192" by (rule rnd_frac [of _ 327685 13]) simp_all
  show "rnd (8193 / 32768) = 8193 / 32768" by (rule rnd_frac [of _ 8193 15]) simp_all
  show "rnd (40965 / 4096) = 40965 / 4096" by (rule rnd_frac [of _ 40965 12]) simp_all
  show "rnd (163845 / 4096) = 163845 / 4096" by (rule rnd_frac [of _ 163845 12]) simp_all
  show "rnd (5 / 8192) = 5 / 8192" by (rule rnd_frac [of _ 5 13]) simp_all
  show "rnd (5 / 4096) = 5 / 4096" by (rule rnd_frac [of _ 5 12]) simp_all
  show "rnd (1 / 4) = 1 / 4" by (rule rnd_frac [of _ 1 2]) simp_all
  show "rnd (32767 / 65536) = 32767 / 65536" by (rule rnd_frac [of _ 32767 16]) simp_all
  show "rnd (24575 / 32768) = 24575 / 32768" by (rule rnd_frac [of _ 24575 15]) simp_all
qed

lemma sample_tq:
  "ComputeTQ 16384 65536 = Fin (1 / 4)" "ComputeTQ 32767 65536 = Fin (32767 / 65536)"
  "ComputeTQ 24575 32768 = Fin (24575 / 32768)"
  by (simp_all add: ComputeTQ_value u32_def sample_rnds)

lemma Cost_sample: "0 \<le> q \<Longrightarrow> q \<le> 1 \<Longrightarrow> Cost (sample_route h (Fin q)) = Fin (cost_rat (u32 h) 0 q)"
  using Cost_value [of "sample_route h (Fin q)" q] by (simp add: sample_route_def u32_def)

lemma sample_cost:
  "Cost (sample_route 1 (Fin (1 / 4))) = Fin 40"
  "Cost (sample_route 2 (Fin (32767 / 65536))) = Fin (327685 / 8192)"
  "Cost (sample_route 3 (Fin (24575 / 32768))) = Fin (163845 / 4096)"
  "Cost (sample_route 1 (Fin 1)) = Fin 10" "Cost (sample_route 2 (Fin 1)) = Fin 20"
  by (simp_all add: Cost_sample u32_def cost_rat_def sample_rnds)

lemma tolerance_value: "fl (1 / 1000) = Fin (1152921504606847 / 1152921504606846976)"
  by code_simp

lemma fsub_small: "\<bar>a - b\<bar> \<le> 2 ^ 100 \<Longrightarrow> fsub (Fin a) (Fin b) = Fin (rnd (a - b))"
  by (simp add: fsub_def fl_small)

lemmas sample_eval = Better_def Let_def fgt_def tolerance_value sample_cost fsub_small sample_rnds rnd_minus

text \<open>
  No two known routes are each better than the other, for any qualities and NaN included: a
  table that has just switched from one route to another does not switch back on the same facts.
\<close>

theorem Better_asym:
  assumes "DestinationNodeID r \<noteq> zero_id" and "DestinationNodeID s \<noteq> zero_id" and "Better r s"
  shows "\<not> Better s r"
  using assms fabs_fsub_commute [of "Cost r" "Cost s"] flt_asym [of "Cost r" "Cost s"]
    flt_asym [of "RTQ s" "RTQ r"] feq_commute [of "RTQ r" "RTQ s"]
  by (auto simp: Better_def Let_def fgt_def split: if_splits)

theorem Better_asym_witness:
  "\<not> Better (sample_route 2 (Fin 1)) (sample_route 1 (Fin 1))"
proof (rule Better_asym)
  show "Better (sample_route 1 (Fin 1)) (sample_route 2 (Fin 1))"
    by (simp add: sample_eval)
qed (simp_all add: sample_route_def zero_id_def)

text \<open>
  \<^verbatim>\<open>Better\<close> is not transitive: three routes of measurable qualities each beat the next in a
  circle, since costs less than 0.001 apart are decided by quality instead. A destination whose
  three neighbours advertise such routes in turn changes its route on every message.
\<close>

theorem Better_cycle:
  "let a = sample_route 1 (ComputeTQ 16384 65536);
       b = sample_route 2 (ComputeTQ 32767 65536);
       c = sample_route 3 (ComputeTQ 24575 32768)
   in Better b a \<and> Better c b \<and> Better a c"
  by (simp add: sample_tq sample_eval) (simp add: sample_route_def zero_id_def)

end
