(* ===== verification/Identity.thy ===== *)
theory Identity
  imports Quake_Prelude
begin

text \<open>
  \<^verbatim>\<open>core/identity/identity.go\<close>: node identities. A \<^verbatim>\<open>NodeID\<close> is an array of 32 bytes; its textual form
  is the lower-case hexadecimal of \<^verbatim>\<open>encoding/hex\<close>. The cryptographic functions are parameters (the
  record \<open>crypto\<close>), with the documented laws stated where a theorem needs them; the file that
  holds the seed is part of an explicit file system.

  Shown: hexadecimal decoding inverts encoding and encoding is injective, so maps keyed by
  \<^verbatim>\<open>NodeID.String()\<close> are maps keyed by the identity; the identity survives a restart.
\<close>

section \<open>Hexadecimal text\<close>

type_synonym NodeID = bytes

definition hex_digit :: "nat \<Rightarrow> char" where
  "hex_digit n = ''0123456789abcdef'' ! n"

definition from_hex_char :: "char \<Rightarrow> nat option" where
  "from_hex_char c = (let n = of_char c :: nat in
     if 48 \<le> n \<and> n \<le> 57 then Some (n - 48)
     else if 97 \<le> n \<and> n \<le> 102 then Some (n - 87)
     else if 65 \<le> n \<and> n \<le> 70 then Some (n - 55)
     else None)"

fun hex_EncodeToString :: "bytes \<Rightarrow> string" where
  "hex_EncodeToString [] = []"
| "hex_EncodeToString (b # bs) =
     hex_digit (unat b div 16) # hex_digit (unat b mod 16) # hex_EncodeToString bs"

text \<open>An invalid character or an odd number of characters is an error.\<close>

fun hex_DecodeString :: "string \<Rightarrow> bytes option" where
  "hex_DecodeString [] = Some []"
| "hex_DecodeString [c] = None"
| "hex_DecodeString (c # d # s) =
     (case (from_hex_char c, from_hex_char d) of
        (Some h, Some l) \<Rightarrow> map_option ((#) (of_nat (16 * h + l))) (hex_DecodeString s)
      | _ \<Rightarrow> None)"

definition NodeID_String :: "NodeID \<Rightarrow> string" where
  "NodeID_String nid = hex_EncodeToString nid"

lemma from_hex_digit: "n < 16 \<Longrightarrow> from_hex_char (hex_digit n) = Some n"
proof -
  have "\<forall>n \<in> set [0..<16]. from_hex_char (hex_digit n) = Some n" by code_simp
  then show "n < 16 \<Longrightarrow> ?thesis" by simp
qed

lemma hex_decode_encode [simp]: "hex_DecodeString (hex_EncodeToString bs) = Some bs"
proof (induction bs)
  case (Cons b bs)
  have "unat b < 256" using unsigned_less [of b, where 'a = nat] by simp
  then have "unat b div 16 < 16" "unat b mod 16 < 16" by (simp_all add: div_less_iff_less_mult)
  moreover have "of_nat (16 * (unat b div 16) + unat b mod 16) = b" by simp
  ultimately show ?case by (simp add: Cons.IH from_hex_digit del: of_nat_add of_nat_mult)
qed simp

lemma hex_encode_inject [simp]: "hex_EncodeToString bs = hex_EncodeToString cs \<longleftrightarrow> bs = cs"
  by (metis hex_decode_encode option.inject)

lemma NodeID_String_inject [simp]: "NodeID_String a = NodeID_String b \<longleftrightarrow> a = b"
  by (simp add: NodeID_String_def)

lemma length_hex_encode [simp]: "length (hex_EncodeToString bs) = 2 * length bs"
  by (induction bs) auto

lemma hex_decode_length: "hex_DecodeString s = Some bs \<Longrightarrow> length s = 2 * length bs"
  by (induction s arbitrary: bs rule: hex_DecodeString.induct) (auto split: option.splits)

section \<open>Identities\<close>

record Identity =
  id_NodeID :: NodeID
  PublicKey :: bytes
  PrivateKey :: bytes

text \<open>The functions of \<^verbatim>\<open>crypto/ed25519\<close> and \<^verbatim>\<open>crypto/sha256\<close> that the package calls.\<close>

record crypto =
  Sum256 :: "bytes \<Rightarrow> bytes"
  NewKeyFromSeed :: "bytes \<Rightarrow> bytes"
  Public :: "bytes \<Rightarrow> bytes"
  Seed :: "bytes \<Rightarrow> bytes"
  ed_Sign :: "bytes \<Rightarrow> bytes \<Rightarrow> bytes"
  ed_Verify :: "bytes \<Rightarrow> bytes \<Rightarrow> bytes \<Rightarrow> bool"

definition SeedSize :: nat where
  "SeedSize = 32"

definition fromKeys :: "crypto \<Rightarrow> bytes \<Rightarrow> bytes \<Rightarrow> Identity" where
  "fromKeys cr pub priv = \<lparr>id_NodeID = Sum256 cr pub, PublicKey = pub, PrivateKey = priv\<rparr>"

text \<open>
  \<^verbatim>\<open>ed25519.GenerateKey\<close> reads a seed from the random source and expands it: the source's answer, an
  error or the seed, is the argument \<open>gen\<close>.
\<close>

definition identity_New :: "crypto \<Rightarrow> error + bytes \<Rightarrow> error + Identity" where
  "identity_New cr gen =
     (case gen of Inl e \<Rightarrow> Inl (Wrap ''identity: generate key'' e)
      | Inr seed \<Rightarrow> let priv = NewKeyFromSeed cr seed in Inr (fromKeys cr (Public cr priv) priv))"

text \<open>
  What \<^verbatim>\<open>os.ReadFile\<close> and \<^verbatim>\<open>os.WriteFile\<close> answer: the content of the files, and the paths that cannot be
  read or written for another reason than not existing.
\<close>

record fs =
  files :: "string \<rightharpoonup> bytes"
  unreadable :: "string \<Rightarrow> bool"
  unwritable :: "string \<Rightarrow> bool"

definition LoadOrCreate ::
  "crypto \<Rightarrow> error + bytes \<Rightarrow> string \<Rightarrow> fs \<Rightarrow> (error + Identity) \<times> fs" where
  "LoadOrCreate cr gen path f =
     (if unreadable f path then (Inl (Wrap ''identity: read'' (Errmsg path)), f)
      else case files f path of
        Some seed \<Rightarrow>
          (if length seed \<noteq> SeedSize
           then (Inl (Errmsg (''identity: '' @ path @ '': expected 32-byte seed'')), f)
           else let priv = NewKeyFromSeed cr seed in (Inr (fromKeys cr (Public cr priv) priv), f))
      | None \<Rightarrow>
          (case identity_New cr gen of
             Inl genErr \<Rightarrow> (Inl genErr, f)
           | Inr ident \<Rightarrow>
               (if unwritable f path
                then (Inl (Wrap ''identity: persist seed'' (Errmsg path)), f)
                else (Inr ident, f\<lparr>files := (files f)(path \<mapsto> Seed cr (PrivateKey ident))\<rparr>))))"

definition identity_Sign :: "crypto \<Rightarrow> Identity \<Rightarrow> bytes \<Rightarrow> bytes" where
  "identity_Sign cr ident message = ed_Sign cr (PrivateKey ident) message"

definition identity_Verify :: "crypto \<Rightarrow> bytes \<Rightarrow> bytes \<Rightarrow> bytes \<Rightarrow> bool" where
  "identity_Verify cr pub message sig = ed_Verify cr pub message sig"

text \<open>
  The documented laws of the key functions: the key expanded from a seed gives the seed back, and
  a signature by that key verifies under its public half.
\<close>

definition crypto_laws :: "crypto \<Rightarrow> bool" where
  "crypto_laws cr = (\<forall>seed msg. length seed = 32 \<longrightarrow>
     Seed cr (NewKeyFromSeed cr seed) = seed \<and>
     ed_Verify cr (Public cr (NewKeyFromSeed cr seed)) msg (ed_Sign cr (NewKeyFromSeed cr seed) msg))"

section \<open>Properties\<close>

text \<open>
  Identities are stable: the identity created on the first start is the one loaded on every
  later start, whatever the random source would answer then, and what it signs verifies under its
  public key.
\<close>

theorem LoadOrCreate_restart:
  assumes "crypto_laws cr" and "files f path = None" and "length seed = 32"
    and "LoadOrCreate cr (Inr seed) path f = (Inr ident, f')"
  shows "LoadOrCreate cr gen' path f' = (Inr ident, f') \<and> id_NodeID ident = Sum256 cr (PublicKey ident)
    \<and> identity_Verify cr (PublicKey ident) msg (identity_Sign cr ident msg)"
proof -
  define priv where "priv = NewKeyFromSeed cr seed"
  have k: "Seed cr priv = seed" "ed_Verify cr (Public cr priv) msg (ed_Sign cr priv msg)"
    using assms(1,3) by (auto simp: crypto_laws_def priv_def)
  have r: "\<not> unreadable f path" and i: "ident = fromKeys cr (Public cr priv) priv"
    and f': "f' = f\<lparr>files := (files f)(path \<mapsto> seed)\<rparr>"
    using assms(2,4) k(1)
    by (auto simp: LoadOrCreate_def identity_New_def fromKeys_def priv_def Let_def split: if_splits)
  show ?thesis
    using r k(2) assms(3)
    by (simp add: i f' LoadOrCreate_def SeedSize_def fromKeys_def identity_Sign_def
        identity_Verify_def Let_def flip: priv_def)
qed

text \<open>A concrete key system for the witness: a key is its own seed.\<close>

definition sample_crypto :: crypto where
  "sample_crypto = \<lparr>Sum256 = copy_array 32, NewKeyFromSeed = id, Public = id,
     Seed = id, ed_Sign = (\<lambda>k m. k @ m), ed_Verify = (\<lambda>p m s. s = p @ m)\<rparr>"

theorem LoadOrCreate_restart_witness:
  "LoadOrCreate sample_crypto (Inl SqlFailure) ''id''
     \<lparr>files = [''id'' \<mapsto> replicate 32 5], unreadable = (\<lambda>_. False), unwritable = (\<lambda>_. False)\<rparr> =
   (Inr \<lparr>id_NodeID = replicate 32 5, PublicKey = replicate 32 5, PrivateKey = replicate 32 5\<rparr>,
    \<lparr>files = [''id'' \<mapsto> replicate 32 5], unreadable = (\<lambda>_. False), unwritable = (\<lambda>_. False)\<rparr>)"
proof -
  let ?f = "\<lparr>files = Map.empty, unreadable = (\<lambda>_. False), unwritable = (\<lambda>_. False)\<rparr>"
  let ?f' = "\<lparr>files = [''id'' \<mapsto> replicate 32 5], unreadable = (\<lambda>_. False), unwritable = (\<lambda>_. False)\<rparr>"
  let ?i = "\<lparr>id_NodeID = replicate 32 5, PublicKey = replicate 32 5, PrivateKey = replicate 32 5\<rparr>"
  have "crypto_laws sample_crypto" by (simp add: crypto_laws_def sample_crypto_def)
  moreover have "LoadOrCreate sample_crypto (Inr (replicate 32 5)) ''id'' ?f = (Inr ?i, ?f')"
    by (simp add: LoadOrCreate_def identity_New_def fromKeys_def sample_crypto_def Let_def)
  ultimately show ?thesis
    using LoadOrCreate_restart [of sample_crypto ?f "''id''" "replicate 32 5" ?i ?f'] by simp
qed

text \<open>
  The textual form of an identity loses nothing: decoding the hexadecimal of any byte string
  gives it back, so no two identities share a map key.
\<close>

theorem NodeID_String_roundtrip:
  "hex_DecodeString (NodeID_String nid) = Some nid \<and>
   (NodeID_String nid = NodeID_String nid' \<longleftrightarrow> nid = nid')"
  by (simp add: NodeID_String_def)

end
