(* ===== verification/Contracts.thy ===== *)
theory Contracts
  imports Quake_Prelude "HOL-Library.Multiset" "HOL-Library.Sublist"
begin

text \<open>
  The contracts that the typed stores offer to the engines on top of them, as locales whose laws
  each store discharges for its own operations:

  \<^item> \<open>keyed_store\<close>: what a lookup returns after writes;
  \<^item> \<open>last_writer_wins\<close>: gossip merges keep the newest value, report a change exactly when there
    is one, and converge whatever the order and multiplicity of the deliveries;
  \<^item> \<open>drop_channel\<close>: a buffered channel whose sender drops instead of waiting: order is kept,
    nothing is duplicated or invented, and the buffer stays within its capacity.
\<close>

section \<open>Keyed stores\<close>

text \<open>A sequence of writes, stopping at the first error.\<close>

fun put_all :: "('v \<Rightarrow> ('w, unit) stmt) \<Rightarrow> 'v list \<Rightarrow> ('w, unit) stmt" where
  "put_all put [] = ret ()"
| "put_all put (v # vs) = bnd (put v) (\<lambda>_. put_all put vs)"

text \<open>
  \<open>ready\<close> is the condition on the world under which the driver works, \<open>valid\<close> the values that the
  store accepts.
\<close>

lemma find_append: "find P (xs @ ys) = (case find P xs of None \<Rightarrow> find P ys | Some x \<Rightarrow> Some x)"
  by (induction xs) auto

locale keyed_store =
  fixes key :: "'v \<Rightarrow> 'k"
    and put :: "'v \<Rightarrow> ('w, unit) stmt"
    and get :: "'k \<Rightarrow> ('w, 'v option) stmt"
    and valid :: "'v \<Rightarrow> 'w \<Rightarrow> bool"
    and ready :: "'w \<Rightarrow> bool"
  assumes put_ok: "ready w \<Longrightarrow> valid v w \<Longrightarrow> fst (put v w) = Inr ()"
    and put_ready: "ready w \<Longrightarrow> valid v w \<Longrightarrow> ready (snd (put v w))"
    and put_valid: "ready w \<Longrightarrow> valid v w \<Longrightarrow> valid v' w \<Longrightarrow> valid v' (snd (put v w))"
    and get_put: "ready w \<Longrightarrow> valid v w \<Longrightarrow>
      fst (get k (snd (put v w))) = (if k = key v then Inr (Some v) else fst (get k w))"
begin

text \<open>After any sequence of writes a lookup returns the last value written under its key.\<close>

lemma get_put_all:
  assumes "ready w" and "\<forall>v \<in> set vs. valid v w"
  shows "fst (put_all put vs w) = Inr () \<and>
    fst (get k (snd (put_all put vs w))) =
      (case find (\<lambda>v. key v = k) (rev vs) of None \<Rightarrow> fst (get k w) | Some v \<Rightarrow> Inr (Some v))"
  using assms
proof (induction vs arbitrary: w)
  case (Cons v vs)
  let ?w = "snd (put v w)"
  have p: "put v w = (Inr (), ?w)" using put_ok [of w v] Cons.prems by (simp add: prod_eq_iff)
  have "ready ?w" "\<forall>v \<in> set vs. valid v ?w"
    using Cons.prems put_ready [of w v] put_valid [of w v] by auto
  note IH = Cons.IH [OF this]
  have "put_all put (v # vs) w = put_all put vs ?w" using p by (simp add: bnd_Inr)
  moreover have "find (\<lambda>v. key v = k) (rev vs @ [v]) =
      (case find (\<lambda>v. key v = k) (rev vs) of None \<Rightarrow> (if key v = k then Some v else None) | Some u \<Rightarrow> Some u)"
    by (simp add: find_append split: option.split)
  ultimately show ?case
    using IH get_put [of w v k] Cons.prems by (auto split: option.splits)
qed simp

end

section \<open>Last writer wins\<close>

text \<open>The merge of one stamped value into what is known, and of a sequence of them.\<close>

definition lww_newer :: "int \<Rightarrow> (int \<times> 'v) option \<Rightarrow> bool" where
  "lww_newer stamp known = (case known of None \<Rightarrow> True | Some (t, _) \<Rightarrow> t < stamp)"

definition lww_step :: "int \<times> 'v \<Rightarrow> (int \<times> 'v) option \<Rightarrow> (int \<times> 'v) option" where
  "lww_step m known = (if lww_newer (fst m) known then Some m else known)"

text \<open>No two values carry the same stamp: the writers of one key stamp its versions.\<close>

definition lww_consistent :: "(int \<times> 'v) set \<Rightarrow> bool" where
  "lww_consistent M = (\<forall>m \<in> M. \<forall>m' \<in> M. fst m = fst m' \<longrightarrow> m = m')"

lemma lww_step_commute:
  assumes "lww_consistent M" and "m \<in> M" and "m' \<in> M"
  shows "lww_step m \<circ> lww_step m' = lww_step m' \<circ> lww_step m"
proof
  fix known
  consider "fst m < fst m'" | "fst m' < fst m" | "m = m'"
    using assms unfolding lww_consistent_def by (meson linorder_neqE)
  then show "(lww_step m \<circ> lww_step m') known = (lww_step m' \<circ> lww_step m) known"
    by cases (auto simp: lww_step_def lww_newer_def split: option.splits)
qed

lemma lww_step_idem: "lww_step m (lww_step m known) = lww_step m known"
  by (auto simp: lww_step_def lww_newer_def split: option.splits)

lemma lww_fold_perm:
  assumes "lww_consistent (set ms)" and "mset ms = mset ms'"
  shows "fold lww_step ms = fold lww_step ms'"
  using assms by (intro fold_multiset_equiv lww_step_commute) auto

text \<open>The stamp only grows, and ends at the newest delivered one.\<close>

lemma lww_fold_stamp:
  "case fold lww_step ms known of
     None \<Rightarrow> ms = [] \<and> known = None
   | Some (t, v) \<Rightarrow> ((t, v) \<in> set ms \<or> known = Some (t, v)) \<and> (\<forall>m \<in> set ms. fst m \<le> t) \<and>
       (case known of None \<Rightarrow> True | Some (t0, _) \<Rightarrow> t0 \<le> t)"
proof (induction ms arbitrary: known)
  case (Cons m ms)
  show ?case using Cons.IH [of "lww_step m known"]
    by (cases m) (auto simp: lww_step_def lww_newer_def split: option.splits if_splits)
qed (auto split: option.splits)

text \<open>A sequence of merges, each of which may fail; the world is threaded through.\<close>

fun deliver :: "('m \<Rightarrow> ('w, bool) stmt) \<Rightarrow> 'm list \<Rightarrow> 'w \<Rightarrow> 'w" where
  "deliver merge [] w = w"
| "deliver merge (m # ms) w = deliver merge ms (snd (merge m w))"

locale last_writer_wins =
  fixes key :: "'m \<Rightarrow> 'k"
    and stamped :: "'m \<Rightarrow> int \<times> 'v"
    and merge :: "'m \<Rightarrow> ('w, bool) stmt"
    and known :: "'k \<Rightarrow> 'w \<Rightarrow> (int \<times> 'v) option"
    and valid :: "'m \<Rightarrow> 'w \<Rightarrow> bool"
  assumes merge_known: "valid m w \<Longrightarrow>
      known k (snd (merge m w)) = (if k = key m then lww_step (stamped m) (known k w) else known k w)"
    and merge_report: "valid m w \<Longrightarrow> fst (merge m w) = Inr (lww_newer (fst (stamped m)) (known (key m) w))"
    and merge_valid: "valid m w \<Longrightarrow> valid m' w \<Longrightarrow> valid m' (snd (merge m w))"
begin

lemma deliver_known:
  assumes "\<forall>m \<in> set ms. valid m w"
  shows "known k (deliver merge ms w) = fold lww_step (map stamped (filter (\<lambda>m. key m = k) ms)) (known k w)"
  using assms
proof (induction ms arbitrary: w)
  case (Cons m ms)
  then have "\<forall>m' \<in> set ms. valid m' (snd (merge m w))" by (simp add: merge_valid)
  with Cons show ?case by (simp add: merge_known)
qed simp

text \<open>Two replicas that receive the same gossip in any two orders agree.\<close>

lemma convergence:
  assumes "\<forall>m \<in> set ms. valid m w" and "mset ms = mset ms'"
    and "\<And>k. lww_consistent (stamped ` {m \<in> set ms. key m = k})"
  shows "known k (deliver merge ms w) = known k (deliver merge ms' w)"
proof -
  have "set ms = set ms'" using assms(2) by (metis set_mset_mset)
  then have "\<forall>m \<in> set ms'. valid m w" using assms(1) by simp
  moreover have "mset (map stamped (filter (\<lambda>m. key m = k) ms)) = mset (map stamped (filter (\<lambda>m. key m = k) ms'))"
    using assms(2) by (simp add: mset_filter)
  moreover have "set (map stamped (filter (\<lambda>m. key m = k) ms)) = stamped ` {m \<in> set ms. key m = k}" by auto
  ultimately show ?thesis
    using lww_fold_perm [of "map stamped (filter (\<lambda>m. key m = k) ms)" "map stamped (filter (\<lambda>m. key m = k) ms')"]
      assms(1,3)
    by (simp add: deliver_known)
qed

text \<open>Delivering a message again changes nothing and reports no change.\<close>

lemma redelivery:
  assumes "valid m w"
  shows "known k (snd (merge m (snd (merge m w)))) = known k (snd (merge m w)) \<and>
    fst (merge m (snd (merge m w))) = Inr False"
proof -
  have "valid m (snd (merge m w))" using assms by (simp add: merge_valid)
  with assms have "fst (merge m (snd (merge m w))) = Inr (lww_newer (fst (stamped m)) (lww_step (stamped m) (known (key m) w)))"
    by (simp add: merge_report merge_known)
  moreover have "\<not> lww_newer (fst (stamped m)) (lww_step (stamped m) (known (key m) w))"
    by (auto simp: lww_newer_def lww_step_def split: option.splits)
  ultimately show ?thesis using assms by (simp add: merge_known merge_valid lww_step_idem)
qed

end

section \<open>Channels that drop\<close>

text \<open>\<^verbatim>\<open>select { case ch <- x: default: }\<close> on a channel with the given capacity.\<close>

definition offer :: "nat \<Rightarrow> 'x \<Rightarrow> 'x list \<Rightarrow> 'x list" where
  "offer cap x q = (if length q < cap then q @ [x] else q)"

datatype 'x chan_op = Send 'x | Recv

fun chan_run :: "('x \<Rightarrow> 'w \<Rightarrow> 'w) \<Rightarrow> ('w \<Rightarrow> 'x option \<times> 'w) \<Rightarrow> 'x chan_op list \<Rightarrow> 'w \<Rightarrow> 'x list \<times> 'w" where
  "chan_run send recv [] w = ([], w)"
| "chan_run send recv (Send x # ops) w = chan_run send recv ops (send x w)"
| "chan_run send recv (Recv # ops) w =
     (let (r, w1) = recv w; (rs, w2) = chan_run send recv ops w1
      in (case r of None \<Rightarrow> rs | Some x \<Rightarrow> x # rs, w2))"

fun sends :: "'x chan_op list \<Rightarrow> 'x list" where
  "sends [] = []"
| "sends (Send x # ops) = x # sends ops"
| "sends (Recv # ops) = sends ops"

locale drop_channel =
  fixes cap :: nat
    and send :: "'x \<Rightarrow> 'w \<Rightarrow> 'w"
    and recv :: "'w \<Rightarrow> 'x option \<times> 'w"
    and queue :: "'w \<Rightarrow> 'x list"
    and live :: "'w \<Rightarrow> bool"
  assumes send_queue: "live w \<Longrightarrow> queue (send x w) = offer cap x (queue w)"
    and send_live: "live w \<Longrightarrow> live (send x w)"
    and recv_result: "live w \<Longrightarrow> fst (recv w) = (case queue w of [] \<Rightarrow> None | x # _ \<Rightarrow> Some x)"
    and recv_queue: "live w \<Longrightarrow> queue (snd (recv w)) = tl (queue w)"
    and recv_live: "live w \<Longrightarrow> live (snd (recv w))"
begin

lemma run_order:
  assumes "live w" and "chan_run send recv ops w = (received, w')"
  shows "subseq (received @ queue w') (queue w @ sends ops) \<and> (length (queue w) \<le> cap \<longrightarrow> length (queue w') \<le> cap)"
  using assms
proof (induction ops arbitrary: w received)
  case (Cons op ops)
  show ?case
  proof (cases op)
    case (Send x)
    with Cons.prems have r: "chan_run send recv ops (send x w) = (received, w')" by simp
    have IH: "subseq (received @ queue w') (offer cap x (queue w) @ sends ops)"
      "length (offer cap x (queue w)) \<le> cap \<longrightarrow> length (queue w') \<le> cap"
      using Cons.IH [OF send_live [OF Cons.prems(1)] r] by (simp_all add: send_queue Cons.prems(1))
    have "subseq (queue w @ sends ops) (queue w @ x # sends ops)"
      by (intro list_emb_append_mono subseq_order.order_refl list_emb_Cons)
    then have "subseq (offer cap x (queue w) @ sends ops) (queue w @ x # sends ops)" by (simp add: offer_def)
    with IH show ?thesis
      by (auto simp: Send offer_def intro: subseq_order.order_trans)
  next
    case Recv
    obtain y w1 where y: "recv w = (y, w1)" by force
    obtain rs where r: "chan_run send recv ops w1 = (rs, w')" "received = (case y of None \<Rightarrow> rs | Some x \<Rightarrow> x # rs)"
      using Cons.prems(2) y by (auto simp: Recv split: prod.splits)
    have w1: "live w1" "queue w1 = tl (queue w)" "y = (case queue w of [] \<Rightarrow> None | x # _ \<Rightarrow> Some x)"
      using recv_live [OF Cons.prems(1)] recv_queue [OF Cons.prems(1)] recv_result [OF Cons.prems(1)] y by simp_all
    from Cons.IH [OF w1(1) r(1)] w1 r(2) show ?thesis
      by (cases "queue w") (auto simp: Recv)
  qed
qed simp

end

end
