(* ===== verification/Registry.thy ===== *)
theory Registry
  imports Storage Routing Identity Contracts
begin

text \<open>
  \<^verbatim>\<open>hub/internal/registry/registry.go\<close>: typed access to \<^verbatim>\<open>node_registry\<close>, \<^verbatim>\<open>routing_table\<close>,
  \<^verbatim>\<open>hub_registry\<close> and \<^verbatim>\<open>relay_hubs\<close>. One definition per method, every statement of it included.

  Shown: the transactional operations are atomic under any failures of the driver and have exactly
  the documented effect when they succeed; a stored route is read back; gossip merges are
  last-writer-wins and converge whatever the order of delivery; every operation keeps the
  constraints of the schema.
\<close>

section \<open>Data\<close>

record Node =
  n_NodeID :: NodeID
  n_FirstSeen :: time
  n_LastSeen :: time
  n_Status :: string
  n_LastLat :: "float64 option"
  n_LastLon :: "float64 option"
  n_Handle :: string
  n_HomeLat :: "float64 option"
  n_HomeLon :: "float64 option"

record Route =
  Destination :: NodeID
  NextHop :: NodeID
  TQ :: float64
  LatencyMs :: int
  HopCount :: int

record Hub =
  h_HubID :: NodeID
  h_LastIP :: string
  h_LastPort :: int
  h_RelayCapable :: bool
  h_FirstSeen :: time
  h_LastSeen :: time
  h_Status :: string

record RelayHubRow =
  r_HubID :: NodeID
  r_IP :: string
  r_Port :: int
  r_Source :: string
  r_LastVerified :: time

abbreviation NodeStatusOnline :: string where "NodeStatusOnline \<equiv> ''online''"
abbreviation NodeStatusStale :: string where "NodeStatusStale \<equiv> ''stale''"
abbreviation HubStatusOnline :: string where "HubStatusOnline \<equiv> ''online''"
abbreviation HubStatusStale :: string where "HubStatusStale \<equiv> ''stale''"

text \<open>\<^verbatim>\<open>copy(id[:], idBytes)\<close>\<close>

definition scan_id :: "bytes \<Rightarrow> NodeID" where
  "scan_id b = copy_array node_id_len b"

lemma scan_id_exact [simp]: "length b = 32 \<Longrightarrow> scan_id b = b"
  by (simp add: scan_id_def node_id_len_def)

definition bind_real_ptr :: "float64 option \<Rightarrow> float64 option" where
  "bind_real_ptr p = Option.bind p bind_real"

section \<open>Nodes\<close>

definition new_node_row :: "NodeID \<Rightarrow> int \<Rightarrow> node_row" where
  "new_node_row nodeID ts = \<lparr>nr_id = nodeID, nr_first_seen = ts, nr_last_seen = ts,
     nr_last_lat = None, nr_last_lon = None, nr_status = ''online'', nr_handle = None,
     nr_home_lat = None, nr_home_lon = None\<rparr>"

definition UpsertSeen :: "NodeID \<Rightarrow> time \<Rightarrow> ('a DB_scheme, bool) stmt" where
  "UpsertSeen nodeID seenAt = (let ts = UnixMilli seenAt in
     transaction
       (bnd (query (\<lambda>w. map_option nr_status (find_row nr_id nodeID (node_registry w))))
         (\<lambda>found. case found of
            None \<Rightarrow>
              bnd (exec (insert_stmt nr_id node_registry node_registry_update (new_node_row nodeID ts)))
                (\<lambda>_. ret True)
          | Some status \<Rightarrow>
              bnd (exec (update_stmt node_registry node_registry_update (\<lambda>r. nr_id r = nodeID)
                     (\<lambda>r. r\<lparr>nr_last_seen := ts, nr_status := ''online''\<rparr>)))
                (\<lambda>_. ret (status \<noteq> NodeStatusOnline)))))"

definition UpdateProfile ::
  "NodeID \<Rightarrow> string option \<Rightarrow> float64 option \<Rightarrow> float64 option \<Rightarrow> ('a DB_scheme, unit) stmt" where
  "UpdateProfile nodeID handle homeLat homeLon =
     bnd (case handle of
            None \<Rightarrow> ret ()
          | Some given \<Rightarrow>
              let trimmed = TrimSpace given;
                  h = (if trimmed \<noteq> [] then Some trimmed else None)
              in bnd (exec (update_stmt node_registry node_registry_update (\<lambda>r. nr_id r = nodeID)
                        (\<lambda>r. r\<lparr>nr_handle := h\<rparr>))) (\<lambda>_. ret ()))
       (\<lambda>_. case (homeLat, homeLon) of
              (Some la, Some lo) \<Rightarrow>
                bnd (exec (update_stmt node_registry node_registry_update (\<lambda>r. nr_id r = nodeID)
                       (\<lambda>r. r\<lparr>nr_home_lat := bind_real la, nr_home_lon := bind_real lo\<rparr>)))
                  (\<lambda>_. ret ())
            | _ \<Rightarrow> ret ())"

definition UpdateLocation ::
  "NodeID \<Rightarrow> float64 \<Rightarrow> float64 \<Rightarrow> time \<Rightarrow> ('a DB_scheme, unit) stmt" where
  "UpdateLocation nodeID lat lon observedAt =
     bnd (exec (update_stmt node_registry node_registry_update (\<lambda>r. nr_id r = nodeID)
            (\<lambda>r. r\<lparr>nr_last_lat := bind_real lat, nr_last_lon := bind_real lon,
                   nr_last_seen := max (nr_last_seen r) (UnixMilli observedAt)\<rparr>)))
       (\<lambda>_. ret ())"

definition node_overdue :: "int \<Rightarrow> node_row \<Rightarrow> bool" where
  "node_overdue cutoffMs r = (nr_status r = ''online'' \<and> nr_last_seen r < cutoffMs)"

definition MarkStaleBefore :: "time \<Rightarrow> ('a DB_scheme, NodeID list) stmt" where
  "MarkStaleBefore cutoff = (let cutoffMs = UnixMilli cutoff in
     transaction
       (bnd (query (\<lambda>w. map (\<lambda>r. scan_id (nr_id r)) (filter (node_overdue cutoffMs) (node_registry w))))
         (\<lambda>stale.
            bnd (if stale \<noteq> [] then
                   exec (update_stmt node_registry node_registry_update (node_overdue cutoffMs)
                     (\<lambda>r. r\<lparr>nr_status := ''stale''\<rparr>))
                 else ret 0)
              (\<lambda>_. ret stale))))"

definition to_Node :: "node_row \<Rightarrow> Node" where
  "to_Node r = \<lparr>n_NodeID = scan_id (nr_id r), n_FirstSeen = fromUnixMilli (nr_first_seen r),
     n_LastSeen = fromUnixMilli (nr_last_seen r), n_Status = nr_status r,
     n_LastLat = nr_last_lat r, n_LastLon = nr_last_lon r,
     n_Handle = (case nr_handle r of None \<Rightarrow> '''' | Some h \<Rightarrow> h),
     n_HomeLat = nr_home_lat r, n_HomeLon = nr_home_lon r\<rparr>"

definition Nodes :: "('a DB_scheme, Node list) stmt" where
  "Nodes = query (\<lambda>w. map to_Node (node_registry w))"

section \<open>Routes\<close>

definition route_row_of :: "Route \<Rightarrow> route_row" where
  "route_row_of route = \<lparr>rt_dest = Destination route, rt_next = NextHop route, rt_tq = TQ route,
     rt_latency = LatencyMs route, rt_hops = HopCount route\<rparr>"

definition to_Route :: "route_row \<Rightarrow> Route" where
  "to_Route r = \<lparr>Destination = scan_id (rt_dest r), NextHop = scan_id (rt_next r), TQ = rt_tq r,
     LatencyMs = rt_latency r, HopCount = rt_hops r\<rparr>"

text \<open>\<^verbatim>\<open>tq\<close> is \<^verbatim>\<open>NOT NULL\<close>, so a NaN, which the driver binds as \<^verbatim>\<open>NULL\<close>, is refused.\<close>

definition UpsertRoute :: "Route \<Rightarrow> ('a DB_scheme, unit) stmt" where
  "UpsertRoute route =
     bnd (exec (\<lambda>w. if bind_real (TQ route) = None then Inl NotNullViolation
            else upsert_stmt rt_dest routing_table_update (\<lambda>_. route_row_of route)
                   (route_row_of route) w))
       (\<lambda>_. ret ())"

definition Routes :: "('a DB_scheme, Route list) stmt" where
  "Routes = query (\<lambda>w. map to_Route (routing_table w))"

definition GetRoute :: "NodeID \<Rightarrow> ('a DB_scheme, Route option) stmt" where
  "GetRoute destination =
     query (\<lambda>w. map_option to_Route (find_row rt_dest destination (routing_table w)))"

definition DeleteRoutesViaNextHop :: "NodeID \<Rightarrow> ('a DB_scheme, nat) stmt" where
  "DeleteRoutesViaNextHop nextHop =
     exec (delete_stmt routing_table routing_table_update (\<lambda>r. rt_next r = nextHop))"

section \<open>Hubs\<close>

definition new_hub_row :: "NodeID \<Rightarrow> string \<Rightarrow> int \<Rightarrow> int \<Rightarrow> hub_row" where
  "new_hub_row hubID ip port ts = \<lparr>hr_id = hubID, hr_ip = Some ip, hr_port = Some port,
     hr_relay = 0, hr_first_seen = ts, hr_last_seen = ts, hr_status = ''online'',
     hr_manual_lat = None, hr_manual_lon = None\<rparr>"

definition UpsertHubSeen :: "NodeID \<Rightarrow> string \<Rightarrow> int \<Rightarrow> time \<Rightarrow> ('a DB_scheme, bool) stmt" where
  "UpsertHubSeen hubID ip port seenAt = (let ts = UnixMilli seenAt in
     transaction
       (bnd (query (\<lambda>w. map_option hr_status (find_row hr_id hubID (hub_registry w))))
         (\<lambda>found. case found of
            None \<Rightarrow>
              bnd (exec (insert_stmt hr_id hub_registry hub_registry_update (new_hub_row hubID ip port ts)))
                (\<lambda>_. ret True)
          | Some status \<Rightarrow>
              bnd (exec (update_stmt hub_registry hub_registry_update (\<lambda>r. hr_id r = hubID)
                     (\<lambda>r. r\<lparr>hr_ip := Some ip, hr_port := Some port, hr_last_seen := ts,
                            hr_status := ''online''\<rparr>)))
                (\<lambda>_. ret (status \<noteq> HubStatusOnline)))))"

definition hub_overdue :: "int \<Rightarrow> hub_row \<Rightarrow> bool" where
  "hub_overdue cutoffMs r = (hr_status r = ''online'' \<and> hr_last_seen r < cutoffMs)"

definition MarkHubsStaleBefore :: "time \<Rightarrow> ('a DB_scheme, NodeID list) stmt" where
  "MarkHubsStaleBefore cutoff = (let cutoffMs = UnixMilli cutoff in
     transaction
       (bnd (query (\<lambda>w. map (\<lambda>r. scan_id (hr_id r)) (filter (hub_overdue cutoffMs) (hub_registry w))))
         (\<lambda>stale.
            bnd (if stale \<noteq> [] then
                   exec (update_stmt hub_registry hub_registry_update (hub_overdue cutoffMs)
                     (\<lambda>r. r\<lparr>hr_status := ''stale''\<rparr>))
                 else ret 0)
              (\<lambda>_. ret stale))))"

definition to_Hub :: "hub_row \<Rightarrow> Hub" where
  "to_Hub r = \<lparr>h_HubID = scan_id (hr_id r),
     h_LastIP = (case hr_ip r of None \<Rightarrow> '''' | Some ip \<Rightarrow> ip),
     h_LastPort = (case hr_port r of None \<Rightarrow> 0 | Some p \<Rightarrow> p),
     h_RelayCapable = (hr_relay r \<noteq> 0), h_FirstSeen = fromUnixMilli (hr_first_seen r),
     h_LastSeen = fromUnixMilli (hr_last_seen r), h_Status = hr_status r\<rparr>"

definition Hubs :: "('a DB_scheme, Hub list) stmt" where
  "Hubs = query (\<lambda>w. map to_Hub (order_desc hr_last_seen (hub_registry w)))"

definition SetHubManualLocation :: "NodeID \<Rightarrow> float64 \<Rightarrow> float64 \<Rightarrow> ('a DB_scheme, unit) stmt" where
  "SetHubManualLocation hubID lat lon =
     bnd (exec (update_stmt hub_registry hub_registry_update (\<lambda>r. hr_id r = hubID)
            (\<lambda>r. r\<lparr>hr_manual_lat := bind_real lat, hr_manual_lon := bind_real lon\<rparr>)))
       (\<lambda>_. ret ())"

section \<open>Relays and gossip\<close>

definition to_RelayHubRow :: "relay_row \<Rightarrow> RelayHubRow" where
  "to_RelayHubRow r = \<lparr>r_HubID = scan_id (rh_id r), r_IP = rh_ip r, r_Port = rh_port r,
     r_Source = rh_source r, r_LastVerified = fromUnixMilli (rh_verified r)\<rparr>"

definition ListRelayHubs :: "('a DB_scheme, RelayHubRow list) stmt" where
  "ListRelayHubs = query (\<lambda>w. map to_RelayHubRow (relay_hubs w))"

definition UpsertGossipRelay :: "NodeID \<Rightarrow> string \<Rightarrow> int \<Rightarrow> time \<Rightarrow> ('a DB_scheme, bool) stmt" where
  "UpsertGossipRelay hubID ip port verifiedAt = (let verifiedMs = UnixMilli verifiedAt in
     bnd (query (\<lambda>w. map_option rh_verified (find_row rh_id hubID (relay_hubs w))))
       (\<lambda>found. case found of
          None \<Rightarrow>
            bnd (exec (insert_stmt rh_id relay_hubs relay_hubs_update
                   \<lparr>rh_id = hubID, rh_ip = ip, rh_port = port, rh_source = ''gossip'',
                    rh_verified = verifiedMs\<rparr>))
              (\<lambda>_. ret True)
        | Some existingMs \<Rightarrow>
            if verifiedMs \<le> existingMs then ret False
            else bnd (exec (update_stmt relay_hubs relay_hubs_update (\<lambda>r. rh_id r = hubID)
                        (\<lambda>r. r\<lparr>rh_ip := ip, rh_port := port, rh_source := ''gossip'',
                               rh_verified := verifiedMs\<rparr>)))
                   (\<lambda>_. ret True)))"

definition MergeGossipNode ::
  "NodeID \<Rightarrow> time \<Rightarrow> time \<Rightarrow> string \<Rightarrow> float64 option \<Rightarrow> float64 option \<Rightarrow> ('a DB_scheme, bool) stmt" where
  "MergeGossipNode nodeID firstSeen lastSeen status lat lon = (let lastMs = UnixMilli lastSeen in
     bnd (query (\<lambda>w. map_option nr_last_seen (find_row nr_id nodeID (node_registry w))))
       (\<lambda>found. case found of
          None \<Rightarrow>
            bnd (exec (insert_stmt nr_id node_registry node_registry_update
                   \<lparr>nr_id = nodeID, nr_first_seen = UnixMilli firstSeen, nr_last_seen = lastMs,
                    nr_last_lat = bind_real_ptr lat, nr_last_lon = bind_real_ptr lon,
                    nr_status = status, nr_handle = None, nr_home_lat = None, nr_home_lon = None\<rparr>))
              (\<lambda>_. ret True)
        | Some localLast \<Rightarrow>
            if lastMs \<le> localLast then ret False
            else bnd (exec (update_stmt node_registry node_registry_update (\<lambda>r. nr_id r = nodeID)
                        (\<lambda>r. r\<lparr>nr_last_seen := lastMs,
                               nr_last_lat := COALESCE (bind_real_ptr lat) (nr_last_lat r),
                               nr_last_lon := COALESCE (bind_real_ptr lon) (nr_last_lon r),
                               nr_status := status\<rparr>)))
                   (\<lambda>_. ret True)))"

section \<open>Liveness: the contract of the two registries\<close>

text \<open>
  \<^verbatim>\<open>node_registry\<close> and \<^verbatim>\<open>hub_registry\<close> offer their clients (the OGM engine, the heartbeat listener, LAN
  discovery) the same contract: a sighting makes an entry online and says whether that is news, a
  sweep makes the overdue entries stale and lists exactly these, and an operation that fails
  changes nothing.
\<close>

definition overdue :: "time \<Rightarrow> (int \<times> string) option \<Rightarrow> bool" where
  "overdue cutoff s = (case s of None \<Rightarrow> False | Some (seen_ms, st) \<Rightarrow> st = ''online'' \<and> seen_ms < UnixMilli cutoff)"

definition is_online :: "(int \<times> string) option \<Rightarrow> bool" where
  "is_online s = (map_option snd s = Some ''online'')"

datatype 'i live_op = Seen 'i time | Sweep time

datatype live_event = BecameOnline | BecameStale

text \<open>The notifications that one operation gives rise to for the entry \<open>k\<close>.\<close>

fun live_step :: "('i \<Rightarrow> bytes) \<Rightarrow> ('i \<Rightarrow> time \<Rightarrow> ('w, bool) stmt) \<Rightarrow> (time \<Rightarrow> ('w, bytes list) stmt) \<Rightarrow>
    bytes \<Rightarrow> 'i live_op \<Rightarrow> 'w \<Rightarrow> live_event list \<times> 'w" where
  "live_step key seen sweep k (Seen i t) w =
     (case seen i t w of
        (Inl e, w') \<Rightarrow> ([], w')
      | (Inr changed, w') \<Rightarrow> (if changed \<and> key i = k then [BecameOnline] else [], w'))"
| "live_step key seen sweep k (Sweep c) w =
     (case sweep c w of
        (Inl e, w') \<Rightarrow> ([], w')
      | (Inr ids, w') \<Rightarrow> (if k \<in> set ids then [BecameStale] else [], w'))"

fun live_run where
  "live_run key seen sweep k [] w = ([], w)"
| "live_run key seen sweep k (x # xs) w =
     (let (evs, w1) = live_step key seen sweep k x w; (evs', w2) = live_run key seen sweep k xs w1
      in (evs @ evs', w2))"

text \<open>A stream of notifications alternates, starting with \<open>BecameOnline\<close> for an entry that is not online.\<close>

fun alternates :: "bool \<Rightarrow> live_event list \<Rightarrow> bool" where
  "alternates online [] = True"
| "alternates online (e # es) = (e = (if online then BecameStale else BecameOnline) \<and> alternates (\<not> online) es)"

definition online_after :: "bool \<Rightarrow> live_event list \<Rightarrow> bool" where
  "online_after online es = (if es = [] then online else last es = BecameOnline)"

fun live_valid :: "('i \<Rightarrow> bytes) \<Rightarrow> 'i live_op \<Rightarrow> bool" where
  "live_valid key (Seen i t) = (length (key i) = 32)"
| "live_valid key (Sweep c) = True"

locale liveness =
  fixes key :: "'i \<Rightarrow> bytes"
    and seen :: "'i \<Rightarrow> time \<Rightarrow> ('w, bool) stmt"
    and sweep :: "time \<Rightarrow> ('w, bytes list) stmt"
    and state :: "bytes \<Rightarrow> 'w \<Rightarrow> (int \<times> string) option"
    and ok :: "'w \<Rightarrow> bool"
  assumes seen_ok: "ok w \<Longrightarrow> length (key i) = 32 \<Longrightarrow> ok (snd (seen i t w))"
    and sweep_ok: "ok w \<Longrightarrow> ok (snd (sweep c w))"
    and seen_failed: "seen i t w = (Inl e, w') \<Longrightarrow> state k w' = state k w"
    and sweep_failed: "sweep c w = (Inl e, w') \<Longrightarrow> state k w' = state k w"
    and seen_changed: "seen i t w = (Inr changed, w') \<Longrightarrow> changed \<longleftrightarrow> \<not> is_online (state (key i) w)"
    and seen_state: "seen i t w = (Inr changed, w') \<Longrightarrow>
      state k w' = (if k = key i then Some (UnixMilli t, ''online'') else state k w)"
    and sweep_ids: "ok w \<Longrightarrow> sweep c w = (Inr ids, w') \<Longrightarrow> k \<in> set ids \<longleftrightarrow> overdue c (state k w)"
    and sweep_state: "sweep c w = (Inr ids, w') \<Longrightarrow>
      state k w' = (if overdue c (state k w) then map_option (\<lambda>(l, _). (l, ''stale'')) (state k w) else state k w)"
begin

lemma step_ok: "ok w \<Longrightarrow> live_valid key x \<Longrightarrow> ok (snd (live_step key seen sweep k x w))"
proof (cases x)
  case (Seen i t)
  assume "ok w" "live_valid key x"
  with Seen seen_ok [of w i t] show ?thesis by (auto split: prod.splits sum.splits)
next
  case (Sweep c)
  assume "ok w"
  with Sweep sweep_ok [of w c] show ?thesis by (auto split: prod.splits sum.splits)
qed

lemma step_alternates:
  assumes "ok w" and "live_step key seen sweep k x w = (evs, w')"
  shows "alternates (is_online (state k w)) evs \<and>
    is_online (state k w') = online_after (is_online (state k w)) evs"
proof (cases x)
  case (Seen i t)
  obtain r w'' where s: "seen i t w = (r, w'')" by force
  show ?thesis
  proof (cases r)
    case (Inl e)
    with s Seen assms seen_failed [of i t w e w'' k] show ?thesis by (simp add: online_after_def)
  next
    case (Inr changed)
    with s seen_changed [of i t w changed w''] seen_state [of i t w changed w'' k] Seen assms
    show ?thesis by (auto simp: online_after_def is_online_def)
  qed
next
  case (Sweep c)
  obtain r w'' where s: "sweep c w = (r, w'')" by force
  show ?thesis
  proof (cases r)
    case (Inl e)
    with s Sweep assms sweep_failed [of c w e w'' k] show ?thesis by (simp add: online_after_def)
  next
    case (Inr ids)
    with s Sweep assms sweep_ids [of w c ids w'' k] sweep_state [of c w ids w'' k]
    show ?thesis by (auto simp: online_after_def is_online_def overdue_def split: option.splits)
  qed
qed

lemma online_after_Cons: "online_after b (e # es) = online_after (e = BecameOnline) es"
  by (simp add: online_after_def)

lemma online_after_append: "online_after b (es @ es') = online_after (online_after b es) es'"
  by (simp add: online_after_def)

lemma alternates_append:
  "alternates b (es @ es') \<longleftrightarrow> alternates b es \<and> alternates (online_after b es) es'"
proof (induction es arbitrary: b)
  case (Cons e es)
  show ?case
    by (cases b; cases e) (simp_all add: Cons.IH online_after_Cons)
qed (simp add: online_after_def)

text \<open>The notifications of any run alternate, and the last one tells the final status.\<close>

lemma run_alternates:
  "ok w \<Longrightarrow> \<forall>x \<in> set xs. live_valid key x \<Longrightarrow> live_run key seen sweep k xs w = (evs, w') \<Longrightarrow>
   alternates (is_online (state k w)) evs \<and>
   is_online (state k w') = online_after (is_online (state k w)) evs"
proof (induction xs arbitrary: w evs)
  case (Cons x xs)
  obtain evs1 w1 where 1: "live_step key seen sweep k x w = (evs1, w1)" by force
  obtain evs2 w2 where 2: "live_run key seen sweep k xs w1 = (evs2, w2)" by force
  have r: "evs = evs1 @ evs2" "w' = w2" using Cons.prems(3) by (simp_all add: 1 2)
  have "ok w1" using step_ok [of w x k] Cons.prems 1 by simp
  with Cons.IH [of w1 evs2] Cons.prems 2 r
  have IH: "alternates (is_online (state k w1)) evs2 \<and>
      is_online (state k w') = online_after (is_online (state k w1)) evs2" by simp
  with step_alternates [OF Cons.prems(1) 1] show ?case
    by (simp add: r alternates_append online_after_append)
qed (simp add: online_after_def)

text \<open>A second sweep with the same deadline has nothing left to report.\<close>

lemma sweep_twice:
  assumes "ok w" and "sweep c w = (Inr ids, w1)" and "sweep c w1 = (Inr ids', w2)"
  shows "ids' = []"
proof -
  have "ok w1" using sweep_ok [OF assms(1), of c] assms(2) by simp
  have "\<not> overdue c (state k w1)" for k
    using sweep_state [OF assms(2), of k] by (auto simp: overdue_def split: option.splits if_splits)
  with sweep_ids [OF \<open>ok w1\<close> assms(3)] have "k \<notin> set ids'" for k by simp
  then show ?thesis by (cases ids') auto
qed

end

section \<open>Atomic updates of the registries\<close>

text \<open>A successful query or statement inside a longer operation, whatever the script of failures.\<close>

lemma query_Inr:
  assumes "bnd (query f) k w = (Inr x, w')"
  obtains fs where "k (f (w\<lparr>faults := fs\<rparr>)) (w\<lparr>faults := fs\<rparr>) = (Inr x, w')"
  using assms by (cases rule: query_cases [of f w]) (auto simp: bnd_def)

lemma exec_Inr:
  assumes "bnd (exec f) k w = (Inr x, w')"
  obtains fs n w1 where "f (w\<lparr>faults := fs\<rparr>) = Inr (n, w1)" and "k n w1 = (Inr x, w')"
  using assms by (cases rule: exec_cases [of f w]) (auto simp: bnd_def)

lemma tables_eqD:
  assumes "tables v = tables w"
  shows "node_registry v = node_registry w" "hub_registry v = hub_registry w"
    "routing_table v = routing_table w"
  using assms tables_fields by metis+

lemma tables_upd_eqD:
  "tables w' = (tables w)\<lparr>node_registry := rows\<rparr> \<Longrightarrow> node_registry w' = rows"
  "tables w' = (tables w)\<lparr>hub_registry := hrows\<rparr> \<Longrightarrow> hub_registry w' = hrows"
  by (drule arg_cong [where f = node_registry], simp)
    (drule arg_cong [where f = hub_registry], simp)

lemma UpsertSeen_success:
  assumes "UpsertSeen nodeID seenAt w = (Inr changed, w')"
  shows "tables w' = (tables w)\<lparr>node_registry := upsert_row nr_id
             (\<lambda>r. r\<lparr>nr_last_seen := UnixMilli seenAt, nr_status := ''online''\<rparr>)
             (new_node_row nodeID (UnixMilli seenAt)) (node_registry w)\<rparr>
    \<and> (changed \<longleftrightarrow> map_option nr_status (find_row nr_id nodeID (node_registry w)) \<noteq> Some NodeStatusOnline)"
  by (insert assms, unfold UpsertSeen_def Let_def, elim transaction_success query_Inr, frule tables_eqD(1),
      auto simp: stmt_defs upsert_row_def new_node_row_def split: option.splits if_splits elim!: exec_Inr)

lemma MarkStaleBefore_success:
  assumes "MarkStaleBefore cutoff w = (Inr ids, w')"
  shows "tables w' = (tables w)\<lparr>node_registry := update_rows (node_overdue (UnixMilli cutoff))
             (\<lambda>r. r\<lparr>nr_status := ''stale''\<rparr>) (node_registry w)\<rparr>
    \<and> ids = map (\<lambda>r. scan_id (nr_id r)) (filter (node_overdue (UnixMilli cutoff)) (node_registry w))"
  by (insert assms, unfold MarkStaleBefore_def Let_def, elim transaction_success query_Inr, frule tables_eqD(1),
      auto simp: stmt_defs update_rows_none filter_empty_conv split: if_splits elim!: exec_Inr)

lemma UpsertHubSeen_success:
  assumes "UpsertHubSeen hubID ip port seenAt w = (Inr changed, w')"
  shows "tables w' = (tables w)\<lparr>hub_registry := upsert_row hr_id
             (\<lambda>r. r\<lparr>hr_ip := Some ip, hr_port := Some port, hr_last_seen := UnixMilli seenAt,
                    hr_status := ''online''\<rparr>)
             (new_hub_row hubID ip port (UnixMilli seenAt)) (hub_registry w)\<rparr>
    \<and> (changed \<longleftrightarrow> map_option hr_status (find_row hr_id hubID (hub_registry w)) \<noteq> Some HubStatusOnline)"
  by (insert assms, unfold UpsertHubSeen_def Let_def, elim transaction_success query_Inr, frule tables_eqD(2),
      auto simp: stmt_defs upsert_row_def new_hub_row_def split: option.splits if_splits elim!: exec_Inr)

lemma MarkHubsStaleBefore_success:
  assumes "MarkHubsStaleBefore cutoff w = (Inr ids, w')"
  shows "tables w' = (tables w)\<lparr>hub_registry := update_rows (hub_overdue (UnixMilli cutoff))
             (\<lambda>r. r\<lparr>hr_status := ''stale''\<rparr>) (hub_registry w)\<rparr>
    \<and> ids = map (\<lambda>r. scan_id (hr_id r)) (filter (hub_overdue (UnixMilli cutoff)) (hub_registry w))"
  by (insert assms, unfold MarkHubsStaleBefore_def Let_def, elim transaction_success query_Inr, frule tables_eqD(2),
      auto simp: stmt_defs update_rows_none filter_empty_conv split: if_splits elim!: exec_Inr)

lemma transaction_failed_tables:
  "UpsertSeen nodeID seenAt w = (Inl e, w') \<Longrightarrow> tables w' = tables w"
  "MarkStaleBefore cutoff w = (Inl e, w') \<Longrightarrow> tables w' = tables w"
  "UpsertHubSeen hubID ip port seenAt w = (Inl e, w') \<Longrightarrow> tables w' = tables w"
  "MarkHubsStaleBefore cutoff w = (Inl e, w') \<Longrightarrow> tables w' = tables w"
  unfolding UpsertSeen_def MarkStaleBefore_def UpsertHubSeen_def MarkHubsStaleBefore_def Let_def
  by (erule transaction_atomic)+

definition node_state :: "bytes \<Rightarrow> 'a DB_scheme \<Rightarrow> (int \<times> string) option" where
  "node_state k w = map_option (\<lambda>r. (nr_last_seen r, nr_status r)) (find_row nr_id k (node_registry w))"

definition node_table_ok :: "'a DB_scheme \<Rightarrow> bool" where
  "node_table_ok w = (unique_key nr_id (node_registry w) \<and> (\<forall>r \<in> set (node_registry w). length (nr_id r) = 32))"

definition hub_state :: "bytes \<Rightarrow> 'a DB_scheme \<Rightarrow> (int \<times> string) option" where
  "hub_state k w = map_option (\<lambda>r. (hr_last_seen r, hr_status r)) (find_row hr_id k (hub_registry w))"

definition hub_table_ok :: "'a DB_scheme \<Rightarrow> bool" where
  "hub_table_ok w = (unique_key hr_id (hub_registry w) \<and> (\<forall>r \<in> set (hub_registry w). length (hr_id r) = 32))"

lemma in_map_filter_key:
  assumes "unique_key key rows" and "\<forall>r \<in> set rows. length (key r) = 32"
  shows "k \<in> set (map (\<lambda>r. scan_id (key r)) (filter P rows)) \<longleftrightarrow>
    (\<exists>r. find_row key k rows = Some r \<and> P r)"
proof
  assume "k \<in> set (map (\<lambda>r. scan_id (key r)) (filter P rows))"
  then obtain r where "r \<in> set rows" "P r" "k = key r" using assms(2) by auto
  with find_row_in [OF assms(1)] show "\<exists>r. find_row key k rows = Some r \<and> P r" by blast
next
  assume "\<exists>r. find_row key k rows = Some r \<and> P r"
  then obtain r where "r \<in> set rows" "key r = k" "P r" by (auto dest: find_row_Some_in)
  with assms(2) show "k \<in> set (map (\<lambda>r. scan_id (key r)) (filter P rows))" by force
qed

lemma set_upsert_row:
  "r \<in> set (upsert_row key upd new rows) \<Longrightarrow>
     r = new \<or> r \<in> set rows \<or> (\<exists>r0 \<in> set rows. key r0 = key new \<and> r = upd r0)"
  by (auto simp: upsert_row_def set_update_rows split: if_splits)

lemma keys_upsert_row:
  assumes "\<And>r. key (upd r) = key r" and "Q (key new)" and "\<forall>r \<in> set rows. Q (key r)"
  shows "\<forall>r \<in> set (upsert_row key upd new rows). Q (key r)"
  using assms by (auto dest!: set_upsert_row)

lemma keys_update_rows:
  assumes "\<And>r. key (f r) = key r" and "\<forall>r \<in> set rows. Q (key r)"
  shows "\<forall>r \<in> set (update_rows P f rows). Q (key r)"
  using assms by (auto simp: set_update_rows)

lemma new_row_id [simp]: "nr_id (new_node_row k t) = k" "hr_id (new_hub_row k ip port t) = k"
  by (simp_all add: new_node_row_def new_hub_row_def)

text \<open>The rows after each operation, whatever it returned.\<close>

lemma UpsertSeen_rows:
  assumes "UpsertSeen k t w = (r, w')"
  shows "node_registry w' = (case r of Inl _ \<Rightarrow> node_registry w | Inr _ \<Rightarrow>
      upsert_row nr_id (\<lambda>r. r\<lparr>nr_last_seen := UnixMilli t, nr_status := ''online''\<rparr>)
        (new_node_row k (UnixMilli t)) (node_registry w))"
proof (cases r)
  case (Inl e)
  from tables_eqD(1) [OF transaction_failed_tables(1) [OF assms [unfolded Inl]]] Inl show ?thesis by simp
next
  case (Inr c)
  from tables_upd_eqD(1) [OF conjunct1 [OF UpsertSeen_success [OF assms [unfolded Inr]]]] Inr show ?thesis by simp
qed

lemma MarkStaleBefore_rows:
  assumes "MarkStaleBefore c w = (r, w')"
  shows "node_registry w' = (case r of Inl _ \<Rightarrow> node_registry w | Inr _ \<Rightarrow>
      update_rows (node_overdue (UnixMilli c)) (\<lambda>r. r\<lparr>nr_status := ''stale''\<rparr>) (node_registry w))"
proof (cases r)
  case (Inl e)
  from tables_eqD(1) [OF transaction_failed_tables(2) [OF assms [unfolded Inl]]] Inl show ?thesis by simp
next
  case (Inr ids)
  from tables_upd_eqD(1) [OF conjunct1 [OF MarkStaleBefore_success [OF assms [unfolded Inr]]]] Inr show ?thesis by simp
qed

lemma UpsertHubSeen_rows:
  assumes "UpsertHubSeen k ip port t w = (r, w')"
  shows "hub_registry w' = (case r of Inl _ \<Rightarrow> hub_registry w | Inr _ \<Rightarrow>
      upsert_row hr_id (\<lambda>r. r\<lparr>hr_ip := Some ip, hr_port := Some port, hr_last_seen := UnixMilli t,
                    hr_status := ''online''\<rparr>)
        (new_hub_row k ip port (UnixMilli t)) (hub_registry w))"
proof (cases r)
  case (Inl e)
  from tables_eqD(2) [OF transaction_failed_tables(3) [OF assms [unfolded Inl]]] Inl show ?thesis by simp
next
  case (Inr c)
  from tables_upd_eqD(2) [OF conjunct1 [OF UpsertHubSeen_success [OF assms [unfolded Inr]]]] Inr show ?thesis by simp
qed

lemma MarkHubsStaleBefore_rows:
  assumes "MarkHubsStaleBefore c w = (r, w')"
  shows "hub_registry w' = (case r of Inl _ \<Rightarrow> hub_registry w | Inr _ \<Rightarrow>
      update_rows (hub_overdue (UnixMilli c)) (\<lambda>r. r\<lparr>hr_status := ''stale''\<rparr>) (hub_registry w))"
proof (cases r)
  case (Inl e)
  from tables_eqD(2) [OF transaction_failed_tables(4) [OF assms [unfolded Inl]]] Inl show ?thesis by simp
next
  case (Inr ids)
  from tables_upd_eqD(2) [OF conjunct1 [OF MarkHubsStaleBefore_success [OF assms [unfolded Inr]]]] Inr show ?thesis by simp
qed

interpretation node_live: liveness id UpsertSeen MarkStaleBefore node_state node_table_ok
proof (unfold_locales, goal_cases)
  case (1 w i t)
  then show ?case using UpsertSeen_rows [of i t w "fst (UpsertSeen i t w)" "snd (UpsertSeen i t w)"]
    by (auto simp: node_table_ok_def unique_key_upsert_row dest!: set_upsert_row split: sum.splits)
next
  case (2 w c)
  then show ?case using MarkStaleBefore_rows [of c w "fst (MarkStaleBefore c w)" "snd (MarkStaleBefore c w)"]
    by (auto simp: node_table_ok_def unique_key_update_rows set_update_rows split: sum.splits)
next
  case (3 i t w e w' k)
  then show ?case using UpsertSeen_rows [OF 3] by (simp add: node_state_def)
next
  case (4 c w e w' k)
  then show ?case using MarkStaleBefore_rows [OF 4] by (simp add: node_state_def)
next
  case (5 i t w changed w')
  then show ?case using UpsertSeen_success [OF 5] by (simp add: node_state_def is_online_def option.map_comp comp_def)
next
  case (6 i t w changed w' k)
  then show ?case using UpsertSeen_rows [OF 6]
    by (simp add: node_state_def find_row_upsert_row new_node_row_def split: option.split)
next
  case (7 w c ids w' k)
  then have "k \<in> set ids \<longleftrightarrow> (\<exists>r. find_row nr_id k (node_registry w) = Some r \<and> node_overdue (UnixMilli c) r)"
    using MarkStaleBefore_success [OF 7(2)] in_map_filter_key [of nr_id "node_registry w" k]
    by (simp add: node_table_ok_def)
  then show ?case by (auto simp: node_state_def overdue_def node_overdue_def split: option.splits)
next
  case (8 c w ids w' k)
  then show ?case using MarkStaleBefore_rows [OF 8]
    by (auto simp: node_state_def find_row_update_rows overdue_def node_overdue_def split: option.splits)
qed

interpretation hub_live: liveness fst "\<lambda>(k, ip, port). UpsertHubSeen k ip port" MarkHubsStaleBefore hub_state hub_table_ok
proof (unfold_locales, goal_cases)
  case (1 w i t)
  obtain k ip port where i: "i = (k, ip, port)" by (cases i)
  with 1 show ?case
    using UpsertHubSeen_rows [of k ip port t w "fst (UpsertHubSeen k ip port t w)" "snd (UpsertHubSeen k ip port t w)"]
    by (auto simp: hub_table_ok_def unique_key_upsert_row dest!: set_upsert_row split: sum.splits)
next
  case (2 w c)
  then show ?case using MarkHubsStaleBefore_rows [of c w "fst (MarkHubsStaleBefore c w)" "snd (MarkHubsStaleBefore c w)"]
    by (auto simp: hub_table_ok_def unique_key_update_rows set_update_rows split: sum.splits)
next
  case (3 i t w e w' k)
  obtain x ip port where i: "i = (x, ip, port)" by (cases i)
  with 3 show ?case using UpsertHubSeen_rows [of x ip port t w "Inl e" w'] by (simp add: hub_state_def)
next
  case (4 c w e w' k)
  then show ?case using MarkHubsStaleBefore_rows [OF 4] by (simp add: hub_state_def)
next
  case (5 i t w changed w')
  obtain x ip port where i: "i = (x, ip, port)" by (cases i)
  with 5 show ?case using UpsertHubSeen_success [of x ip port t w changed w']
    by (simp add: hub_state_def is_online_def option.map_comp comp_def)
next
  case (6 i t w changed w' k)
  obtain x ip port where i: "i = (x, ip, port)" by (cases i)
  with 6 show ?case using UpsertHubSeen_rows [of x ip port t w "Inr changed" w']
    by (simp add: hub_state_def find_row_upsert_row new_hub_row_def split: option.split)
next
  case (7 w c ids w' k)
  then have "k \<in> set ids \<longleftrightarrow> (\<exists>r. find_row hr_id k (hub_registry w) = Some r \<and> hub_overdue (UnixMilli c) r)"
    using MarkHubsStaleBefore_success [OF 7(2)] in_map_filter_key [of hr_id "hub_registry w" k]
    by (simp add: hub_table_ok_def)
  then show ?case by (auto simp: hub_state_def overdue_def hub_overdue_def split: option.splits)
next
  case (8 c w ids w' k)
  then show ?case using MarkHubsStaleBefore_rows [OF 8]
    by (auto simp: hub_state_def find_row_update_rows overdue_def hub_overdue_def split: option.splits)
qed

text \<open>
  C5. \<^verbatim>\<open>UpsertSeen\<close> is atomic and does what its comment says, whatever statements fail: an error leaves
  every table as it was; success changes \<^verbatim>\<open>node_registry\<close> only, creates the row (online, first and
  last seen now) or refreshes it, leaves every other node alone, and reports a change exactly when
  the node was not online before.
\<close>

theorem UpsertSeen_atomic:
  "case UpsertSeen nodeID seenAt w of
     (Inl e, w') \<Rightarrow> tables w' = tables w
   | (Inr changed, w') \<Rightarrow>
       (tables w' = (tables w)\<lparr>node_registry := node_registry w'\<rparr>) \<and>
       (changed \<longleftrightarrow> \<not> is_online (node_state nodeID w)) \<and>
       (\<forall>k. find_row nr_id k (node_registry w') =
          (if k = nodeID
           then Some (case find_row nr_id nodeID (node_registry w) of
                        None \<Rightarrow> new_node_row nodeID (UnixMilli seenAt)
                      | Some r \<Rightarrow> r\<lparr>nr_last_seen := UnixMilli seenAt, nr_status := ''online''\<rparr>)
           else find_row nr_id k (node_registry w)))"
proof -
  obtain r w' where u: "UpsertSeen nodeID seenAt w = (r, w')" by force
  show ?thesis
  proof (cases r)
    case (Inl e)
    with u transaction_failed_tables(1) [of nodeID seenAt w e w'] show ?thesis by simp
  next
    case (Inr changed)
    note ok = UpsertSeen_success [OF u [unfolded Inr]]
    have "changed \<longleftrightarrow> \<not> is_online (node_state nodeID w)"
      using node_live.seen_changed [of nodeID seenAt w changed w'] u Inr by simp
    moreover have "tables w' = (tables w)\<lparr>node_registry := node_registry w'\<rparr>"
      using ok tables_upd_eqD(1) [OF conjunct1 [OF ok]] by simp
    moreover have "find_row nr_id k (node_registry w') =
          (if k = nodeID
           then Some (case find_row nr_id nodeID (node_registry w) of
                        None \<Rightarrow> new_node_row nodeID (UnixMilli seenAt)
                      | Some r \<Rightarrow> r\<lparr>nr_last_seen := UnixMilli seenAt, nr_status := ''online''\<rparr>)
           else find_row nr_id k (node_registry w))" for k
      unfolding tables_upd_eqD(1) [OF conjunct1 [OF ok]] by (simp add: find_row_upsert_row)
    ultimately show ?thesis by (simp add: u Inr)
  qed
qed

text \<open>
  The stale sweep of the node registry is exact and atomic: it lists the identities of exactly
  the online nodes whose last sighting is before the deadline, makes these and no others stale,
  changes nothing when it fails, and a second sweep with the same deadline lists nothing.
\<close>

theorem MarkStaleBefore_exact:
  assumes "node_table_ok w" and "MarkStaleBefore cutoff w = (r, w')"
  shows "case r of
     Inl e \<Rightarrow> tables w' = tables w
   | Inr ids \<Rightarrow>
       (\<forall>k. k \<in> set ids \<longleftrightarrow> overdue cutoff (node_state k w)) \<and>
       (\<forall>k. node_state k w' = (if k \<in> set ids then map_option (\<lambda>(t, _). (t, ''stale'')) (node_state k w)
                               else node_state k w)) \<and>
       (\<forall>ids' w''. MarkStaleBefore cutoff w' = (Inr ids', w'') \<longrightarrow> ids' = [])"
proof (cases r)
  case (Inl e)
  with assms transaction_failed_tables(2) [of cutoff w e w'] show ?thesis by simp
next
  case (Inr ids)
  note sw = assms(2) [unfolded Inr]
  show ?thesis
    using node_live.sweep_ids [OF assms(1) sw] node_live.sweep_state [OF sw]
      node_live.sweep_twice [OF assms(1) sw]
    by (simp add: Inr)
qed

definition sample_id :: "nat \<Rightarrow> bytes" where
  "sample_id n = replicate 32 (of_nat n)"

lemma length_sample_id [simp]: "length (sample_id n) = 32"
  by (simp add: sample_id_def)

lemma sample_id_eq [simp]: "m < 256 \<Longrightarrow> n < 256 \<Longrightarrow> sample_id m = sample_id n \<longleftrightarrow> m = n"
  by (auto simp: sample_id_def replicate_eq_replicate word_of_nat_eq_iff take_bit_nat_eq_self)

definition sample_nodes :: DB where
  "sample_nodes = empty_DB\<lparr>node_registry := [new_node_row (sample_id 1) 5, new_node_row (sample_id 2) 9]\<rparr>"

lemma sample_nodes_ok: "node_table_ok sample_nodes"
  by (simp add: node_table_ok_def sample_nodes_def unique_key_def)

lemma sample_sweep:
  "MarkStaleBefore (fromUnixMilli 7) sample_nodes = (Inr [sample_id 1],
     sample_nodes\<lparr>node_registry :=
       [(new_node_row (sample_id 1) 5)\<lparr>nr_status := ''stale''\<rparr>, new_node_row (sample_id 2) 9]\<rparr>)"
  unfolding MarkStaleBefore_def Let_def
  by (rule transaction_ok)
    (simp_all add: sample_nodes_def empty_DB_def db_simps node_overdue_def new_node_row_def
      update_stmt_def update_rows_def)

theorem MarkStaleBefore_exact_witness:
  "overdue (fromUnixMilli 7) (node_state (sample_id 1) sample_nodes) \<and>
   \<not> overdue (fromUnixMilli 7) (node_state (sample_id 2) sample_nodes)"
proof -
  have "\<forall>k. k \<in> set [sample_id 1] \<longleftrightarrow> overdue (fromUnixMilli 7) (node_state k sample_nodes)"
    using MarkStaleBefore_exact [OF sample_nodes_ok sample_sweep] by simp
  then have "\<And>k. overdue (fromUnixMilli 7) (node_state k sample_nodes) \<longleftrightarrow> k = sample_id 1" by auto
  then show ?thesis by simp
qed

text \<open>
  C32. The status notifications of a node alternate. Along any interleaving of sightings and stale
  sweeps, with any pattern of database failures, the notifications that the callers emit for one
  node (online when \<^verbatim>\<open>UpsertSeen\<close> reports a change, stale when \<^verbatim>\<open>MarkStaleBefore\<close> lists it) strictly
  alternate, starting with online for a node that is not online, and the last one tells the
  status in the table. No transition is reported twice and none is missed.
\<close>

theorem node_events_alternate:
  assumes "node_table_ok w" and "\<forall>x \<in> set ops. live_valid id x"
    and "live_run id UpsertSeen MarkStaleBefore k ops w = (evs, w')"
  shows "alternates (is_online (node_state k w)) evs \<and>
    is_online (node_state k w') = online_after (is_online (node_state k w)) evs"
  using assms by (rule node_live.run_alternates)

theorem node_events_alternate_witness:
  "alternates True [BecameStale]"
proof -
  let ?ops = "[Sweep (fromUnixMilli 7)] :: bytes live_op list"
  have "live_run id UpsertSeen MarkStaleBefore (sample_id 1) ?ops sample_nodes =
      ([BecameStale], snd (MarkStaleBefore (fromUnixMilli 7) sample_nodes))"
    by (simp add: sample_sweep)
  from node_events_alternate [OF sample_nodes_ok _ this] show ?thesis by simp
qed

section \<open>Stored routes\<close>

definition route_valid :: "Route \<Rightarrow> 'a DB_scheme \<Rightarrow> bool" where
  "route_valid r w = (length (Destination r) = 32 \<and> length (NextHop r) = 32 \<and> TQ r \<noteq> NaN)"

lemma to_Route_row [simp]:
  "length (Destination r) = 32 \<Longrightarrow> length (NextHop r) = 32 \<Longrightarrow> to_Route (route_row_of r) = r"
  by (simp add: to_Route_def route_row_of_def)

lemma UpsertRoute_ok [db_simps]:
  assumes "faults w = []" and "TQ r \<noteq> NaN"
  shows "UpsertRoute r w = (Inr (), routing_table_update
    (upsert_row rt_dest (\<lambda>_. route_row_of r) (route_row_of r)) w)"
  using assms by (simp add: UpsertRoute_def db_simps bind_real_def upsert_stmt_def)

lemma GetRoute_ok [db_simps]:
  "faults w = [] \<Longrightarrow> GetRoute k w = (Inr (map_option to_Route (find_row rt_dest k (routing_table w))), w)"
  by (simp add: GetRoute_def db_simps)

interpretation routes: keyed_store Destination UpsertRoute GetRoute route_valid "\<lambda>w. faults w = []"
proof (unfold_locales, goal_cases)
  case (4 w v k)
  then have "rt_dest (route_row_of v) = Destination v" by (simp add: route_row_of_def)
  with 4 show ?case
    by (auto simp: route_valid_def db_simps find_row_upsert_row split: option.split)
qed (auto simp: route_valid_def db_simps)

text \<open>
  The routing table is a map: after any sequence of \<^verbatim>\<open>UpsertRoute\<close> calls all of them have succeeded
  and \<^verbatim>\<open>GetRoute\<close> returns, field by field, the last route written for the destination, or what was
  stored before when none was.
\<close>

theorem GetRoute_after_UpsertRoute:
  assumes "faults w = []" and "\<forall>r \<in> set rs. route_valid r w"
  shows "fst (put_all UpsertRoute rs w) = Inr () \<and>
    fst (GetRoute dst (snd (put_all UpsertRoute rs w))) =
      (case find (\<lambda>r. Destination r = dst) (rev rs) of
         None \<Rightarrow> fst (GetRoute dst w) | Some r \<Rightarrow> Inr (Some r))"
  using assms by (rule routes.get_put_all)

definition sample_stored_route :: "nat \<Rightarrow> nat \<Rightarrow> rat \<Rightarrow> int \<Rightarrow> Route" where
  "sample_stored_route d n q h = \<lparr>Destination = sample_id d, NextHop = sample_id n, TQ = Fin q,
     LatencyMs = 20, HopCount = h\<rparr>"

theorem GetRoute_after_UpsertRoute_witness:
  "fst (GetRoute (sample_id 1) (snd (put_all UpsertRoute
      [sample_stored_route 1 2 1 1, sample_stored_route 3 2 1 2, sample_stored_route 1 3 (1/2) 2] empty_DB)))
   = Inr (Some (sample_stored_route 1 3 (1/2) 2))"
  using GetRoute_after_UpsertRoute [of empty_DB "[sample_stored_route 1 2 1 1, sample_stored_route 3 2 1 2,
      sample_stored_route 1 3 (1/2) 2]" "sample_id 1"]
  by (simp add: empty_DB_def route_valid_def sample_stored_route_def)

section \<open>Gossip\<close>

text \<open>The gossiped versions of a node and of a relay: the arguments of the two merges.\<close>

type_synonym node_gossip = "NodeID \<times> time \<times> time \<times> string \<times> float64 option \<times> float64 option"
type_synonym relay_gossip = "NodeID \<times> string \<times> int \<times> time"

definition merge_node :: "node_gossip \<Rightarrow> ('a DB_scheme, bool) stmt" where
  "merge_node = (\<lambda>(n, f, l, st, lat, lon). MergeGossipNode n f l st lat lon)"

definition merge_relay :: "relay_gossip \<Rightarrow> ('a DB_scheme, bool) stmt" where
  "merge_relay = (\<lambda>(h, ip, port, t). UpsertGossipRelay h ip port t)"

definition relay_state :: "bytes \<Rightarrow> 'a DB_scheme \<Rightarrow> (int \<times> string \<times> int) option" where
  "relay_state k w = map_option (\<lambda>r. (rh_verified r, rh_ip r, rh_port r)) (find_row rh_id k (relay_hubs w))"

interpretation node_gossip: last_writer_wins "\<lambda>(n, f, l, st, lat, lon). n"
  "\<lambda>(n, f, l, st, lat, lon). (UnixMilli l, st)" merge_node node_state "\<lambda>_ w. faults w = []"
  by unfold_locales
    (auto simp: merge_node_def MergeGossipNode_def Let_def node_state_def db_simps stmt_defs
      lww_step_def lww_newer_def find_row_append find_row_update_key split: option.splits)

interpretation relay_gossip: last_writer_wins "\<lambda>(h, ip, port, t). h"
  "\<lambda>(h, ip, port, t). (UnixMilli t, ip, port)" merge_relay relay_state "\<lambda>_ w. faults w = []"
  by unfold_locales
    (auto simp: merge_relay_def UpsertGossipRelay_def Let_def relay_state_def db_simps stmt_defs
      lww_step_def lww_newer_def find_row_append find_row_update_key split: option.splits)



section \<open>The schema's constraints\<close>

lemma UpsertSeen_wf [inv_intros]: "keeps db_wf (UpsertSeen n t)"
  unfolding UpsertSeen_def Let_def
  by (auto intro!: keeps_wf_stmts keeps_bnd simp: db_wf_simps split: option.split)

lemma UpdateProfile_wf [inv_intros]: "keeps db_wf (UpdateProfile n hnd la lo)"
  unfolding UpdateProfile_def Let_def
  by (auto intro!: keeps_wf_stmts keeps_bnd simp: db_wf_simps split: option.split)

lemma UpdateLocation_wf [inv_intros]: "keeps db_wf (UpdateLocation n x y t)"
  unfolding UpdateLocation_def Let_def
  by (auto intro!: keeps_wf_stmts keeps_bnd simp: db_wf_simps split: option.split)

lemma MarkStaleBefore_wf [inv_intros]: "keeps db_wf (MarkStaleBefore t)"
  unfolding MarkStaleBefore_def Let_def
  by (auto intro!: keeps_wf_stmts keeps_bnd simp: db_wf_simps split: option.split)

lemma UpsertRoute_wf [inv_intros]: "keeps db_wf (UpsertRoute route)"
  unfolding UpsertRoute_def
  by (auto intro!: keeps_bnd keeps_exec simp: upsert_stmt_def route_row_of_def db_wf_simps split: if_splits)

lemma DeleteRoutesViaNextHop_wf [inv_intros]: "keeps db_wf (DeleteRoutesViaNextHop n)"
  unfolding DeleteRoutesViaNextHop_def Let_def
  by (auto intro!: keeps_wf_stmts keeps_bnd simp: db_wf_simps split: option.split)

lemma UpsertHubSeen_wf [inv_intros]: "keeps db_wf (UpsertHubSeen n ip port t)"
  unfolding UpsertHubSeen_def Let_def
  by (auto intro!: keeps_wf_stmts keeps_bnd simp: db_wf_simps split: option.split)

lemma MarkHubsStaleBefore_wf [inv_intros]: "keeps db_wf (MarkHubsStaleBefore t)"
  unfolding MarkHubsStaleBefore_def Let_def
  by (auto intro!: keeps_wf_stmts keeps_bnd simp: db_wf_simps split: option.split)

lemma SetHubManualLocation_wf [inv_intros]: "keeps db_wf (SetHubManualLocation n x y)"
  unfolding SetHubManualLocation_def Let_def
  by (auto intro!: keeps_wf_stmts keeps_bnd simp: db_wf_simps split: option.split)

lemma UpsertGossipRelay_wf [inv_intros]: "keeps db_wf (UpsertGossipRelay n ip port t)"
  unfolding UpsertGossipRelay_def Let_def
  by (auto intro!: keeps_wf_stmts keeps_bnd simp: db_wf_simps split: option.split)

lemma MergeGossipNode_wf [inv_intros]: "keeps db_wf (MergeGossipNode n t t' st la lo)"
  unfolding MergeGossipNode_def Let_def
  by (auto intro!: keeps_wf_stmts keeps_bnd simp: db_wf_simps split: option.split)


end
