(* ===== verification/Trust.thy ===== *)
theory Trust
  imports Registry
begin

text \<open>
  \<^verbatim>\<open>core/trust\<close>: the trust score of a node (\<^verbatim>\<open>score.go\<close>) and the tables of proximity events and
  endorsements behind it (\<^verbatim>\<open>store.go\<close>). \<^verbatim>\<open>math.Exp\<close> and \<^verbatim>\<open>math.Log1p\<close> are parameters, with the documented
  bounds of the functions they approximate as hypotheses.

  Shown: every component and the total stay within their ranges, the cap on the total is never
  needed, the proximity component is the capped weighted sum; an endorsement is only ever stored
  when its endorser has observed the endorsed node.
\<close>

section \<open>Score\<close>

type_synonym Score = int

record Breakdown =
  b_NodeID :: NodeID
  LongevityComponent :: Score
  ProximityComponent :: Score
  EndorsementComponent :: Score
  Total :: Score

record Metrics =
  m_FirstSeen :: time
  m_Now :: time
  DirectHubSightings :: int
  RelaySightings :: int
  UniqueEndorsers :: int

record mathlib =
  math_Exp :: "float64 \<Rightarrow> float64"
  math_Log1p :: "float64 \<Rightarrow> float64"

abbreviation maxLongevity :: Score where "maxLongevity \<equiv> 35"
abbreviation maxProximity :: Score where "maxProximity \<equiv> 40"
abbreviation maxEndorsement :: Score where "maxEndorsement \<equiv> 25"

text \<open>\<^verbatim>\<open>Time.IsZero\<close>: January 1 of the year 1, 00:00:00 UTC.\<close>

definition zero_time :: time where
  "zero_time = - 62135596800 * Second"

text \<open>\<^verbatim>\<open>Duration.Hours\<close>: Go's division and remainder truncate towards zero.\<close>

definition duration_Hours :: "duration \<Rightarrow> float64" where
  "duration_Hours d =
     fadd (float_of_int (sgn d * (\<bar>d\<bar> div Hour)))
          (fdiv (float_of_int (sgn d * (\<bar>d\<bar> mod Hour))) (float_of_int Hour))"

definition longevityComponent :: "mathlib \<Rightarrow> time \<Rightarrow> time \<Rightarrow> Score" where
  "longevityComponent M firstSeen now =
     (let days = fdiv (duration_Hours (time_Sub now firstSeen)) (Fin 24);
          days' = (if flt days (Fin 0) then Fin 0 else days);
          frac = fsub (Fin 1) (math_Exp M (fdiv (fneg days') (Fin 45)))
      in round_to_int (fmul (float_of_int maxLongevity) frac))"

definition proximityComponent :: "int \<Rightarrow> int \<Rightarrow> Score" where
  "proximityComponent directHub relay =
     (let directHub' = (if directHub < 0 then 0 else directHub);
          relay' = (if relay < 0 then 0 else relay);
          raw = fadd (fmul (float_of_int directHub') (Fin 12)) (fmul (float_of_int relay') (Fin 4));
          raw' = (if fgt raw (float_of_int maxProximity) then float_of_int maxProximity else raw)
      in round_to_int raw')"

definition endorsementComponent :: "mathlib \<Rightarrow> int \<Rightarrow> Score" where
  "endorsementComponent M uniqueEndorsers =
     (if uniqueEndorsers \<le> 0 then 0
      else let frac = fdiv (math_Log1p M (float_of_int uniqueEndorsers)) (math_Log1p M (Fin 20));
               s = round_to_int (fmul (float_of_int maxEndorsement) frac)
           in if s > maxEndorsement then maxEndorsement else s)"

definition Compute :: "mathlib \<Rightarrow> time \<Rightarrow> NodeID \<Rightarrow> Metrics \<Rightarrow> Breakdown" where
  "Compute M clock nodeID m =
     (let now = (if m_Now m = zero_time then clock else m_Now m);
          longevity = longevityComponent M (m_FirstSeen m) now;
          proximity = proximityComponent (DirectHubSightings m) (RelaySightings m);
          endorsement = endorsementComponent M (UniqueEndorsers m);
          total = longevity + proximity + endorsement;
          total' = (if total > 100 then 100 else total)
      in \<lparr>b_NodeID = nodeID, LongevityComponent = longevity, ProximityComponent = proximity,
          EndorsementComponent = endorsement, Total = total'\<rparr>)"

text \<open>
  What the code relies on of the two functions: the exponential of a non-positive number lies in
  the unit interval; the logarithm of one plus a 64-bit count lies between 0 and 44 (\<open>63 ln 2 < 44\<close>),
  and it is at least 1 at 20.
\<close>

definition math_laws :: "mathlib \<Rightarrow> bool" where
  "math_laws M =
    ((\<forall>x \<le> 0. \<exists>e. math_Exp M (Fin x) = Fin e \<and> 0 \<le> e \<and> e \<le> 1) \<and>
     (\<forall>x. 0 \<le> x \<and> x \<le> 2 ^ 63 \<longrightarrow> (\<exists>l. math_Log1p M (Fin x) = Fin l \<and> 0 \<le> l \<and> l \<le> 44)) \<and>
     (\<exists>l. math_Log1p M (Fin 20) = Fin l \<and> 1 \<le> l))"

section \<open>Store\<close>

abbreviation TransportHubDirect :: string where "TransportHubDirect \<equiv> ''hub-direct''"
abbreviation TransportHubRelay :: string where "TransportHubRelay \<equiv> ''hub-relay''"

definition RecordProximity ::
  "NodeID \<Rightarrow> NodeID \<Rightarrow> int \<Rightarrow> string \<Rightarrow> time \<Rightarrow> ('a DB_scheme, unit) stmt" where
  "RecordProximity observer observed rssi transport atTime =
     wrap_err ''trust: record proximity''
       (bnd (exec (\<lambda>w. Inr (1, proximity_events_update (\<lambda>rows. rows @
              [\<lparr>pe_observer = observer, pe_observed = observed, pe_rssi = rssi,
                pe_transport = transport, pe_at = UnixMilli atTime\<rparr>]) w)))
         (\<lambda>_. ret ()))"

text \<open>\<^verbatim>\<open>GROUP BY transport\<close> gives one row per transport with its count; an absent transport stays 0.\<close>

definition ProximityCounts :: "NodeID \<Rightarrow> ('a DB_scheme, nat \<times> nat) stmt" where
  "ProximityCounts observed =
     query (\<lambda>w. let rows = filter (\<lambda>r. pe_observed r = observed) (proximity_events w)
                 in (count_rows (\<lambda>r. pe_transport r = TransportHubDirect) rows,
                     count_rows (\<lambda>r. pe_transport r = TransportHubRelay) rows))"

definition EndorsementCount :: "NodeID \<Rightarrow> ('a DB_scheme, nat) stmt" where
  "EndorsementCount endorsed =
     query (\<lambda>w. length (remdups (map te_endorser
                   (filter (\<lambda>r. te_endorsed r = endorsed) (trust_endorsements w)))))"

definition HasProximity :: "NodeID \<Rightarrow> NodeID \<Rightarrow> ('a DB_scheme, bool) stmt" where
  "HasProximity endorser endorsed =
     bnd (query (\<lambda>w. count_rows (\<lambda>r. pe_observer r = endorser \<and> pe_observed r = endorsed) (proximity_events w)))
       (\<lambda>n. ret (n > 0))"

definition AddEndorsement ::
  "NodeID \<Rightarrow> NodeID \<Rightarrow> bytes option \<Rightarrow> time \<Rightarrow> ('a DB_scheme, unit) stmt" where
  "AddEndorsement endorser endorsed signature atTime =
     bnd (HasProximity endorser endorsed) (\<lambda>ok.
       if \<not> ok then fail (Errmsg ''trust: endorser has no proximity event with endorsed node'')
       else wrap_err ''trust: add endorsement''
         (bnd (exec (\<lambda>w. case bind_blob w signature of
                 None \<Rightarrow> Inl NotNullViolation
               | Some sig \<Rightarrow>
                   upsert_stmt te_key trust_endorsements_update
                     (\<lambda>r. r\<lparr>te_at := UnixMilli atTime, te_signature := sig\<rparr>)
                     \<lparr>te_endorser = endorser, te_endorsed = endorsed, te_at = UnixMilli atTime,
                      te_signature = sig\<rparr> w))
           (\<lambda>_. ret ())))"

definition HasEndorsement :: "NodeID \<Rightarrow> NodeID \<Rightarrow> ('a DB_scheme, bool) stmt" where
  "HasEndorsement endorser endorsed =
     bnd (query (\<lambda>w. count_rows (\<lambda>r. te_endorser r = endorser \<and> te_endorsed r = endorsed) (trust_endorsements w)))
       (\<lambda>n. ret (n > 0))"

text \<open>\<^verbatim>\<open>[]byte("quakemesh-endorse")\<close>\<close>

definition string_bytes :: "string \<Rightarrow> bytes" where
  "string_bytes s = map of_char s"

definition EndorseWithHubContact :: "NodeID \<Rightarrow> NodeID \<Rightarrow> time \<Rightarrow> ('a DB_scheme, unit) stmt" where
  "EndorseWithHubContact endorser endorsed atTime =
     bnd (HasProximity endorser endorsed) (\<lambda>ok.
       bnd (if \<not> ok then RecordProximity endorser endorsed (- 55) TransportHubDirect atTime else ret ())
         (\<lambda>_. AddEndorsement endorser endorsed (Some (string_bytes ''quakemesh-endorse'')) atTime))"

definition ScoreForNode :: "mathlib \<Rightarrow> time \<Rightarrow> NodeID \<Rightarrow> time \<Rightarrow> time \<Rightarrow> ('a DB_scheme, Breakdown) stmt" where
  "ScoreForNode M clock nodeID firstSeen now =
     bnd (ProximityCounts nodeID) (\<lambda>(direct, relay).
       bnd (EndorsementCount nodeID) (\<lambda>endorsers.
         ret (Compute M clock nodeID \<lparr>m_FirstSeen = firstSeen, m_Now = now,
           DirectHubSightings = int direct, RelaySightings = int relay,
           UniqueEndorsers = int endorsers\<rparr>)))"

definition TotalProximityEvents :: "NodeID \<Rightarrow> ('a DB_scheme, nat) stmt" where
  "TotalProximityEvents observed =
     query (\<lambda>w. count_rows (\<lambda>r. pe_observed r = observed) (proximity_events w))"

section \<open>Bounds of the score\<close>

lemma time_Sub_bounds: "- (2 ^ 63) \<le> time_Sub t u" "time_Sub t u \<le> 2 ^ 63 - 1"
  by (simp_all add: time_Sub_def)

lemma duration_Hours_finite:
  assumes "\<bar>d\<bar> \<le> 2 ^ 63"
  shows "\<exists>h. duration_Hours d = Fin h \<and> \<bar>h\<bar> \<le> 3000000"
proof -
  let ?q = "sgn d * (\<bar>d\<bar> div Hour)" and ?r = "sgn d * (\<bar>d\<bar> mod Hour)"
  have "\<bar>d\<bar> div Hour \<le> 2 ^ 63 div Hour" by (rule zdiv_mono1) (use assms in simp_all)
  then have q0: "\<bar>d\<bar> div Hour \<le> 2562047" by simp
  have "0 \<le> \<bar>d\<bar> div Hour" by (simp add: pos_imp_zdiv_nonneg_iff)
  then have q: "\<bar>?q\<bar> \<le> 2562047" using q0 by (cases "d = 0") (simp_all add: abs_mult)
  have "0 \<le> \<bar>d\<bar> mod Hour" "\<bar>d\<bar> mod Hour < Hour" by simp_all
  then have r: "\<bar>?r\<bar> < Hour" by (simp add: abs_mult sgn_if)
  have fq: "float_of_int ?q = Fin (of_int ?q)" and fr: "float_of_int ?r = Fin (of_int ?r)"
    and fh: "float_of_int Hour = Fin (of_int Hour)"
    using q r by (simp_all add: float_of_int_small)
  have "\<bar>of_int ?r :: rat\<bar> \<le> of_int Hour" using r by (metis less_imp_le of_int_abs of_int_le_iff)
  then have "of_int (- 1) \<le> (of_int ?r / of_int Hour :: rat)" "(of_int ?r / of_int Hour :: rat) \<le> of_int 1"
    by (simp_all add: abs_le_iff field_simps)
  then obtain f where f: "fl (of_int ?r / of_int Hour) = Fin f" "- 1 \<le> f" "f \<le> 1"
    using fl_between [of "- 1" "of_int ?r / of_int Hour" 1] by auto
  have "\<bar>of_int ?q :: rat\<bar> \<le> 2562047" using q by (metis of_int_abs of_int_le_iff of_int_numeral)
  then have "of_int (- 3000000) \<le> of_int ?q + f" "of_int ?q + f \<le> of_int 3000000"
    using f by (simp_all add: abs_le_iff)
  then obtain h where "fl (of_int ?q + f) = Fin h" "- 3000000 \<le> h" "h \<le> 3000000"
    using fl_between [of "- 3000000" "of_int ?q + f" 3000000] by auto
  moreover have "duration_Hours d = fl (of_int ?q + f)"
    unfolding duration_Hours_def fq fr fh using f(1) by simp
  ultimately show ?thesis by (auto simp: abs_le_iff)
qed

lemma longevity_bounds:
  assumes "math_laws M"
  shows "0 \<le> longevityComponent M firstSeen now \<and> longevityComponent M firstSeen now \<le> maxLongevity"
proof -
  have "\<bar>time_Sub now firstSeen\<bar> \<le> 2 ^ 63" using time_Sub_bounds [of now firstSeen] by linarith
  then obtain h where h: "duration_Hours (time_Sub now firstSeen) = Fin h" "\<bar>h\<bar> \<le> 3000000"
    using duration_Hours_finite by blast
  have "of_int (- 3000000) \<le> h / 24" "h / 24 \<le> of_int 3000000" using h(2) by (simp_all add: abs_le_iff field_simps)
  then obtain y where y: "fl (h / 24) = Fin y" "y \<le> 3000000"
    using fl_between [of "- 3000000" "h / 24" 3000000] by auto
  define z where "z = (if y < 0 then 0 else y)"
  have z: "0 \<le> z" "z \<le> 3000000" using y(2) by (simp_all add: z_def)
  have "of_int (- 3000000) \<le> - z / 45" "- z / 45 \<le> of_int 0" using z by simp_all
  then obtain u where u: "fl (- z / 45) = Fin u" "u \<le> 0"
    using fl_between [of "- 3000000" "- z / 45" 0] by auto
  with assms obtain e where e: "math_Exp M (Fin u) = Fin e" "0 \<le> e" "e \<le> 1"
    unfolding math_laws_def by blast
  have "of_int 0 \<le> 1 + - e" "1 + - e \<le> of_int 1" using e by simp_all
  then obtain f where f: "fl (1 + - e) = Fin f" "0 \<le> f" "f \<le> 1"
    using fl_between [of 0 "1 + - e" 1] by auto
  have "of_int 0 \<le> 35 * f" "35 * f \<le> of_int 35" using f by simp_all
  then obtain g where g: "fl (35 * f) = Fin g" "of_int 0 \<le> g" "g \<le> of_int 35"
    using fl_between [of 0 "35 * f" 35] by auto
  have "longevityComponent M firstSeen now = round_away g"
    using y u e f g by (simp add: longevityComponent_def h z_def fsub_def float_of_int_small split: if_splits)
  with round_away_between [OF g(2,3)] show ?thesis by simp
qed

lemma endorsement_bounds:
  assumes "math_laws M" and "n \<le> 2 ^ 63"
  shows "0 \<le> endorsementComponent M n \<and> endorsementComponent M n \<le> maxEndorsement"
proof (cases "n \<le> 0")
  case False
  have "0 \<le> (of_int n :: rat)" using False by simp
  moreover have "(of_int n :: rat) \<le> 2 ^ 63"
    using assms(2) by (metis of_int_le_iff of_int_numeral of_int_power)
  moreover have "rnd (2 ^ 63) = 2 ^ 63" using rnd_powi [of 63] by (simp add: power_int_def)
  moreover have "(2::rat) ^ 63 \<le> 2 ^ 100" by (rule power_increasing) simp_all
  ultimately have n: "0 \<le> rnd (of_int n)" "rnd (of_int n) \<le> 2 ^ 63" "\<bar>of_int n :: rat\<bar> \<le> 2 ^ 100"
    using rnd_mono [of 0 "of_int n"] rnd_mono [of "of_int n" "2 ^ 63"] by (auto intro: order_trans)
  moreover from n(3) have "float_of_int n = Fin (rnd (of_int n))" by (simp add: float_of_int_def fl_small)
  ultimately obtain l where l: "math_Log1p M (float_of_int n) = Fin l" "0 \<le> l" "l \<le> 44"
    using assms(1) unfolding math_laws_def by auto
  obtain l20 where l20: "math_Log1p M (Fin 20) = Fin l20" "1 \<le> l20"
    using assms(1) unfolding math_laws_def by blast
  have "of_int 0 \<le> l / l20" "l / l20 \<le> of_int 44"
    using l l20 by (simp_all add: divide_le_eq)
  then obtain f where f: "fl (l / l20) = Fin f" "0 \<le> f" "f \<le> 44"
    using fl_between [of 0 "l / l20" 44] by auto
  have "of_int 0 \<le> 25 * f" "25 * f \<le> of_int 1100" using f by simp_all
  then obtain g where g: "fl (25 * f) = Fin g" "of_int 0 \<le> g" "g \<le> of_int 1100"
    using fl_between [of 0 "25 * f" 1100] by auto
  have "endorsementComponent M n = min 25 (round_away g)"
    using False l l20 f g by (simp add: endorsementComponent_def float_of_int_small min_def Let_def)
  with round_away_between [OF g(2,3)] show ?thesis by simp
qed (simp add: endorsementComponent_def)

lemma proximity_exact:
  assumes "d < 2 ^ 40" and "r < 2 ^ 40"
  shows "proximityComponent d r = min maxProximity (12 * max 0 d + 4 * max 0 r)"
proof -
  define d' where "d' = max 0 d"
  define r' where "r' = max 0 r"
  have b: "0 \<le> d'" "d' < 2 ^ 40" "0 \<le> r'" "r' < 2 ^ 40" using assms by (simp_all add: d'_def r'_def)
  have 1: "float_of_int d' = Fin (of_int d')" "float_of_int r' = Fin (of_int r')"
    using b by (simp_all add: float_of_int_small)
  have 2: "fl (of_int d' * 12) = Fin (of_int (d' * 12))" "fl (of_int r' * 4) = Fin (of_int (r' * 4))"
    "fl (of_int (d' * 12) + of_int (r' * 4)) = Fin (of_int (d' * 12 + r' * 4))"
    using b float_of_int_small [of "d' * 12"] float_of_int_small [of "r' * 4"]
      float_of_int_small [of "d' * 12 + r' * 4"]
    by (simp_all add: float_of_int_def)
  have 3: "(40::rat) < of_int (d' * 12 + r' * 4) \<longleftrightarrow> 40 < d' * 12 + r' * 4"
    by (metis of_int_less_iff of_int_numeral)
  have "proximityComponent d r = round_to_int (let raw = fadd (fmul (float_of_int d') (Fin 12))
      (fmul (float_of_int r') (Fin 4)) in if fgt raw (float_of_int 40) then float_of_int 40 else raw)"
    by (simp add: proximityComponent_def Let_def d'_def r'_def max_def not_less)
  also have "\<dots> = min 40 (d' * 12 + r' * 4)"
    using 3 round_away_of_int [of 40]
    by (simp add: 1 2 fgt_def float_of_int_small Let_def min_def del: of_int_add of_int_mult)
  finally show ?thesis by (simp add: d'_def r'_def)
qed

text \<open>
  C40. A trust score is in range: the three components lie between 0 and their maxima (35, 40, 25),
  the proximity component is the weighted number of sightings capped at 40, and the total is the
  plain sum of the components between 0 and 100, so the cap at 100 never cuts anything off.
\<close>

theorem Compute_bounds:
  assumes "math_laws M" and "DirectHubSightings m < 2 ^ 40" and "RelaySightings m < 2 ^ 40"
    and "UniqueEndorsers m \<le> 2 ^ 63"
  shows "let b = Compute M clock nodeID m in
    0 \<le> LongevityComponent b \<and> LongevityComponent b \<le> 35 \<and>
    ProximityComponent b = min 40 (12 * max 0 (DirectHubSightings m) + 4 * max 0 (RelaySightings m)) \<and>
    0 \<le> EndorsementComponent b \<and> EndorsementComponent b \<le> 25 \<and>
    Total b = LongevityComponent b + ProximityComponent b + EndorsementComponent b \<and>
    0 \<le> Total b \<and> Total b \<le> 100"
  using longevity_bounds [OF assms(1), of "m_FirstSeen m" "if m_Now m = zero_time then clock else m_Now m"]
    endorsement_bounds [OF assms(1,4)] proximity_exact [OF assms(2,3)]
  by (auto simp: Compute_def Let_def)

definition sample_math :: mathlib where
  "sample_math = \<lparr>math_Exp = (\<lambda>_. Fin 1), math_Log1p = (\<lambda>_. Fin 3)\<rparr>"

theorem Compute_bounds_witness:
  "ProximityComponent (Compute sample_math 0 (sample_id 1)
     \<lparr>m_FirstSeen = 0, m_Now = 5, DirectHubSightings = 2, RelaySightings = 3, UniqueEndorsers = 1\<rparr>) = 36"
proof -
  have "math_laws sample_math" by (simp add: math_laws_def sample_math_def)
  from Compute_bounds [OF this, of
      "\<lparr>m_FirstSeen = 0, m_Now = 5, DirectHubSightings = 2, RelaySightings = 3, UniqueEndorsers = 1\<rparr>"]
  show ?thesis by (simp add: Let_def)
qed

section \<open>Endorsements\<close>

definition endorsements_backed :: "'a DB_scheme \<Rightarrow> bool" where
  "endorsements_backed w = (\<forall>t \<in> set (trust_endorsements w).
     \<exists>p \<in> set (proximity_events w). pe_observer p = te_endorser t \<and> pe_observed p = te_endorsed t)"

lemma endorsements_backed_faults [simp]: "endorsements_backed (w\<lparr>faults := fs\<rparr>) = endorsements_backed w"
  by (simp add: endorsements_backed_def)

lemma HasProximity_cases:
  obtains e fs where "HasProximity a b w = (Inl e, w\<lparr>faults := fs\<rparr>)"
  | fs where "HasProximity a b w = (Inr (\<exists>p \<in> set (proximity_events w). pe_observer p = a \<and> pe_observed p = b),
      w\<lparr>faults := fs\<rparr>)"
proof (rule query_cases [of "\<lambda>w. count_rows (\<lambda>r. pe_observer r = a \<and> pe_observed r = b) (proximity_events w)" w])
  fix fs assume "query (\<lambda>w. count_rows (\<lambda>r. pe_observer r = a \<and> pe_observed r = b) (proximity_events w)) w =
    (Inr (count_rows (\<lambda>r. pe_observer r = a \<and> pe_observed r = b) (proximity_events (w\<lparr>faults := fs\<rparr>))), w\<lparr>faults := fs\<rparr>)"
  then have "HasProximity a b w = (Inr (\<exists>p \<in> set (proximity_events w). pe_observer p = a \<and> pe_observed p = b),
      w\<lparr>faults := fs\<rparr>)"
    by (simp add: HasProximity_def bnd_def count_rows_pos_iff)
  then show ?thesis by (rule that(2))
next
  fix fs assume "query (\<lambda>w. count_rows (\<lambda>r. pe_observer r = a \<and> pe_observed r = b) (proximity_events w)) w =
    (Inl SqlFailure, w\<lparr>faults := fs\<rparr>)"
  then have "HasProximity a b w = (Inl SqlFailure, w\<lparr>faults := fs\<rparr>)" by (simp add: HasProximity_def bnd_def)
  then show ?thesis by (rule that(1))
qed

lemma keeps_HasProximity:
  "(\<And>w fs. P w \<Longrightarrow> P (w\<lparr>faults := fs\<rparr>)) \<Longrightarrow> keeps P (HasProximity a b)"
  unfolding HasProximity_def by (rule keeps_bnd [OF keeps_query]) auto

lemma RecordProximity_backed: "keeps endorsements_backed (RecordProximity a b rssi tr t)"
  unfolding RecordProximity_def
  by (intro keeps_wrap keeps_bnd keeps_exec keeps_ret) (auto simp: endorsements_backed_def)

lemma AddEndorsement_backed: "keeps endorsements_backed (AddEndorsement a b sig t)"
  unfolding keeps_def
proof (intro allI impI)
  fix w :: "'a DB_scheme" assume w: "endorsements_backed w"
  show "endorsements_backed (snd (AddEndorsement a b sig t w))"
  proof (rule HasProximity_cases [of a b w])
    fix e fs assume "HasProximity a b w = (Inl e, w\<lparr>faults := fs\<rparr>)"
    with w show ?thesis by (simp add: AddEndorsement_def bnd_def)
  next
    fix fs assume h: "HasProximity a b w =
      (Inr (\<exists>p \<in> set (proximity_events w). pe_observer p = a \<and> pe_observed p = b), w\<lparr>faults := fs\<rparr>)"
    show ?thesis
    proof (cases "\<exists>p \<in> set (proximity_events w). pe_observer p = a \<and> pe_observed p = b")
      case True
      let ?P = "\<lambda>w. endorsements_backed w \<and> (\<exists>p \<in> set (proximity_events w). pe_observer p = a \<and> pe_observed p = b)"
      have "keeps ?P (wrap_err ''trust: add endorsement''
         (bnd (exec (\<lambda>w. case bind_blob w sig of
                 None \<Rightarrow> Inl NotNullViolation
               | Some sig \<Rightarrow>
                   upsert_stmt te_key trust_endorsements_update
                     (\<lambda>r. r\<lparr>te_at := UnixMilli t, te_signature := sig\<rparr>)
                     \<lparr>te_endorser = a, te_endorsed = b, te_at = UnixMilli t, te_signature = sig\<rparr> w))
           (\<lambda>_. ret ())))"
        by (intro keeps_wrap keeps_bnd keeps_exec keeps_ret)
          (auto simp: endorsements_backed_def upsert_stmt_def split: option.splits dest!: set_upsert_row)
      from keepsD [OF this, of "w\<lparr>faults := fs\<rparr>"] show ?thesis
        using h True w by (simp add: AddEndorsement_def bnd_def [of "HasProximity a b"])
    qed (use h w in \<open>simp add: AddEndorsement_def bnd_def\<close>)
  qed
qed

lemma EndorseWithHubContact_backed: "keeps endorsements_backed (EndorseWithHubContact a b t)"
  unfolding EndorseWithHubContact_def
  by (intro keeps_bnd keeps_HasProximity)
    (auto intro: RecordProximity_backed AddEndorsement_backed)

text \<open>
  C37. No endorsement without an encounter. Every operation of the trust store keeps the invariant
  that each stored endorsement is backed by a proximity event in which the endorser observed the
  endorsed node, whatever fails; and without such an event \<^verbatim>\<open>AddEndorsement\<close> is refused.
\<close>

theorem endorsements_stay_backed:
  "keeps endorsements_backed (RecordProximity a b rssi tr t) \<and>
   keeps endorsements_backed (AddEndorsement a b sig t) \<and>
   keeps endorsements_backed (EndorseWithHubContact a b t) \<and>
   (if \<exists>p \<in> set (proximity_events w). pe_observer p = a \<and> pe_observed p = b then True
    else \<exists>e. fst (AddEndorsement a b sig t w) = Inl e)"
proof -
  have "\<exists>e. fst (AddEndorsement a b sig t w) = Inl e"
    if no: "\<not> (\<exists>p \<in> set (proximity_events w). pe_observer p = a \<and> pe_observed p = b)"
    by (rule HasProximity_cases [of a b w]) (use no in \<open>auto simp: AddEndorsement_def bnd_def\<close>)
  then show ?thesis
    using RecordProximity_backed AddEndorsement_backed EndorseWithHubContact_backed by auto
qed

end
