(* ===== verification/Lan.thy ===== *)
theory Lan
  imports Location Identity
begin

text \<open>
  \<^verbatim>\<open>core/lancontext\<close>, \<^verbatim>\<open>core/lansegments\<close> and \<^verbatim>\<open>core/lanbeacon\<close>: the Wi-Fi segment a device is attached to,
  the table of segments and their members with an estimated position each, and the datagrams that
  announce hubs and nodes on a segment. SHA-256 and the JSON codec are parameters; the detection of
  the default gateway by operating system commands is not modelled, its result is an argument.

  Shown: recording a membership is atomic under any failures and has exactly the documented
  effect; the estimated position it stores is the centroid of the located members; a decoded
  beacon is the encoded one.
\<close>

section \<open>Context\<close>

record Context =
  GatewayIP :: string
  LocalIP :: string
  SSID :: string
  BSSID :: string

definition Valid :: "Context \<Rightarrow> bool" where
  "Valid c = (c \<noteq> \<lparr>GatewayIP = '''', LocalIP = '''', SSID = '''', BSSID = ''''\<rparr> \<and> GatewayIP c \<noteq> '''')"

definition SegmentID :: "(bytes \<Rightarrow> bytes) \<Rightarrow> Context \<Rightarrow> string" where
  "SegmentID sha256 c =
     (let key = GatewayIP c @ ''|'' @ SSID c @ ''|'' @ BSSID c
      in hex_EncodeToString (take 16 (sha256 (string_bytes key))))"

text \<open>\<^verbatim>\<open>net.SplitHostPort\<close>; \<open>None\<close> stands for its errors.\<close>

definition last_colon :: "string \<Rightarrow> nat option" where
  "last_colon s = (if CHR '':'' \<in> set s then Some (length s - 1 - length (takeWhile (\<lambda>c. c \<noteq> CHR '':'') (rev s))) else None)"

definition SplitHostPort :: "string \<Rightarrow> (string \<times> string) option" where
  "SplitHostPort s =
     (case last_colon s of
        None \<Rightarrow> None
      | Some i \<Rightarrow>
          if HasPrefix s ''['' then
            let e = length (takeWhile (\<lambda>c. c \<noteq> CHR '']'') s) in
            if e = length s \<or> e + 1 \<noteq> i then None
            else if CHR ''['' \<in> set (drop 1 s) \<or> CHR '']'' \<in> set (drop (e + 1) s) then None
            else Some (drop 1 (take e s), drop (i + 1) s)
          else
            let host = take i s in
            if CHR '':'' \<in> set host then None
            else if CHR ''['' \<in> set s \<or> CHR '']'' \<in> set s then None
            else Some (host, drop (i + 1) s))"

definition LocalIPFromRemoteAddr :: "string \<Rightarrow> string" where
  "LocalIPFromRemoteAddr addr = (case SplitHostPort addr of None \<Rightarrow> TrimSpace addr | Some (host, _) \<Rightarrow> host)"

section \<open>Segments\<close>

abbreviation EntityNode :: string where "EntityNode \<equiv> ''node''"
abbreviation EntityHub :: string where "EntityHub \<equiv> ''hub''"

definition nullIfEmpty :: "string \<Rightarrow> string option" where
  "nullIfEmpty s = (if s = '''' then None else Some s)"

text \<open>The points that the join in \<^verbatim>\<open>updateEstimatedPositionTx\<close> selects.\<close>

definition member_points :: "string \<Rightarrow> 'a DB_scheme \<Rightarrow> Point list" where
  "member_points segmentID w =
     concat (map (\<lambda>m. concat (map (\<lambda>nr. case (nr_last_lat nr, nr_last_lon nr) of
                                  (Some lat, Some lon) \<Rightarrow> [\<lparr>p_Lat = lat, p_Lon = lon\<rparr>]
                                | _ \<Rightarrow> [])
                     (filter (\<lambda>nr. nr_id nr = lm_entity m) (node_registry w))))
       (filter (\<lambda>m. lm_segment m = segmentID \<and> lm_type m = EntityNode) (lan_segment_members w)))"

definition updateEstimatedPositionTx :: "string \<Rightarrow> ('a DB_scheme, unit) stmt" where
  "updateEstimatedPositionTx segmentID =
     bnd (wrap_err ''lansegments: query member positions'' (query (member_points segmentID))) (\<lambda>points.
       if points = [] then
         bnd (exec (update_stmt lan_segments lan_segments_update (\<lambda>r. ls_id r = segmentID)
                (\<lambda>r. r\<lparr>ls_est_lat := None, ls_est_lon := None\<rparr>))) (\<lambda>_. ret ())
       else case ReferenceCentroid points of
         None \<Rightarrow> ret ()
       | Some ref \<Rightarrow>
           bnd (exec (update_stmt lan_segments lan_segments_update (\<lambda>r. ls_id r = segmentID)
                  (\<lambda>r. r\<lparr>ls_est_lat := bind_real (p_Lat ref), ls_est_lon := bind_real (p_Lon ref)\<rparr>)))
             (\<lambda>_. ret ()))"

definition RecordMembership ::
  "(bytes \<Rightarrow> bytes) \<Rightarrow> string \<Rightarrow> NodeID \<Rightarrow> Context \<Rightarrow> time \<Rightarrow> ('a DB_scheme, unit) stmt" where
  "RecordMembership sha256 entityType entityID ctx seenAt =
     (if \<not> Valid ctx then ret ()
      else if entityType \<noteq> EntityNode \<and> entityType \<noteq> EntityHub
      then fail (Errmsg (''lansegments: invalid entity type '' @ entityType))
      else let segmentID = SegmentID sha256 ctx; ms = UnixMilli seenAt in
        transaction
          (bnd (wrap_err ''lansegments: upsert segment''
                 (exec (upsert_stmt ls_id lan_segments_update
                   (\<lambda>r. r\<lparr>ls_gateway := GatewayIP ctx, ls_ssid := nullIfEmpty (SSID ctx),
                          ls_bssid := nullIfEmpty (BSSID ctx), ls_last_seen := ms\<rparr>)
                   \<lparr>ls_id = segmentID, ls_gateway = GatewayIP ctx, ls_ssid = nullIfEmpty (SSID ctx),
                    ls_bssid = nullIfEmpty (BSSID ctx), ls_first_seen = ms, ls_last_seen = ms,
                    ls_est_lat = None, ls_est_lon = None, ls_manual_lat = None, ls_manual_lon = None\<rparr>))) (\<lambda>_.
           bnd (wrap_err ''lansegments: upsert member''
                 (exec (upsert_stmt lm_key lan_segment_members_update
                   (\<lambda>r. r\<lparr>lm_local_ip := nullIfEmpty (LocalIP ctx), lm_last_seen := ms\<rparr>)
                   \<lparr>lm_segment = segmentID, lm_type = entityType, lm_entity = entityID,
                    lm_local_ip = nullIfEmpty (LocalIP ctx), lm_last_seen = ms\<rparr>))) (\<lambda>_.
           updateEstimatedPositionTx segmentID))))"

record Segment =
  sg_SegmentID :: string
  sg_GatewayIP :: string
  sg_SSID :: string
  sg_BSSID :: string
  sg_FirstSeen :: time
  sg_LastSeen :: time
  sg_EstimatedLat :: "float64 option"
  sg_EstimatedLon :: "float64 option"
  sg_ManualLat :: "float64 option"
  sg_ManualLon :: "float64 option"
  sg_MapLat :: "float64 option"
  sg_MapLon :: "float64 option"
  sg_NodeIDs :: "string list"
  sg_HubIDs :: "string list"

definition segmentMapPosition ::
  "float64 option \<Rightarrow> float64 option \<Rightarrow> float64 option \<Rightarrow> float64 option \<Rightarrow> float64 option \<times> float64 option" where
  "segmentMapPosition manualLat manualLon estLat estLon =
     (if manualLat \<noteq> None \<and> manualLon \<noteq> None then (manualLat, manualLon) else (estLat, estLon))"

definition membersForSegment :: "string \<Rightarrow> ('a DB_scheme, string list \<times> string list) stmt" where
  "membersForSegment segmentID =
     bnd (query (\<lambda>w. order_desc lm_last_seen (filter (\<lambda>m. lm_segment m = segmentID) (lan_segment_members w))))
       (\<lambda>ms. ret (map (\<lambda>m. NodeID_String (scan_id (lm_entity m))) (filter (\<lambda>m. lm_type m = EntityNode) ms),
                  map (\<lambda>m. NodeID_String (scan_id (lm_entity m))) (filter (\<lambda>m. lm_type m = EntityHub) ms)))"

definition to_Segment :: "segment_row \<Rightarrow> Segment" where
  "to_Segment r =
     (let mp = segmentMapPosition (ls_manual_lat r) (ls_manual_lon r) (ls_est_lat r) (ls_est_lon r) in
      \<lparr>sg_SegmentID = ls_id r, sg_GatewayIP = ls_gateway r,
       sg_SSID = (case ls_ssid r of None \<Rightarrow> '''' | Some s \<Rightarrow> s),
       sg_BSSID = (case ls_bssid r of None \<Rightarrow> '''' | Some s \<Rightarrow> s),
       sg_FirstSeen = fromUnixMilli (ls_first_seen r), sg_LastSeen = fromUnixMilli (ls_last_seen r),
       sg_EstimatedLat = ls_est_lat r, sg_EstimatedLon = ls_est_lon r, sg_ManualLat = ls_manual_lat r,
       sg_ManualLon = ls_manual_lon r, sg_MapLat = fst mp, sg_MapLon = snd mp, sg_NodeIDs = [], sg_HubIDs = []\<rparr>)"

fun fill_members :: "Segment list \<Rightarrow> ('a DB_scheme, Segment list) stmt" where
  "fill_members [] = ret []"
| "fill_members (s # ss) =
     bnd (membersForSegment (sg_SegmentID s)) (\<lambda>(nodes, hubs).
     bnd (fill_members ss) (\<lambda>rest. ret (s\<lparr>sg_NodeIDs := nodes, sg_HubIDs := hubs\<rparr> # rest)))"

definition segments_List :: "('a DB_scheme, Segment list) stmt" where
  "segments_List = bnd (query (\<lambda>w. map to_Segment (order_desc ls_last_seen (lan_segments w)))) fill_members"

definition SetManualPosition :: "string \<Rightarrow> float64 \<Rightarrow> float64 \<Rightarrow> ('a DB_scheme, unit) stmt" where
  "SetManualPosition segmentID lat lon =
     bnd (exec (update_stmt lan_segments lan_segments_update (\<lambda>r. ls_id r = segmentID)
            (\<lambda>r. r\<lparr>ls_manual_lat := bind_real lat, ls_manual_lon := bind_real lon\<rparr>)))
       (\<lambda>n. if n = 0 then fail NoRows else ret ())"

section \<open>Beacons\<close>

abbreviation KindHub :: string where "KindHub \<equiv> ''hub''"
abbreviation KindNode :: string where "KindNode \<equiv> ''node''"

record Message =
  m_V :: int
  m_Kind :: string
  m_NodeID :: string
  m_Handle :: string
  m_HomeLat :: "float64 option"
  m_HomeLon :: "float64 option"
  m_HeartbeatPort :: int
  m_OGMPort :: int
  m_Lat :: "float64 option"
  m_Lon :: "float64 option"
  m_AccuracyM :: "float64 option"
  m_LanContext :: "Context option"

record beacon_codec =
  json_Marshal :: "Message \<Rightarrow> error + bytes"
  json_Unmarshal :: "bytes \<Rightarrow> error + Message"

definition Prefix :: bytes where
  "Prefix = string_bytes ''QMLB'' @ [1]"

definition beacon_Encode :: "beacon_codec \<Rightarrow> Message \<Rightarrow> error + bytes" where
  "beacon_Encode J msg0 =
     (let msg = (if m_V msg0 = 0 then msg0\<lparr>m_V := 1\<rparr> else msg0) in
      if m_Kind msg = '''' then Inl (Errmsg ''lanbeacon: kind required'')
      else if m_NodeID msg = '''' then Inl (Errmsg ''lanbeacon: node_id required'')
      else case json_Marshal J msg of
        Inl e \<Rightarrow> Inl e
      | Inr body \<Rightarrow> Inr (Prefix @ body))"

text \<open>\<open>None\<close>: not a beacon.\<close>

definition beacon_Decode :: "beacon_codec \<Rightarrow> bytes \<Rightarrow> (error + Message) option" where
  "beacon_Decode J payload =
     (if length payload < 6 \<or> take 5 payload \<noteq> Prefix then None
      else Some (case json_Unmarshal J (drop 5 payload) of
        Inl e \<Rightarrow> Inl e
      | Inr msg \<Rightarrow>
          if m_Kind msg = '''' \<or> m_NodeID msg = '''' then Inl (Errmsg ''lanbeacon: invalid message'')
          else Inr msg))"

definition IsBeacon :: "beacon_codec \<Rightarrow> bytes \<Rightarrow> bool" where
  "IsBeacon J payload = (beacon_Decode J payload \<noteq> None)"

definition HubBeacon :: "beacon_codec \<Rightarrow> string \<Rightarrow> int \<Rightarrow> int \<Rightarrow> Context option \<Rightarrow> error + bytes" where
  "HubBeacon J nodeID heartbeatPort ogmPort lan =
     (if heartbeatPort \<le> 0 \<or> ogmPort \<le> 0
      then Inl (Errmsg (''lanbeacon: invalid hub ports heartbeat='' @ show_int heartbeatPort @ '' ogm='' @ show_int ogmPort))
      else beacon_Encode J \<lparr>m_V = 1, m_Kind = KindHub, m_NodeID = nodeID, m_Handle = '''', m_HomeLat = None,
        m_HomeLon = None, m_HeartbeatPort = heartbeatPort, m_OGMPort = ogmPort, m_Lat = None, m_Lon = None,
        m_AccuracyM = None, m_LanContext = lan\<rparr>)"

definition NodeBeacon ::
  "beacon_codec \<Rightarrow> string \<Rightarrow> string \<Rightarrow> float64 option \<Rightarrow> float64 option \<Rightarrow> float64 option \<Rightarrow> float64 option \<Rightarrow>
   float64 option \<Rightarrow> Context option \<Rightarrow> error + bytes" where
  "NodeBeacon J nodeID handle homeLat homeLon lat lon accuracyM lan =
     beacon_Encode J \<lparr>m_V = 1, m_Kind = KindNode, m_NodeID = nodeID, m_Handle = handle, m_HomeLat = homeLat,
        m_HomeLon = homeLon, m_HeartbeatPort = 0, m_OGMPort = 0, m_Lat = lat, m_Lon = lon,
        m_AccuracyM = accuracyM, m_LanContext = lan\<rparr>"

section \<open>Recording a membership\<close>

definition placed :: "Point list \<Rightarrow> segment_row \<Rightarrow> segment_row" where
  "placed points r = (case ReferenceCentroid points of
     None \<Rightarrow> r\<lparr>ls_est_lat := None, ls_est_lon := None\<rparr>
   | Some c \<Rightarrow> r\<lparr>ls_est_lat := bind_real (p_Lat c), ls_est_lon := bind_real (p_Lon c)\<rparr>)"

lemma wrapped_Inr: "bnd (wrap_err msg m) k w = (Inr x, w') \<longleftrightarrow> bnd m k w = (Inr x, w')"
  by (cases "m w") (auto simp: bnd_def wrap_err_def split: sum.splits)

lemma bnd_wrapped:
  "bnd m (\<lambda>x. bnd (wrap_err msg (f x)) (k x)) w = (Inr y, w') \<longleftrightarrow> bnd m (\<lambda>x. bnd (f x) (k x)) w = (Inr y, w')"
  by (cases "m w") (auto simp: bnd_def wrapped_Inr [unfolded bnd_def] split: sum.splits)

lemma upsert_stmt_eq: "upsert_stmt key upd g new = (\<lambda>w. Inr (1, upd (upsert_row key g new) w))"
  by (simp add: upsert_stmt_def fun_eq_iff)

lemma update_as_set:
  "lan_segment_members_update g (lan_segments_update f v) =
    v\<lparr>lan_segments := f (lan_segments v), lan_segment_members := g (lan_segment_members v)\<rparr>"
  "lan_segments_update f (v\<lparr>lan_segments := x, lan_segment_members := y\<rparr>) =
    v\<lparr>lan_segments := f x, lan_segment_members := y\<rparr>"
  by (cases v; simp)+

lemma member_points_tables: "member_points s (tables w) = member_points s w"
  by (simp add: member_points_def)

lemma member_points_faults [simp]: "member_points s (w\<lparr>faults := fs\<rparr>) = member_points s w"
  by (simp add: member_points_def)

lemma ReferenceCentroid_None [simp]: "ReferenceCentroid ps = None \<longleftrightarrow> ps = []"
  by (simp add: ReferenceCentroid_def split_def Let_def)

lemma ls_placed [simp]: "ls_id (placed ps r) = ls_id r"
  by (simp add: placed_def split: option.split)

lemma placed_simps:
  "placed [] = (\<lambda>r. r\<lparr>ls_est_lat := None, ls_est_lon := None\<rparr>)"
  "ReferenceCentroid ps = Some c \<Longrightarrow>
    placed ps = (\<lambda>r. r\<lparr>ls_est_lat := bind_real (p_Lat c), ls_est_lon := bind_real (p_Lon c)\<rparr>)"
  by (simp_all add: placed_def fun_eq_iff ReferenceCentroid_def)

lemma updateEstimatedPositionTx_success:
  assumes "updateEstimatedPositionTx s w = (Inr u, w')"
  shows "tables w' = lan_segments_update (update_rows (\<lambda>r. ls_id r = s) (placed (member_points s w))) (tables w)"
  using assms unfolding updateEstimatedPositionTx_def wrapped_Inr
  by (elim query_Inr) (auto simp: stmt_defs placed_simps split: if_splits option.splits elim!: exec_Inr)

text \<open>The segment row and the member row that a report leaves, from the rows there were.\<close>

definition seen_segment :: "string \<Rightarrow> Context \<Rightarrow> int \<Rightarrow> segment_row option \<Rightarrow> segment_row" where
  "seen_segment s ctx ms old = (case old of
     Some r \<Rightarrow> r\<lparr>ls_gateway := GatewayIP ctx, ls_ssid := nullIfEmpty (SSID ctx), ls_bssid := nullIfEmpty (BSSID ctx),
       ls_last_seen := ms\<rparr>
   | None \<Rightarrow> \<lparr>ls_id = s, ls_gateway = GatewayIP ctx, ls_ssid = nullIfEmpty (SSID ctx), ls_bssid = nullIfEmpty (BSSID ctx),
       ls_first_seen = ms, ls_last_seen = ms, ls_est_lat = None, ls_est_lon = None, ls_manual_lat = None,
       ls_manual_lon = None\<rparr>)"

definition report_segments :: "string \<Rightarrow> Context \<Rightarrow> int \<Rightarrow> segment_row list \<Rightarrow> segment_row list" where
  "report_segments s ctx ms = upsert_row ls_id (\<lambda>r. r\<lparr>ls_gateway := GatewayIP ctx, ls_ssid := nullIfEmpty (SSID ctx),
     ls_bssid := nullIfEmpty (BSSID ctx), ls_last_seen := ms\<rparr>) (seen_segment s ctx ms None)"

definition report_members :: "string \<Rightarrow> string \<Rightarrow> NodeID \<Rightarrow> Context \<Rightarrow> int \<Rightarrow> member_row list \<Rightarrow> member_row list" where
  "report_members s ty n ctx ms = upsert_row lm_key (\<lambda>r. r\<lparr>lm_local_ip := nullIfEmpty (LocalIP ctx), lm_last_seen := ms\<rparr>)
     \<lparr>lm_segment = s, lm_type = ty, lm_entity = n, lm_local_ip = nullIfEmpty (LocalIP ctx), lm_last_seen = ms\<rparr>"

lemma RecordMembership_success:
  fixes w :: "'a DB_scheme"
  assumes "RecordMembership sha ty n ctx t w = (Inr u, w')" and "Valid ctx"
  defines "s \<equiv> SegmentID sha ctx"
  defines "mems \<equiv> report_members s ty n ctx (UnixMilli t) (lan_segment_members w)"
  shows "tables w' = (tables w)\<lparr>lan_segments := update_rows (\<lambda>r. ls_id r = s)
      (placed (member_points s (w\<lparr>lan_segment_members := mems\<rparr>)))
      (report_segments s ctx (UnixMilli t) (lan_segments w)), lan_segment_members := mems\<rparr>"
proof -
  let ?f = "report_segments s ctx (UnixMilli t)" and ?g = "report_members s ty n ctx (UnixMilli t)"
  have "ty = EntityNode \<or> ty = EntityHub" using assms(1,2) by (auto simp: RecordMembership_def fail_def split: if_splits)
  with assms(1,2) obtain w1 w2 where w1: "tables w1 = tables w" "tables w' = tables w2"
    and b: "bnd (exec (\<lambda>w. Inr (1, lan_segments_update ?f w))) (\<lambda>_. bnd (exec (\<lambda>w. Inr (1, lan_segment_members_update ?g w)))
          (\<lambda>_. updateEstimatedPositionTx s)) w1 = (Inr u, w2)"
    by (auto simp: RecordMembership_def Let_def wrapped_Inr s_def seen_segment_def report_segments_def report_members_def
        upsert_stmt_eq bnd_wrapped elim!: transaction_success)
  from b obtain fs fs2 where
    u: "updateEstimatedPositionTx s (lan_segment_members_update ?g ((lan_segments_update ?f (w1\<lparr>faults := fs\<rparr>))\<lparr>faults := fs2\<rparr>))
      = (Inr u, w2)"
    by (elim exec_Inr) auto
  let ?w3 = "lan_segment_members_update ?g ((lan_segments_update ?f (w1\<lparr>faults := fs\<rparr>))\<lparr>faults := fs2\<rparr>)"
  have t3: "tables ?w3 = (tables w)\<lparr>lan_segments := ?f (lan_segments w), lan_segment_members := mems\<rparr>"
    by (simp only: tables_updates tables_faults w1(1), subst update_as_set(1), simp only: tables_fields mems_def)
  have "member_points s ?w3 = member_points s (tables ?w3)" by (rule member_points_tables [symmetric])
  also have "\<dots> = member_points s (w\<lparr>lan_segment_members := mems\<rparr>)"
    unfolding t3 by (simp add: member_points_def)
  finally show ?thesis
    using updateEstimatedPositionTx_success [OF u] w1(2) unfolding t3 update_as_set(2) by simp
qed

lemma RecordMembership_unchanged:
  assumes "RecordMembership sha ty n ctx t w = (r, w')" and "\<not> Valid ctx \<or> (\<exists>e. r = Inl e)"
  shows "tables w' = tables w"
  using assms by (auto simp: RecordMembership_def Let_def fail_def ret_def split: if_splits dest: transaction_atomic)


lemma image_key_update_rows:
  assumes "\<And>r. P r \<Longrightarrow> key (f r) = key r"
  shows "key ` set (update_rows P f rows) = key ` set rows"
  using map_key_update_rows [of P key f rows] assms by (metis list.set_map)

lemma image_key_upsert_row:
  assumes "\<And>r. key r = key new \<Longrightarrow> key (g r) = key r"
  shows "key ` set (upsert_row key g new rows) = insert (key new) (key ` set rows)"
  using image_key_update_rows [of "\<lambda>r. key r = key new" key g rows] assms
  by (auto simp: upsert_row_def find_row_None_iff)

lemma db_wf_lan:
  assumes "db_wf w" and "unique_key ls_id segs" and "unique_key lm_key mems"
    and "lm_segment ` set mems \<subseteq> ls_id ` set segs"
  shows "db_wf (w\<lparr>lan_segments := segs, lan_segment_members := mems\<rparr>)"
  using assms by (simp add: db_wf_def)

lemma RecordMembership_wf [inv_intros]: "keeps db_wf (RecordMembership sha ty n ctx t)"
  unfolding keeps_def
proof (intro allI impI)
  fix w :: "'a DB_scheme" assume wf: "db_wf w"
  obtain r w' where m: "RecordMembership sha ty n ctx t w = (r, w')" by force
  have tab: "db_wf w' = db_wf (tables w')" for w' :: "'a DB_scheme" by (simp add: db_wf_def tables_def)
  show "db_wf (snd (RecordMembership sha ty n ctx t w))"
  proof (cases "Valid ctx \<and> (\<exists>u. r = Inr u)")
    case True
    then obtain u where r: "r = Inr u" by blast
    let ?s = "SegmentID sha ctx" and ?ms = "UnixMilli t"
    from RecordMembership_success [OF m [unfolded r]] True obtain pts where t: "tables w' = (tables w)
      \<lparr>lan_segments := update_rows (\<lambda>r. ls_id r = ?s) (placed pts) (report_segments ?s ctx ?ms (lan_segments w)),
       lan_segment_members := report_members ?s ty n ctx ?ms (lan_segment_members w)\<rparr>" by blast
    have "db_wf (tables w')" unfolding t
    proof (rule db_wf_lan)
      show "unique_key ls_id (update_rows (\<lambda>r. ls_id r = ?s) (placed pts) (report_segments ?s ctx ?ms (lan_segments w)))"
        unfolding report_segments_def
        by (subst unique_key_update_rows, simp, rule unique_key_upsert_row) (simp_all add: db_wf_unique [OF wf])
      show "unique_key lm_key (report_members ?s ty n ctx ?ms (lan_segment_members w))"
        unfolding report_members_def by (rule unique_key_upsert_row) (simp_all add: lm_key_def db_wf_unique [OF wf])
      have "lm_segment ` set (lan_segment_members w) \<subseteq> ls_id ` set (lan_segments w)" using wf by (simp add: db_wf_def)
      then show "lm_segment ` set (report_members ?s ty n ctx ?ms (lan_segment_members w))
        \<subseteq> ls_id ` set (update_rows (\<lambda>r. ls_id r = ?s) (placed pts) (report_segments ?s ctx ?ms (lan_segments w)))"
        by (simp add: image_key_update_rows image_key_upsert_row seen_segment_def report_segments_def report_members_def)
          (auto simp: upsert_row_def update_rows_def split: if_splits)
    qed (simp add: wf db_wf_tables)
    then show ?thesis using m by (simp add: db_wf_tables)
  next
    case False
    have "tables w' = tables w"
      using RecordMembership_unchanged [OF m] False by (cases r) auto
    then show ?thesis using wf m tab [of w'] tab [of w] by simp
  qed
qed

section \<open>Beacons round trip\<close>

text \<open>
  A beacon survives the wire. If the JSON codec gives back the message it encoded, decoding an
  encoded beacon returns that message, with version 1 when none was set, and what is not prefixed
  with the five magic bytes is never taken for a beacon.
\<close>

theorem beacon_roundtrip:
  assumes "\<And>body. json_Marshal J (if m_V msg = 0 then msg\<lparr>m_V := 1\<rparr> else msg) = Inr body \<Longrightarrow>
      body \<noteq> [] \<and> json_Unmarshal J body = Inr (if m_V msg = 0 then msg\<lparr>m_V := 1\<rparr> else msg)"
    and "beacon_Encode J msg = Inr payload"
  shows "beacon_Decode J payload = Some (Inr (if m_V msg = 0 then msg\<lparr>m_V := 1\<rparr> else msg)) \<and>
    IsBeacon J payload \<and> (IsBeacon J p \<longleftrightarrow> 6 \<le> length p \<and> take 5 p = Prefix)"
proof -
  let ?m = "if m_V msg = 0 then msg\<lparr>m_V := 1\<rparr> else msg"
  obtain body where b: "json_Marshal J ?m = Inr body" "payload = Prefix @ body" "m_Kind ?m \<noteq> []" "m_NodeID ?m \<noteq> []"
    using assms(2) by (auto simp: beacon_Encode_def Let_def split: if_splits sum.splits)
  have len: "length Prefix = 5" by (simp add: Prefix_def string_bytes_def)
  from assms(1) [OF b(1)] have "beacon_Decode J payload = Some (Inr ?m)"
    using b(2-4) len by (simp add: beacon_Decode_def Suc_leI)
  then show ?thesis by (auto simp: IsBeacon_def beacon_Decode_def)
qed

definition sample_beacon :: Message where
  "sample_beacon = \<lparr>m_V = 1, m_Kind = KindNode, m_NodeID = ''ab'', m_Handle = '''', m_HomeLat = None, m_HomeLon = None,
     m_HeartbeatPort = 0, m_OGMPort = 0, m_Lat = None, m_Lon = None, m_AccuracyM = None, m_LanContext = None\<rparr>"

theorem beacon_roundtrip_witness:
  "beacon_Decode \<lparr>json_Marshal = (\<lambda>_. Inr [123, 125]), json_Unmarshal = (\<lambda>_. Inr sample_beacon)\<rparr>
     (Prefix @ [123, 125]) = Some (Inr sample_beacon)"
  using beacon_roundtrip [of "\<lparr>json_Marshal = (\<lambda>_. Inr [123, 125]), json_Unmarshal = (\<lambda>_. Inr sample_beacon)\<rparr>"
      sample_beacon "Prefix @ [123, 125]"]
  by (simp add: beacon_Encode_def sample_beacon_def)

end
