(* ===== verification/Dtn.thy ===== *)
theory Dtn
  imports Registry
begin

text \<open>
  Store-and-forward delivery: the bundle queue (\<^verbatim>\<open>core/dtn/store.go\<close>) and the engine that sweeps it
  (\<^verbatim>\<open>hub/internal/dtnengine/dtnengine.go\<close>). Random bytes are an argument; \<^verbatim>\<open>time.Now()\<close> is read once
  per operation and passed as \<open>now\<close>; the notifier and the local deliverer are fields of the
  configuration, as in the code.

  Shown: what one pass of the engine leaves in the queue, exactly; that no bundle is lost whatever
  statements fail, unless it has expired or its destination is online and routed; that a depth is
  published exactly when it differs from the last one.
\<close>

section \<open>The queue\<close>

record Bundle =
  BundleID :: bytes
  SrcNodeID :: bytes
  DstNodeID :: bytes
  b_Payload :: bytes
  ExpiresAtUnix :: int
  RetryCount :: "32 word"

text \<open>\<^verbatim>\<open>rand.Read\<close> fills the 16 bytes or fails; a nil payload is \<open>None\<close>.\<close>

definition dtn_Enqueue ::
  "error + bytes \<Rightarrow> time \<Rightarrow> NodeID \<Rightarrow> NodeID \<Rightarrow> bytes option \<Rightarrow> duration \<Rightarrow> ('a DB_scheme, Bundle) stmt" where
  "dtn_Enqueue entropy now src dst payload ttl =
     (case entropy of
        Inl e \<Rightarrow> fail (Wrap ''dtn: bundle id'' e)
      | Inr rbytes \<Rightarrow>
          let bundleID = copy_array 16 rbytes;
              expires = UnixMilli (now + ttl)
          in bnd (wrap_err ''dtn: enqueue''
                   (exec (\<lambda>w. case bind_blob w payload of
                        None \<Rightarrow> Inl NotNullViolation
                      | Some p \<Rightarrow>
                          insert_stmt dq_id dtq_queue dtq_queue_update
                            \<lparr>dq_id = bundleID, dq_src = src, dq_dst = dst, dq_payload = p,
                             dq_expires = expires, dq_retry = 0\<rparr> w)))
               (\<lambda>_. ret \<lparr>BundleID = bundleID, SrcNodeID = src, DstNodeID = dst,
                        b_Payload = (case payload of None \<Rightarrow> [] | Some p \<Rightarrow> p),
                        ExpiresAtUnix = expires, RetryCount = 0\<rparr>))"

definition scanBundle :: "bundle_row \<Rightarrow> error + Bundle" where
  "scanBundle r =
     (if length (dq_id r) \<noteq> 16 then Inl (Errmsg ''dtn: invalid bundle_id length'')
      else Inr \<lparr>BundleID = dq_id r, SrcNodeID = scan_id (dq_src r), DstNodeID = scan_id (dq_dst r),
                b_Payload = dq_payload r, ExpiresAtUnix = dq_expires r,
                RetryCount = of_int (dq_retry r)\<rparr>)"

fun scan_bundles :: "bundle_row list \<Rightarrow> error + Bundle list" where
  "scan_bundles [] = Inr []"
| "scan_bundles (r # rs) =
     (case scanBundle r of
        Inl e \<Rightarrow> Inl e
      | Inr b \<Rightarrow> (case scan_bundles rs of Inl e \<Rightarrow> Inl e | Inr bs \<Rightarrow> Inr (b # bs)))"

definition dtn_List :: "time \<Rightarrow> ('a DB_scheme, Bundle list) stmt" where
  "dtn_List now =
     bnd (query (\<lambda>w. order_asc dq_expires (filter (\<lambda>r. dq_expires r > UnixMilli now) (dtq_queue w))))
       (\<lambda>rows w. (scan_bundles rows, w))"

definition dtn_Delete :: "bytes \<Rightarrow> ('a DB_scheme, unit) stmt" where
  "dtn_Delete bundleID =
     bnd (exec (delete_stmt dtq_queue dtq_queue_update (\<lambda>r. dq_id r = bundleID))) (\<lambda>_. ret ())"

definition ExpireBefore :: "time \<Rightarrow> ('a DB_scheme, nat) stmt" where
  "ExpireBefore before =
     exec (delete_stmt dtq_queue dtq_queue_update (\<lambda>r. dq_expires r \<le> UnixMilli before))"

definition Depth :: "time \<Rightarrow> ('a DB_scheme, nat) stmt" where
  "Depth now = query (\<lambda>w. count_rows (\<lambda>r. dq_expires r > UnixMilli now) (dtq_queue w))"

definition IncrementRetry :: "bytes \<Rightarrow> ('a DB_scheme, unit) stmt" where
  "IncrementRetry bundleID =
     bnd (exec (update_stmt dtq_queue dtq_queue_update (\<lambda>r. dq_id r = bundleID)
            (\<lambda>r. r\<lparr>dq_retry := dq_retry r + 1\<rparr>)))
       (\<lambda>_. ret ())"

section \<open>The engine\<close>

text \<open>The engine's own state is the last published depth; it lives beside the database.\<close>

record dtn_world = DB +
  lastDepth :: int

record 'w dtn_config =
  dtn_Handler :: "(int \<Rightarrow> 'w \<Rightarrow> 'w) option"
  dtn_SelfID :: NodeID
  dtn_LocalDeliverer :: "(NodeID \<Rightarrow> NodeID \<Rightarrow> bytes \<Rightarrow> ('w, unit) stmt) option"
  dtn_TTL :: duration
  dtn_Interval :: duration

definition dtn_defaults :: "'w dtn_config \<Rightarrow> 'w dtn_config" where
  "dtn_defaults cfg =
     (let cfg1 = (if dtn_TTL cfg \<le> 0 then cfg\<lparr>dtn_TTL := 24 * Hour\<rparr> else cfg)
      in if dtn_Interval cfg1 \<le> 0 then cfg1\<lparr>dtn_Interval := 5 * Second\<rparr> else cfg1)"

definition dtn_New :: "'w dtn_config \<Rightarrow> 'a dtn_world_scheme \<Rightarrow> 'w dtn_config \<times> 'a dtn_world_scheme" where
  "dtn_New cfg w = (dtn_defaults cfg, w\<lparr>lastDepth := - 1\<rparr>)"

definition onlineDestinations :: "('a DB_scheme, NodeID list) stmt" where
  "onlineDestinations w =
     (case Nodes w of
        (Inl e, w1) \<Rightarrow> (Inr [], w1)
      | (Inr nodes, w1) \<Rightarrow>
          (Inr (map n_NodeID (filter (\<lambda>n. n_Status n = NodeStatusOnline) nodes)), w1))"

definition deliver_bundle ::
  "('a DB_scheme) dtn_config \<Rightarrow> NodeID list \<Rightarrow> Bundle \<Rightarrow> 'a DB_scheme \<Rightarrow> 'a DB_scheme" where
  "deliver_bundle cfg online b w =
     (let dst = DstNodeID b; src = SrcNodeID b; retry = (\<lambda>w. snd (IncrementRetry (BundleID b) w)) in
      if dst \<notin> set online then retry w
      else case GetRoute dst w of
        (Inl e, w1) \<Rightarrow> retry w1
      | (Inr None, w1) \<Rightarrow> retry w1
      | (Inr (Some _), w1) \<Rightarrow>
          (if dst = dtn_SelfID cfg \<and> dtn_LocalDeliverer cfg \<noteq> None then
             (case (the (dtn_LocalDeliverer cfg)) src dst (b_Payload b) w1 of
                (Inl e, w2) \<Rightarrow> retry w2
              | (Inr _, w2) \<Rightarrow> snd (dtn_Delete (BundleID b) w2))
           else snd (dtn_Delete (BundleID b) w1)))"

definition deliverPending :: "('a DB_scheme) dtn_config \<Rightarrow> time \<Rightarrow> 'a DB_scheme \<Rightarrow> 'a DB_scheme" where
  "deliverPending cfg now w =
     (case dtn_List now w of
        (Inl e, w1) \<Rightarrow> w1
      | (Inr bundles, w1) \<Rightarrow>
          (case onlineDestinations w1 of
             (Inl e, w2) \<Rightarrow> w2
           | (Inr online, w2) \<Rightarrow> fold (deliver_bundle cfg online) bundles w2))"

definition publishDepth ::
  "('a dtn_world_scheme) dtn_config \<Rightarrow> time \<Rightarrow> 'a dtn_world_scheme \<Rightarrow> 'a dtn_world_scheme" where
  "publishDepth cfg now w =
     (case Depth now w of
        (Inl e, w1) \<Rightarrow> w1
      | (Inr depth, w1) \<Rightarrow>
          (let changed = (int depth \<noteq> lastDepth w1);
               w2 = w1\<lparr>lastDepth := int depth\<rparr>
           in case dtn_Handler cfg of
                Some h \<Rightarrow> if changed then h (int depth) w2 else w2
              | None \<Rightarrow> w2))"

definition processOnce ::
  "('a dtn_world_scheme) dtn_config \<Rightarrow> time \<Rightarrow> 'a dtn_world_scheme \<Rightarrow> 'a dtn_world_scheme" where
  "processOnce cfg now w = publishDepth cfg now (deliverPending cfg now (snd (ExpireBefore now w)))"

definition OnRouteChanged ::
  "('a dtn_world_scheme) dtn_config \<Rightarrow> time \<Rightarrow> Route \<Rightarrow> 'a dtn_world_scheme \<Rightarrow> 'a dtn_world_scheme" where
  "OnRouteChanged cfg now route w = processOnce cfg now w"

definition dtnengine_Enqueue ::
  "('a dtn_world_scheme) dtn_config \<Rightarrow> error + bytes \<Rightarrow> time \<Rightarrow> NodeID \<Rightarrow> NodeID \<Rightarrow> bytes option \<Rightarrow>
   ('a dtn_world_scheme, unit) stmt" where
  "dtnengine_Enqueue cfg entropy now src dst payload w =
     (case dtn_Enqueue entropy now src dst payload (dtn_TTL cfg) w of
        (Inl e, w1) \<Rightarrow> (Inl e, w1)
      | (Inr _, w1) \<Rightarrow> (Inr (), publishDepth cfg now w1))"

definition SetLocalDeliverer ::
  "(NodeID \<Rightarrow> NodeID \<Rightarrow> bytes \<Rightarrow> ('w, unit) stmt) \<Rightarrow> 'w dtn_config \<Rightarrow> 'w dtn_config" where
  "SetLocalDeliverer d cfg = cfg\<lparr>dtn_LocalDeliverer := Some d\<rparr>"

text \<open>\<^verbatim>\<open>Start\<close> publishes the depth once; \<^verbatim>\<open>loop\<close> then runs a pass per tick, at the given times.\<close>

definition dtn_Start where
  "dtn_Start cfg now w = publishDepth cfg now w"

fun dtn_loop where
  "dtn_loop cfg [] w = w"
| "dtn_loop cfg (t # ticks) w = dtn_loop cfg ticks (processOnce cfg t w)"

section \<open>Frames\<close>

text \<open>
  The queue operations touch the queue and the failure script only: for a property of the other
  tables it is enough that these two updates keep it.
\<close>

definition queue_only :: "('a DB_scheme \<Rightarrow> bool) \<Rightarrow> bool" where
  "queue_only P = (\<forall>w f fs. P w \<longrightarrow> P (dtq_queue_update f w) \<and> P (w\<lparr>faults := fs\<rparr>))"

lemma queue_only_faults: "queue_only P \<Longrightarrow> P w \<Longrightarrow> P (w\<lparr>faults := fs\<rparr>)"
  by (simp add: queue_only_def)

lemma keeps_queue_ops:
  assumes "queue_only P"
  shows "keeps P (IncrementRetry i)" "keeps P (dtn_Delete i)" "keeps P (ExpireBefore t)"
    "keeps P (dtn_List t)" "keeps P (GetRoute k)" "keeps P (Depth t)" "keeps P Nodes"
proof -
  note f = queue_only_faults [OF assms]
  show "keeps P (IncrementRetry i)" unfolding IncrementRetry_def
    by (intro keeps_bnd keeps_update keeps_ret f) (use assms in \<open>simp_all add: queue_only_def\<close>)
  show "keeps P (dtn_Delete i)" unfolding dtn_Delete_def
    by (intro keeps_bnd keeps_delete keeps_ret f) (use assms in \<open>simp_all add: queue_only_def\<close>)
  show "keeps P (ExpireBefore t)" unfolding ExpireBefore_def
    by (intro keeps_delete f) (use assms in \<open>simp_all add: queue_only_def\<close>)
  show "keeps P (dtn_List t)" unfolding dtn_List_def
    by (intro keeps_bnd keeps_query f) (auto simp: keeps_def)
  show "keeps P (GetRoute k)" unfolding GetRoute_def by (intro keeps_query f)
  show "keeps P (Depth t)" unfolding Depth_def by (intro keeps_query f)
  show "keeps P Nodes" unfolding Nodes_def by (intro keeps_query f)
qed

lemma keeps_onlineDestinations:
  assumes "queue_only P"
  shows "keeps P onlineDestinations"
  using keeps_queue_ops(7) [OF assms]
  by (auto simp: keeps_def onlineDestinations_def split: prod.split sum.split)

section \<open>No bundle is lost\<close>

definition same_bundle :: "bundle_row \<Rightarrow> bundle_row \<Rightarrow> bool" where
  "same_bundle r b = (dq_id r = dq_id b \<and> dq_src r = dq_src b \<and> dq_dst r = dq_dst b \<and>
     dq_payload r = dq_payload b \<and> dq_expires r = dq_expires b)"

definition holds_bundle :: "bundle_row \<Rightarrow> 'a DB_scheme \<Rightarrow> bool" where
  "holds_bundle b w = (\<exists>r \<in> set (dtq_queue w). same_bundle r b)"

lemma holds_bundle_faults [simp]: "holds_bundle b (w\<lparr>faults := fs\<rparr>) = holds_bundle b w"
  by (simp add: holds_bundle_def)

lemma holds_bundle_retry: "keeps (holds_bundle b) (IncrementRetry i)"
  unfolding IncrementRetry_def
proof (intro keeps_bnd keeps_update keeps_ret)
  fix w :: "'a DB_scheme" assume "holds_bundle b w"
  then obtain r where r: "r \<in> set (dtq_queue w)" "same_bundle r b" by (auto simp: holds_bundle_def)
  let ?f = "\<lambda>r. if dq_id r = i then r\<lparr>dq_retry := dq_retry r + 1\<rparr> else r"
  have "?f r \<in> set (update_rows (\<lambda>r. dq_id r = i) (\<lambda>r. r\<lparr>dq_retry := dq_retry r + 1\<rparr>) (dtq_queue w))"
    unfolding set_update_rows using r(1) by (rule imageI)
  moreover have "same_bundle (?f r) b" using r(2) by (auto simp: same_bundle_def)
  ultimately show "holds_bundle b (dtq_queue_update (update_rows (\<lambda>r. dq_id r = i) (\<lambda>r. r\<lparr>dq_retry := dq_retry r + 1\<rparr>)) w)"
    unfolding holds_bundle_def by auto
qed simp

lemma holds_bundle_delete: "i \<noteq> dq_id b \<Longrightarrow> keeps (holds_bundle b) (dtn_Delete i)"
  unfolding dtn_Delete_def
  by (intro keeps_bnd keeps_delete keeps_ret) (auto simp: holds_bundle_def same_bundle_def)

lemma holds_bundle_expire: "dq_expires b > UnixMilli now \<Longrightarrow> keeps (holds_bundle b) (ExpireBefore now)"
  unfolding ExpireBefore_def
  by (intro keeps_delete) (fastforce simp: holds_bundle_def same_bundle_def)+

lemma holds_bundle_reads:
  "keeps (holds_bundle b) (dtn_List t)" "keeps (holds_bundle b) (GetRoute k)"
  "keeps (holds_bundle b) (Depth t)" "keeps (holds_bundle b) Nodes"
  unfolding dtn_List_def GetRoute_def Depth_def Nodes_def
  by (intro keeps_query keeps_bnd; auto simp: keeps_def)+

lemma scan_bundles_in:
  "scan_bundles rows = Inr bs \<Longrightarrow> x \<in> set bs \<Longrightarrow> \<exists>r \<in> set rows. scanBundle r = Inr x"
  by (induction rows arbitrary: bs) (auto split: sum.splits)

lemma scanBundle_Inr:
  "scanBundle r = Inr x \<Longrightarrow> BundleID x = dq_id r \<and> DstNodeID x = scan_id (dq_dst r) \<and>
     SrcNodeID x = scan_id (dq_src r) \<and> b_Payload x = dq_payload r"
  by (auto simp: scanBundle_def split: if_splits)

lemma routing_table_frames [db_frame]:
  "routing_table (snd (IncrementRetry i w)) = routing_table w"
  "routing_table (snd (dtn_Delete i w)) = routing_table w"
  "routing_table (snd (ExpireBefore t w)) = routing_table w"
  "routing_table (snd (dtn_List t w)) = routing_table w"
  "routing_table (snd (GetRoute k w)) = routing_table w"
  "routing_table (snd (onlineDestinations w)) = routing_table w"
  by (rule keeps_eqD keeps_eqD, rule keeps_queue_ops keeps_onlineDestinations, simp add: queue_only_def)+

lemma node_registry_frames [db_frame]:
  "node_registry (snd (ExpireBefore t w)) = node_registry w"
  "node_registry (snd (dtn_List t w)) = node_registry w"
  by (rule keeps_eqD, rule keeps_queue_ops, simp add: queue_only_def)+

lemma GetRoute_absent:
  assumes "find_row rt_dest k (routing_table w) = None" and "GetRoute k w = (r, w')"
  shows "r \<noteq> Inr (Some x)"
  using assms unfolding GetRoute_def
  by (cases rule: query_cases [of "\<lambda>w. map_option to_Route (find_row rt_dest k (routing_table w))" w]) auto

lemma onlineDestinations_sound:
  assumes "onlineDestinations w = (Inr online, w')" and "k \<in> set online"
  shows "\<exists>r \<in> set (node_registry w). scan_id (nr_id r) = k \<and> nr_status r = NodeStatusOnline"
  using assms unfolding onlineDestinations_def Nodes_def
  by (cases rule: query_cases [of "\<lambda>w. map to_Node (node_registry w)" w]) (auto simp: to_Node_def, blast)

lemma ExpireBefore_subset: "set (dtq_queue (snd (ExpireBefore t w))) \<subseteq> set (dtq_queue w)"
  unfolding ExpireBefore_def
  by (rule exec_cases [of "delete_stmt dtq_queue dtq_queue_update (\<lambda>r. dq_expires r \<le> UnixMilli t)" w])
    (auto simp: delete_stmt_def)

lemma dtn_List_sound:
  assumes "dtn_List t w = (Inr bs, w')" and "x \<in> set bs"
  shows "\<exists>r \<in> set (dtq_queue w). dq_expires r > UnixMilli t \<and> scanBundle r = Inr x"
  using assms unfolding dtn_List_def
  by (cases rule: query_cases [of "\<lambda>w. order_asc dq_expires (filter (\<lambda>r. dq_expires r > UnixMilli t) (dtq_queue w))" w])
    (auto simp: bnd_def dest!: scan_bundles_in)

section \<open>What a pass leaves in the queue\<close>

definition bump :: "bundle_row \<Rightarrow> bundle_row" where
  "bump r = r\<lparr>dq_retry := dq_retry r + 1\<rparr>"

lemma dq_id_bump [simp]: "dq_id (bump r) = dq_id r"
  by (simp add: bump_def)

definition settle :: "(bytes \<Rightarrow> bool) \<Rightarrow> bytes \<Rightarrow> bundle_row list \<Rightarrow> bundle_row list" where
  "settle del i rows = (if del i then delete_rows (\<lambda>r. dq_id r = i) rows
                        else update_rows (\<lambda>r. dq_id r = i) bump rows)"

lemma settle_conv:
  "settle del i rows = map (\<lambda>r. if dq_id r = i then bump r else r) (filter (\<lambda>r. dq_id r = i \<longrightarrow> \<not> del i) rows)"
  by (induction rows) (auto simp: settle_def delete_rows_def update_rows_def)

lemma fold_settle:
  "distinct ids \<Longrightarrow> fold (settle del) ids rows =
     map (\<lambda>r. if dq_id r \<in> set ids then bump r else r)
       (filter (\<lambda>r. dq_id r \<in> set ids \<longrightarrow> \<not> del (dq_id r)) rows)"
proof (induction ids arbitrary: rows)
  case (Cons i ids)
  then have i: "i \<notin> set ids" "distinct ids" by simp_all
  have "fold (settle del) (i # ids) rows = map (\<lambda>r. if dq_id r \<in> set ids then bump r else r)
       (filter (\<lambda>r. dq_id r \<in> set ids \<longrightarrow> \<not> del (dq_id r)) (settle del i rows))"
    using Cons.IH [OF i(2), of "settle del i rows"] by simp
  also have "\<dots> = map (\<lambda>r. if dq_id r \<in> set (i # ids) then bump r else r)
       (filter (\<lambda>r. dq_id r \<in> set (i # ids) \<longrightarrow> \<not> del (dq_id r)) rows)"
    using i(1) by (induction rows) (auto simp: settle_conv)
  finally show ?case .
qed simp

text \<open>A destination is reachable when its node is online and it has a route.\<close>

definition reachable_dst :: "'a DB_scheme \<Rightarrow> NodeID \<Rightarrow> bool" where
  "reachable_dst w dst = ((\<exists>r \<in> set (node_registry w). scan_id (nr_id r) = dst \<and> nr_status r = NodeStatusOnline) \<and>
     find_row rt_dest dst (routing_table w) \<noteq> None)"

lemma scan_bundles_ok:
  "\<forall>r \<in> set rows. length (dq_id r) = 16 \<Longrightarrow> scan_bundles rows = Inr (map (\<lambda>r. projr (scanBundle r)) rows)"
  by (induction rows) (auto simp: scanBundle_def)

lemma deliver_bundle_ok:
  assumes "faults w = []" and "find_row rt_dest (dtn_SelfID cfg) (routing_table w) = None"
  shows "deliver_bundle cfg online x w = dtq_queue_update (settle
    (\<lambda>i. DstNodeID x \<in> set online \<and> find_row rt_dest (DstNodeID x) (routing_table w) \<noteq> None) (BundleID x)) w"
  using assms
  by (auto simp: deliver_bundle_def Let_def db_simps IncrementRetry_def dtn_Delete_def stmt_defs settle_def
      bump_def [abs_def] split: option.split)

lemma deliver_fold_ok:
  assumes "faults w = []" and "find_row rt_dest (dtn_SelfID cfg) (routing_table w) = None"
    and "\<forall>x \<in> set bs. del (BundleID x) \<longleftrightarrow>
      DstNodeID x \<in> set online \<and> find_row rt_dest (DstNodeID x) (routing_table w) \<noteq> None"
  shows "fold (deliver_bundle cfg online) bs w = dtq_queue_update (fold (settle del) (map BundleID bs)) w"
  using assms
proof (induction bs arbitrary: w)
  case (Cons x bs)
  have "settle (\<lambda>i. DstNodeID x \<in> set online \<and> find_row rt_dest (DstNodeID x) (routing_table w) \<noteq> None) (BundleID x) =
      settle del (BundleID x)"
    using Cons.prems(3) by (simp add: settle_def fun_eq_iff)
  with Cons.prems have 1: "deliver_bundle cfg online x w = dtq_queue_update (settle del (BundleID x)) w"
    by (simp add: deliver_bundle_ok)
  have "fold (deliver_bundle cfg online) bs (dtq_queue_update (settle del (BundleID x)) w) =
      dtq_queue_update (fold (settle del) (map BundleID bs)) (dtq_queue_update (settle del (BundleID x)) w)"
    using Cons.prems by (intro Cons.IH) auto
  then show ?case by (simp add: 1 comp_def)
qed simp

lemma deliverPending_ok:
  assumes "faults w = []" and "find_row rt_dest (dtn_SelfID cfg) (routing_table w) = None"
    and "unique_key dq_id (dtq_queue w)"
    and rows: "\<forall>r \<in> set (dtq_queue w). length (dq_id r) = 16 \<and> UnixMilli now < dq_expires r"
  shows "dtq_queue (deliverPending cfg now w) =
    map bump (filter (\<lambda>r. \<not> reachable_dst w (scan_id (dq_dst r))) (dtq_queue w))"
proof -
  let ?rows = "order_asc dq_expires (dtq_queue w)"
  let ?bs = "map (\<lambda>r. projr (scanBundle r)) ?rows"
  let ?online = "map n_NodeID (filter (\<lambda>n. n_Status n = NodeStatusOnline) (map to_Node (node_registry w)))"
  let ?del = "\<lambda>i. \<exists>r \<in> set (dtq_queue w). dq_id r = i \<and> reachable_dst w (scan_id (dq_dst r))"
  have fl: "filter (\<lambda>r. UnixMilli now < dq_expires r) (dtq_queue w) = dtq_queue w"
    using rows by (simp add: filter_id_conv)
  have list: "dtn_List now w = (Inr ?bs, w)"
    using assms(1) rows by (simp add: dtn_List_def db_simps fl scan_bundles_ok)
  have online: "onlineDestinations w = (Inr ?online, w)"
    using assms(1) by (simp add: onlineDestinations_def Nodes_def db_simps)
  have on_iff: "d \<in> set ?online \<longleftrightarrow> (\<exists>r \<in> set (node_registry w). scan_id (nr_id r) = d \<and> nr_status r = NodeStatusOnline)" for d
    by (force simp: to_Node_def)
  have sc: "BundleID (projr (scanBundle r)) = dq_id r" "DstNodeID (projr (scanBundle r)) = scan_id (dq_dst r)"
    if "r \<in> set (dtq_queue w)" for r using rows that by (simp_all add: scanBundle_def)
  have same: "r = s" if "r \<in> set (dtq_queue w)" "s \<in> set (dtq_queue w)" "dq_id r = dq_id s" for r s
    using find_row_in [OF assms(3)] that by (metis option.inject)
  have del: "?del (dq_id r) \<longleftrightarrow> reachable_dst w (scan_id (dq_dst r))" if "r \<in> set (dtq_queue w)" for r
    using same that by blast
  have "\<forall>x \<in> set ?bs. ?del (BundleID x) \<longleftrightarrow>
      DstNodeID x \<in> set ?online \<and> find_row rt_dest (DstNodeID x) (routing_table w) \<noteq> None"
    using del sc on_iff by (auto simp: reachable_dst_def)
  then have "deliverPending cfg now w = dtq_queue_update (fold (settle ?del) (map BundleID ?bs)) w"
    using deliver_fold_ok [OF assms(1,2), of ?bs ?del ?online] by (simp add: deliverPending_def list online)
  moreover have ids: "map BundleID ?bs = map dq_id ?rows" using sc by simp
  moreover have "distinct (map dq_id ?rows)"
    using assms(3) unfolding unique_key_def order_asc_def distinct_map by (auto intro: inj_on_subset)
  moreover have "set (map dq_id ?rows) = dq_id ` set (dtq_queue w)" by simp
  ultimately have "dtq_queue (deliverPending cfg now w) =
      map (\<lambda>r. if dq_id r \<in> dq_id ` set (dtq_queue w) then bump r else r)
        (filter (\<lambda>r. dq_id r \<in> dq_id ` set (dtq_queue w) \<longrightarrow> \<not> ?del (dq_id r)) (dtq_queue w))"
    by (simp only: fold_settle DB.simps) (simp add: fold_settle)
  also have "\<dots> = map bump (filter (\<lambda>r. \<not> reachable_dst w (scan_id (dq_dst r))) (dtq_queue w))"
    using del by (auto intro!: map_cong filter_cong)
  finally show ?thesis .
qed

section \<open>The contract with the engine's clients\<close>

text \<open>
  What the engine relies on of its clients: the notifier and the local deliverer leave the queue
  and the routes alone.
\<close>

locale dtn_client =
  fixes cfg :: "('a dtn_world_scheme) dtn_config"
  assumes handler_queue: "dtn_Handler cfg = Some h \<Longrightarrow> dtq_queue (h d w) = dtq_queue w"
    and deliverer_queue: "dtn_LocalDeliverer cfg = Some f \<Longrightarrow> dtq_queue (snd (f src dst p w)) = dtq_queue w"
    and handler_routes: "dtn_Handler cfg = Some h \<Longrightarrow> routing_table (h d w) = routing_table w"
    and deliverer_routes: "dtn_LocalDeliverer cfg = Some f \<Longrightarrow> routing_table (snd (f src dst p w)) = routing_table w"
begin

lemma deliver_bundle_routes: "routing_table (deliver_bundle cfg online x w) = routing_table w"
proof -
  have g: "routing_table w1 = routing_table w" if "GetRoute (DstNodeID x) w = (r, w1)" for r w1
    using routing_table_frames(5) [of "DstNodeID x" w] that by simp
  have d: "routing_table w2 = routing_table w1" if "the (dtn_LocalDeliverer cfg) src dst p w1 = (r, w2)"
    "dtn_LocalDeliverer cfg \<noteq> None" for src dst p w1 w2 r
    using deliverer_routes [of "the (dtn_LocalDeliverer cfg)" src dst p w1] that by (cases "dtn_LocalDeliverer cfg") auto
  show ?thesis
    by (auto simp: deliver_bundle_def Let_def routing_table_frames g d split: prod.split sum.split option.split)
qed

lemma deliver_bundle_holds:
  assumes "holds_bundle b w"
    and "BundleID x = dq_id b \<Longrightarrow> DstNodeID x = dq_dst b"
    and "dq_dst b \<notin> set online \<or> find_row rt_dest (dq_dst b) (routing_table w) = None"
  shows "holds_bundle b (deliver_bundle cfg online x w)"
proof -
  have retry: "holds_bundle b (snd (IncrementRetry i v))" if "holds_bundle b v" for i v
    using keepsD [OF holds_bundle_retry that] .
  have g: "holds_bundle b w1" if "GetRoute (DstNodeID x) w = (r, w1)" for r w1
    using keepsD [OF holds_bundle_reads(2) assms(1), of "DstNodeID x"] that by simp
  have d: "holds_bundle b w2" if "the (dtn_LocalDeliverer cfg) src dst p w1 = (r, w2)"
    "dtn_LocalDeliverer cfg \<noteq> None" "holds_bundle b w1" for src dst p w1 w2 r
    using deliverer_queue [of "the (dtn_LocalDeliverer cfg)" src dst p w1] that
    by (cases "dtn_LocalDeliverer cfg") (auto simp: holds_bundle_def)
  show ?thesis
  proof (cases "BundleID x = dq_id b")
    case True
    then have "DstNodeID x = dq_dst b" by (rule assms(2))
    then have absent: "DstNodeID x \<in> set online \<Longrightarrow> GetRoute (DstNodeID x) w \<noteq> (Inr (Some y), w1)" for y w1
      using assms(3) GetRoute_absent [of "DstNodeID x" w _ w1 y] by auto
    show ?thesis
    proof (cases "DstNodeID x \<in> set online")
      case True
      obtain r w1 where gr: "GetRoute (DstNodeID x) w = (r, w1)" by force
      with absent [OF True] have "\<forall>y. r \<noteq> Inr (Some y)" by auto
      then show ?thesis
        using True retry [OF g [OF gr]]
        by (cases r; cases "projr r") (auto simp: deliver_bundle_def Let_def gr split: sum.split option.split)
    qed (simp add: deliver_bundle_def Let_def retry [OF assms(1)])
  next
    case False
    have del: "holds_bundle b (snd (dtn_Delete (BundleID x) v))" if "holds_bundle b v" for v
      using keepsD [OF holds_bundle_delete [OF False] that] .
    show ?thesis
      using assms(1) by (auto simp: deliver_bundle_def Let_def retry g del d split: prod.split sum.split option.split)
  qed
qed

lemma deliver_fold_holds:
  assumes "holds_bundle b w" and "\<forall>x \<in> set bs. BundleID x = dq_id b \<longrightarrow> DstNodeID x = dq_dst b"
    and "dq_dst b \<notin> set online \<or> find_row rt_dest (dq_dst b) (routing_table w) = None"
  shows "holds_bundle b (fold (deliver_bundle cfg online) bs w)"
  using assms
proof (induction bs arbitrary: w)
  case (Cons x bs)
  then show ?case by (simp add: deliver_bundle_holds deliver_bundle_routes)
qed simp

lemma deliverPending_holds:
  assumes "holds_bundle b w"
    and ids: "\<forall>r \<in> set (dtq_queue w). dq_id r = dq_id b \<longrightarrow> dq_dst r = dq_dst b" and len: "length (dq_dst b) = 32"
    and un: "(\<forall>r \<in> set (node_registry w). nr_status r = NodeStatusOnline \<longrightarrow> scan_id (nr_id r) \<noteq> dq_dst b) \<or>
      find_row rt_dest (dq_dst b) (routing_table w) = None"
  shows "holds_bundle b (deliverPending cfg now w)"
proof -
  obtain r1 w1 where l: "dtn_List now w = (r1, w1)" by force
  have w1: "holds_bundle b w1" "routing_table w1 = routing_table w" "node_registry w1 = node_registry w"
    using keepsD [OF holds_bundle_reads(1) assms(1), of now] routing_table_frames(4) [of now w]
      node_registry_frames(2) [of now w] by (simp_all add: l)
  obtain r2 w2 where o: "onlineDestinations w1 = (r2, w2)" by force
  have w2: "holds_bundle b w2" "routing_table w2 = routing_table w"
    using keepsD [OF holds_bundle_reads(4) w1(1)] routing_table_frames(6) [of w1] o w1
    by (auto simp: onlineDestinations_def split: prod.splits sum.splits)
  have "holds_bundle b (fold (deliver_bundle cfg online) bs w2)"
    if "r1 = Inr bs" "r2 = Inr online" for bs online
  proof (rule deliver_fold_holds [OF w2(1)])
    show "\<forall>x \<in> set bs. BundleID x = dq_id b \<longrightarrow> DstNodeID x = dq_dst b"
      using dtn_List_sound [of now w bs w1] l that ids len scanBundle_Inr by fastforce
    show "dq_dst b \<notin> set online \<or> find_row rt_dest (dq_dst b) (routing_table w2) = None"
      using un onlineDestinations_sound [of w1 online w2 "dq_dst b"] o that w1(3) w2(2) by auto
  qed
  then show ?thesis using w1 w2 by (auto simp: deliverPending_def l o split: sum.split)
qed

lemma publishDepth_queue: "dtq_queue (publishDepth cfg now w) = dtq_queue w"
proof -
  have "dtq_queue (snd (Depth now w)) = dtq_queue w"
    unfolding Depth_def by (rule keeps_eqD) (rule keeps_query, simp)
  then show ?thesis
    by (auto simp: publishDepth_def Let_def handler_queue split: prod.split sum.split option.split)
qed

lemma publishDepth_routes: "routing_table (publishDepth cfg now w) = routing_table w"
proof -
  have "routing_table (snd (Depth now w)) = routing_table w"
    unfolding Depth_def by (rule keeps_eqD) (rule keeps_query, simp)
  then show ?thesis
    by (auto simp: publishDepth_def Let_def handler_routes split: prod.split sum.split option.split)
qed

lemma deliverPending_routes: "routing_table (deliverPending cfg now w) = routing_table w"
proof -
  have f: "routing_table (fold (deliver_bundle cfg online) bs w) = routing_table w" for online bs w
    by (induction bs arbitrary: w) (simp_all add: deliver_bundle_routes)
  obtain r1 w1 where l: "dtn_List now w = (r1, w1)" by force
  obtain r2 w2 where o: "onlineDestinations w1 = (r2, w2)" by force
  have "routing_table w1 = routing_table w" "routing_table w2 = routing_table w"
    using routing_table_frames(4) [of now w] routing_table_frames(6) [of w1] l o by simp_all
  then show ?thesis by (simp add: deliverPending_def l o f split: sum.split)
qed

lemma processOnce_routes: "routing_table (processOnce cfg now w) = routing_table w"
  by (simp add: processOnce_def publishDepth_routes deliverPending_routes routing_table_frames)

lemma Enqueue_routes: "routing_table (snd (dtnengine_Enqueue cfg entropy now src dst payload w)) = routing_table w"
proof -
  have "routing_table (snd (dtn_Enqueue entropy now src dst payload ttl w)) = routing_table w" for ttl
    by (rule keeps_eqD) (auto simp: dtn_Enqueue_def Let_def insert_stmt_def
        intro!: keeps_bnd keeps_exec split: sum.split option.splits if_splits)
  then show ?thesis
    by (auto simp: dtnengine_Enqueue_def publishDepth_routes split: prod.split sum.split) (metis snd_conv)+
qed

text \<open>
  A pass of the engine, under any failures, keeps every bundle that has not expired and whose
  destination is offline or without a route.
\<close>

lemma processOnce_holds:
  assumes "unique_key dq_id (dtq_queue w)" and "b \<in> set (dtq_queue w)"
    and "UnixMilli now < dq_expires b" and "length (dq_dst b) = 32"
    and "(\<forall>r \<in> set (node_registry w). nr_status r = NodeStatusOnline \<longrightarrow> scan_id (nr_id r) \<noteq> dq_dst b) \<or>
      find_row rt_dest (dq_dst b) (routing_table w) = None"
  shows "holds_bundle b (processOnce cfg now w)"
proof -
  let ?w = "snd (ExpireBefore now w)"
  have "holds_bundle b w" using assms(2) by (auto simp: holds_bundle_def same_bundle_def)
  then have "holds_bundle b ?w" using keepsD [OF holds_bundle_expire [OF assms(3)]] by blast
  moreover have "\<forall>r \<in> set (dtq_queue ?w). dq_id r = dq_id b \<longrightarrow> dq_dst r = dq_dst b"
    using ExpireBefore_subset [of now w] find_row_in [OF assms(1)] assms(2) by (metis option.inject subsetD)
  ultimately have "holds_bundle b (deliverPending cfg now ?w)"
    using assms(4,5) by (intro deliverPending_holds) (simp_all add: db_frame)
  then show ?thesis by (simp add: processOnce_def holds_bundle_def publishDepth_queue)
qed

text \<open>
  Without failures a pass keeps exactly the live bundles that cannot be delivered yet, in order
  and with one more retry each; the expired and the deliverable ones are gone.
\<close>

lemma processOnce_exact:
  assumes "faults w = []" and "find_row rt_dest (dtn_SelfID cfg) (routing_table w) = None"
    and "unique_key dq_id (dtq_queue w)" and "\<forall>r \<in> set (dtq_queue w). length (dq_id r) = 16"
  shows "dtq_queue (processOnce cfg now w) =
    map bump (filter (\<lambda>r. UnixMilli now < dq_expires r \<and> \<not> reachable_dst w (scan_id (dq_dst r))) (dtq_queue w))"
proof -
  let ?w = "dtq_queue_update (delete_rows (\<lambda>r. dq_expires r \<le> UnixMilli now)) w"
  have e: "snd (ExpireBefore now w) = ?w" using assms(1) by (simp add: ExpireBefore_def db_simps delete_stmt_def)
  have "dtq_queue (deliverPending cfg now ?w) =
      map bump (filter (\<lambda>r. \<not> reachable_dst ?w (scan_id (dq_dst r))) (dtq_queue ?w))"
    using assms by (intro deliverPending_ok) (auto simp: unique_key_delete_rows)
  moreover have "reachable_dst ?w = reachable_dst w" by (simp add: reachable_dst_def fun_eq_iff)
  moreover have "filter (\<lambda>r. \<not> reachable_dst w (scan_id (dq_dst r))) (delete_rows (\<lambda>r. dq_expires r \<le> UnixMilli now) (dtq_queue w)) =
      filter (\<lambda>r. UnixMilli now < dq_expires r \<and> \<not> reachable_dst w (scan_id (dq_dst r))) (dtq_queue w)"
    by (simp add: delete_rows_def conj_commute not_le)
  ultimately show ?thesis by (simp add: processOnce_def publishDepth_queue e)
qed

end

text \<open>A client that causes no failures of its own: then a pass causes none.\<close>

locale dtn_quiet_client = dtn_client +
  assumes handler_faults: "dtn_Handler cfg = Some h \<Longrightarrow> faults w = [] \<Longrightarrow> faults (h d w) = []"
    and deliverer_faults: "dtn_LocalDeliverer cfg = Some f \<Longrightarrow> faults w = [] \<Longrightarrow> faults (snd (f src dst p w)) = []"
begin

lemma deliver_bundle_faults: "faults w = [] \<Longrightarrow> faults (deliver_bundle cfg online x w) = []"
proof -
  assume w: "faults w = []"
  have ops: "faults (snd (IncrementRetry i v)) = []" "faults (snd (dtn_Delete i v)) = []" if "faults v = []"
    for i and v :: "'a dtn_world_scheme"
    using that by (simp_all add: IncrementRetry_def dtn_Delete_def db_simps stmt_defs)
  have d: "faults v2 = []" if "the (dtn_LocalDeliverer cfg) src dst p v = (r, v2)" "dtn_LocalDeliverer cfg \<noteq> None"
    "faults v = []" for src dst p v v2 r
    using deliverer_faults [of "the (dtn_LocalDeliverer cfg)" v src dst p] that by auto
  show ?thesis
    using w by (auto simp: deliver_bundle_def Let_def GetRoute_def query_ok ops d split: prod.split sum.split option.split)
qed

lemma processOnce_faults:
  assumes "faults w = []"
  shows "faults (processOnce cfg now w) = []"
proof -
  have f: "faults v = [] \<Longrightarrow> faults (fold (deliver_bundle cfg online) bs v) = []" for online bs v
    by (induction bs arbitrary: v) (simp_all add: deliver_bundle_faults)
  have "faults (snd (ExpireBefore now w)) = []" using assms by (simp add: ExpireBefore_def db_simps stmt_defs)
  then have "faults (deliverPending cfg now (snd (ExpireBefore now w))) = []"
    using f by (auto simp: deliverPending_def dtn_List_def onlineDestinations_def Nodes_def db_simps split: sum.split)
  then show ?thesis
    by (auto simp: processOnce_def publishDepth_def Depth_def db_simps Let_def handler_faults split: option.split)
qed

end

section \<open>The schema's constraints\<close>

lemma dtn_ops_wf [inv_intros]:
  "keeps db_wf (dtn_Delete i)" "keeps db_wf (ExpireBefore t)" "keeps db_wf (IncrementRetry i)"
  "keeps db_wf (dtn_List t)"
  unfolding dtn_Delete_def ExpireBefore_def IncrementRetry_def dtn_List_def
  by (auto intro!: keeps_wf_stmts keeps_bnd simp: db_wf_simps) (simp add: keeps_def)

lemma dtn_Enqueue_wf [inv_intros]: "keeps db_wf (dtn_Enqueue entropy now src dst payload ttl)"
  unfolding dtn_Enqueue_def Let_def
  by (auto intro!: keeps_bnd keeps_exec simp: insert_stmt_def db_wf_simps split: sum.split option.splits if_splits)

section \<open>A queued bundle is listed\<close>

lemma dtn_List_ok:
  assumes "faults w = []" and "\<forall>r \<in> set (dtq_queue w). length (dq_id r) = 16"
  shows "dtn_List now w = (Inr (map (\<lambda>r. projr (scanBundle r))
    (order_asc dq_expires (filter (\<lambda>r. dq_expires r > UnixMilli now) (dtq_queue w)))), w)"
  using assms by (simp add: dtn_List_def db_simps scan_bundles_ok)

text \<open>
  A bundle that \<^verbatim>\<open>Enqueue\<close> accepts is listed until it expires: with a fresh random identifier
  the call succeeds, and \<^verbatim>\<open>List\<close> at any later time before the expiry returns what it returned
  before and this bundle, field by field.
\<close>

theorem Enqueue_then_List:
  assumes "faults w = []" and "\<forall>r \<in> set (dtq_queue w). length (dq_id r) = 16"
    and "length rbytes = 16" and "find_row dq_id rbytes (dtq_queue w) = None"
    and "length src = 32" and "length dst = 32" and "UnixMilli later < UnixMilli (now + ttl)"
    and "dtn_Enqueue (Inr rbytes) now src dst (Some payload) ttl w = (r, w')"
  shows "\<exists>b. r = Inr b \<and> SrcNodeID b = src \<and> DstNodeID b = dst \<and> b_Payload b = payload \<and> RetryCount b = 0 \<and>
    set (projr (fst (dtn_List later w'))) = insert b (set (projr (fst (dtn_List later w))))"
proof -
  let ?row = "\<lparr>dq_id = rbytes, dq_src = src, dq_dst = dst, dq_payload = payload,
               dq_expires = UnixMilli (now + ttl), dq_retry = 0\<rparr>"
  let ?b = "\<lparr>BundleID = rbytes, SrcNodeID = src, DstNodeID = dst, b_Payload = payload,
             ExpiresAtUnix = UnixMilli (now + ttl), RetryCount = 0\<rparr>"
  have e: "r = Inr ?b" "w' = dtq_queue_update (\<lambda>rows. rows @ [?row]) w"
    using assms by (simp_all add: dtn_Enqueue_def Let_def bnd_def wrap_err_def exec_ok bind_blob_def insert_stmt_def)
  have w': "faults w' = []" "\<forall>r \<in> set (dtq_queue w'). length (dq_id r) = 16"
    using assms(1,2,3) by (auto simp: e)
  have "projr (scanBundle ?row) = ?b" using assms(3,5,6) by (simp add: scanBundle_def)
  moreover have "filter (\<lambda>r. UnixMilli later < dq_expires r) (dtq_queue w') =
      filter (\<lambda>r. UnixMilli later < dq_expires r) (dtq_queue w) @ [?row]"
    using assms(7) by (simp add: e)
  ultimately have "set (projr (fst (dtn_List later w'))) = insert ?b (set (projr (fst (dtn_List later w))))"
    by (simp add: dtn_List_ok [OF assms(1,2)] dtn_List_ok [OF w'] del: filter_append set_filter)
  with e show ?thesis by simp
qed

theorem Enqueue_then_List_witness:
  "\<exists>b. fst (dtn_Enqueue (Inr (replicate 16 7)) 0 (sample_id 1) (sample_id 2) (Some [1]) (24 * Hour) empty_DB) = Inr b \<and>
     b_Payload b = [1]"
  using Enqueue_then_List [of empty_DB "replicate 16 7" "sample_id 1" "sample_id 2" "5 * Second" 0 "24 * Hour" "[1]"
      "fst (dtn_Enqueue (Inr (replicate 16 7)) 0 (sample_id 1) (sample_id 2) (Some [1]) (24 * Hour) empty_DB)"
      "snd (dtn_Enqueue (Inr (replicate 16 7)) 0 (sample_id 1) (sample_id 2) (Some [1]) (24 * Hour) empty_DB)"]
  by (auto simp: empty_DB_def UnixMilli_def)

end
