(* ===== verification/Management.thy ===== *)
theory Management
  imports Dtn
begin

text \<open>
  \<^verbatim>\<open>hub/internal/managementapi/managementapi.go\<close>: the event stream of a hub. Every connected client has
  a channel of 32 encoded events; publishing never waits, an event that does not fit is dropped
  for that client only. The WebSocket transport is not modelled: a client connects, receives from
  its channel and disconnects. The protobuf encoding is a parameter.

  Shown: each client receives a subsequence of the published events, in order and without
  duplicates, whatever the other clients do, and no channel exceeds its capacity.
\<close>

section \<open>Events\<close>

datatype event_body =
    EvNodeStatusChanged bytes string
  | EvHubStatusChanged bytes string
  | EvRouteChanged bytes bytes float64 "32 word"
  | EvDtnQueueDepthChanged "32 word"
  | EvInternetFallbackChanged bool
  | EvAppPresenceChanged bytes string string
  | EvSosAlertPublished bytes string string bytes
  | EvBanProposalChanged bytes string string
  | EvBanVerdictChanged bytes bytes bool

record ManagementEvent =
  EmittedAtUnixMs :: int
  Event :: event_body

text \<open>The channels of the connected clients; a channel is named by a number.\<close>

record mgmt_world = dtn_world +
  clients :: "(nat \<times> bytes list) list"

type_synonym event_codec = "ManagementEvent \<Rightarrow> bytes option"

section \<open>Operations\<close>

definition addClient :: "nat \<Rightarrow> 'a mgmt_world_scheme \<Rightarrow> 'a mgmt_world_scheme" where
  "addClient ch w = w\<lparr>clients := AList.update ch [] (clients w)\<rparr>"

definition removeClient :: "nat \<Rightarrow> 'a mgmt_world_scheme \<Rightarrow> 'a mgmt_world_scheme" where
  "removeClient ch w = w\<lparr>clients := AList.delete ch (clients w)\<rparr>"

text \<open>\<^verbatim>\<open>case payload := <-ch\<close> of \<^verbatim>\<open>handleWS\<close>.\<close>

definition clientReceive :: "nat \<Rightarrow> 'a mgmt_world_scheme \<Rightarrow> bytes option \<times> 'a mgmt_world_scheme" where
  "clientReceive ch w =
     (case map_of (clients w) ch of
        Some (p # q) \<Rightarrow> (Some p, w\<lparr>clients := AList.update ch q (clients w)\<rparr>)
      | _ \<Rightarrow> (None, w))"

definition broadcast :: "bytes \<Rightarrow> 'a mgmt_world_scheme \<Rightarrow> 'a mgmt_world_scheme" where
  "broadcast payload w = w\<lparr>clients := map (\<lambda>(ch, q). (ch, offer 32 payload q)) (clients w)\<rparr>"

definition Publish :: "event_codec \<Rightarrow> ManagementEvent \<Rightarrow> 'a mgmt_world_scheme \<Rightarrow> 'a mgmt_world_scheme" where
  "Publish marshal event w = (case marshal event of None \<Rightarrow> w | Some payload \<Rightarrow> broadcast payload w)"

definition emit :: "event_codec \<Rightarrow> time \<Rightarrow> event_body \<Rightarrow> 'a mgmt_world_scheme \<Rightarrow> 'a mgmt_world_scheme" where
  "emit marshal now body = Publish marshal \<lparr>EmittedAtUnixMs = UnixMilli now, Event = body\<rparr>"

definition api_NodeStatusChanged where
  "api_NodeStatusChanged marshal now nodeID status = emit marshal now (EvNodeStatusChanged nodeID status)"

definition api_HubStatusChanged where
  "api_HubStatusChanged marshal now hubID status = emit marshal now (EvHubStatusChanged hubID status)"

definition api_RouteChanged where
  "api_RouteChanged marshal now route =
     emit marshal now (EvRouteChanged (Destination route) (NextHop route) (TQ route) (of_int (HopCount route)))"

definition api_DtnQueueDepthChanged where
  "api_DtnQueueDepthChanged marshal now depth = emit marshal now (EvDtnQueueDepthChanged (of_int depth))"

definition api_InternetFallbackChanged where
  "api_InternetFallbackChanged marshal now enabled = emit marshal now (EvInternetFallbackChanged enabled)"

definition api_AppPresenceChanged where
  "api_AppPresenceChanged marshal now nodeID appID appVersion =
     emit marshal now (EvAppPresenceChanged nodeID appID appVersion)"

definition api_SosAlertPublished where
  "api_SosAlertPublished marshal now nodeID appID topic payload =
     emit marshal now (EvSosAlertPublished nodeID appID topic payload)"

definition api_BanProposalChanged where
  "api_BanProposalChanged marshal now banID appID versionRange =
     emit marshal now (EvBanProposalChanged banID appID versionRange)"

definition api_BanVerdictChanged where
  "api_BanVerdictChanged marshal now banID hubID agree = emit marshal now (EvBanVerdictChanged banID hubID agree)"

lemmas api_defs = api_NodeStatusChanged_def api_HubStatusChanged_def api_RouteChanged_def
  api_DtnQueueDepthChanged_def api_InternetFallbackChanged_def api_AppPresenceChanged_def
  api_SosAlertPublished_def api_BanProposalChanged_def api_BanVerdictChanged_def

text \<open>Publishing touches the channels only.\<close>

lemma emit_frame: "\<exists>cs. emit marshal now b w = w\<lparr>clients := cs\<rparr>"
proof (cases "marshal \<lparr>EmittedAtUnixMs = UnixMilli now, Event = b\<rparr>")
  case None
  then have "emit marshal now b w = w\<lparr>clients := clients w\<rparr>" by (simp add: emit_def Publish_def)
  then show ?thesis by blast
qed (auto simp: emit_def Publish_def broadcast_def)

lemma emit_db [simp]:
  "routing_table (emit marshal now b w) = routing_table w" "dtq_queue (emit marshal now b w) = dtq_queue w"
  "faults (emit marshal now b w) = faults w" "node_registry (emit marshal now b w) = node_registry w"
  "lastDepth (emit marshal now b w) = lastDepth w"
  by (simp_all add: emit_def Publish_def broadcast_def split: option.split)

section \<open>Delivery\<close>

definition client_queue :: "nat \<Rightarrow> 'a mgmt_world_scheme \<Rightarrow> bytes list" where
  "client_queue ch w = (case map_of (clients w) ch of None \<Rightarrow> [] | Some q \<Rightarrow> q)"

definition connected :: "nat \<Rightarrow> 'a mgmt_world_scheme \<Rightarrow> bool" where
  "connected ch w = (ch \<in> fst ` set (clients w))"

lemma map_of_map_snd: "map_of (map (\<lambda>(k, v). (k, f v)) al) k = map_option f (map_of al k)"
  by (induction al) auto

interpretation mgmt_channel: drop_channel 32 broadcast "clientReceive ch" "client_queue ch" "connected ch" for ch
proof (unfold_locales, goal_cases)
  case (1 w x)
  then obtain q where "map_of (clients w) ch = Some q"
    by (cases "map_of (clients w) ch") (auto simp: connected_def map_of_eq_None_iff)
  then show ?case by (simp add: client_queue_def broadcast_def map_of_map_snd)
next
  case (2 w x)
  then show ?case by (force simp: connected_def broadcast_def)
next
  case (3 w)
  then show ?case by (simp add: clientReceive_def client_queue_def split: option.split list.split)
next
  case (4 w)
  then show ?case
    by (auto simp: clientReceive_def client_queue_def update_conv' split: option.split list.split)
next
  case (5 w)
  then show ?case
    by (auto simp: clientReceive_def connected_def dom_update split: option.split list.split)
qed

text \<open>
  What a management client sees. Along any interleaving of published events and reads, a client
  that stays connected has received, together with what waits in its channel, a subsequence of the
  events published meanwhile, in order, none twice; its channel never holds more than 32. Other
  clients, however slow, do not matter.
\<close>

theorem client_sees_subsequence:
  assumes "connected ch w" and "client_queue ch w = []"
    and "chan_run broadcast (clientReceive ch) ops w = (received, w')"
  shows "subseq (received @ client_queue ch w') (sends ops) \<and> length (client_queue ch w') \<le> 32"
  using mgmt_channel.run_order [OF assms(1,3)] assms(2) by simp

definition sample_mgmt :: mgmt_world where
  "sample_mgmt = DB.extend empty_DB \<lparr>lastDepth = - 1, clients = [(1, []), (2, [])]\<rparr>"

theorem client_sees_subsequence_witness:
  "subseq [[1], [2]] [[1], [2 :: byte]]"
proof -
  have "chan_run broadcast (clientReceive 1) [Send [1], Send [2], Recv] sample_mgmt =
      ([[1]], snd (chan_run broadcast (clientReceive 1) [Send [1], Send [2], Recv] sample_mgmt))"
    by (simp add: sample_mgmt_def broadcast_def clientReceive_def offer_def DB.defs empty_DB_def)
  from client_sees_subsequence [OF _ _ this] show ?thesis
    by (simp add: sample_mgmt_def broadcast_def clientReceive_def offer_def DB.defs empty_DB_def connected_def client_queue_def)
qed

end
