(* ===== verification/Banlist.thy ===== *)
theory Banlist
  imports Trust
begin

text \<open>
  \<^verbatim>\<open>core/banlist/store.go\<close>: app ban proposals and the hubs' verdicts on them. A ban is only a proposal
  until the local hub agrees to it.

  Shown: what a version range matches; \<^verbatim>\<open>IsLocallyEnforced\<close> says yes exactly when the local hub's own
  verdict agrees to a matching proposal, so no other hub can ban an app here; verdicts are a keyed
  store and their gossip converges; every operation keeps the schema's constraints, among them
  that a verdict refers to a proposal.
\<close>

section \<open>Data\<close>

text \<open>The signature is \<open>None\<close> when the slice is nil.\<close>

record Proposal =
  p_BanID :: bytes
  p_AppID :: string
  p_VersionRange :: string
  p_Reason :: string
  p_ProposedBy :: NodeID
  p_ProposedAt :: time
  p_Signature :: "bytes option"

record Verdict =
  v_BanID :: bytes
  v_HubID :: NodeID
  v_Agree :: bool
  v_DecidedAt :: time

record Tally =
  t_Agree :: nat
  t_Disagree :: nat

section \<open>Operations\<close>

text \<open>
  \<^verbatim>\<open>len(p.BanID) == 0\<close> is never true of an array of 16 bytes, so the branch that would draw a random
  identifier is dead and the proposal is stored under the identifier it came with.
\<close>

definition Propose :: "Proposal \<Rightarrow> ('a DB_scheme, unit) stmt" where
  "Propose p =
     (if p_AppID p = '''' then fail (Errmsg ''banlist: app_id required'')
      else let vr = (if p_VersionRange p = '''' then ''*'' else p_VersionRange p);
               sig = (case p_Signature p of None \<Rightarrow> [] | Some s \<Rightarrow> s)
           in wrap_err ''banlist: propose''
                (bnd (exec (insert_stmt bl_id ban_list ban_list_update
                       \<lparr>bl_id = p_BanID p, bl_app = p_AppID p, bl_range = vr, bl_reason = p_Reason p,
                        bl_proposer = p_ProposedBy p, bl_at = UnixMilli (p_ProposedAt p),
                        bl_signature = sig\<rparr>))
                  (\<lambda>_. ret ())))"

definition UpdateSignature :: "bytes \<Rightarrow> bytes option \<Rightarrow> ('a DB_scheme, unit) stmt" where
  "UpdateSignature banID signature =
     bnd (exec (\<lambda>w. case bind_blob w signature of
            None \<Rightarrow> if \<exists>r \<in> set (ban_list w). bl_id r = banID then Inl NotNullViolation else Inr (0, w)
          | Some s \<Rightarrow> update_stmt ban_list ban_list_update (\<lambda>r. bl_id r = banID)
                        (\<lambda>r. r\<lparr>bl_signature := s\<rparr>) w))
       (\<lambda>_. ret ())"

text \<open>\<^verbatim>\<open>scanProposals\<close> skips a row whose identifier does not have 16 bytes.\<close>

definition scanProposals :: "ban_row list \<Rightarrow> Proposal list" where
  "scanProposals rows = map (\<lambda>r. \<lparr>p_BanID = bl_id r, p_AppID = bl_app r, p_VersionRange = bl_range r,
       p_Reason = bl_reason r, p_ProposedBy = scan_id (bl_proposer r),
       p_ProposedAt = fromUnixMilli (bl_at r), p_Signature = Some (bl_signature r)\<rparr>)
     (filter (\<lambda>r. length (bl_id r) = 16) rows)"

definition ListProposals :: "('a DB_scheme, Proposal list) stmt" where
  "ListProposals = query (\<lambda>w. scanProposals (order_desc bl_at (ban_list w)))"

definition ListUnsignedByProposer :: "NodeID \<Rightarrow> ('a DB_scheme, Proposal list) stmt" where
  "ListUnsignedByProposer hubID =
     query (\<lambda>w. scanProposals (filter (\<lambda>r. bl_proposer r = hubID \<and> bl_signature r = []) (ban_list w)))"

text \<open>\<^verbatim>\<open>ban_verdicts.ban_id\<close> references \<^verbatim>\<open>ban_list\<close>.\<close>

definition SetVerdict :: "Verdict \<Rightarrow> ('a DB_scheme, unit) stmt" where
  "SetVerdict v = (let agree = (if v_Agree v then 1 else 0) in
     wrap_err ''banlist: verdict''
       (bnd (exec (\<lambda>w. if find_row bl_id (v_BanID v) (ban_list w) = None then Inl ForeignKeyViolation
               else upsert_stmt bv_key ban_verdicts_update
                      (\<lambda>r. r\<lparr>bv_agree := agree, bv_at := UnixMilli (v_DecidedAt v)\<rparr>)
                      \<lparr>bv_ban = v_BanID v, bv_hub = v_HubID v, bv_agree = agree,
                       bv_at = UnixMilli (v_DecidedAt v)\<rparr> w))
         (\<lambda>_. ret ())))"

definition VerdictForHub :: "bytes \<Rightarrow> NodeID \<Rightarrow> ('a DB_scheme, Verdict option) stmt" where
  "VerdictForHub banID hubID =
     query (\<lambda>w. map_option (\<lambda>r. \<lparr>v_BanID = banID, v_HubID = hubID, v_Agree = (bv_agree r \<noteq> 0),
                  v_DecidedAt = fromUnixMilli (bv_at r)\<rparr>)
       (find_row bv_key (banID, hubID) (ban_verdicts w)))"

definition TallyVerdicts :: "bytes \<Rightarrow> ('a DB_scheme, Tally) stmt" where
  "TallyVerdicts banID =
     bnd (query (\<lambda>w. count_rows (\<lambda>r. bv_ban r = banID \<and> bv_agree r = 1) (ban_verdicts w))) (\<lambda>a.
       bnd (query (\<lambda>w. count_rows (\<lambda>r. bv_ban r = banID \<and> bv_agree r = 0) (ban_verdicts w))) (\<lambda>d.
         ret \<lparr>t_Agree = a, t_Disagree = d\<rparr>))"

definition ListAllVerdicts :: "('a DB_scheme, Verdict list) stmt" where
  "ListAllVerdicts = query (\<lambda>w. map (\<lambda>r. \<lparr>v_BanID = bv_ban r, v_HubID = scan_id (bv_hub r),
       v_Agree = (bv_agree r \<noteq> 0), v_DecidedAt = fromUnixMilli (bv_at r)\<rparr>)
     (filter (\<lambda>r. length (bv_ban r) = 16) (ban_verdicts w)))"

definition ListVerdicts :: "bytes \<Rightarrow> ('a DB_scheme, Verdict list) stmt" where
  "ListVerdicts banID = query (\<lambda>w. map (\<lambda>r. \<lparr>v_BanID = banID, v_HubID = scan_id (bv_hub r),
       v_Agree = (bv_agree r \<noteq> 0), v_DecidedAt = fromUnixMilli (bv_at r)\<rparr>)
     (filter (\<lambda>r. bv_ban r = banID) (ban_verdicts w)))"

definition VersionInRange :: "string \<Rightarrow> string \<Rightarrow> bool" where
  "VersionInRange version versionRange = (let vr = TrimSpace versionRange in
     if vr = '''' \<or> vr = ''*'' then True
     else if HasSuffix vr ''.*'' \<or> HasSuffix vr ''.x'' then
       HasPrefix version (TrimSuffix (TrimSuffix vr ''.*'') ''.x'')
     else if HasSuffix vr ''*'' then HasPrefix version (TrimSuffix vr ''*'')
     else version = vr)"

fun enforced_by :: "NodeID \<Rightarrow> string \<Rightarrow> string \<Rightarrow> Proposal list \<Rightarrow> ('a DB_scheme, bool) stmt" where
  "enforced_by localHub appID version [] = ret False"
| "enforced_by localHub appID version (p # ps) =
     (if p_AppID p \<noteq> appID \<or> \<not> VersionInRange version (p_VersionRange p)
      then enforced_by localHub appID version ps
      else bnd (VerdictForHub (p_BanID p) localHub) (\<lambda>v.
        case v of
          Some vd \<Rightarrow> if v_Agree vd then ret True else enforced_by localHub appID version ps
        | None \<Rightarrow> enforced_by localHub appID version ps))"

definition IsLocallyEnforced :: "NodeID \<Rightarrow> string \<Rightarrow> string \<Rightarrow> ('a DB_scheme, bool) stmt" where
  "IsLocallyEnforced localHub appID version =
     bnd ListProposals (enforced_by localHub appID version)"

text \<open>
  An insert reports \<^verbatim>\<open>true\<close> together with \<^verbatim>\<open>Propose\<close>'s error; the error decides. An update takes the
  version range and the signature as they are, so a nil signature violates \<^verbatim>\<open>NOT NULL\<close> where the
  driver binds it as \<^verbatim>\<open>NULL\<close>.
\<close>

definition MergeGossipProposal :: "Proposal \<Rightarrow> ('a DB_scheme, bool) stmt" where
  "MergeGossipProposal p = (let proposedMs = UnixMilli (p_ProposedAt p) in
     bnd (query (\<lambda>w. map_option bl_at (find_row bl_id (p_BanID p) (ban_list w))))
       (\<lambda>found. case found of
          None \<Rightarrow> bnd (Propose p) (\<lambda>_. ret True)
        | Some localMs \<Rightarrow>
            if proposedMs < localMs then ret False
            else bnd (exec (\<lambda>w. case bind_blob w (p_Signature p) of
                        None \<Rightarrow> Inl NotNullViolation
                      | Some s \<Rightarrow> update_stmt ban_list ban_list_update (\<lambda>r. bl_id r = p_BanID p)
                          (\<lambda>r. r\<lparr>bl_app := p_AppID p, bl_range := p_VersionRange p,
                                 bl_reason := p_Reason p, bl_proposer := p_ProposedBy p,
                                 bl_at := proposedMs, bl_signature := s\<rparr>) w))
                   (\<lambda>_. ret True)))"

definition MergeGossipVerdict :: "Verdict \<Rightarrow> ('a DB_scheme, bool) stmt" where
  "MergeGossipVerdict v = (let decidedMs = UnixMilli (v_DecidedAt v) in
     bnd (query (\<lambda>w. map_option bv_at (find_row bv_key (v_BanID v, v_HubID v) (ban_verdicts w))))
       (\<lambda>found. case found of
          None \<Rightarrow> bnd (SetVerdict v) (\<lambda>_. ret True)
        | Some localMs \<Rightarrow>
            if decidedMs \<le> localMs then ret False
            else bnd (SetVerdict v) (\<lambda>_. ret True)))"

text \<open>\<^verbatim>\<open>fmt.Sprintf("%x|%s|%s|%s|%d", ...)\<close>\<close>

definition SignBytes :: "Proposal \<Rightarrow> bytes" where
  "SignBytes p = string_bytes (hex_EncodeToString (p_BanID p) @ ''|'' @ p_AppID p @ ''|'' @
     p_VersionRange p @ ''|'' @ p_Reason p @ ''|'' @ show_int (UnixMilli (p_ProposedAt p)))"

definition BanIDEqual :: "bytes \<Rightarrow> bytes \<Rightarrow> bool" where
  "BanIDEqual a b = (a = b)"

section \<open>Enforcement\<close>

definition locally_enforced :: "NodeID \<Rightarrow> string \<Rightarrow> string \<Rightarrow> 'a DB_scheme \<Rightarrow> bool" where
  "locally_enforced hub app version w = (\<exists>r \<in> set (ban_list w). length (bl_id r) = 16 \<and> bl_app r = app \<and>
     VersionInRange version (bl_range r) \<and>
     (\<exists>v. find_row bv_key (bl_id r, hub) (ban_verdicts w) = Some v \<and> bv_agree v \<noteq> 0))"

definition agreed :: "'a DB_scheme \<Rightarrow> NodeID \<Rightarrow> bytes \<Rightarrow> bool" where
  "agreed w hub ban = (\<exists>v. find_row bv_key (ban, hub) (ban_verdicts w) = Some v \<and> bv_agree v \<noteq> 0)"

lemma agreed_faults [simp]: "agreed (w\<lparr>faults := fs\<rparr>) = agreed w"
  by (simp add: agreed_def fun_eq_iff)

lemma VerdictForHub_cases:
  obtains e fs where "VerdictForHub b h w = (Inl e, w\<lparr>faults := fs\<rparr>)"
  | fs v where "VerdictForHub b h w = (Inr v, w\<lparr>faults := fs\<rparr>)"
      and "(case v of None \<Rightarrow> False | Some x \<Rightarrow> v_Agree x) = agreed w h b"
proof (rule query_cases [of "\<lambda>w. map_option (\<lambda>r. \<lparr>v_BanID = b, v_HubID = h, v_Agree = (bv_agree r \<noteq> 0),
                  v_DecidedAt = fromUnixMilli (bv_at r)\<rparr>) (find_row bv_key (b, h) (ban_verdicts w))" w])
  fix fs
  assume "query (\<lambda>w. map_option (\<lambda>r. \<lparr>v_BanID = b, v_HubID = h, v_Agree = (bv_agree r \<noteq> 0),
                  v_DecidedAt = fromUnixMilli (bv_at r)\<rparr>) (find_row bv_key (b, h) (ban_verdicts w))) w =
    (Inr (map_option (\<lambda>r. \<lparr>v_BanID = b, v_HubID = h, v_Agree = (bv_agree r \<noteq> 0),
                  v_DecidedAt = fromUnixMilli (bv_at r)\<rparr>) (find_row bv_key (b, h) (ban_verdicts (w\<lparr>faults := fs\<rparr>)))),
     w\<lparr>faults := fs\<rparr>)"
  then show ?thesis
    by (intro that(2)) (auto simp: VerdictForHub_def agreed_def split: option.split)
next
  fix fs
  assume "query (\<lambda>w. map_option (\<lambda>r. \<lparr>v_BanID = b, v_HubID = h, v_Agree = (bv_agree r \<noteq> 0),
                  v_DecidedAt = fromUnixMilli (bv_at r)\<rparr>) (find_row bv_key (b, h) (ban_verdicts w))) w =
    (Inl SqlFailure, w\<lparr>faults := fs\<rparr>)"
  then show ?thesis by (intro that(1)) (simp add: VerdictForHub_def)
qed

lemma enforced_by_result:
  "\<exists>fs. snd (enforced_by hub app version ps w) = w\<lparr>faults := fs\<rparr> \<and>
    (case fst (enforced_by hub app version ps w) of Inl e \<Rightarrow> True
     | Inr b \<Rightarrow> b \<longleftrightarrow> (\<exists>p \<in> set ps. p_AppID p = app \<and> VersionInRange version (p_VersionRange p) \<and> agreed w hub (p_BanID p)))"
proof (induction ps arbitrary: w)
  case Nil
  show ?case by (rule exI [of _ "faults w"]) simp
next
  case (Cons p ps)
  show ?case
  proof (cases "p_AppID p \<noteq> app \<or> \<not> VersionInRange version (p_VersionRange p)")
    case True
    then show ?thesis using Cons.IH [of w] by (auto split: sum.splits)
  next
    case False
    show ?thesis
    proof (rule VerdictForHub_cases [of "p_BanID p" hub w])
      fix e fs assume "VerdictForHub (p_BanID p) hub w = (Inl e, w\<lparr>faults := fs\<rparr>)"
      with False show ?thesis by (auto simp: bnd_def)
    next
      fix fs v assume v: "VerdictForHub (p_BanID p) hub w = (Inr v, w\<lparr>faults := fs\<rparr>)"
        and a: "(case v of None \<Rightarrow> False | Some x \<Rightarrow> v_Agree x) = agreed w hub (p_BanID p)"
      have step: "enforced_by hub app version (p # ps) w =
          (if agreed w hub (p_BanID p) then (Inr True, w\<lparr>faults := fs\<rparr>)
           else enforced_by hub app version ps (w\<lparr>faults := fs\<rparr>))"
        using False v a by (auto simp: bnd_def split: option.splits)
      show ?thesis
      proof (cases "agreed w hub (p_BanID p)")
        case True
        then have "enforced_by hub app version (p # ps) w = (Inr True, w\<lparr>faults := fs\<rparr>)" by (simp only: step if_True)
        with True False show ?thesis by (simp del: enforced_by.simps) blast
      next
        case na: False
        then have e: "enforced_by hub app version (p # ps) w = enforced_by hub app version ps (w\<lparr>faults := fs\<rparr>)"
          by (simp only: step if_False)
        show ?thesis
          unfolding e using Cons.IH [of "w\<lparr>faults := fs\<rparr>"] na by (auto split: sum.splits)
      qed
    qed
  qed
qed

lemma IsLocallyEnforced_result:
  "tables (snd (IsLocallyEnforced hub app version w)) = tables w \<and>
   (case fst (IsLocallyEnforced hub app version w) of
      Inl e \<Rightarrow> True | Inr b \<Rightarrow> b = locally_enforced hub app version w)"
proof (rule query_cases [of "\<lambda>w. scanProposals (order_desc bl_at (ban_list w))" w])
  fix fs assume q: "query (\<lambda>w. scanProposals (order_desc bl_at (ban_list w))) w =
    (Inr (scanProposals (order_desc bl_at (ban_list (w\<lparr>faults := fs\<rparr>)))), w\<lparr>faults := fs\<rparr>)"
  let ?ps = "scanProposals (order_desc bl_at (ban_list w))"
  have i: "IsLocallyEnforced hub app version w = enforced_by hub app version ?ps (w\<lparr>faults := fs\<rparr>)"
    using q by (simp add: IsLocallyEnforced_def ListProposals_def bnd_def)
  have "(\<exists>p \<in> set ?ps. p_AppID p = app \<and> VersionInRange version (p_VersionRange p) \<and> agreed w hub (p_BanID p))
      = locally_enforced hub app version w"
    by (auto simp: scanProposals_def locally_enforced_def agreed_def)
  then show ?thesis
    using enforced_by_result [of hub app version ?ps "w\<lparr>faults := fs\<rparr>"] by (auto simp: i split: sum.splits)
next
  fix fs assume "query (\<lambda>w. scanProposals (order_desc bl_at (ban_list w))) w = (Inl SqlFailure, w\<lparr>faults := fs\<rparr>)"
  then show ?thesis by (simp add: IsLocallyEnforced_def ListProposals_def bnd_def)
qed

text \<open>
  Bans are local decisions. \<^verbatim>\<open>IsLocallyEnforced\<close> changes nothing; whenever it answers at all, under any
  failures of the driver, the answer is yes exactly when some stored proposal names the app and a
  range that contains the version and this hub's own verdict on that proposal agrees.
\<close>

theorem IsLocallyEnforced_iff:
  "tables (snd (IsLocallyEnforced hub app version w)) = tables w \<and>
   (case fst (IsLocallyEnforced hub app version w) of
      Inl e \<Rightarrow> True | Inr b \<Rightarrow> b = locally_enforced hub app version w)"
  by (rule IsLocallyEnforced_result)

text \<open>
  The range \<^verbatim>\<open>1.2.*\<close> also covers version 1.20: the dot before the star is dropped together with
  the star, so the range is compared as the bare prefix \<^verbatim>\<open>1.2\<close>.
\<close>

theorem VersionInRange_overreach:
  "VersionInRange ''1.20'' ''1.2.*'' \<and> VersionInRange ''1.2.7'' ''1.2.*'' \<and> \<not> VersionInRange ''1.3'' ''1.2.*''"
  by (simp add: VersionInRange_def TrimSpace_def is_space_def HasSuffix_def HasPrefix_def TrimSuffix_def)

section \<open>Verdicts\<close>

definition verdict_valid :: "Verdict \<Rightarrow> 'a DB_scheme \<Rightarrow> bool" where
  "verdict_valid v w = (find_row bl_id (v_BanID v) (ban_list w) \<noteq> None \<and>
     fromUnixMilli (UnixMilli (v_DecidedAt v)) = v_DecidedAt v)"

definition verdict_row :: "Verdict \<Rightarrow> verdict_row" where
  "verdict_row v = \<lparr>bv_ban = v_BanID v, bv_hub = v_HubID v, bv_agree = (if v_Agree v then 1 else 0),
     bv_at = UnixMilli (v_DecidedAt v)\<rparr>"

lemma bv_key_row [simp]: "bv_key (verdict_row v) = (v_BanID v, v_HubID v)"
  by (simp add: bv_key_def verdict_row_def)

lemma verdict_row_sel [simp]:
  "bv_agree (verdict_row v) = (if v_Agree v then 1 else 0)" "bv_at (verdict_row v) = UnixMilli (v_DecidedAt v)"
  by (simp_all add: verdict_row_def)

lemma SetVerdict_ok [db_simps]:
  assumes "faults w = []" and "find_row bl_id (v_BanID v) (ban_list w) \<noteq> None"
  shows "SetVerdict v w = (Inr (), ban_verdicts_update (upsert_row bv_key
      (\<lambda>r. r\<lparr>bv_agree := (if v_Agree v then 1 else 0), bv_at := UnixMilli (v_DecidedAt v)\<rparr>) (verdict_row v)) w)"
  using assms by (simp add: SetVerdict_def Let_def wrap_err_def bnd_def exec_ok upsert_stmt_def verdict_row_def)

lemma find_verdict_upsert:
  "find_row bv_key k (upsert_row bv_key (\<lambda>r. r\<lparr>bv_agree := a, bv_at := t\<rparr>) new rows) =
    (if k = bv_key new
     then Some (case find_row bv_key k rows of None \<Rightarrow> new | Some r \<Rightarrow> r\<lparr>bv_agree := a, bv_at := t\<rparr>)
     else find_row bv_key k rows)"
  by (rule find_row_upsert_row) (simp add: bv_key_def)

interpretation verdicts: keyed_store "\<lambda>v. (v_BanID v, v_HubID v)" SetVerdict "\<lambda>(b, h). VerdictForHub b h"
  verdict_valid "\<lambda>w. faults w = []"
proof (unfold_locales, goal_cases)
  case (4 w v k)
  then have w: "faults w = []" "find_row bl_id (v_BanID v) (ban_list w) \<noteq> None"
    and t: "fromUnixMilli (UnixMilli (v_DecidedAt v)) = v_DecidedAt v" by (simp_all add: verdict_valid_def)
  show ?case
  proof (cases "k = (v_BanID v, v_HubID v)")
    case True
    then show ?thesis
      using t
      by (cases "find_row bv_key (v_BanID v, v_HubID v) (ban_verdicts w)")
        (simp_all add: SetVerdict_ok [OF w] VerdictForHub_def query_ok w find_verdict_upsert)
  next
    case False
    then show ?thesis
      by (cases k) (auto simp: SetVerdict_ok [OF w] VerdictForHub_def query_ok w find_verdict_upsert)
  qed
qed (simp_all add: verdict_valid_def db_simps)

definition verdict_state :: "bytes \<times> NodeID \<Rightarrow> 'a DB_scheme \<Rightarrow> (int \<times> bool) option" where
  "verdict_state k w = map_option (\<lambda>r. (bv_at r, bv_agree r \<noteq> 0)) (find_row bv_key k (ban_verdicts w))"

interpretation verdict_gossip: last_writer_wins "\<lambda>v. (v_BanID v, v_HubID v)"
  "\<lambda>v. (UnixMilli (v_DecidedAt v), v_Agree v)" MergeGossipVerdict verdict_state
  "\<lambda>v w. faults w = [] \<and> find_row bl_id (v_BanID v) (ban_list w) \<noteq> None"
  by unfold_locales
    (auto simp: MergeGossipVerdict_def Let_def verdict_state_def db_simps find_verdict_upsert
      lww_step_def lww_newer_def split: option.splits)

text \<open>
  Verdict gossip converges and is idempotent: hubs that hold the proposals and receive the same
  verdicts in any two orders agree on every hub's verdict on every ban; delivering a verdict again
  changes nothing and is reported as no change.
\<close>

theorem MergeGossipVerdict_converges:
  assumes "faults w = []" and "\<forall>v \<in> set vs. find_row bl_id (v_BanID v) (ban_list w) \<noteq> None"
    and "mset vs = mset vs'"
    and "\<And>k. lww_consistent ((\<lambda>v. (UnixMilli (v_DecidedAt v), v_Agree v)) ` {v \<in> set vs. (v_BanID v, v_HubID v) = k})"
  shows "verdict_state k (deliver MergeGossipVerdict vs w) = verdict_state k (deliver MergeGossipVerdict vs' w) \<and>
    (\<forall>v \<in> set vs. fst (MergeGossipVerdict v (snd (MergeGossipVerdict v w))) = Inr False)"
proof -
  have "verdict_state k (deliver MergeGossipVerdict vs w) = verdict_state k (deliver MergeGossipVerdict vs' w)"
    using assms by (intro verdict_gossip.convergence) auto
  moreover have "fst (MergeGossipVerdict v (snd (MergeGossipVerdict v w))) = Inr False" if "v \<in> set vs" for v
    using verdict_gossip.redelivery [of w v] assms(1,2) that by simp
  ultimately show ?thesis by blast
qed

definition sample_ban :: ban_row where
  "sample_ban = \<lparr>bl_id = replicate 16 1, bl_app = ''app'', bl_range = ''*'', bl_reason = '''', bl_proposer = sample_id 1,
     bl_at = 0, bl_signature = []\<rparr>"

definition sample_verdict :: "int \<Rightarrow> bool \<Rightarrow> Verdict" where
  "sample_verdict ms b = \<lparr>v_BanID = replicate 16 1, v_HubID = sample_id 2, v_Agree = b, v_DecidedAt = fromUnixMilli ms\<rparr>"

theorem MergeGossipVerdict_converges_witness:
  "verdict_state (replicate 16 1, sample_id 2)
     (deliver MergeGossipVerdict [sample_verdict 1 True, sample_verdict 2 False] (empty_DB\<lparr>ban_list := [sample_ban]\<rparr>)) =
   verdict_state (replicate 16 1, sample_id 2)
     (deliver MergeGossipVerdict [sample_verdict 2 False, sample_verdict 1 True] (empty_DB\<lparr>ban_list := [sample_ban]\<rparr>))"
  by (rule MergeGossipVerdict_converges [THEN conjunct1])
    (auto simp: empty_DB_def sample_ban_def sample_verdict_def lww_consistent_def)

section \<open>The schema's constraints\<close>

lemma db_wf_ban_list:
  assumes "db_wf w" and "unique_key bl_id (f (ban_list w))" and "bl_id ` set (ban_list w) \<subseteq> bl_id ` set (f (ban_list w))"
  shows "db_wf (ban_list_update f w)"
  using assms by (simp add: db_wf_def) (meson subset_trans)

lemma db_wf_ban_verdicts:
  assumes "db_wf w" and "unique_key bv_key (f (ban_verdicts w))"
    and "bv_ban ` set (f (ban_verdicts w)) \<subseteq> bl_id ` set (ban_list w)"
  shows "db_wf (ban_verdicts_update f w)"
  using assms by (auto simp: db_wf_def)

lemma bl_id_update_rows:
  assumes "\<And>r. bl_id (f r) = bl_id r"
  shows "bl_id ` set (update_rows P f rows) = bl_id ` set rows"
proof -
  have "set (map bl_id (update_rows P f rows)) = set (map bl_id rows)"
    using map_key_update_rows [of P bl_id f rows] assms by simp
  then show ?thesis by simp
qed

lemma Propose_wf [inv_intros]: "keeps db_wf (Propose p)"
  unfolding Propose_def Let_def
  by (auto intro!: keeps_bnd keeps_insert [where P = db_wf] db_wf_ban_list simp: db_wf_simps)

lemma UpdateSignature_wf [inv_intros]: "keeps db_wf (UpdateSignature b s)"
  unfolding UpdateSignature_def
  by (auto intro!: keeps_bnd keeps_exec db_wf_ban_list simp: update_stmt_def db_wf_simps bl_id_update_rows
      split: option.splits if_splits)

lemma SetVerdict_wf [inv_intros]: "keeps db_wf (SetVerdict v)"
proof -
  have ref: "bv_ban ` set (ban_verdicts w) \<subseteq> bl_id ` set (ban_list w)" if "db_wf w" for w :: "'a DB_scheme"
    using that by (simp add: db_wf_def)
  have "db_wf (ban_verdicts_update (upsert_row bv_key (\<lambda>r. r\<lparr>bv_agree := a, bv_at := t\<rparr>) new) w)"
    if w: "db_wf w" and new: "bv_ban new \<in> bl_id ` set (ban_list w)" for w :: "'a DB_scheme" and a t new
  proof (rule db_wf_ban_verdicts [OF w])
    show "unique_key bv_key (upsert_row bv_key (\<lambda>r. r\<lparr>bv_agree := a, bv_at := t\<rparr>) new (ban_verdicts w))"
      using db_wf_unique(8) [OF w] by (intro unique_key_upsert_row) (simp_all add: bv_key_def)
    show "bv_ban ` set (upsert_row bv_key (\<lambda>r. r\<lparr>bv_agree := a, bv_at := t\<rparr>) new (ban_verdicts w)) \<subseteq> bl_id ` set (ban_list w)"
      using ref [OF w] new by (auto dest!: set_upsert_row)
  qed
  then show ?thesis
    unfolding SetVerdict_def Let_def
    by (intro keeps_wrap keeps_bnd keeps_exec keeps_ret)
      (auto simp: upsert_stmt_def find_row_None_iff split: if_splits)
qed

lemma merge_bans_wf [inv_intros]: "keeps db_wf (MergeGossipProposal p)" "keeps db_wf (MergeGossipVerdict v)"
  unfolding MergeGossipProposal_def MergeGossipVerdict_def Let_def
  by (auto intro!: keeps_bnd keeps_wf_stmts keeps_exec db_wf_ban_list Propose_wf SetVerdict_wf
      simp: update_stmt_def db_wf_simps bl_id_update_rows split: option.splits)

end
