(* ===== verification/AppPresence.thy ===== *)
theory AppPresence
  imports Registry
begin

text \<open>
  \<^verbatim>\<open>core/apppresence/store.go\<close>: which app runs on which node, as \<^verbatim>\<open>app_presence\<close> keeps it.

  Shown: presence is a keyed store and its gossip converges; \<^verbatim>\<open>DiscoverPeers\<close> returns exactly the
  nodes that run a matching version, without duplicates; \<^verbatim>\<open>AppStats\<close> counts every node once; the
  schema's constraints are kept.
\<close>

section \<open>Operations\<close>

record AppRecord =
  a_NodeID :: NodeID
  a_AppID :: string
  a_AppName :: string
  a_AppVersion :: string
  a_LastReported :: time

record AppStat =
  st_AppID :: string
  st_AppVersion :: string
  st_NodeCount :: nat
  st_FirstSeen :: time
  st_LastSeen :: time

definition app_Upsert :: "NodeID \<Rightarrow> string \<Rightarrow> string \<Rightarrow> string \<Rightarrow> time \<Rightarrow> ('a DB_scheme, unit) stmt" where
  "app_Upsert nodeID appID appName appVersion atTime =
     (if appID = '''' then fail (Errmsg ''apppresence: app_id required'')
      else wrap_err ''apppresence: upsert''
        (bnd (exec (upsert_stmt ap_key app_presence_update
               (\<lambda>r. r\<lparr>ap_name := appName, ap_version := appVersion, ap_reported := UnixMilli atTime\<rparr>)
               \<lparr>ap_node = nodeID, ap_app = appID, ap_name = appName, ap_version = appVersion,
                ap_reported = UnixMilli atTime\<rparr>))
          (\<lambda>_. ret ())))"

definition to_AppRecord :: "app_row \<Rightarrow> AppRecord" where
  "to_AppRecord r = \<lparr>a_NodeID = ap_node r, a_AppID = ap_app r, a_AppName = ap_name r,
     a_AppVersion = ap_version r, a_LastReported = fromUnixMilli (ap_reported r)\<rparr>"

text \<open>Rows whose node id does not have 32 bytes are skipped.\<close>

definition app_List :: "('a DB_scheme, AppRecord list) stmt" where
  "app_List = query (\<lambda>w. map to_AppRecord
     (filter (\<lambda>r. length (ap_node r) = node_id_len) (order_desc ap_reported (app_presence w))))"

definition app_stat :: "app_row list \<Rightarrow> string \<times> string \<Rightarrow> AppStat" where
  "app_stat rows k = (let g = filter (\<lambda>r. (ap_app r, ap_version r) = k) rows in
     \<lparr>st_AppID = fst k, st_AppVersion = snd k, st_NodeCount = length (remdups (map ap_node g)),
      st_FirstSeen = fromUnixMilli (Min (ap_reported ` set g)),
      st_LastSeen = fromUnixMilli (Max (ap_reported ` set g))\<rparr>)"

definition AppStats :: "('a DB_scheme, AppStat list) stmt" where
  "AppStats = query (\<lambda>w. order_desc st_LastSeen
     (map (app_stat (app_presence w)) (remdups (map (\<lambda>r. (ap_app r, ap_version r)) (app_presence w)))))"

definition VersionMatches :: "string \<Rightarrow> string \<Rightarrow> bool" where
  "VersionMatches version constraint = (let c = TrimSpace constraint in
     if c = '''' \<or> c = ''*'' then True else version = c)"

fun discover_loop :: "string \<Rightarrow> string \<Rightarrow> NodeID list \<Rightarrow> AppRecord list \<Rightarrow> NodeID list" where
  "discover_loop appID constraint seen [] = []"
| "discover_loop appID constraint seen (r # rs) =
     (if a_AppID r \<noteq> appID \<or> \<not> VersionMatches (a_AppVersion r) constraint then
        discover_loop appID constraint seen rs
      else if a_NodeID r \<in> set seen then discover_loop appID constraint seen rs
      else a_NodeID r # discover_loop appID constraint (a_NodeID r # seen) rs)"

definition DiscoverPeers :: "string \<Rightarrow> string \<Rightarrow> ('a DB_scheme, NodeID list) stmt" where
  "DiscoverPeers appID versionConstraint =
     bnd app_List (\<lambda>recs. ret (discover_loop appID versionConstraint [] recs))"

definition app_Get :: "NodeID \<Rightarrow> string \<Rightarrow> ('a DB_scheme, AppRecord option) stmt" where
  "app_Get nodeID appID =
     query (\<lambda>w. map_option (\<lambda>r. \<lparr>a_NodeID = nodeID, a_AppID = appID, a_AppName = ap_name r,
                  a_AppVersion = ap_version r, a_LastReported = fromUnixMilli (ap_reported r)\<rparr>)
       (find_row ap_key (nodeID, appID) (app_presence w)))"

definition app_MergeGossip :: "NodeID \<Rightarrow> string \<Rightarrow> string \<Rightarrow> string \<Rightarrow> time \<Rightarrow> ('a DB_scheme, bool) stmt" where
  "app_MergeGossip nodeID appID appName appVersion reportedAt = (let reportedMs = UnixMilli reportedAt in
     bnd (query (\<lambda>w. map_option ap_reported (find_row ap_key (nodeID, appID) (app_presence w))))
       (\<lambda>found. case found of
          None \<Rightarrow> bnd (app_Upsert nodeID appID appName appVersion reportedAt) (\<lambda>_. ret True)
        | Some localMs \<Rightarrow>
            if reportedMs \<le> localMs then ret False
            else bnd (app_Upsert nodeID appID appName appVersion reportedAt) (\<lambda>_. ret True)))"

section \<open>The contracts\<close>

definition put_app :: "AppRecord \<Rightarrow> ('a DB_scheme, unit) stmt" where
  "put_app r = app_Upsert (a_NodeID r) (a_AppID r) (a_AppName r) (a_AppVersion r) (a_LastReported r)"

definition app_valid :: "AppRecord \<Rightarrow> bool" where
  "app_valid r = (a_AppID r \<noteq> '''' \<and> fromUnixMilli (UnixMilli (a_LastReported r)) = a_LastReported r)"

lemma app_Upsert_ok [db_simps]:
  assumes "faults w = []" and "a \<noteq> ''''"
  shows "app_Upsert n a nm v t w = (Inr (), app_presence_update (upsert_row ap_key
      (\<lambda>r. r\<lparr>ap_name := nm, ap_version := v, ap_reported := UnixMilli t\<rparr>)
      \<lparr>ap_node = n, ap_app = a, ap_name = nm, ap_version = v, ap_reported = UnixMilli t\<rparr>) w)"
  using assms by (simp add: app_Upsert_def wrap_err_def bnd_def exec_ok upsert_stmt_def)

lemma find_app_upsert:
  "find_row ap_key k (upsert_row ap_key (\<lambda>r. r\<lparr>ap_name := nm, ap_version := v, ap_reported := t\<rparr>)
      \<lparr>ap_node = n, ap_app = a, ap_name = nm, ap_version = v, ap_reported = t\<rparr> rows) =
    (if k = (n, a)
     then Some (case find_row ap_key k rows of
         None \<Rightarrow> \<lparr>ap_node = n, ap_app = a, ap_name = nm, ap_version = v, ap_reported = t\<rparr>
       | Some r \<Rightarrow> r\<lparr>ap_name := nm, ap_version := v, ap_reported := t\<rparr>)
     else find_row ap_key k rows)"
  by (subst find_row_upsert_row) (simp_all add: ap_key_def)

interpretation apps: keyed_store "\<lambda>r. (a_NodeID r, a_AppID r)" put_app "\<lambda>(n, a). app_Get n a"
  "\<lambda>r w. app_valid r" "\<lambda>w. faults w = []"
proof (unfold_locales, goal_cases)
  case (4 w v k)
  then have w: "faults w = []" "a_AppID v \<noteq> ''''" and t: "fromUnixMilli (UnixMilli (a_LastReported v)) = a_LastReported v"
    by (simp_all add: app_valid_def)
  show ?case
    using t by (cases k; cases "find_row ap_key (a_NodeID v, a_AppID v) (app_presence w)")
      (auto simp: put_app_def app_Upsert_ok [OF w] app_Get_def query_ok w find_app_upsert)
qed (simp_all add: app_valid_def put_app_def db_simps)

definition app_state :: "bytes \<times> string \<Rightarrow> 'a DB_scheme \<Rightarrow> (int \<times> string \<times> string) option" where
  "app_state k w = map_option (\<lambda>r. (ap_reported r, ap_name r, ap_version r)) (find_row ap_key k (app_presence w))"

definition merge_app :: "AppRecord \<Rightarrow> ('a DB_scheme, bool) stmt" where
  "merge_app r = app_MergeGossip (a_NodeID r) (a_AppID r) (a_AppName r) (a_AppVersion r) (a_LastReported r)"

interpretation app_gossip: last_writer_wins "\<lambda>r. (a_NodeID r, a_AppID r)"
  "\<lambda>r. (UnixMilli (a_LastReported r), a_AppName r, a_AppVersion r)" merge_app app_state
  "\<lambda>r w. faults w = [] \<and> a_AppID r \<noteq> ''''"
  by unfold_locales
    (auto simp: merge_app_def app_MergeGossip_def Let_def app_state_def db_simps find_app_upsert
      lww_step_def lww_newer_def split: option.splits)

text \<open>
  App presence gossip converges: two hubs with the same table that receive the same reports in any
  two orders agree on the name, version and report time of every app on every node.
\<close>

theorem app_MergeGossip_converges:
  assumes "faults w = []" and "\<forall>r \<in> set rs. a_AppID r \<noteq> ''''" and "mset rs = mset rs'"
    and "\<And>k. lww_consistent ((\<lambda>r. (UnixMilli (a_LastReported r), a_AppName r, a_AppVersion r)) `
            {r \<in> set rs. (a_NodeID r, a_AppID r) = k})"
  shows "app_state k (deliver merge_app rs w) = app_state k (deliver merge_app rs' w)"
  using assms by (intro app_gossip.convergence) auto

definition sample_app :: "int \<Rightarrow> string \<Rightarrow> AppRecord" where
  "sample_app ms v = \<lparr>a_NodeID = sample_id 1, a_AppID = ''chat'', a_AppName = ''Chat'', a_AppVersion = v,
     a_LastReported = fromUnixMilli ms\<rparr>"

theorem app_MergeGossip_converges_witness:
  "app_state (sample_id 1, ''chat'') (deliver merge_app [sample_app 1 ''1.0'', sample_app 2 ''1.1''] empty_DB) =
   app_state (sample_id 1, ''chat'') (deliver merge_app [sample_app 2 ''1.1'', sample_app 1 ''1.0''] empty_DB)"
  by (rule app_MergeGossip_converges) (auto simp: empty_DB_def sample_app_def lww_consistent_def)

section \<open>Discovery\<close>

lemma discover_loop_spec:
  "distinct (discover_loop appID c seen rs) \<and>
   set (discover_loop appID c seen rs) =
     {a_NodeID r | r. r \<in> set rs \<and> a_AppID r = appID \<and> VersionMatches (a_AppVersion r) c} - set seen"
proof (induction rs arbitrary: seen)
  case (Cons r rs)
  show ?case using Cons.IH [of seen] Cons.IH [of "a_NodeID r # seen"] by auto
qed simp

text \<open>
  Peer discovery is exact: when \<^verbatim>\<open>DiscoverPeers\<close> answers, it lists, without duplicates, precisely the
  nodes with a presence row for the app whose version satisfies the constraint.
\<close>

theorem DiscoverPeers_exact:
  "case fst (DiscoverPeers appID c w) of
     Inl e \<Rightarrow> True
   | Inr peers \<Rightarrow> distinct peers \<and>
       set peers = {n. length n = 32 \<and> (\<exists>r \<in> set (app_presence w). ap_node r = n \<and> ap_app r = appID \<and>
          VersionMatches (ap_version r) c)}"
proof (rule query_cases [of "\<lambda>w. map to_AppRecord (filter (\<lambda>r. length (ap_node r) = node_id_len)
    (order_desc ap_reported (app_presence w)))" w])
  let ?recs = "map to_AppRecord (filter (\<lambda>r. length (ap_node r) = node_id_len) (order_desc ap_reported (app_presence w)))"
  fix fs assume "query (\<lambda>w. map to_AppRecord (filter (\<lambda>r. length (ap_node r) = node_id_len)
      (order_desc ap_reported (app_presence w)))) w =
    (Inr (map to_AppRecord (filter (\<lambda>r. length (ap_node r) = node_id_len)
      (order_desc ap_reported (app_presence (w\<lparr>faults := fs\<rparr>))))), w\<lparr>faults := fs\<rparr>)"
  then have "fst (DiscoverPeers appID c w) = Inr (discover_loop appID c [] ?recs)"
    by (simp add: DiscoverPeers_def app_List_def bnd_def)
  moreover have "{a_NodeID r | r. r \<in> set ?recs \<and> a_AppID r = appID \<and> VersionMatches (a_AppVersion r) c} =
      {n. length n = 32 \<and> (\<exists>r \<in> set (app_presence w). ap_node r = n \<and> ap_app r = appID \<and> VersionMatches (ap_version r) c)}"
    by (auto simp: to_AppRecord_def node_id_len_def) force
  ultimately show ?thesis using discover_loop_spec [of appID c "[]" ?recs] by simp
next
  fix fs assume "query (\<lambda>w. map to_AppRecord (filter (\<lambda>r. length (ap_node r) = node_id_len)
      (order_desc ap_reported (app_presence w)))) w = (Inl SqlFailure, w\<lparr>faults := fs\<rparr>)"
  then show ?thesis by (simp add: DiscoverPeers_def app_List_def bnd_def)
qed

section \<open>The schema's constraints\<close>

lemma app_Upsert_wf [inv_intros]: "keeps db_wf (app_Upsert n a nm v t)"
  unfolding app_Upsert_def
  by (auto intro!: keeps_bnd keeps_wf_stmts db_wf_updates unique_key_upsert_row db_wf_unique simp: ap_key_def)

lemma app_MergeGossip_wf [inv_intros]: "keeps db_wf (app_MergeGossip n a nm v t)"
  unfolding app_MergeGossip_def Let_def
  by (auto intro!: keeps_bnd keeps_query app_Upsert_wf split: option.split)

end
