(* ===== verification/Daemon.thy ===== *)
theory Daemon
  imports Management Banlist AppPresence
begin

text \<open>
  \<^verbatim>\<open>hub/internal/daemonapi/daemonapi.go\<close>: the local API of the apps on a hub: registration, point-to-point
  messages through the DTN queue, topics. A handler takes the request's method, session token,
  query parameters and decoded body (\<open>None\<close> when the JSON decoder fails) and returns the response
  and the next world. Random bytes are an argument. A long poll on a topic is an opening and a
  closing step with sends in between.

  Shown: a session only exists for an app that no enforced ban covers; without a valid session a
  request changes nothing; messages are received in the order of delivery; topic channels keep
  order, drop when full and never exceed 8.
\<close>

section \<open>Base64\<close>

text \<open>\<^verbatim>\<open>base64.StdEncoding.DecodeString\<close>: line breaks are ignored, padding is required.\<close>

definition b64_value :: "char \<Rightarrow> nat option" where
  "b64_value c = (let n = of_char c :: nat in
     if 65 \<le> n \<and> n \<le> 90 then Some (n - 65)
     else if 97 \<le> n \<and> n \<le> 122 then Some (n - 71)
     else if 48 \<le> n \<and> n \<le> 57 then Some (n + 4)
     else if n = 43 then Some 62
     else if n = 47 then Some 63
     else None)"

fun b64_quads :: "string \<Rightarrow> bytes option" where
  "b64_quads [] = Some []"
| "b64_quads (a # b # c # d # rest) =
     (case (b64_value a, b64_value b) of
        (Some x, Some y) \<Rightarrow>
          let b1 = of_nat ((x * 4 + y div 16) mod 256) in
          if c = CHR ''='' then (if d = CHR ''='' \<and> rest = [] then Some [b1] else None)
          else (case b64_value c of
             None \<Rightarrow> None
           | Some z \<Rightarrow>
               let b2 = of_nat ((y mod 16 * 16 + z div 4) mod 256) in
               if d = CHR ''='' then (if rest = [] then Some [b1, b2] else None)
               else (case b64_value d of
                  None \<Rightarrow> None
                | Some u \<Rightarrow>
                    let b3 = of_nat ((z mod 4 * 64 + u) mod 256) in
                    map_option (\<lambda>bs. b1 # b2 # b3 # bs) (b64_quads rest)))
      | _ \<Rightarrow> None)"
| "b64_quads _ = None"

definition b64_DecodeString :: "string \<Rightarrow> bytes option" where
  "b64_DecodeString s = b64_quads (filter (\<lambda>c. of_char c \<noteq> (10 :: nat) \<and> of_char c \<noteq> (13 :: nat)) s)"

section \<open>State and configuration\<close>

record session =
  s_token :: string
  s_nodeID :: NodeID
  s_appID :: string
  s_appName :: string
  s_appVersion :: string

text \<open>
  \<open>inbox\<close> holds copies made with \<^verbatim>\<open>append([]byte(nil), payload...)\<close>, nil (\<open>None\<close>) for an empty
  payload. \<open>topics\<close> names, per topic and session token, the channel of the waiting subscriber.
\<close>

record daemon_world = mgmt_world +
  sessions :: "string \<Rightarrow> session option"
  inbox :: "NodeID \<Rightarrow> bytes option list"
  topics :: "((string \<times> string) \<times> nat) list"
  chans :: "nat \<Rightarrow> bytes list"

record 'w daemon_config =
  d_SelfID :: NodeID
  d_Apps :: bool
  d_Bans :: bool
  d_LocalHub :: NodeID
  d_Sender :: "(NodeID \<Rightarrow> NodeID \<Rightarrow> bytes option \<Rightarrow> ('w, unit) stmt) option"
  d_AppPresenceChanged :: "(NodeID \<Rightarrow> string \<Rightarrow> string \<Rightarrow> 'w \<Rightarrow> 'w) option"
  d_SosAlertPublished :: "(NodeID \<Rightarrow> string \<Rightarrow> string \<Rightarrow> bytes \<Rightarrow> 'w \<Rightarrow> 'w) option"

record request =
  r_Method :: string
  r_SessionHeader :: string
  r_Query :: "string \<Rightarrow> string"

datatype response =
    HttpError nat string
  | NoContent
  | JsonRegister string string
  | JsonOk
  | JsonPayload bytes
  | JsonPeers "string list"
  | NoResponse

record register_body =
  rb_AppID :: string
  rb_AppName :: string
  rb_AppVersion :: string

record send_body =
  sb_DestNodeID :: string
  sb_PayloadB64 :: string

record publish_body =
  pb_Topic :: string
  pb_PayloadB64 :: string

abbreviation MethodGet :: string where "MethodGet \<equiv> ''GET''"
abbreviation MethodPost :: string where "MethodPost \<equiv> ''POST''"

section \<open>Handlers\<close>

definition sessionFromRequest :: "request \<Rightarrow> 'a daemon_world_scheme \<Rightarrow> session option" where
  "sessionFromRequest r w =
     (let token = (if r_SessionHeader r = '''' then r_Query r ''session_token'' else r_SessionHeader r)
      in if token \<noteq> '''' then sessions w token else None)"

definition newToken :: "error + bytes \<Rightarrow> error + string" where
  "newToken entropy = (case entropy of Inl e \<Rightarrow> Inl e | Inr b \<Rightarrow> Inr (hex_EncodeToString (copy_array 24 b)))"

definition DeliverLocal ::
  "('w) daemon_config \<Rightarrow> NodeID \<Rightarrow> NodeID \<Rightarrow> bytes \<Rightarrow> ('a daemon_world_scheme, unit) stmt" where
  "DeliverLocal cfg src dst payload w =
     (if dst \<noteq> d_SelfID cfg then (Inl (Errmsg ''daemonapi: not local destination''), w)
      else let cp = (if payload = [] then None else Some payload)
           in (Inr (), w\<lparr>inbox := (inbox w)(dst := inbox w dst @ [cp])\<rparr>))"

definition handleRegister ::
  "('a daemon_world_scheme) daemon_config \<Rightarrow> error + bytes \<Rightarrow> time \<Rightarrow> request \<Rightarrow> register_body option \<Rightarrow>
   'a daemon_world_scheme \<Rightarrow> response \<times> 'a daemon_world_scheme" where
  "handleRegister cfg entropy now r body w =
     (if r_Method r \<noteq> MethodPost then (HttpError 405 ''method not allowed'', w)
      else if body = None \<or> rb_AppID (the body) = '''' then (HttpError 400 ''app_id required'', w)
      else let b = the body in
        case (if d_Bans cfg then IsLocallyEnforced (d_LocalHub cfg) (rb_AppID b) (rb_AppVersion b) w
              else (Inr False, w)) of
          (Inl e, w1) \<Rightarrow> (HttpError 500 ''ban check failed'', w1)
        | (Inr True, w1) \<Rightarrow> (HttpError 403 ''app is banned on this hub'', w1)
        | (Inr False, w1) \<Rightarrow>
            (case newToken entropy of
               Inl e \<Rightarrow> (HttpError 500 ''token failed'', w1)
             | Inr token \<Rightarrow>
                 let sess = \<lparr>s_token = token, s_nodeID = d_SelfID cfg, s_appID = rb_AppID b,
                             s_appName = rb_AppName b, s_appVersion = rb_AppVersion b\<rparr> in
                 (case (if d_Apps cfg
                        then app_Upsert (d_SelfID cfg) (rb_AppID b) (rb_AppName b) (rb_AppVersion b) now w1
                        else (Inr (), w1)) of
                    (Inl e, w2) \<Rightarrow> (HttpError 500 ''presence failed'', w2)
                  | (Inr _, w2) \<Rightarrow>
                      let w3 = w2\<lparr>sessions := (sessions w2)(token \<mapsto> sess)\<rparr>;
                          w4 = (case d_AppPresenceChanged cfg of
                                  None \<Rightarrow> w3
                                | Some f \<Rightarrow> f (d_SelfID cfg) (rb_AppID b) (rb_AppVersion b) w3)
                      in (JsonRegister token (NodeID_String (d_SelfID cfg)), w4))))"

definition handleSend ::
  "('a daemon_world_scheme) daemon_config \<Rightarrow> request \<Rightarrow> send_body option \<Rightarrow>
   'a daemon_world_scheme \<Rightarrow> response \<times> 'a daemon_world_scheme" where
  "handleSend cfg r body w =
     (if r_Method r \<noteq> MethodPost then (HttpError 405 ''method not allowed'', w)
      else case sessionFromRequest r w of
        None \<Rightarrow> (HttpError 401 ''unauthorized'', w)
      | Some sess \<Rightarrow>
          if body = None \<or> sb_DestNodeID (the body) = ''''
          then (HttpError 400 ''dest_node_id and payload_b64 required'', w)
          else case b64_DecodeString (sb_PayloadB64 (the body)) of
            None \<Rightarrow> (HttpError 400 ''invalid payload_b64'', w)
          | Some payload \<Rightarrow>
              (case hex_DecodeString (sb_DestNodeID (the body)) of
                 None \<Rightarrow> (HttpError 400 ''invalid dest_node_id'', w)
               | Some dst \<Rightarrow>
                   if length dst \<noteq> node_id_len then (HttpError 400 ''invalid dest_node_id'', w)
                   else case d_Sender cfg of
                     None \<Rightarrow> (HttpError 503 ''send unavailable'', w)
                   | Some enqueue \<Rightarrow>
                       (case enqueue (s_nodeID sess) dst (Some payload) w of
                          (Inl e, w1) \<Rightarrow> (HttpError 500 ''enqueue failed'', w1)
                        | (Inr _, w1) \<Rightarrow> (JsonOk, w1))))"

definition handleReceive ::
  "request \<Rightarrow> 'a daemon_world_scheme \<Rightarrow> response \<times> 'a daemon_world_scheme" where
  "handleReceive r w =
     (if r_Method r \<noteq> MethodGet then (HttpError 405 ''method not allowed'', w)
      else case sessionFromRequest r w of
        None \<Rightarrow> (HttpError 401 ''unauthorized'', w)
      | Some sess \<Rightarrow>
          (case inbox w (s_nodeID sess) of
             [] \<Rightarrow> (NoContent, w)
           | p # queue \<Rightarrow>
               let w1 = w\<lparr>inbox := (inbox w)(s_nodeID sess := queue)\<rparr> in
               (case p of None \<Rightarrow> (NoContent, w1) | Some payload \<Rightarrow> (JsonPayload payload, w1))))"

definition broadcastTopic :: "string \<Rightarrow> bytes \<Rightarrow> 'a daemon_world_scheme \<Rightarrow> 'a daemon_world_scheme" where
  "broadcastTopic topic payload w =
     (let subs = map snd (filter (\<lambda>((t, _), _). t = topic) (topics w))
      in w\<lparr>chans := (\<lambda>c. if c \<in> set subs then offer 8 payload (chans w c) else chans w c)\<rparr>)"

definition handlePublish ::
  "('a daemon_world_scheme) daemon_config \<Rightarrow> request \<Rightarrow> publish_body option \<Rightarrow>
   'a daemon_world_scheme \<Rightarrow> response \<times> 'a daemon_world_scheme" where
  "handlePublish cfg r body w =
     (if r_Method r \<noteq> MethodPost then (HttpError 405 ''method not allowed'', w)
      else case sessionFromRequest r w of
        None \<Rightarrow> (HttpError 401 ''unauthorized'', w)
      | Some sess \<Rightarrow>
          if body = None \<or> pb_Topic (the body) = ''''
          then (HttpError 400 ''topic and payload_b64 required'', w)
          else case b64_DecodeString (pb_PayloadB64 (the body)) of
            None \<Rightarrow> (HttpError 400 ''invalid payload_b64'', w)
          | Some payload \<Rightarrow>
              let topic = pb_Topic (the body);
                  w1 = broadcastTopic topic payload w;
                  w2 = (case d_SosAlertPublished cfg of
                          Some f \<Rightarrow> if topic = ''sos'' then f (s_nodeID sess) (s_appID sess) topic payload w1 else w1
                        | None \<Rightarrow> w1)
              in (JsonOk, w2))"

text \<open>
  \<^verbatim>\<open>handleSubscribe\<close> up to the \<^verbatim>\<open>select\<close>: a new channel \<open>ch\<close> takes the place of an earlier one of the same
  session; then the arm of the \<^verbatim>\<open>select\<close> that fires (\<open>None\<close> when that arm is not ready) and the deferred
  removal of whatever channel the session has on the topic by then.
\<close>

definition subscribe_open ::
  "nat \<Rightarrow> request \<Rightarrow> 'a daemon_world_scheme \<Rightarrow> response \<times> 'a daemon_world_scheme" where
  "subscribe_open ch r w =
     (if r_Method r \<noteq> MethodGet then (HttpError 405 ''method not allowed'', w)
      else case sessionFromRequest r w of
        None \<Rightarrow> (HttpError 401 ''unauthorized'', w)
      | Some sess \<Rightarrow>
          let topic = r_Query r ''topic'' in
          if topic = '''' then (HttpError 400 ''topic required'', w)
          else (NoResponse, w\<lparr>topics := AList.update (topic, s_token sess) ch (topics w),
                             chans := (chans w)(ch := [])\<rparr>))"

definition topicReceive :: "nat \<Rightarrow> 'a daemon_world_scheme \<Rightarrow> bytes option \<times> 'a daemon_world_scheme" where
  "topicReceive ch w = (case chans w ch of [] \<Rightarrow> (None, w) | p # q \<Rightarrow> (Some p, w\<lparr>chans := (chans w)(ch := q)\<rparr>))"

datatype select_arm = ArmPayload | ArmTimeout | ArmCancelled

definition subscribe_close ::
  "select_arm \<Rightarrow> nat \<Rightarrow> string \<Rightarrow> string \<Rightarrow> 'a daemon_world_scheme \<Rightarrow> (response \<times> 'a daemon_world_scheme) option" where
  "subscribe_close arm ch topic token w =
     (let unregister = (\<lambda>w. w\<lparr>topics := AList.delete (topic, token) (topics w)\<rparr>) in
      case arm of
        ArmPayload \<Rightarrow>
          (case topicReceive ch w of
             (None, _) \<Rightarrow> None
           | (Some payload, w1) \<Rightarrow> Some (JsonPayload payload, unregister w1))
      | ArmTimeout \<Rightarrow> Some (NoContent, unregister w)
      | ArmCancelled \<Rightarrow> Some (NoResponse, unregister w))"

fun discover_filter ::
  "('w) daemon_config \<Rightarrow> string \<Rightarrow> NodeID list \<Rightarrow> 'a DB_scheme \<Rightarrow> string list \<times> 'a DB_scheme" where
  "discover_filter cfg appID [] w = ([], w)"
| "discover_filter cfg appID (p # ps) w =
     (if \<not> d_Bans cfg then
        (let (out, w1) = discover_filter cfg appID ps w in (NodeID_String p # out, w1))
      else case app_Get p appID w of
        (Inl e, w1) \<Rightarrow> discover_filter cfg appID ps w1
      | (Inr None, w1) \<Rightarrow>
          (let (out, w2) = discover_filter cfg appID ps w1 in (NodeID_String p # out, w2))
      | (Inr (Some rec), w1) \<Rightarrow>
          (case IsLocallyEnforced (d_LocalHub cfg) appID (a_AppVersion rec) w1 of
             (Inr False, w2) \<Rightarrow>
               (let (out, w3) = discover_filter cfg appID ps w2 in (NodeID_String p # out, w3))
           | (_, w2) \<Rightarrow> discover_filter cfg appID ps w2))"

definition handleDiscoverPeers ::
  "('w) daemon_config \<Rightarrow> request \<Rightarrow> 'a daemon_world_scheme \<Rightarrow> response \<times> 'a daemon_world_scheme" where
  "handleDiscoverPeers cfg r w =
     (if r_Method r \<noteq> MethodGet then (HttpError 405 ''method not allowed'', w)
      else case sessionFromRequest r w of
        None \<Rightarrow> (HttpError 401 ''unauthorized'', w)
      | Some sess \<Rightarrow>
          let appID = r_Query r ''app_id'' in
          if appID = '''' then (HttpError 400 ''app_id required'', w)
          else if \<not> d_Apps cfg then (JsonPeers [], w)
          else case DiscoverPeers appID (r_Query r ''version_constraint'') w of
            (Inl e, w1) \<Rightarrow> (HttpError 500 ''discover failed'', w1)
          | (Inr peers, w1) \<Rightarrow>
              (let (out, w2) = discover_filter cfg appID peers w1 in (JsonPeers out, w2)))"

definition splitListenAddr :: "string \<Rightarrow> error + string \<times> string" where
  "splitListenAddr addr =
     (if addr = '''' then Inr (''unix'', ''/tmp/quakemeshhub.sock'')
      else if length addr > 5 \<and> take 5 addr = ''unix:'' then Inr (''unix'', drop 5 addr)
      else if length addr > 4 \<and> take 4 addr = ''tcp:'' then Inr (''tcp'', drop 4 addr)
      else Inl (Errmsg ''daemonapi: listen addr must be unix: or tcp: prefix''))"

section \<open>Sessions and bans\<close>

text \<open>
  C27. A banned app cannot register. When this hub enforces a ban on the app and version, a registration
  is answered with an error, whatever else the request holds and whichever statements fail, and
  changes nothing: no session, no presence row, no notification.
\<close>

theorem handleRegister_banned:
  assumes "d_Bans cfg" and "locally_enforced (d_LocalHub cfg) (rb_AppID b) (rb_AppVersion b) w"
    and "handleRegister cfg entropy now r (Some b) w = (resp, w')"
  shows "(\<exists>code m. resp = HttpError code m) \<and> tables w' = tables w"
proof -
  obtain q w1 where i: "IsLocallyEnforced (d_LocalHub cfg) (rb_AppID b) (rb_AppVersion b) w = (q, w1)" by force
  have t: "tables w1 = tables w" and q: "case q of Inl e \<Rightarrow> True | Inr x \<Rightarrow> x"
    using IsLocallyEnforced_result [of "d_LocalHub cfg" "rb_AppID b" "rb_AppVersion b" w] assms(2)
    by (auto simp: i split: sum.splits)
  with assms(1,3) i show ?thesis
    by (auto simp: handleRegister_def Let_def split: if_splits sum.splits)
qed

definition sample_chat_ban :: ban_row where
  "sample_chat_ban = \<lparr>bl_id = replicate 16 7, bl_app = ''chat'', bl_range = ''1.*'', bl_reason = '''', bl_proposer = sample_id 9,
     bl_at = 0, bl_signature = []\<rparr>"

definition sample_daemon :: daemon_world where
  "sample_daemon = DB.extend (empty_DB\<lparr>ban_list := [sample_chat_ban],
       ban_verdicts := [\<lparr>bv_ban = replicate 16 7, bv_hub = sample_id 1, bv_agree = 1, bv_at = 0\<rparr>]\<rparr>)
     \<lparr>lastDepth = - 1, clients = [],
      sessions = [''tok'' \<mapsto> \<lparr>s_token = ''tok'', s_nodeID = sample_id 1, s_appID = ''sos'', s_appName = '''', s_appVersion = ''1''\<rparr>],
      inbox = (\<lambda>_. []), topics = [], chans = (\<lambda>_. [])\<rparr>"

definition sample_dcfg :: "daemon_world daemon_config" where
  "sample_dcfg = \<lparr>d_SelfID = sample_id 1, d_Apps = True, d_Bans = True, d_LocalHub = sample_id 1, d_Sender = None,
     d_AppPresenceChanged = None, d_SosAlertPublished = None\<rparr>"

definition sample_req :: "string \<Rightarrow> string \<Rightarrow> request" where
  "sample_req m token = \<lparr>r_Method = m, r_SessionHeader = token,
     r_Query = (\<lambda>k. if k = ''topic'' then ''news'' else '''')\<rparr>"

lemma sample_session: "sessionFromRequest (sample_req m ''tok'') sample_daemon =
    Some \<lparr>s_token = ''tok'', s_nodeID = sample_id 1, s_appID = ''sos'', s_appName = '''', s_appVersion = ''1''\<rparr>"
  "sessionFromRequest (sample_req m '''') sample_daemon = None"
  by (simp_all add: sessionFromRequest_def sample_req_def sample_daemon_def DB.defs)

theorem handleRegister_banned_witness:
  "\<exists>code m. fst (handleRegister sample_dcfg (Inr []) 0 (sample_req MethodPost '''')
      (Some \<lparr>rb_AppID = ''chat'', rb_AppName = ''Chat'', rb_AppVersion = ''1.4''\<rparr>) sample_daemon) = HttpError code m"
proof -
  let ?b = "\<lparr>rb_AppID = ''chat'', rb_AppName = ''Chat'', rb_AppVersion = ''1.4''\<rparr>"
  let ?h = "handleRegister sample_dcfg (Inr []) 0 (sample_req MethodPost '''') (Some ?b) sample_daemon"
  have "VersionInRange ''1.4'' ''1.*''"
    by (simp add: VersionInRange_def TrimSpace_def is_space_def HasSuffix_def HasPrefix_def TrimSuffix_def)
  then have "locally_enforced (d_LocalHub sample_dcfg) (rb_AppID ?b) (rb_AppVersion ?b) sample_daemon"
    by (simp add: locally_enforced_def sample_dcfg_def sample_daemon_def sample_chat_ban_def DB.defs empty_DB_def
        find_row_def bv_key_def)
  then show ?thesis
    using handleRegister_banned [of sample_dcfg ?b sample_daemon "Inr []" 0 "sample_req MethodPost ''''" "fst ?h" "snd ?h"]
    by (simp add: sample_dcfg_def)
qed

text \<open>
  No session, no effect. A request whose token names no session is refused by every other
  endpoint, with 401 (or 405 for a wrong method), and leaves sessions, inbox, topics, channels
  and database as they were.
\<close>

theorem no_session_no_effect:
  assumes "sessionFromRequest r w = None"
  shows "handleSend cfg r sb w \<in> {(HttpError 401 ''unauthorized'', w), (HttpError 405 ''method not allowed'', w)} \<and>
    handleReceive r w \<in> {(HttpError 401 ''unauthorized'', w), (HttpError 405 ''method not allowed'', w)} \<and>
    handlePublish cfg r pb w \<in> {(HttpError 401 ''unauthorized'', w), (HttpError 405 ''method not allowed'', w)} \<and>
    subscribe_open ch r w \<in> {(HttpError 401 ''unauthorized'', w), (HttpError 405 ''method not allowed'', w)} \<and>
    handleDiscoverPeers cfg' r w \<in> {(HttpError 401 ''unauthorized'', w), (HttpError 405 ''method not allowed'', w)}"
  using assms
  by (simp add: handleSend_def handleReceive_def handlePublish_def subscribe_open_def handleDiscoverPeers_def)

theorem no_session_no_effect_witness:
  "handleReceive (sample_req MethodGet '''') sample_daemon \<in>
     {(HttpError 401 ''unauthorized'', sample_daemon), (HttpError 405 ''method not allowed'', sample_daemon)}"
  using no_session_no_effect [OF sample_session(2), of sample_dcfg MethodGet None None 0 sample_dcfg] by blast

section \<open>The inbox\<close>

definition pending :: "NodeID \<Rightarrow> 'a daemon_world_scheme \<Rightarrow> bytes list" where
  "pending dst w = List.map_filter id (inbox w dst)"

text \<open>One poll of \<^verbatim>\<open>handleReceive\<close>, by what the client gets.\<close>

definition poll_inbox :: "request \<Rightarrow> 'a daemon_world_scheme \<Rightarrow> bytes option \<times> 'a daemon_world_scheme" where
  "poll_inbox r w = (case handleReceive r w of
     (JsonPayload p, w1) \<Rightarrow> (Some p, w1) | (_, w1) \<Rightarrow> (None, w1))"

definition deliver_self :: "('w) daemon_config \<Rightarrow> NodeID \<Rightarrow> bytes \<Rightarrow> 'a daemon_world_scheme \<Rightarrow> 'a daemon_world_scheme" where
  "deliver_self cfg src p w = snd (DeliverLocal cfg src (d_SelfID cfg) p w)"

lemma deliver_self_sessions: "sessions (deliver_self cfg src p w) = sessions w"
  by (simp add: deliver_self_def DeliverLocal_def)

lemma pending_deliver_self:
  "pending (d_SelfID cfg) (deliver_self cfg src p w) = pending (d_SelfID cfg) w @ (if p = [] then [] else [p])"
  by (simp add: pending_def deliver_self_def DeliverLocal_def map_filter_def)

lemma sessionFromRequest_cong: "sessions w' = sessions w \<Longrightarrow> sessionFromRequest r w' = sessionFromRequest r w"
  by (simp add: sessionFromRequest_def Let_def)

lemma poll_inbox_step:
  assumes "r_Method r = MethodGet" "sessionFromRequest r w = Some sess" "s_nodeID sess = dst"
    "poll_inbox r w = (y, w1)"
  shows "sessions w1 = sessions w" "pending dst w = (case y of None \<Rightarrow> [] | Some p \<Rightarrow> [p]) @ pending dst w1"
  using assms
  by (auto simp: poll_inbox_def handleReceive_def pending_def map_filter_def Let_def split: list.splits option.splits)

text \<open>
  The inbox is first in, first out and loses nothing but empty messages. Along any interleaving of
  local deliveries and polls by a registered app, what the polls returned followed by what still
  waits is what waited before followed by the deliveries, in order, each once, except that an empty
  payload is stored as a nil slice, which the poll that removes it reports as no message.
\<close>

theorem inbox_fifo:
  assumes "r_Method r = MethodGet" and "sessionFromRequest r w = Some sess" and "s_nodeID sess = d_SelfID cfg"
    and "chan_run (deliver_self cfg src) (poll_inbox r) ops w = (received, w')"
  shows "received @ pending (d_SelfID cfg) w' = pending (d_SelfID cfg) w @ filter (\<lambda>p. p \<noteq> []) (sends ops)"
  using assms(2,4)
proof (induction ops arbitrary: w received)
  case (Cons op ops)
  show ?case
  proof (cases op)
    case (Send p)
    have "sessionFromRequest r (deliver_self cfg src p w) = Some sess"
      using Cons.prems(1) by (simp add: sessionFromRequest_cong [OF deliver_self_sessions])
    from Cons.IH [OF this] Cons.prems(2) Send show ?thesis by (simp add: pending_deliver_self)
  next
    case Recv
    obtain y w1 where y: "poll_inbox r w = (y, w1)" by force
    obtain rs where rs: "chan_run (deliver_self cfg src) (poll_inbox r) ops w1 = (rs, w')"
      "received = (case y of None \<Rightarrow> rs | Some p \<Rightarrow> p # rs)"
      using Cons.prems(2) y Recv by (auto split: prod.splits)
    note step = poll_inbox_step [OF assms(1) Cons.prems(1) assms(3) y]
    have "sessionFromRequest r w1 = Some sess" using Cons.prems(1) sessionFromRequest_cong [OF step(1)] by simp
    from Cons.IH [OF this rs(1)] step(2) rs(2) Recv show ?thesis by (auto split: option.splits)
  qed
qed simp

theorem inbox_fifo_witness:
  "chan_run (deliver_self sample_dcfg (sample_id 3)) (poll_inbox (sample_req MethodGet ''tok''))
     [Send [1], Send [], Send [2], Recv, Recv, Recv] sample_daemon =
     ([[1], [2]], snd (chan_run (deliver_self sample_dcfg (sample_id 3)) (poll_inbox (sample_req MethodGet ''tok''))
     [Send [1], Send [], Send [2], Recv, Recv, Recv] sample_daemon)) \<and>
   [[1], [2]] @ pending (sample_id 1) (snd (chan_run (deliver_self sample_dcfg (sample_id 3))
     (poll_inbox (sample_req MethodGet ''tok'')) [Send [1], Send [], Send [2], Recv, Recv, Recv] sample_daemon)) =
   pending (sample_id 1) sample_daemon @ [[1], [2]]"
proof -
  let ?r = "sample_req MethodGet ''tok''" and ?ops = "[Send [1], Send [], Send [2], Recv, Recv, Recv]"
  let ?run = "chan_run (deliver_self sample_dcfg (sample_id 3)) (poll_inbox ?r) ?ops sample_daemon"
  have run: "fst ?run = [[1], [2]]"
    by (simp add: deliver_self_def poll_inbox_def DeliverLocal_def handleReceive_def sessionFromRequest_def
        sample_daemon_def sample_dcfg_def sample_req_def DB.defs Let_def)
  then have run2: "?run = ([[1], [2]], snd ?run)" by (metis prod.collapse)
  have "[[1], [2]] @ pending (d_SelfID sample_dcfg) (snd ?run) =
    pending (d_SelfID sample_dcfg) sample_daemon @ filter (\<lambda>p. p \<noteq> []) (sends ?ops)"
    by (rule inbox_fifo [OF _ sample_session(1) _ run2]) (simp_all add: sample_req_def sample_dcfg_def)
  with run2 show ?thesis by (simp add: sample_dcfg_def)
qed

section \<open>Topics\<close>

definition subscribed :: "string \<Rightarrow> nat \<Rightarrow> 'a daemon_world_scheme \<Rightarrow> bool" where
  "subscribed topic ch w = (\<exists>token. ((topic, token), ch) \<in> set (topics w))"

interpretation topic_channel:
  drop_channel 8 "broadcastTopic topic" "topicReceive ch" "\<lambda>w. chans w ch" "subscribed topic ch" for topic ch
proof (unfold_locales, goal_cases)
  case (1 w x)
  then have "ch \<in> set (map snd (filter (\<lambda>((t, _), _). t = topic) (topics w)))"
    by (force simp: subscribed_def)
  then show ?case by (simp add: broadcastTopic_def Let_def)
qed (auto simp: subscribed_def broadcastTopic_def topicReceive_def Let_def split: list.split)

definition published :: "(string \<times> bytes) list \<Rightarrow> 'a daemon_world_scheme \<Rightarrow> 'a daemon_world_scheme" where
  "published pubs w = fold (\<lambda>(t, p). broadcastTopic t p) pubs w"

lemma topics_broadcastTopic [simp]: "topics (broadcastTopic t p w) = topics w"
  by (simp add: broadcastTopic_def Let_def)

lemma subscribed_broadcastTopic [simp]: "subscribed t' ch (broadcastTopic t p w) = subscribed t' ch w"
  by (simp add: subscribed_def)

lemma broadcastTopic_other: "\<not> subscribed t ch w \<Longrightarrow> chans (broadcastTopic t p w) ch = chans w ch"
  by (auto simp: broadcastTopic_def subscribed_def Let_def)

text \<open>A channel that serves one topic has the first payloads published there, as many as fit.\<close>

lemma chans_published:
  assumes "subscribed topic ch w" and "\<forall>t. t \<noteq> topic \<longrightarrow> \<not> subscribed t ch w" and "length (chans w ch) \<le> 8"
  shows "chans (published pubs w) ch = take 8 (chans w ch @ map snd (filter (\<lambda>(t, _). t = topic) pubs))"
  using assms
proof (induction pubs arbitrary: w)
  case (Cons tp pubs)
  obtain t p where tp: "tp = (t, p)" by force
  have q: "chans (broadcastTopic t p w) ch = (if t = topic then offer 8 p (chans w ch) else chans w ch)"
  proof (cases "t = topic")
    case True
    then show ?thesis using topic_channel.send_queue [OF Cons.prems(1)] by simp
  next
    case False
    then have "\<not> subscribed t ch w" using Cons.prems(2) by blast
    then show ?thesis using False by (simp add: broadcastTopic_other)
  qed
  have "chans (published pubs (broadcastTopic t p w)) ch =
      take 8 (chans (broadcastTopic t p w) ch @ map snd (filter (\<lambda>(t, _). t = topic) pubs))"
    by (rule Cons.IH) (use Cons.prems in \<open>simp_all add: q offer_def\<close>)
  moreover have "published (tp # pubs) w = published pubs (broadcastTopic t p w)" by (simp add: tp published_def)
  ultimately show ?case using Cons.prems(3) by (simp add: tp q offer_def take_Cons')
qed (simp add: published_def)

text \<open>
  A long poll returns the next message of its topic. After a subscription is opened on a fresh
  channel and any messages are published on any topics, the arm of the poll that takes a payload
  is ready exactly when one of them was on its topic, and returns the first such message.
\<close>

theorem subscribe_gets_next:
  assumes "subscribe_open ch r w = (NoResponse, w1)" and "ch \<notin> snd ` set (topics w)"
  shows "map_option fst (subscribe_close ArmPayload ch (r_Query r ''topic'') token (published pubs w1)) =
    (case filter (\<lambda>(t, _). t = r_Query r ''topic'') pubs of [] \<Rightarrow> None | (_, p) # _ \<Rightarrow> Some (JsonPayload p))"
proof -
  obtain sess :: session where w1: "w1 = w\<lparr>topics := AList.update (r_Query r ''topic'', s_token sess) ch (topics w),
      chans := (chans w)(ch := [])\<rparr>"
    by (rule that [of "the (sessionFromRequest r w)"])
      (use assms(1) in \<open>auto simp: subscribe_open_def Let_def split: if_splits option.splits\<close>)
  have upd: "((t, k), ch) \<in> set (AList.update kk ch al) \<longleftrightarrow> kk = (t, k)" if "ch \<notin> snd ` set al"
    for t k kk and al :: "((string \<times> string) \<times> nat) list"
    using that by (induction al) (auto simp: image_iff)
  have sub: "subscribed t ch w1 \<longleftrightarrow> t = r_Query r ''topic''" for t
    by (auto simp: subscribed_def w1 upd [OF assms(2)])
  have "chans (published pubs w1) ch = take 8 (map snd (filter (\<lambda>(t, _). t = r_Query r ''topic'') pubs))"
    using chans_published [of "r_Query r ''topic''" ch w1 pubs] by (simp add: sub) (simp add: w1)
  then show ?thesis
    by (auto simp: subscribe_close_def topicReceive_def Let_def split: list.splits)
qed

theorem subscribe_gets_next_witness:
  "map_option fst (subscribe_close ArmPayload 1 ''news'' ''tok''
     (published [(''sos'', [9]), (''news'', [1]), (''news'', [2])] (snd (subscribe_open 1 (sample_req MethodGet ''tok'') sample_daemon))))
   = Some (JsonPayload [1])"
proof -
  let ?o = "subscribe_open 1 (sample_req MethodGet ''tok'') sample_daemon"
  have "fst ?o = NoResponse" unfolding subscribe_open_def sample_session by (simp add: sample_req_def)
  then have "?o = (NoResponse, snd ?o)" by (metis prod.collapse)
  moreover have "1 \<notin> snd ` set (topics sample_daemon)" by (simp add: sample_daemon_def DB.defs)
  ultimately show ?thesis
    using subscribe_gets_next [of 1 "sample_req MethodGet ''tok''" sample_daemon "snd ?o" "''tok''"
        "[(''sos'', [9]), (''news'', [1]), (''news'', [2])]"]
    by (simp add: sample_req_def)
qed

text \<open>
  Two polls of one session on one topic interfere. The second takes the first one's place, and when
  the first times out it removes the second: a message published then reaches neither.
\<close>

theorem resubscribe_loses:
  "let w1 = snd (subscribe_open 1 (sample_req MethodGet ''tok'') sample_daemon);
       w2 = snd (subscribe_open 2 (sample_req MethodGet ''tok'') w1) in
   case subscribe_close ArmTimeout 1 ''news'' ''tok'' w2 of
     None \<Rightarrow> False
   | Some (_, w3) \<Rightarrow> chans (broadcastTopic ''news'' [1] w2) 2 = [[1]] \<and> chans (broadcastTopic ''news'' [1] w3) 2 = []"
  by (simp add: subscribe_open_def subscribe_close_def sessionFromRequest_def broadcastTopic_def offer_def
      sample_daemon_def sample_req_def DB.defs Let_def image_iff)

end
