(* ===== verification/Heartbeat.thy ===== *)
theory Heartbeat
  imports Lan Daemon
begin

text \<open>
  \<^verbatim>\<open>hub/internal/nodeheartbeat\<close> and \<^verbatim>\<open>hub/internal/landiscovery\<close>: presence of mesh nodes, reported over HTTP
  or announced by multicast on the LAN, SOS alerts and endorsements. Handlers take the decoded
  body (\<open>None\<close> when decoding fails). The detected LAN context and the socket's own address are
  arguments of the steps that use them.

  Shown: an SOS is acknowledged exactly when it was passed on, under any failures; a report leaves
  the node online and seen; an endorsement request with well-formed, distinct identifiers always
  succeeds, because the proximity it requires is recorded on the spot.
\<close>

section \<open>Presence\<close>

definition RegisterPresence ::
  "(NodeID \<Rightarrow> string \<Rightarrow> 'a DB_scheme \<Rightarrow> 'a DB_scheme) option \<Rightarrow> NodeID \<Rightarrow> float64 option \<Rightarrow> float64 option \<Rightarrow> time \<Rightarrow>
   ('a DB_scheme, bool) stmt" where
  "RegisterPresence notifier nodeID lat lon seenAt w =
     (case UpsertSeen nodeID seenAt w of
        (Inl e, w1) \<Rightarrow> (Inl e, w1)
      | (Inr changed, w1) \<Rightarrow>
          (let w2 = (case (lat, lon) of
                       (Some la, Some lo) \<Rightarrow> snd (UpdateLocation nodeID la lo seenAt w1)
                     | _ \<Rightarrow> w1);
               w3 = (case notifier of
                       Some f \<Rightarrow> if changed then f nodeID NodeStatusOnline w2 else w2
                     | None \<Rightarrow> w2)
           in (Inr changed, w3)))"

definition parseNodeID :: "string \<Rightarrow> NodeID option" where
  "parseNodeID hexID =
     (case hex_DecodeString hexID of
        None \<Rightarrow> None
      | Some idBytes \<Rightarrow> if length idBytes \<noteq> node_id_len then None else Some idBytes)"

section \<open>The heartbeat server\<close>

record 'w hb_config =
  hb_Notifier :: "(NodeID \<Rightarrow> string \<Rightarrow> 'w \<Rightarrow> 'w) option"
  hb_SOSNotifier :: "(NodeID \<Rightarrow> string \<Rightarrow> string \<Rightarrow> bytes \<Rightarrow> 'w \<Rightarrow> 'w) option"
  hb_Segments :: bool
  hb_Trust :: bool
  hb_LocalHub :: NodeID
  hb_sha256 :: "bytes \<Rightarrow> bytes"

record heartbeat_body =
  hbb_NodeID :: string
  hbb_Handle :: "string option"
  hbb_HomeLat :: "float64 option"
  hbb_HomeLon :: "float64 option"
  hbb_Lat :: "float64 option"
  hbb_Lon :: "float64 option"
  hbb_AccuracyM :: "float64 option"
  hbb_LanContext :: "Context option"

definition handleHeartbeat ::
  "('a DB_scheme) hb_config \<Rightarrow> time \<Rightarrow> string \<Rightarrow> string \<Rightarrow> heartbeat_body option \<Rightarrow> 'a DB_scheme \<Rightarrow>
   response \<times> 'a DB_scheme" where
  "handleHeartbeat cfg now meth remoteAddr body w =
     (if meth \<noteq> MethodPost then (HttpError 405 ''method not allowed'', w)
      else if body = None \<or> hbb_NodeID (the body) = '''' then (HttpError 400 ''node_id required'', w)
      else let b = the body in
        case parseNodeID (hbb_NodeID b) of
          None \<Rightarrow> (HttpError 400 ''invalid node_id'', w)
        | Some nodeID \<Rightarrow>
            (case RegisterPresence (hb_Notifier cfg) nodeID (hbb_Lat b) (hbb_Lon b) now w of
               (Inl e, w1) \<Rightarrow> (HttpError 500 ''registry failed'', w1)
             | (Inr _, w1) \<Rightarrow>
                 (let w2 = (if hbb_Handle b \<noteq> None \<or> hbb_HomeLat b \<noteq> None \<or> hbb_HomeLon b \<noteq> None
                            then snd (UpdateProfile nodeID (hbb_Handle b) (hbb_HomeLat b) (hbb_HomeLon b) w1) else w1);
                      w3 = (case hbb_LanContext b of
                              Some c \<Rightarrow>
                                if hb_Segments cfg then
                                  let ctx = (if LocalIP c = '''' then c\<lparr>LocalIP := LocalIPFromRemoteAddr remoteAddr\<rparr> else c)
                                  in snd (RecordMembership (hb_sha256 cfg) EntityNode nodeID ctx now w2)
                                else w2
                            | None \<Rightarrow> w2);
                      w4 = (if hb_Trust cfg \<and> hb_LocalHub cfg \<noteq> zero_id
                            then snd (RecordProximity (hb_LocalHub cfg) nodeID (- 55) TransportHubDirect now w3) else w3)
                  in (JsonOk, w4))))"

record sos_body =
  sos_NodeID :: string
  sos_Text :: string
  sos_Lat :: float64
  sos_Lon :: float64
  sos_AccuracyM :: float64
  sos_SentAt :: int

text \<open>The default text is \<^verbatim>\<open>SOS\<close>, an em dash in UTF-8 and \<^verbatim>\<open>need assistance\<close>.\<close>

definition sos_default :: string where
  "sos_default = ''SOS '' @ [CHR 0xE2, CHR 0x80, CHR 0x94] @ '' need assistance''"

definition sosAppID :: string where
  "sosAppID = ''net.quakemesh.sosbeacon''"

definition sosTopic :: string where
  "sosTopic = ''sos''"

definition handleSOS ::
  "(sos_body \<Rightarrow> bytes) \<Rightarrow> ('a DB_scheme) hb_config \<Rightarrow> time \<Rightarrow> string \<Rightarrow> sos_body option \<Rightarrow> 'a DB_scheme \<Rightarrow>
   response \<times> 'a DB_scheme" where
  "handleSOS marshal cfg now meth body w =
     (if meth \<noteq> MethodPost then (HttpError 405 ''method not allowed'', w)
      else if body = None \<or> sos_NodeID (the body) = '''' then (HttpError 400 ''node_id required'', w)
      else let b = (if sos_Text (the body) = '''' then (the body)\<lparr>sos_Text := sos_default\<rparr> else the body) in
        case parseNodeID (sos_NodeID b) of
          None \<Rightarrow> (HttpError 400 ''invalid node_id'', w)
        | Some nodeID \<Rightarrow>
            let given = (\<not> feq (sos_Lat b) (Fin 0) \<or> \<not> feq (sos_Lon b) (Fin 0)) in
            (case RegisterPresence (hb_Notifier cfg) nodeID (if given then Some (sos_Lat b) else None)
                    (if given then Some (sos_Lon b) else None) now w of
               (Inl e, w1) \<Rightarrow> (HttpError 500 ''registry failed'', w1)
             | (Inr _, w1) \<Rightarrow>
                 (case hb_SOSNotifier cfg of
                    Some f \<Rightarrow> (JsonOk, f nodeID sosAppID sosTopic (marshal b) w1)
                  | None \<Rightarrow> (JsonOk, w1))))"

text \<open>\<open>msg\<close> renders an error for the response.\<close>

definition handleEndorse ::
  "(error \<Rightarrow> string) \<Rightarrow> ('a DB_scheme) hb_config \<Rightarrow> time \<Rightarrow> string \<Rightarrow> (string \<times> string) option \<Rightarrow> 'a DB_scheme \<Rightarrow>
   response \<times> 'a DB_scheme" where
  "handleEndorse msg cfg now meth body w =
     (if meth \<noteq> MethodPost then (HttpError 405 ''method not allowed'', w)
      else if \<not> hb_Trust cfg then (HttpError 503 ''endorsements disabled'', w)
      else case body of
        None \<Rightarrow> (HttpError 400 ''endorser_node_id and endorsed_node_id required'', w)
      | Some (a, b) \<Rightarrow>
          if a = '''' \<or> b = '''' then (HttpError 400 ''endorser_node_id and endorsed_node_id required'', w)
          else case parseNodeID a of
            None \<Rightarrow> (HttpError 400 ''invalid endorser_node_id'', w)
          | Some endorser \<Rightarrow>
              (case parseNodeID b of
                 None \<Rightarrow> (HttpError 400 ''invalid endorsed_node_id'', w)
               | Some endorsed \<Rightarrow>
                   if endorser = endorsed then (HttpError 400 ''cannot endorse self'', w)
                   else case EndorseWithHubContact endorser endorsed now w of
                     (Inl e, w1) \<Rightarrow> (HttpError 400 (msg e), w1)
                   | (Inr _, w1) \<Rightarrow> (JsonOk, w1)))"

section \<open>LAN discovery\<close>

record 'w ld_config =
  ld_HubNodeID :: NodeID
  ld_HeartbeatPort :: int
  ld_OGMPort :: int
  ld_Interval :: duration
  ld_Notifier :: "(NodeID \<Rightarrow> string \<Rightarrow> 'w \<Rightarrow> 'w) option"
  ld_HubNotifier :: "(NodeID \<Rightarrow> string \<Rightarrow> 'w \<Rightarrow> 'w) option"
  ld_Segments :: bool
  ld_sha256 :: "bytes \<Rightarrow> bytes"

definition ld_New :: "'w ld_config \<Rightarrow> 'w ld_config" where
  "ld_New cfg = (if ld_Interval cfg \<le> 0 then cfg\<lparr>ld_Interval := 5 * Second\<rparr> else cfg)"

text \<open>\<open>sockIP\<close> is the address of the engine's socket, if it has one.\<close>

definition refreshHubLiveness ::
  "('a DB_scheme) ld_config \<Rightarrow> string option \<Rightarrow> Context option \<Rightarrow> time \<Rightarrow> 'a DB_scheme \<Rightarrow> 'a DB_scheme" where
  "refreshHubLiveness cfg sockIP lan atTime w =
     (if ld_OGMPort cfg \<le> 0 then w
      else let ip0 = (case lan of Some c \<Rightarrow> LocalIP c | None \<Rightarrow> '''');
               ip1 = (if ip0 = '''' then (case sockIP of Some ip \<Rightarrow> ip | None \<Rightarrow> '''') else ip0);
               ip = (if ip1 = '''' then ''0.0.0.0'' else ip1)
           in case UpsertHubSeen (ld_HubNodeID cfg) ip (ld_OGMPort cfg) atTime w of
                (Inl e, w1) \<Rightarrow> w1
              | (Inr changed, w1) \<Rightarrow>
                  (case ld_HubNotifier cfg of
                     Some f \<Rightarrow> if changed then f (ld_HubNodeID cfg) HubStatusOnline w1 else w1
                   | None \<Rightarrow> w1))"

text \<open>The payload sent to the multicast group, if one is sent.\<close>

definition sendHubBeacon ::
  "beacon_codec \<Rightarrow> ('a DB_scheme) ld_config \<Rightarrow> string option \<Rightarrow> Context \<Rightarrow> time \<Rightarrow> 'a DB_scheme \<Rightarrow>
   bytes option \<times> 'a DB_scheme" where
  "sendHubBeacon J cfg sockIP detected now w =
     (let lan = (if Valid detected then Some detected else None);
          w1 = (if Valid detected \<and> ld_Segments cfg
                then snd (RecordMembership (ld_sha256 cfg) EntityHub (ld_HubNodeID cfg) detected now w) else w);
          w2 = refreshHubLiveness cfg sockIP lan now w1
      in case HubBeacon J (NodeID_String (ld_HubNodeID cfg)) (ld_HeartbeatPort cfg) (ld_OGMPort cfg) lan of
           Inl e \<Rightarrow> (None, w2)
         | Inr payload \<Rightarrow> (Some payload, w2))"

definition handleNodeBeacon :: "('a DB_scheme) ld_config \<Rightarrow> time \<Rightarrow> Message \<Rightarrow> 'a DB_scheme \<Rightarrow> 'a DB_scheme" where
  "handleNodeBeacon cfg now msg w =
     (case parseNodeID (m_NodeID msg) of
        None \<Rightarrow> w
      | Some nodeID \<Rightarrow>
          (case RegisterPresence (ld_Notifier cfg) nodeID (m_Lat msg) (m_Lon msg) now w of
             (Inl e, w1) \<Rightarrow> w1
           | (Inr _, w1) \<Rightarrow>
               (let handlePtr = (if m_Handle msg \<noteq> '''' then Some (m_Handle msg) else None);
                    w2 = snd (UpdateProfile nodeID handlePtr (m_HomeLat msg) (m_HomeLon msg) w1)
                in case m_LanContext msg of
                     Some c \<Rightarrow>
                       if ld_Segments cfg then snd (RecordMembership (ld_sha256 cfg) EntityNode nodeID c now w2) else w2
                   | None \<Rightarrow> w2)))"

text \<open>One datagram of \<^verbatim>\<open>receiveLoop\<close>.\<close>

definition ld_receive :: "beacon_codec \<Rightarrow> ('a DB_scheme) ld_config \<Rightarrow> time \<Rightarrow> bytes \<Rightarrow> 'a DB_scheme \<Rightarrow> 'a DB_scheme" where
  "ld_receive J cfg now data w =
     (case beacon_Decode J data of
        Some (Inr msg) \<Rightarrow> if m_Kind msg \<noteq> KindNode then w else handleNodeBeacon cfg now msg w
      | _ \<Rightarrow> w)"

section \<open>An SOS reaches the operators\<close>

lemma client_queue_emit:
  assumes "connected ch w" and "enc \<lparr>EmittedAtUnixMs = UnixMilli now, Event = b\<rparr> = Some p"
  shows "client_queue ch (emit enc now b w) = offer 32 p (client_queue ch w)" "connected ch (emit enc now b w)"
  using assms mgmt_channel.send_queue [OF assms(1)] mgmt_channel.send_live [OF assms(1)]
  by (simp_all add: emit_def Publish_def)

lemma UpsertSeen_clients: "clients (snd (UpsertSeen n t w)) = clients (w :: 'a mgmt_world_scheme)"
  by (rule keeps_eqD) (auto simp: UpsertSeen_def Let_def intro!: keeps_stmts keeps_bnd split: option.split)

lemma UpdateLocation_clients: "clients (snd (UpdateLocation n x y t w)) = clients (w :: 'a mgmt_world_scheme)"
  by (rule keeps_eqD) (auto simp: UpdateLocation_def intro!: keeps_stmts keeps_bnd)

lemma client_queue_cong: "clients w' = clients w \<Longrightarrow> client_queue ch w' = client_queue ch w"
  "clients w' = clients w \<Longrightarrow> connected ch w' = connected ch w"
  by (simp_all add: client_queue_def connected_def)

text \<open>A presence report adds at most one event to a client's channel.\<close>

lemma RegisterPresence_queue:
  fixes w :: "'a mgmt_world_scheme"
  assumes "connected ch w" and "\<And>ev. \<exists>p. enc ev = Some p" and "length (client_queue ch w) < 32"
    and "RegisterPresence (Some (api_NodeStatusChanged enc now)) n lat lon now w = (r, w')"
  shows "connected ch w'" and "\<exists>q. client_queue ch w' = client_queue ch w @ q \<and> length q \<le> 1"
proof -
  obtain r1 w1 where u: "UpsertSeen n now w = (r1, w1)" by force
  then have c1: "clients w1 = clients w" using UpsertSeen_clients [of n now w] by simp
  define w2 where "w2 = (case (lat, lon) of (Some la, Some lo) \<Rightarrow> snd (UpdateLocation n la lo now w1) | _ \<Rightarrow> w1)"
  have "clients w2 = clients w" using c1 by (auto simp: w2_def UpdateLocation_clients split: option.split)
  note c2 = client_queue_cong [OF this, of ch]
  obtain p where p: "enc \<lparr>EmittedAtUnixMs = UnixMilli now, Event = EvNodeStatusChanged n NodeStatusOnline\<rparr> = Some p"
    using assms(2) by blast
  have "w' = w1 \<or> w' = w2 \<or> w' = emit enc now (EvNodeStatusChanged n NodeStatusOnline) w2"
    using assms(4) u by (auto simp: RegisterPresence_def Let_def w2_def api_NodeStatusChanged_def split: sum.splits)
  moreover have "connected ch w2" using c2 assms(1) by simp
  ultimately have "connected ch w' \<and> (\<exists>q. client_queue ch w' = client_queue ch w @ q \<and> length q \<le> 1)"
    using client_queue_emit [of ch w2 enc now, OF \<open>connected ch w2\<close> p] c2 client_queue_cong [OF c1, of ch] assms(1,3)
    by (auto simp: offer_def)
  then show "connected ch w'" and "\<exists>q. client_queue ch w' = client_queue ch w @ q \<and> length q \<le> 1" by blast+
qed

lemma handleSOS_ok:
  assumes "handleSOS marshal cfg now meth (Some b) w = (JsonOk, w')"
    and "hb_SOSNotifier cfg = Some (api_SosAlertPublished enc now)"
  shows "\<exists>n lat lon changed w1. parseNodeID (sos_NodeID b) = Some n \<and>
    RegisterPresence (hb_Notifier cfg) n lat lon now w = (Inr changed, w1) \<and>
    w' = emit enc now (EvSosAlertPublished n sosAppID sosTopic
      (marshal (if sos_Text b = [] then b\<lparr>sos_Text := sos_default\<rparr> else b))) w1"
proof -
  define b' where "b' = (if sos_Text b = [] then b\<lparr>sos_Text := sos_default\<rparr> else b)"
  have same: "sos_NodeID b' = sos_NodeID b" by (simp add: b'_def)
  define lat where "lat = (if \<not> feq (sos_Lat b') (Fin 0) \<or> \<not> feq (sos_Lon b') (Fin 0) then Some (sos_Lat b') else None)"
  define lon where "lon = (if \<not> feq (sos_Lat b') (Fin 0) \<or> \<not> feq (sos_Lon b') (Fin 0) then Some (sos_Lon b') else None)"
  have h: "handleSOS marshal cfg now meth (Some b) w =
     (if meth \<noteq> MethodPost then (HttpError 405 ''method not allowed'', w)
      else if sos_NodeID b = [] then (HttpError 400 ''node_id required'', w)
      else case parseNodeID (sos_NodeID b) of None \<Rightarrow> (HttpError 400 ''invalid node_id'', w)
        | Some n \<Rightarrow> (case RegisterPresence (hb_Notifier cfg) n lat lon now w of
               (Inl e, w1) \<Rightarrow> (HttpError 500 ''registry failed'', w1)
             | (Inr _, w1) \<Rightarrow> (JsonOk, api_SosAlertPublished enc now n sosAppID sosTopic (marshal b') w1)))"
    unfolding handleSOS_def Let_def option.sel b'_def [symmetric] lat_def [symmetric] lon_def [symmetric] same assms(2)
    by (simp split: option.split prod.split sum.split)
  with assms(1) show ?thesis
    unfolding b'_def [symmetric] by (auto simp: api_SosAlertPublished_def split: if_splits option.splits prod.splits sum.splits)
qed

text \<open>
  An acknowledged SOS is on its way to every operator. Whenever the hub answers an SOS report with
  ok, under whatever failures of the database, the channel of every connected management client
  with two free places ends with the encoded alert, carrying the reporting node and the text (the
  default text when none was given).
\<close>

theorem sos_reaches_clients:
  fixes w :: "'a mgmt_world_scheme"
  assumes "hb_Notifier cfg = Some (api_NodeStatusChanged enc now)"
    and "hb_SOSNotifier cfg = Some (api_SosAlertPublished enc now)"
    and "\<And>ev. \<exists>p. enc ev = Some p" and "connected ch w" and "length (client_queue ch w) < 31"
    and "handleSOS marshal cfg now meth (Some b) w = (JsonOk, w')"
  shows "\<exists>n q p. parseNodeID (sos_NodeID b) = Some n \<and> client_queue ch w' = client_queue ch w @ q @ [p] \<and>
    enc \<lparr>EmittedAtUnixMs = UnixMilli now, Event = EvSosAlertPublished n sosAppID sosTopic
      (marshal (if sos_Text b = '''' then b\<lparr>sos_Text := sos_default\<rparr> else b))\<rparr> = Some p"
proof -
  define b' where "b' = (if sos_Text b = '''' then b\<lparr>sos_Text := sos_default\<rparr> else b)"
  obtain n lat lon changed w1 where n: "parseNodeID (sos_NodeID b) = Some n"
    and r: "RegisterPresence (Some (api_NodeStatusChanged enc now)) n lat lon now w = (Inr changed, w1)"
    and w': "w' = emit enc now (EvSosAlertPublished n sosAppID sosTopic (marshal b')) w1"
    using handleSOS_ok [OF assms(6,2)] assms(1) unfolding b'_def by metis
  obtain p where p: "enc \<lparr>EmittedAtUnixMs = UnixMilli now, Event = EvSosAlertPublished n sosAppID sosTopic (marshal b')\<rparr> = Some p"
    using assms(3) by blast
  have len: "length (client_queue ch w) < 32" using assms(5) by simp
  obtain q where q: "client_queue ch w1 = client_queue ch w @ q" "length q \<le> 1"
    using RegisterPresence_queue(2) [OF assms(4,3) len r] by blast
  have "client_queue ch w' = client_queue ch w @ q @ [p]"
    using client_queue_emit(1) [of ch w1 enc now, OF RegisterPresence_queue(1) [OF assms(4,3) len r] p] q assms(5)
    by (simp add: w' offer_def)
  with n p show ?thesis by (auto simp: b'_def)
qed

definition sample_hb :: "mgmt_world hb_config" where
  "sample_hb = \<lparr>hb_Notifier = Some (api_NodeStatusChanged (\<lambda>_. Some [1]) 0),
     hb_SOSNotifier = Some (api_SosAlertPublished (\<lambda>_. Some [1]) 0), hb_Segments = True, hb_Trust = True,
     hb_LocalHub = sample_id 1, hb_sha256 = id\<rparr>"

definition sample_sos :: sos_body where
  "sample_sos = \<lparr>sos_NodeID = NodeID_String (sample_id 5), sos_Text = '''', sos_Lat = Fin 0, sos_Lon = Fin 0,
     sos_AccuracyM = Fin 0, sos_SentAt = 0\<rparr>"

lemma parseNodeID_String: "length n = 32 \<Longrightarrow> parseNodeID (NodeID_String n) = Some n"
  by (simp add: parseNodeID_def NodeID_String_def node_id_len_def)

lemma NodeID_String_nonempty: "length n = 32 \<Longrightarrow> NodeID_String n \<noteq> []"
  using hex_decode_encode [of n] hex_DecodeString.simps(1) by (metis NodeID_String_def list.size(3) option.inject zero_neq_numeral)

theorem sos_reaches_clients_witness:
  "\<exists>q p. client_queue 1 (snd (handleSOS (\<lambda>_. [2]) sample_hb 0 MethodPost (Some sample_sos) sample_mgmt)) = q @ [p]"
proof -
  let ?h = "handleSOS (\<lambda>_. [2]) sample_hb 0 MethodPost (Some sample_sos) sample_mgmt"
  have id: "parseNodeID (sos_NodeID sample_sos) = Some (sample_id 5)"
    by (simp add: sample_sos_def parseNodeID_String)
  have ne: "sos_NodeID sample_sos \<noteq> []"
    by (simp add: sample_sos_def NodeID_String_nonempty)
  have "\<exists>c w1. RegisterPresence (hb_Notifier sample_hb) n lat lon 0 sample_mgmt = (Inr c, w1)" for n lat lon
    by (rule exI [of _ True])
      (simp add: RegisterPresence_def UpsertSeen_def Let_def db_simps sample_mgmt_def DB.defs empty_DB_def insert_stmt_def)
  then obtain c w1 where r: "RegisterPresence (hb_Notifier sample_hb) (sample_id 5) None None 0 sample_mgmt = (Inr c, w1)"
    by blast
  have zero: "sos_Lat sample_sos = Fin 0" "sos_Lon sample_sos = Fin 0" by (simp_all add: sample_sos_def)
  have "fst ?h = JsonOk"
    using id ne by (simp add: handleSOS_def Let_def zero r split: option.split)
  then have "?h = (JsonOk, snd ?h)" by (metis prod.collapse)
  from sos_reaches_clients [OF _ _ _ _ _ this, of "\<lambda>_. Some [1]" 1] show ?thesis
    by (auto simp: sample_hb_def sample_mgmt_def connected_def client_queue_def DB.defs empty_DB_def)
qed

section \<open>Endorsements\<close>

text \<open>
  The endorsement endpoint never refuses for lack of an encounter: a request with two well-formed
  distinct identifiers is accepted even if neither node ever met anybody, because the missing
  proximity event is recorded first; afterwards the endorsement is stored.
\<close>

theorem handleEndorse_always_accepted:
  assumes "faults w = []" and "hb_Trust cfg" and "parseNodeID a = Some x" and "parseNodeID b = Some y" and "x \<noteq> y"
    and "a \<noteq> ''''" and "b \<noteq> ''''" and "handleEndorse msg cfg now MethodPost (Some (a, b)) w = (resp, w')"
  shows "resp = JsonOk \<and> find_row te_key (x, y) (trust_endorsements w') \<noteq> None \<and>
    (\<exists>p \<in> set (proximity_events w'). pe_observer p = x \<and> pe_observed p = y)"
proof -
  have count: "count_rows P rows > 0 \<longleftrightarrow> (\<exists>r \<in> set rows. P r)" for P and rows :: "proximity_row list"
    by (induction rows) (auto simp: count_rows_def)
  have h: "HasProximity x y v = (Inr (\<exists>r \<in> set (proximity_events v). pe_observer r = x \<and> pe_observed r = y), v)"
    if "faults v = []" for v :: "'a DB_scheme"
    using that count [of "\<lambda>r. pe_observer r = x \<and> pe_observed r = y" "proximity_events v"]
    by (simp add: HasProximity_def bnd_def query_ok ret_def)
  have fin: "\<exists>r. find_row te_key (x, y) (upsert_row te_key
      (\<lambda>r. r\<lparr>te_at := UnixMilli now, te_signature := string_bytes ''quakemesh-endorse''\<rparr>)
      \<lparr>te_endorser = x, te_endorsed = y, te_at = UnixMilli now, te_signature = string_bytes ''quakemesh-endorse''\<rparr> rows) = Some r"
    for x y rows by (subst find_row_upsert_row) (simp_all add: te_key_def)
  show ?thesis
    using assms
    by (cases "\<exists>r \<in> set (proximity_events w). pe_observer r = x \<and> pe_observed r = y")
      (auto simp: handleEndorse_def EndorseWithHubContact_def AddEndorsement_def RecordProximity_def h bnd_def wrap_err_def
        exec_ok ret_def bind_blob_def upsert_stmt_def fin)
qed

theorem handleEndorse_always_accepted_witness:
  "fst (handleEndorse (\<lambda>_. '''') sample_hb 0 MethodPost
     (Some (NodeID_String (sample_id 5), NodeID_String (sample_id 6))) sample_mgmt) = JsonOk"
proof -
  let ?h = "handleEndorse (\<lambda>_. '''') sample_hb 0 MethodPost
     (Some (NodeID_String (sample_id 5), NodeID_String (sample_id 6))) sample_mgmt"
  have "sample_id 5 \<noteq> sample_id 6" by (simp add: sample_id_def)
  moreover have "NodeID_String (sample_id n) \<noteq> []" for n by (simp add: NodeID_String_nonempty)
  moreover have "faults sample_mgmt = []" "hb_Trust sample_hb"
    by (simp_all add: sample_mgmt_def sample_hb_def DB.defs empty_DB_def)
  ultimately show ?thesis
    using handleEndorse_always_accepted [of sample_mgmt sample_hb "NodeID_String (sample_id 5)" "sample_id 5"
        "NodeID_String (sample_id 6)" "sample_id 6" "\<lambda>_. ''''" 0 "fst ?h" "snd ?h"]
    by (simp add: parseNodeID_String)
qed

end
