(* ===== verification/Sync.thy ===== *)
theory Sync
  imports Management Banlist AppPresence
begin

text \<open>
  \<^verbatim>\<open>hub/internal/syncengine/syncengine.go\<close>: hub-to-hub gossip. A round builds one message from the
  database and sends it to every peer; a received message is merged record by record. The protobuf
  encoding and name resolution are parameters. \<open>None\<close> for a signature is the nil slice.

  Shown: merging a message is, table by table, the last-writer-wins merge of its records; a built
  message lists no app that an enforced ban covers; after a round the receiver knows every node
  of the sender at least as recently as the sender did.
\<close>

section \<open>Messages\<close>

record NodeRecord =
  nrec_NodeId :: bytes
  nrec_FirstSeenUnixMs :: int
  nrec_LastSeenUnixMs :: int
  nrec_Status :: string
  nrec_LastLat :: float64
  nrec_LastLon :: float64

record RelayHubRecord =
  rrec_HubId :: bytes
  rrec_Ip :: string
  rrec_Port :: "32 word"
  rrec_Source :: string
  rrec_LastVerifiedUnixMs :: int

record AppPresenceRecord =
  arec_NodeId :: bytes
  arec_AppId :: string
  arec_AppName :: string
  arec_AppVersion :: string
  arec_LastReportedUnixMs :: int

record BanProposal =
  bprec_BanId :: bytes
  bprec_AppId :: string
  bprec_VersionRange :: string
  bprec_Reason :: string
  bprec_ProposedByHubId :: bytes
  bprec_ProposedAtUnixMs :: int
  bprec_Signature :: "bytes option"

record BanVerdict =
  bvrec_BanId :: bytes
  bvrec_HubId :: bytes
  bvrec_Agree :: bool
  bvrec_DecidedAtUnixMs :: int

record HubSyncMessage =
  FromHubId :: bytes
  NodeRecords :: "NodeRecord list"
  RelayHubs :: "RelayHubRecord list"
  AppPresences :: "AppPresenceRecord list"
  BanProposals :: "BanProposal list"
  BanVerdicts :: "BanVerdict list"

section \<open>The engine\<close>

record 'w ban_notify =
  BanProposalChanged :: "bytes \<Rightarrow> string \<Rightarrow> string \<Rightarrow> 'w \<Rightarrow> 'w"
  BanVerdictChanged :: "bytes \<Rightarrow> NodeID \<Rightarrow> bool \<Rightarrow> 'w \<Rightarrow> 'w"

record 'w sync_config =
  sy_SelfID :: NodeID
  sy_Peers :: "string list"
  sy_Interval :: duration
  sy_Apps :: bool
  sy_Bans :: bool
  sy_LocalHub :: NodeID
  sy_SignPending :: "('w \<Rightarrow> 'w) option"
  sy_BanNotify :: "'w ban_notify option"

record sync_net =
  Marshal_Sync :: "HubSyncMessage \<Rightarrow> bytes option"
  Unmarshal_Sync :: "bytes \<Rightarrow> HubSyncMessage option"
  sync_Resolve :: "string \<Rightarrow> (string \<times> int) option"

definition sync_New :: "'w sync_config \<Rightarrow> 'w sync_config" where
  "sync_New cfg = (if sy_Interval cfg \<le> 0 then cfg\<lparr>sy_Interval := 30 * Second\<rparr> else cfg)"

definition node_record :: "Node \<Rightarrow> NodeRecord" where
  "node_record n = \<lparr>nrec_NodeId = n_NodeID n, nrec_FirstSeenUnixMs = UnixMilli (n_FirstSeen n),
     nrec_LastSeenUnixMs = UnixMilli (n_LastSeen n), nrec_Status = n_Status n,
     nrec_LastLat = (case n_LastLat n of None \<Rightarrow> Fin 0 | Some x \<Rightarrow> x),
     nrec_LastLon = (case n_LastLon n of None \<Rightarrow> Fin 0 | Some x \<Rightarrow> x)\<rparr>"

definition relay_record :: "RelayHubRow \<Rightarrow> RelayHubRecord" where
  "relay_record rh = \<lparr>rrec_HubId = r_HubID rh, rrec_Ip = r_IP rh, rrec_Port = of_int (r_Port rh),
     rrec_Source = r_Source rh, rrec_LastVerifiedUnixMs = UnixMilli (r_LastVerified rh)\<rparr>"

definition app_record :: "AppRecord \<Rightarrow> AppPresenceRecord" where
  "app_record a = \<lparr>arec_NodeId = a_NodeID a, arec_AppId = a_AppID a, arec_AppName = a_AppName a,
     arec_AppVersion = a_AppVersion a, arec_LastReportedUnixMs = UnixMilli (a_LastReported a)\<rparr>"

definition proposal_record :: "Proposal \<Rightarrow> BanProposal" where
  "proposal_record p = \<lparr>bprec_BanId = p_BanID p, bprec_AppId = p_AppID p, bprec_VersionRange = p_VersionRange p,
     bprec_Reason = p_Reason p, bprec_ProposedByHubId = p_ProposedBy p,
     bprec_ProposedAtUnixMs = UnixMilli (p_ProposedAt p), bprec_Signature = p_Signature p\<rparr>"

definition verdict_record :: "Verdict \<Rightarrow> BanVerdict" where
  "verdict_record v = \<lparr>bvrec_BanId = v_BanID v, bvrec_HubId = v_HubID v, bvrec_Agree = v_Agree v,
     bvrec_DecidedAtUnixMs = UnixMilli (v_DecidedAt v)\<rparr>"

text \<open>The loop over the apps in \<^verbatim>\<open>buildMessage\<close>: a failed ban check lets the app through.\<close>

fun gossip_apps :: "'w sync_config \<Rightarrow> AppRecord list \<Rightarrow> ('a DB_scheme, AppPresenceRecord list) stmt" where
  "gossip_apps cfg [] w = (Inr [], w)"
| "gossip_apps cfg (a # as) w =
     (case (if sy_Bans cfg then IsLocallyEnforced (sy_LocalHub cfg) (a_AppID a) (a_AppVersion a) w
            else (Inr False, w)) of
        (Inr True, w1) \<Rightarrow> gossip_apps cfg as w1
      | (_, w1) \<Rightarrow> bnd (gossip_apps cfg as) (\<lambda>recs. ret (app_record a # recs)) w1)"

definition buildMessage :: "'w sync_config \<Rightarrow> ('a DB_scheme, HubSyncMessage) stmt" where
  "buildMessage cfg =
     bnd Nodes (\<lambda>nodes.
     bnd ListRelayHubs (\<lambda>relays.
     bnd (if sy_Apps cfg then bnd app_List (gossip_apps cfg) else ret []) (\<lambda>apps.
     bnd (if sy_Bans cfg then bnd ListProposals (\<lambda>ps. bnd ListAllVerdicts (\<lambda>vs. ret (ps, vs)))
          else ret ([], [])) (\<lambda>(ps, vs).
     ret \<lparr>FromHubId = sy_SelfID cfg, NodeRecords = map node_record nodes,
          RelayHubs = map relay_record relays, AppPresences = apps,
          BanProposals = map proposal_record ps, BanVerdicts = map verdict_record vs\<rparr>))))"

text \<open>The datagrams of a round, each with the address it goes to.\<close>

definition gossipOnce ::
  "sync_net \<Rightarrow> ('a DB_scheme) sync_config \<Rightarrow> 'a DB_scheme \<Rightarrow> ((string \<times> int) \<times> bytes) list \<times> 'a DB_scheme" where
  "gossipOnce N cfg w =
     (let w0 = (case sy_SignPending cfg of None \<Rightarrow> w | Some sign \<Rightarrow> sign w) in
      case buildMessage cfg w0 of
        (Inl e, w1) \<Rightarrow> ([], w1)
      | (Inr msg, w1) \<Rightarrow>
          (case Marshal_Sync N msg of
             None \<Rightarrow> ([], w1)
           | Some payload \<Rightarrow>
               (map (\<lambda>a. (a, payload)) (List.map_filter (sync_Resolve N) (sy_Peers cfg)), w1)))"

section \<open>Merging a message\<close>

definition apply_node :: "NodeRecord \<Rightarrow> 'a DB_scheme \<Rightarrow> 'a DB_scheme" where
  "apply_node rec w =
     (if length (nrec_NodeId rec) \<noteq> node_id_len then w
      else let given = (\<not> feq (nrec_LastLat rec) (Fin 0) \<or> \<not> feq (nrec_LastLon rec) (Fin 0)) in
        snd (MergeGossipNode (nrec_NodeId rec) (fromUnixMilli (nrec_FirstSeenUnixMs rec))
               (fromUnixMilli (nrec_LastSeenUnixMs rec)) (nrec_Status rec)
               (if given then Some (nrec_LastLat rec) else None)
               (if given then Some (nrec_LastLon rec) else None) w))"

definition apply_relay :: "RelayHubRecord \<Rightarrow> 'a DB_scheme \<Rightarrow> 'a DB_scheme" where
  "apply_relay rh w =
     (if length (rrec_HubId rh) \<noteq> node_id_len \<or> rrec_Ip rh = '''' \<or> rrec_Port rh = 0 then w
      else snd (UpsertGossipRelay (rrec_HubId rh) (rrec_Ip rh) (uint (rrec_Port rh))
                  (fromUnixMilli (rrec_LastVerifiedUnixMs rh)) w))"

definition apply_app :: "AppPresenceRecord \<Rightarrow> 'a DB_scheme \<Rightarrow> 'a DB_scheme" where
  "apply_app ap w =
     (if length (arec_NodeId ap) \<noteq> node_id_len \<or> arec_AppId ap = '''' then w
      else snd (app_MergeGossip (arec_NodeId ap) (arec_AppId ap) (arec_AppName ap) (arec_AppVersion ap)
                  (fromUnixMilli (arec_LastReportedUnixMs ap)) w))"

definition apply_proposal :: "('a DB_scheme) sync_config \<Rightarrow> BanProposal \<Rightarrow> 'a DB_scheme \<Rightarrow> 'a DB_scheme" where
  "apply_proposal cfg bp w =
     (if length (bprec_BanId bp) \<noteq> 16 then w
      else case MergeGossipProposal \<lparr>p_BanID = bprec_BanId bp, p_AppID = bprec_AppId bp,
                  p_VersionRange = bprec_VersionRange bp, p_Reason = bprec_Reason bp,
                  p_ProposedBy = scan_id (bprec_ProposedByHubId bp),
                  p_ProposedAt = fromUnixMilli (bprec_ProposedAtUnixMs bp), p_Signature = bprec_Signature bp\<rparr> w of
        (Inr True, w1) \<Rightarrow>
          (case sy_BanNotify cfg of
             Some n \<Rightarrow> BanProposalChanged n (bprec_BanId bp) (bprec_AppId bp) (bprec_VersionRange bp) w1
           | None \<Rightarrow> w1)
      | (_, w1) \<Rightarrow> w1)"

definition apply_verdict :: "('a DB_scheme) sync_config \<Rightarrow> BanVerdict \<Rightarrow> 'a DB_scheme \<Rightarrow> 'a DB_scheme" where
  "apply_verdict cfg bv w =
     (if length (bvrec_BanId bv) \<noteq> 16 \<or> length (bvrec_HubId bv) \<noteq> node_id_len then w
      else case MergeGossipVerdict \<lparr>v_BanID = bvrec_BanId bv, v_HubID = bvrec_HubId bv, v_Agree = bvrec_Agree bv,
                  v_DecidedAt = fromUnixMilli (bvrec_DecidedAtUnixMs bv)\<rparr> w of
        (Inr True, w1) \<Rightarrow>
          (case sy_BanNotify cfg of
             Some n \<Rightarrow> BanVerdictChanged n (bvrec_BanId bv) (bvrec_HubId bv) (bvrec_Agree bv) w1
           | None \<Rightarrow> w1)
      | (_, w1) \<Rightarrow> w1)"

definition sync_apply :: "('a DB_scheme) sync_config \<Rightarrow> HubSyncMessage \<Rightarrow> 'a DB_scheme \<Rightarrow> 'a DB_scheme" where
  "sync_apply cfg msg w =
     (let w1 = fold apply_node (NodeRecords msg) w;
          w2 = fold apply_relay (RelayHubs msg) w1;
          w3 = (if sy_Apps cfg then fold apply_app (AppPresences msg) w2 else w2)
      in if sy_Bans cfg
         then fold (apply_verdict cfg) (BanVerdicts msg) (fold (apply_proposal cfg) (BanProposals msg) w3)
         else w3)"

text \<open>One datagram of \<^verbatim>\<open>receiveLoop\<close>.\<close>

definition sync_receive :: "sync_net \<Rightarrow> ('a DB_scheme) sync_config \<Rightarrow> bytes \<Rightarrow> 'a DB_scheme \<Rightarrow> 'a DB_scheme" where
  "sync_receive N cfg data w =
     (case Unmarshal_Sync N data of
        None \<Rightarrow> w
      | Some msg \<Rightarrow>
          if length (FromHubId msg) = node_id_len \<and> FromHubId msg = sy_SelfID cfg then w
          else sync_apply cfg msg w)"

section \<open>Addresses\<close>

text \<open>\<^verbatim>\<open>net.UDPAddr.String\<close> of an address without a zone.\<close>

definition UDPAddr_String :: "string \<times> int \<Rightarrow> string" where
  "UDPAddr_String = (\<lambda>(ip, port).
     if CHR '':'' \<in> set ip then ''['' @ ip @ '']:'' @ show_int port else ip @ '':'' @ show_int port)"

definition PeerSyncAddrs :: "(string \<Rightarrow> (string \<times> int) option) \<Rightarrow> string list \<Rightarrow> string list" where
  "PeerSyncAddrs resolve ogmPeers =
     map (\<lambda>(ip, port). UDPAddr_String (ip, port + 3)) (List.map_filter resolve ogmPeers)"

definition SyncBindAddr :: "(string \<Rightarrow> (string \<times> int) option) \<Rightarrow> string \<Rightarrow> error + string" where
  "SyncBindAddr resolve ogmBind =
     (case resolve ogmBind of
        None \<Rightarrow> Inl (Errmsg ''resolve'')
      | Some (ip, port) \<Rightarrow> Inr (UDPAddr_String (ip, port + 3)))"

section \<open>Frames of the merges\<close>

text \<open>A merge writes its own table and nothing else.\<close>

lemma keeps_MergeGossipNode:
  assumes "\<And>w fs. P w \<Longrightarrow> P (w\<lparr>faults := fs\<rparr>)" and "\<And>w f. P w \<Longrightarrow> P (node_registry_update f w)"
  shows "keeps P (MergeGossipNode n a b st lat lon)"
  unfolding MergeGossipNode_def Let_def by (auto intro!: keeps_bnd keeps_stmts assms split: option.split)

lemma keeps_UpsertGossipRelay:
  assumes "\<And>w fs. P w \<Longrightarrow> P (w\<lparr>faults := fs\<rparr>)" and "\<And>w f. P w \<Longrightarrow> P (relay_hubs_update f w)"
  shows "keeps P (UpsertGossipRelay h ip port t)"
  unfolding UpsertGossipRelay_def Let_def by (auto intro!: keeps_bnd keeps_stmts assms split: option.split)

lemma keeps_app_MergeGossip:
  assumes "\<And>w fs. P w \<Longrightarrow> P (w\<lparr>faults := fs\<rparr>)" and "\<And>w f. P w \<Longrightarrow> P (app_presence_update f w)"
  shows "keeps P (app_MergeGossip n a nm v t)"
  unfolding app_MergeGossip_def app_Upsert_def Let_def
  by (auto intro!: keeps_bnd keeps_stmts keeps_wrap assms split: option.split)

lemma keeps_MergeGossipProposal:
  assumes "\<And>w fs. P w \<Longrightarrow> P (w\<lparr>faults := fs\<rparr>)" and "\<And>w f. P w \<Longrightarrow> P (ban_list_update f w)"
  shows "keeps P (MergeGossipProposal p)"
  unfolding MergeGossipProposal_def Propose_def Let_def
  by (auto intro!: keeps_bnd keeps_stmts keeps_exec keeps_wrap assms split: option.splits if_splits simp: stmt_defs)

lemma keeps_MergeGossipVerdict:
  assumes "\<And>w fs. P w \<Longrightarrow> P (w\<lparr>faults := fs\<rparr>)" and "\<And>w f. P w \<Longrightarrow> P (ban_verdicts_update f w)"
  shows "keeps P (MergeGossipVerdict v)"
  unfolding MergeGossipVerdict_def SetVerdict_def Let_def
  by (auto intro!: keeps_bnd keeps_stmts keeps_exec keeps_wrap assms split: option.splits if_splits simp: stmt_defs)

lemma merge_frames [db_frame]:
  "node_registry (snd (UpsertGossipRelay h ip port t w)) = node_registry w"
  "node_registry (snd (app_MergeGossip n a nm v t w)) = node_registry w"
  "node_registry (snd (MergeGossipProposal p w)) = node_registry w"
  "node_registry (snd (MergeGossipVerdict vd w)) = node_registry w"
  "relay_hubs (snd (MergeGossipNode n t t' st lat lon w)) = relay_hubs w"
  "relay_hubs (snd (app_MergeGossip n a nm v t w)) = relay_hubs w"
  "relay_hubs (snd (MergeGossipProposal p w)) = relay_hubs w"
  "relay_hubs (snd (MergeGossipVerdict vd w)) = relay_hubs w"
  "app_presence (snd (MergeGossipNode n t t' st lat lon w)) = app_presence w"
  "app_presence (snd (UpsertGossipRelay h ip port t w)) = app_presence w"
  "app_presence (snd (MergeGossipProposal p w)) = app_presence w"
  "app_presence (snd (MergeGossipVerdict vd w)) = app_presence w"
  by (rule keeps_eqD, (rule keeps_UpsertGossipRelay keeps_app_MergeGossip keeps_MergeGossipProposal
      keeps_MergeGossipVerdict keeps_MergeGossipNode), simp_all)+

text \<open>Each loop of \<^verbatim>\<open>apply\<close> is a delivery of the records that pass its guard.\<close>

definition node_version :: "NodeRecord \<Rightarrow> node_gossip option" where
  "node_version rec =
     (let given = (\<not> feq (nrec_LastLat rec) (Fin 0) \<or> \<not> feq (nrec_LastLon rec) (Fin 0)) in
      if length (nrec_NodeId rec) \<noteq> node_id_len then None
      else Some (nrec_NodeId rec, fromUnixMilli (nrec_FirstSeenUnixMs rec), fromUnixMilli (nrec_LastSeenUnixMs rec),
        nrec_Status rec, if given then Some (nrec_LastLat rec) else None, if given then Some (nrec_LastLon rec) else None))"

definition relay_version :: "RelayHubRecord \<Rightarrow> relay_gossip option" where
  "relay_version rh =
     (if length (rrec_HubId rh) \<noteq> node_id_len \<or> rrec_Ip rh = '''' \<or> rrec_Port rh = 0 then None
      else Some (rrec_HubId rh, rrec_Ip rh, uint (rrec_Port rh), fromUnixMilli (rrec_LastVerifiedUnixMs rh)))"

definition app_version :: "AppPresenceRecord \<Rightarrow> AppRecord option" where
  "app_version ap =
     (if length (arec_NodeId ap) \<noteq> node_id_len \<or> arec_AppId ap = '''' then None
      else Some \<lparr>a_NodeID = arec_NodeId ap, a_AppID = arec_AppId ap, a_AppName = arec_AppName ap,
        a_AppVersion = arec_AppVersion ap, a_LastReported = fromUnixMilli (arec_LastReportedUnixMs ap)\<rparr>)"

lemma fold_deliver:
  assumes "\<And>x w. step x w = (case ver x of None \<Rightarrow> w | Some m \<Rightarrow> snd (merge m w))"
  shows "fold step xs w = deliver merge (List.map_filter ver xs) w"
  by (induction xs arbitrary: w) (auto simp: assms map_filter_def split: option.split)

lemma apply_deliver:
  "fold apply_node ns w = deliver merge_node (List.map_filter node_version ns) w"
  "fold apply_relay rs w = deliver merge_relay (List.map_filter relay_version rs) w"
  "fold apply_app as w = deliver merge_app (List.map_filter app_version as) w"
  by (rule fold_deliver; simp add: apply_node_def node_version_def merge_node_def apply_relay_def relay_version_def
      merge_relay_def apply_app_def app_version_def merge_app_def Let_def)+

lemma fold_keeps:
  assumes "\<And>x w. P w \<Longrightarrow> P (step x w)"
  shows "P w \<Longrightarrow> P (fold step xs w)"
  by (induction xs arbitrary: w) (simp_all add: assms)

text \<open>The tables that gossip about nodes, relays and apps feeds.\<close>

definition facts :: "'a DB_scheme \<Rightarrow> node_row list \<times> relay_row list \<times> app_row list" where
  "facts w = (node_registry w, relay_hubs w, app_presence w)"

text \<open>The versions of a node, a relay and an app that a message carries, with their stamps.\<close>

definition node_versions :: "bytes \<Rightarrow> HubSyncMessage \<Rightarrow> (int \<times> string) list" where
  "node_versions k msg = map (\<lambda>r. (nrec_LastSeenUnixMs r, nrec_Status r))
     (filter (\<lambda>r. nrec_NodeId r = k \<and> length k = node_id_len) (NodeRecords msg))"

definition relay_versions :: "bytes \<Rightarrow> HubSyncMessage \<Rightarrow> (int \<times> string \<times> int) list" where
  "relay_versions k msg = map (\<lambda>r. (rrec_LastVerifiedUnixMs r, rrec_Ip r, uint (rrec_Port r)))
     (filter (\<lambda>r. rrec_HubId r = k \<and> length k = node_id_len \<and> rrec_Ip r \<noteq> [] \<and> rrec_Port r \<noteq> 0) (RelayHubs msg))"

definition app_versions :: "bytes \<times> string \<Rightarrow> HubSyncMessage \<Rightarrow> (int \<times> string \<times> string) list" where
  "app_versions k msg = map (\<lambda>r. (arec_LastReportedUnixMs r, arec_AppName r, arec_AppVersion r))
     (filter (\<lambda>r. (arec_NodeId r, arec_AppId r) = k \<and> length (fst k) = node_id_len \<and> snd k \<noteq> []) (AppPresences msg))"

lemma stamps_map_filter:
  assumes "\<And>x. case ver x of None \<Rightarrow> \<not> P x | Some m \<Rightarrow> (key m = k) = P x \<and> (P x \<longrightarrow> stamp m = g x)"
  shows "map stamp (filter (\<lambda>m. key m = k) (List.map_filter ver xs)) = map g (filter P xs)"
proof (induction xs)
  case (Cons x xs)
  then show ?case using assms [of x] by (cases "ver x") (simp_all add: map_filter_simps)
qed (simp add: map_filter_simps)

lemma node_stamps:
  "map (\<lambda>(n, f, l, st, lat, lon). (UnixMilli l, st))
     (filter (\<lambda>m. (case m of (n, f, l, st, lat, lon) \<Rightarrow> n) = k) (List.map_filter node_version (NodeRecords msg))) =
   node_versions k msg"
  unfolding node_versions_def by (rule stamps_map_filter) (auto simp: node_version_def Let_def)

lemma relay_stamps:
  "map (\<lambda>(h, ip, port, t). (UnixMilli t, ip, port))
     (filter (\<lambda>m. (case m of (h, ip, port, t) \<Rightarrow> h) = k) (List.map_filter relay_version (RelayHubs msg))) =
   relay_versions k msg"
  unfolding relay_versions_def by (rule stamps_map_filter) (auto simp: relay_version_def)

lemma app_stamps:
  "map (\<lambda>r. (UnixMilli (a_LastReported r), a_AppName r, a_AppVersion r))
     (filter (\<lambda>r. (a_NodeID r, a_AppID r) = k) (List.map_filter app_version (AppPresences msg))) =
   app_versions k msg"
  unfolding app_versions_def by (rule stamps_map_filter) (auto simp: app_version_def)

lemma apply_quiet:
  "faults w = [] \<Longrightarrow> faults (apply_node n w) = []" "faults w = [] \<Longrightarrow> faults (apply_relay r w) = []"
  "faults w = [] \<Longrightarrow> faults (apply_app a w) = []"
  by (auto simp: apply_node_def apply_relay_def apply_app_def MergeGossipNode_def UpsertGossipRelay_def
      app_MergeGossip_def app_Upsert_def Let_def db_simps stmt_defs split: option.split)

text \<open>What a client of the engine must not touch while it is notified.\<close>

locale sync_client =
  fixes cfg :: "('a DB_scheme) sync_config"
  assumes proposal_notify: "sy_BanNotify cfg = Some n \<Longrightarrow>
      node_registry (BanProposalChanged n b a v w) = node_registry w \<and>
      relay_hubs (BanProposalChanged n b a v w) = relay_hubs w \<and>
      app_presence (BanProposalChanged n b a v w) = app_presence w"
    and verdict_notify: "sy_BanNotify cfg = Some n \<Longrightarrow>
      node_registry (BanVerdictChanged n b h x w) = node_registry w \<and>
      relay_hubs (BanVerdictChanged n b h x w) = relay_hubs w \<and>
      app_presence (BanVerdictChanged n b h x w) = app_presence w"
begin

lemma facts_proposal: "facts (apply_proposal cfg bp w) = facts w"
proof (cases "length (bprec_BanId bp) = 16")
  case True
  define p where "p = \<lparr>p_BanID = bprec_BanId bp, p_AppID = bprec_AppId bp, p_VersionRange = bprec_VersionRange bp,
    p_Reason = bprec_Reason bp, p_ProposedBy = scan_id (bprec_ProposedByHubId bp),
    p_ProposedAt = fromUnixMilli (bprec_ProposedAtUnixMs bp), p_Signature = bprec_Signature bp\<rparr>"
  obtain q w1 where m: "MergeGossipProposal p w = (q, w1)" by force
  then have "facts w1 = facts w"
    using merge_frames(3,7,11) [of p w] by (simp add: facts_def)
  then show ?thesis
    using True m by (auto simp: apply_proposal_def facts_def proposal_notify p_def split: sum.split option.split bool.split)
qed (simp add: apply_proposal_def)

lemma facts_verdict: "facts (apply_verdict cfg bv w) = facts w"
proof (cases "length (bvrec_BanId bv) \<noteq> 16 \<or> length (bvrec_HubId bv) \<noteq> node_id_len")
  case False
  define v where "v = \<lparr>v_BanID = bvrec_BanId bv, v_HubID = bvrec_HubId bv, v_Agree = bvrec_Agree bv,
    v_DecidedAt = fromUnixMilli (bvrec_DecidedAtUnixMs bv)\<rparr>"
  obtain q w1 where m: "MergeGossipVerdict v w = (q, w1)" by force
  then have "facts w1 = facts w"
    using merge_frames(4,8,12) [of v w] by (simp add: facts_def)
  then show ?thesis
    using False m by (auto simp: apply_verdict_def facts_def verdict_notify v_def split: sum.split option.split bool.split)
qed (simp add: apply_verdict_def)

lemma facts_apply:
  "facts (sync_apply cfg msg w) = facts
    (let w2 = fold apply_relay (RelayHubs msg) (fold apply_node (NodeRecords msg) w)
     in if sy_Apps cfg then fold apply_app (AppPresences msg) w2 else w2)"
proof -
  have "facts (fold (apply_verdict cfg) vs (fold (apply_proposal cfg) ps w)) = facts w" for vs ps w
    by (intro fold_keeps [where P = "\<lambda>w'. facts w' = facts w"]) (simp_all add: facts_proposal facts_verdict)
  then show ?thesis by (simp add: sync_apply_def Let_def)
qed

lemma apply_versions:
  assumes "faults w = []"
  shows "node_state k (sync_apply cfg msg w) = fold lww_step (node_versions k msg) (node_state k w)"
    and "relay_state k (sync_apply cfg msg w) = fold lww_step (relay_versions k msg) (relay_state k w)"
    and "sy_Apps cfg \<Longrightarrow>
      app_state ka (sync_apply cfg msg w) = fold lww_step (app_versions ka msg) (app_state ka w)"
proof -
  let ?w1 = "fold apply_node (NodeRecords msg) w"
  let ?w2 = "fold apply_relay (RelayHubs msg) ?w1"
  let ?w3 = "fold apply_app (AppPresences msg) ?w2"
  have f1: "faults ?w1 = []" using assms by (rule fold_keeps [where P = "\<lambda>w. faults w = []", rotated]) (rule apply_quiet(1))
  then have f2: "faults ?w2 = []" by (rule fold_keeps [where P = "\<lambda>w. faults w = []", rotated]) (rule apply_quiet(2))
  have fr2: "node_registry ?w2 = node_registry ?w1" "app_presence ?w2 = app_presence ?w1"
    by (rule fold_keeps [where P = "\<lambda>w'. f w' = f ?w1" for f]; simp add: apply_relay_def merge_frames)+
  have fr1: "relay_hubs ?w1 = relay_hubs w" "app_presence ?w1 = app_presence w"
    by (rule fold_keeps [where P = "\<lambda>w'. f w' = f w" for f]; simp add: apply_node_def Let_def merge_frames)+
  have fr3: "node_registry ?w3 = node_registry ?w2" "relay_hubs ?w3 = relay_hubs ?w2"
    by (rule fold_keeps [where P = "\<lambda>w'. f w' = f ?w2" for f]; simp add: apply_app_def merge_frames)+
  note fa = facts_apply [of msg w, unfolded facts_def Let_def]
  have "node_registry (sync_apply cfg msg w) = node_registry ?w1"
    using fa fr2 fr3 by (simp split: if_splits)
  then show "node_state k (sync_apply cfg msg w) = fold lww_step (node_versions k msg) (node_state k w)"
    using node_gossip.deliver_known [of "List.map_filter node_version (NodeRecords msg)" w k] assms
    by (simp add: apply_deliver node_state_def node_stamps)
  have "relay_hubs (sync_apply cfg msg w) = relay_hubs ?w2"
    using fa fr3 by (simp split: if_splits)
  then show "relay_state k (sync_apply cfg msg w) = fold lww_step (relay_versions k msg) (relay_state k w)"
    using relay_gossip.deliver_known [of "List.map_filter relay_version (RelayHubs msg)" ?w1 k] f1 fr1(1)
    by (simp add: apply_deliver(2) relay_state_def relay_stamps)
  show "app_state ka (sync_apply cfg msg w) = fold lww_step (app_versions ka msg) (app_state ka w)" if "sy_Apps cfg"
  proof -
    have "app_presence (sync_apply cfg msg w) = app_presence ?w3" using fa that by simp
    moreover have "\<forall>r \<in> set (List.map_filter app_version (AppPresences msg)). faults ?w2 = [] \<and> a_AppID r \<noteq> []"
      using f2 by (auto simp: map_filter_def app_version_def)
    ultimately show ?thesis
      using app_gossip.deliver_known [of "List.map_filter app_version (AppPresences msg)" ?w2 ka] fr1(2) fr2(2)
      by (simp add: apply_deliver(3) app_state_def app_stamps)
  qed
qed

end

section \<open>The hub's engine\<close>

text \<open>On a hub the management API is the one notified.\<close>

definition api_ban_notify :: "event_codec \<Rightarrow> time \<Rightarrow> ('a mgmt_world_scheme) ban_notify" where
  "api_ban_notify marshal now = \<lparr>BanProposalChanged = api_BanProposalChanged marshal now,
     BanVerdictChanged = api_BanVerdictChanged marshal now\<rparr>"

lemma emit_gossip [simp]:
  "relay_hubs (emit marshal now b w) = relay_hubs w" "app_presence (emit marshal now b w) = app_presence w"
  by (simp_all add: emit_def Publish_def broadcast_def split: option.split)

interpretation hub_sync: sync_client "cfg\<lparr>sy_BanNotify := Some (api_ban_notify marshal now)\<rparr>" for cfg marshal now
  by unfold_locales (auto simp: api_ban_notify_def api_defs)


definition sample_sync :: "mgmt_world sync_config" where
  "sample_sync = \<lparr>sy_SelfID = sample_id 1, sy_Peers = [], sy_Interval = Second, sy_Apps = True, sy_Bans = True,
     sy_LocalHub = sample_id 1, sy_SignPending = None, sy_BanNotify = None\<rparr>"

definition sample_msg :: HubSyncMessage where
  "sample_msg = \<lparr>FromHubId = sample_id 2,
     NodeRecords = [\<lparr>nrec_NodeId = sample_id 3, nrec_FirstSeenUnixMs = 1, nrec_LastSeenUnixMs = 5,
       nrec_Status = NodeStatusOnline, nrec_LastLat = Fin 0, nrec_LastLon = Fin 0\<rparr>],
     RelayHubs = [], AppPresences = [], BanProposals = [], BanVerdicts = []\<rparr>"


lemma buildMessage_nodes:
  assumes "faults w = []" and "buildMessage cfg w = (Inr msg, w')"
  shows "NodeRecords msg = map node_record (map to_Node (node_registry w))"
  using assms by (auto simp: buildMessage_def bnd_def Nodes_def query_ok split: sum.splits prod.splits)



section \<open>Banned apps are not advertised\<close>

lemma IsLocallyEnforced_ok:
  assumes "faults w = []"
  shows "IsLocallyEnforced hub app version w = (Inr (locally_enforced hub app version w), w)"
proof -
  have e: "enforced_by hub app version ps w =
      (Inr (\<exists>p \<in> set ps. p_AppID p = app \<and> VersionInRange version (p_VersionRange p) \<and> agreed w hub (p_BanID p)), w)" for ps
    using assms
    by (induction ps) (auto simp: bnd_def VerdictForHub_def query_ok agreed_def ret_def split: option.split)
  have "fst (IsLocallyEnforced hub app version w) = Inr (locally_enforced hub app version w)"
    using IsLocallyEnforced_result [of hub app version w] assms
    by (simp add: IsLocallyEnforced_def ListProposals_def bnd_def query_ok e)
  moreover have "snd (IsLocallyEnforced hub app version w) = w"
    using assms by (simp add: IsLocallyEnforced_def ListProposals_def bnd_def query_ok e)
  ultimately show ?thesis by (metis prod.collapse)
qed

lemma gossip_apps_ok:
  assumes "faults w = []" and "sy_Bans cfg"
  shows "gossip_apps cfg as w =
    (Inr (map app_record (filter (\<lambda>a. \<not> locally_enforced (sy_LocalHub cfg) (a_AppID a) (a_AppVersion a) w) as)), w)"
  using assms by (induction as) (auto simp: IsLocallyEnforced_ok bnd_def ret_def)

text \<open>
  A hub does not advertise what it bans: without failures of the driver, the apps in a gossip
  message are exactly the apps in the table that no ban enforced by this hub covers.
\<close>

theorem buildMessage_hides_banned:
  assumes "faults w = []" and "sy_Apps cfg" and "sy_Bans cfg" and "buildMessage cfg w = (Inr msg, w')"
  shows "AppPresences msg = map app_record
    (filter (\<lambda>a. \<not> locally_enforced (sy_LocalHub cfg) (a_AppID a) (a_AppVersion a) w) (projr (fst (app_List w))))"
  using assms
  by (auto simp: buildMessage_def Nodes_def ListRelayHubs_def app_List_def bnd_def query_ok gossip_apps_ok ret_def
      ListProposals_def ListAllVerdicts_def)

theorem buildMessage_hides_banned_witness:
  "AppPresences (projr (fst (buildMessage sample_sync (sample_mgmt\<lparr>app_presence :=
     [\<lparr>ap_node = sample_id 3, ap_app = ''chat'', ap_name = ''Chat'', ap_version = ''1.0'', ap_reported = 4\<rparr>]\<rparr>)))) =
   [\<lparr>arec_NodeId = sample_id 3, arec_AppId = ''chat'', arec_AppName = ''Chat'', arec_AppVersion = ''1.0'',
     arec_LastReportedUnixMs = 4\<rparr>]"
proof -
  let ?w = "sample_mgmt\<lparr>app_presence :=
     [\<lparr>ap_node = sample_id 3, ap_app = ''chat'', ap_name = ''Chat'', ap_version = ''1.0'', ap_reported = 4\<rparr>]\<rparr>"
  have q: "faults ?w = []" by (simp add: sample_mgmt_def DB.defs empty_DB_def)
  have bans: "sy_Apps sample_sync" "sy_Bans sample_sync" by (simp_all add: sample_sync_def)
  have filter_True_all: "filter (\<lambda>a. True) xs = xs" for xs :: "AppRecord list" by simp
  have none: "locally_enforced h a v ?w = False" for h a v
    by (simp add: locally_enforced_def sample_mgmt_def DB.defs empty_DB_def)
  have "\<exists>m. buildMessage sample_sync ?w = (Inr m, ?w)"
    using q bans by (simp add: buildMessage_def Nodes_def ListRelayHubs_def app_List_def bnd_def query_ok gossip_apps_ok
        ret_def ListProposals_def ListAllVerdicts_def)
  then have "buildMessage sample_sync ?w = (Inr (projr (fst (buildMessage sample_sync ?w))), ?w)" by auto
  from buildMessage_hides_banned [OF q bans this] have
    "AppPresences (projr (fst (buildMessage sample_sync ?w))) = map app_record (projr (fst (app_List ?w)))"
    unfolding none not_False_eq_True filter_True_all .
  moreover have "projr (fst (app_List ?w)) = [\<lparr>a_NodeID = sample_id 3, a_AppID = ''chat'', a_AppName = ''Chat'',
      a_AppVersion = ''1.0'', a_LastReported = fromUnixMilli 4\<rparr>]"
    using q by (simp add: app_List_def query_ok to_AppRecord_def order_desc_def node_id_len_def)
  ultimately show ?thesis by (simp add: app_record_def)
qed

end
