(* ===== verification/MetricStore.thy ===== *)
theory MetricStore
  imports Registry
begin

text \<open>
  \<^verbatim>\<open>core/metrics/store.go\<close>: the samples of \<^verbatim>\<open>historical_metrics\<close>. A query returns the newest samples
  first and at most as many as asked for.
\<close>

record Sample =
  s_NodeID :: "NodeID option"
  s_Value :: float64
  s_RecordedAt :: time

text \<open>\<^verbatim>\<open>value\<close> is \<^verbatim>\<open>NOT NULL\<close>, so a NaN is refused.\<close>

definition metrics_Record ::
  "string \<Rightarrow> NodeID option \<Rightarrow> float64 \<Rightarrow> time \<Rightarrow> ('a DB_scheme, unit) stmt" where
  "metrics_Record name nodeID val atTime =
     wrap_err ''metrics: record''
       (bnd (exec (\<lambda>w. case bind_real val of
               None \<Rightarrow> Inl NotNullViolation
             | Some v \<Rightarrow> Inr (1, historical_metrics_update (\<lambda>rows. rows @
                 [\<lparr>hm_name = name, hm_node = nodeID, hm_value = v, hm_at = UnixMilli atTime\<rparr>]) w)))
         (\<lambda>_. ret ()))"

definition to_Sample :: "metric_row \<Rightarrow> Sample" where
  "to_Sample r = \<lparr>s_NodeID = (case hm_node r of
       None \<Rightarrow> None | Some b \<Rightarrow> if length b = node_id_len then Some b else None),
     s_Value = hm_value r, s_RecordedAt = fromUnixMilli (hm_at r)\<rparr>"

definition metrics_Query :: "string \<Rightarrow> time \<Rightarrow> time \<Rightarrow> int \<Rightarrow> ('a DB_scheme, Sample list) stmt" where
  "metrics_Query name since until limit =
     (let lim = (if limit \<le> 0 then 500 else limit) in
      query (\<lambda>w. map to_Sample (take (nat lim) (order_desc hm_at
        (filter (\<lambda>r. hm_name r = name \<and> hm_at r \<ge> UnixMilli since \<and> hm_at r \<le> UnixMilli until)
          (historical_metrics w))))))"

text \<open>Without a sample \<^verbatim>\<open>Scan\<close> returns \<^verbatim>\<open>sql.ErrNoRows\<close>, which is passed on.\<close>

definition LatestValue :: "string \<Rightarrow> NodeID option \<Rightarrow> ('a DB_scheme, float64 \<times> time) stmt" where
  "LatestValue name nodeID =
     bnd (query (\<lambda>w. order_desc hm_at
            (filter (\<lambda>r. hm_name r = name \<and> hm_node r = nodeID) (historical_metrics w))))
       (\<lambda>rows. case rows of
          [] \<Rightarrow> fail NoRows
        | r # _ \<Rightarrow> ret (hm_value r, fromUnixMilli (hm_at r)))"

lemma metrics_Record_wf [inv_intros]: "keeps db_wf (metrics_Record n i v t)"
  unfolding metrics_Record_def
  by (intro keeps_wrap keeps_bnd keeps_exec keeps_ret) (auto simp: db_wf_simps split: option.splits)

lemma sorted_order_desc: "sorted_wrt (\<lambda>x y. f y \<le> f x) (order_desc f rows)"
proof -
  have "sorted (map (\<lambda>r. - f r) (order_desc f rows))" by (simp add: order_desc_def)
  then show ?thesis by (simp add: sorted_map)
qed

text \<open>
  A metrics query is sound and bounded: it returns at most the limit (500 when none is given),
  newest first, and only samples of the metric in the interval.
\<close>

theorem metrics_Query_sound:
  assumes "faults w = []" and "metrics_Query name since until limit w = (Inr samples, w')"
  shows "length samples \<le> (if limit \<le> 0 then 500 else nat limit) \<and>
    sorted_wrt (\<lambda>x y. s_RecordedAt y \<le> s_RecordedAt x) samples \<and>
    set samples \<subseteq> to_Sample ` {r \<in> set (historical_metrics w). hm_name r = name \<and>
      UnixMilli since \<le> hm_at r \<and> hm_at r \<le> UnixMilli until}"
proof -
  let ?rows = "order_desc hm_at (filter (\<lambda>r. hm_name r = name \<and> hm_at r \<ge> UnixMilli since \<and> hm_at r \<le> UnixMilli until)
          (historical_metrics w))"
  let ?n = "nat (if limit \<le> 0 then 500 else limit)"
  have s: "samples = map to_Sample (take ?n ?rows)"
    using assms by (auto simp: metrics_Query_def Let_def db_simps)
  have "sorted_wrt (\<lambda>x y. hm_at y \<le> hm_at x) (take ?n ?rows)"
    using sorted_order_desc by (rule sorted_wrt_take)
  then have "sorted_wrt (\<lambda>x y. s_RecordedAt y \<le> s_RecordedAt x) samples"
    by (auto simp: s sorted_wrt_map to_Sample_def fromUnixMilli_def elim: sorted_wrt_mono_rel [rotated])
  moreover have "set samples \<subseteq> to_Sample ` {r \<in> set (historical_metrics w). hm_name r = name \<and>
      UnixMilli since \<le> hm_at r \<and> hm_at r \<le> UnixMilli until}"
    using set_take_subset [of ?n ?rows] by (auto simp: s)
  ultimately show ?thesis by (simp add: s)
qed

definition sample_metrics :: DB where
  "sample_metrics = empty_DB\<lparr>historical_metrics :=
     [\<lparr>hm_name = ''m'', hm_node = None, hm_value = Fin 1, hm_at = 3\<rparr>,
      \<lparr>hm_name = ''m'', hm_node = None, hm_value = Fin 2, hm_at = 5\<rparr>]\<rparr>"

theorem metrics_Query_sound_witness:
  "length (projr (fst (metrics_Query ''m'' 0 (fromUnixMilli 9) 1 sample_metrics))) \<le> 1"
proof -
  have f: "faults sample_metrics = []" by (simp add: sample_metrics_def empty_DB_def)
  obtain samples w' where q: "metrics_Query ''m'' 0 (fromUnixMilli 9) 1 sample_metrics = (Inr samples, w')"
    using f by (simp add: metrics_Query_def Let_def db_simps)
  from metrics_Query_sound [OF f q] show ?thesis by (simp add: q)
qed

end
