(* ===== verification/Ogm.thy ===== *)
theory Ogm
  imports Trust MetricStore
begin

text \<open>
  \<^verbatim>\<open>hub/internal/ogmengine/ogmengine.go\<close>: the engine that exchanges originator messages over UDP and
  maintains \<^verbatim>\<open>node_registry\<close> and \<^verbatim>\<open>routing_table\<close>. The state is the engine's record (its maps, keyed by
  the hexadecimal of a node id or by an address) beside the database; a handler is a function on
  this pair and runs without interleaving. \<^verbatim>\<open>time.Now()\<close> is read once per handler. The protobuf
  codec and the address resolver are parameters (\<open>net\<close>); datagrams handed to the socket are
  appended to \<open>sent\<close>.

  Shown: the invariant of every reachable state (no route to the hub itself, qualities in the unit
  interval, bounded and distinct alternates); replayed messages have no effect; what is forwarded,
  to whom, and that hop budgets never wrap around; failover removes every route through the dead
  neighbour and promotes the first surviving alternate, in whatever order the map is walked.
\<close>

section \<open>Messages, configuration, state\<close>

record Ogm =
  NodeId :: bytes
  SequenceNumber :: "64 word"
  Ttl :: "32 word"
  IsStartupAnnounce :: bool
  LastHopId :: bytes
  ogm_HopCount :: "32 word"
  Lat :: "float64 option"
  Lon :: "float64 option"
  LocationAccuracyM :: "float64 option"
  LocationAtUnixMs :: "int option"

record Hello =
  hello_NodeId :: bytes
  SentAtUnixMs :: int

record UDPAddr =
  addr_String :: string
  addr_IP :: string
  addr_Port :: int

text \<open>\<^verbatim>\<open>proto.Marshal\<close>, \<^verbatim>\<open>proto.Unmarshal\<close> and \<^verbatim>\<open>net.ResolveUDPAddr\<close>; \<open>None\<close> is an error.\<close>

record net =
  Marshal_Ogm :: "Ogm \<Rightarrow> bytes option"
  Marshal_Hello :: "Hello \<Rightarrow> bytes option"
  Unmarshal_Ogm :: "bytes \<Rightarrow> Ogm option"
  Unmarshal_Hello :: "bytes \<Rightarrow> Hello option"
  ResolveUDPAddr :: "string \<Rightarrow> string option"

datatype ogm_event =
    NodeStatusChanged NodeID string
  | HubStatusChanged NodeID string
  | RouteChanged Route

record 'w ogm_config =
  SelfID :: NodeID
  Peers :: "string list"
  ogm_Interval :: duration
  StaleAfter :: duration
  TTL :: "32 word"
  has_Trust :: bool
  has_Metrics :: bool
  Handler :: "(ogm_event \<Rightarrow> 'w \<Rightarrow> 'w) option"

record OgmEngine =
  seq :: "64 word"
  lastSeq :: "string \<Rightarrow> 64 word option"
  peerByAddr :: "string \<Rightarrow> NodeID option"
  rebroadcasted :: "string \<Rightarrow> 64 word option"
  linkRQ :: "string \<Rightarrow> 32 word option"
  linkEQ :: "string \<Rightarrow> 32 word option"
  latencyMs :: "string \<Rightarrow> int option"
  alternates :: "(string \<times> Route list) list"
  pendingHello :: "string \<Rightarrow> time option"
  sent :: "(string \<times> bytes) list"

definition ogm_New :: OgmEngine where
  "ogm_New = \<lparr>seq = 0, lastSeq = Map.empty, peerByAddr = Map.empty, rebroadcasted = Map.empty,
     linkRQ = Map.empty, linkEQ = Map.empty, latencyMs = Map.empty, alternates = [],
     pendingHello = Map.empty, sent = []\<rparr>"

text \<open>Reading a Go map yields the zero value for an absent key; \<^verbatim>\<open>m[k]++\<close> wraps at the width.\<close>

definition map_get :: "('k \<Rightarrow> 'v option) \<Rightarrow> 'k \<Rightarrow> 'v::zero" where
  "map_get m k = (case m k of None \<Rightarrow> 0 | Some v \<Rightarrow> v)"

definition map_inc :: "'k \<Rightarrow> ('k \<Rightarrow> 'v option) \<Rightarrow> 'k \<Rightarrow> 'v::{zero,one,plus} option" where
  "map_inc k m = m(k \<mapsto> map_get m k + 1)"

definition notify :: "'w ogm_config \<Rightarrow> ogm_event \<Rightarrow> 'w \<Rightarrow> 'w" where
  "notify cfg ev w = (case Handler cfg of None \<Rightarrow> w | Some h \<Rightarrow> h ev w)"

section \<open>Sending\<close>

fun flood_peers :: "net \<Rightarrow> bytes \<Rightarrow> string \<Rightarrow> string list \<Rightarrow> (string \<times> bytes) list" where
  "flood_peers N payload exceptAddr [] = []"
| "flood_peers N payload exceptAddr (p # ps) =
     (if p = exceptAddr then flood_peers N payload exceptAddr ps
      else case ResolveUDPAddr N p of
        None \<Rightarrow> flood_peers N payload exceptAddr ps
      | Some a \<Rightarrow> (a, payload) # flood_peers N payload exceptAddr ps)"

definition floodOgm :: "net \<Rightarrow> 'w ogm_config \<Rightarrow> Ogm \<Rightarrow> string \<Rightarrow> OgmEngine \<Rightarrow> OgmEngine" where
  "floodOgm N cfg msg exceptAddr e =
     (case Marshal_Ogm N msg of
        None \<Rightarrow> e
      | Some payload \<Rightarrow> e\<lparr>sent := sent e @ flood_peers N payload exceptAddr (Peers cfg)\<rparr>)"

definition own_ogm :: "'w ogm_config \<Rightarrow> 64 word \<Rightarrow> bool \<Rightarrow> Ogm" where
  "own_ogm cfg s startup = \<lparr>NodeId = SelfID cfg, SequenceNumber = s, Ttl = TTL cfg,
     IsStartupAnnounce = startup, LastHopId = [], ogm_HopCount = 0, Lat = None, Lon = None,
     LocationAccuracyM = None, LocationAtUnixMs = None\<rparr>"

definition broadcastOnce :: "net \<Rightarrow> 'w ogm_config \<Rightarrow> OgmEngine \<Rightarrow> OgmEngine" where
  "broadcastOnce N cfg e =
     (let s = seq e + 1 in floodOgm N cfg (own_ogm cfg s (s = 1)) '''' (e\<lparr>seq := s\<rparr>))"

definition broadcastStartup :: "net \<Rightarrow> 'w ogm_config \<Rightarrow> OgmEngine \<Rightarrow> OgmEngine" where
  "broadcastStartup N cfg e =
     (let s = seq e + 1 in floodOgm N cfg (own_ogm cfg s True) '''' (e\<lparr>seq := s\<rparr>))"

definition rebroadcastStartup :: "net \<Rightarrow> 'w ogm_config \<Rightarrow> Ogm \<Rightarrow> string \<Rightarrow> OgmEngine \<Rightarrow> OgmEngine" where
  "rebroadcastStartup N cfg msg fromAddr e =
     (if Ttl msg = 0 then e
      else floodOgm N cfg (msg\<lparr>IsStartupAnnounce := True, Ttl := Ttl msg - 1,
             ogm_HopCount := ogm_HopCount msg + 1, LastHopId := SelfID cfg\<rparr>) fromAddr e)"

definition maybeRebroadcast :: "net \<Rightarrow> 'w ogm_config \<Rightarrow> Ogm \<Rightarrow> string \<Rightarrow> OgmEngine \<Rightarrow> OgmEngine" where
  "maybeRebroadcast N cfg msg fromAddr e =
     (let originKey = NodeID_String (scan_id (NodeId msg)) in
      if SequenceNumber msg \<le> map_get (rebroadcasted e) originKey then e
      else floodOgm N cfg (msg\<lparr>Ttl := Ttl msg - 1, ogm_HopCount := ogm_HopCount msg + 1,
             LastHopId := SelfID cfg\<rparr>) fromAddr
             (e\<lparr>rebroadcasted := (rebroadcasted e)(originKey \<mapsto> SequenceNumber msg)\<rparr>))"

fun hello_peers :: "net \<Rightarrow> time \<Rightarrow> bytes \<Rightarrow> string list \<Rightarrow> OgmEngine \<Rightarrow> OgmEngine" where
  "hello_peers N now payload [] e = e"
| "hello_peers N now payload (p # ps) e =
     (case ResolveUDPAddr N p of
        None \<Rightarrow> hello_peers N now payload ps e
      | Some a \<Rightarrow> hello_peers N now payload ps
          (e\<lparr>pendingHello := (pendingHello e)(p \<mapsto> now), sent := sent e @ [(a, payload)]\<rparr>))"

definition sendHellos :: "net \<Rightarrow> 'w ogm_config \<Rightarrow> time \<Rightarrow> OgmEngine \<Rightarrow> OgmEngine" where
  "sendHellos N cfg now e =
     (case Marshal_Hello N \<lparr>hello_NodeId = SelfID cfg, SentAtUnixMs = UnixMilli now\<rparr> of
        None \<Rightarrow> e
      | Some payload \<Rightarrow> hello_peers N now payload (Peers cfg) e)"

section \<open>Receiving\<close>

definition resolveForwarder :: "Ogm \<Rightarrow> UDPAddr \<Rightarrow> OgmEngine \<Rightarrow> NodeID" where
  "resolveForwarder msg raddr e =
     (if length (LastHopId msg) = node_id_len then LastHopId msg
      else case peerByAddr e (addr_String raddr) of
        Some i \<Rightarrow> i
      | None \<Rightarrow> scan_id (NodeId msg))"

definition linkTQ :: "NodeID \<Rightarrow> OgmEngine \<Rightarrow> TransmitQuality" where
  "linkTQ neighbor e = (let key = NodeID_String neighbor in
     ComputeTQ (map_get (linkEQ e) key) (max (map_get (linkRQ e) key) 1))"

definition neighborLatency :: "NodeID \<Rightarrow> OgmEngine \<Rightarrow> int" where
  "neighborLatency neighbor e = map_get (latencyMs e) (NodeID_String neighbor)"

definition alts_for :: "string \<Rightarrow> OgmEngine \<Rightarrow> Route list" where
  "alts_for k e = (case map_of (alternates e) k of None \<Rightarrow> [] | Some a \<Rightarrow> a)"

definition storeAlternate :: "Route \<Rightarrow> OgmEngine \<Rightarrow> OgmEngine" where
  "storeAlternate route e =
     (let key = NodeID_String (Destination route);
          alts = alts_for key e
      in if \<exists>existing \<in> set alts. NextHop existing = NextHop route then e
         else let alts1 = alts @ [route];
                  alts2 = (if length alts1 > 3 then drop (length alts1 - 3) alts1 else alts1)
              in e\<lparr>alternates := AList.update key alts2 (alternates e)\<rparr>)"

definition routing_Route :: "Route \<Rightarrow> RRoute" where
  "routing_Route r = \<lparr>DestinationNodeID = Destination r, NextHopNodeID = NextHop r, RTQ = TQ r,
     LatencyMillis = of_int (LatencyMs r), RHopCount = of_int (HopCount r)\<rparr>"

definition maybeUpsertRoute ::
  "('a DB_scheme) ogm_config \<Rightarrow> time \<Rightarrow> Route \<Rightarrow> OgmEngine \<times> 'a DB_scheme \<Rightarrow> OgmEngine \<times> 'a DB_scheme" where
  "maybeUpsertRoute cfg now candidate = (\<lambda>(e, w).
     case GetRoute (Destination candidate) w of
       (Inl err, w1) \<Rightarrow> (e, w1)
     | (Inr current, w1) \<Rightarrow>
         (if current \<noteq> None \<and> \<not> Better (routing_Route candidate) (routing_Route (the current))
          then (storeAlternate candidate e, w1)
          else let e1 = (case current of None \<Rightarrow> e | Some c \<Rightarrow> storeAlternate c e) in
            case UpsertRoute candidate w1 of
              (Inl err, w2) \<Rightarrow> (e1, w2)
            | (Inr _, w2) \<Rightarrow>
                let w3 = (if has_Metrics cfg then
                            snd (metrics_Record ''route_latency_ms'' (Some (Destination candidate))
                                   (float_of_int (LatencyMs candidate)) now w2)
                          else w2)
                in (e1, notify cfg (RouteChanged candidate) w3)))"

definition upsertPeerHub ::
  "('a DB_scheme) ogm_config \<Rightarrow> time \<Rightarrow> NodeID \<Rightarrow> UDPAddr \<Rightarrow> 'a DB_scheme \<Rightarrow> 'a DB_scheme" where
  "upsertPeerHub cfg now hubID raddr w =
     (case UpsertHubSeen hubID (addr_IP raddr) (addr_Port raddr) now w of
        (Inl err, w1) \<Rightarrow> w1
      | (Inr changed, w1) \<Rightarrow> if changed then notify cfg (HubStatusChanged hubID HubStatusOnline) w1 else w1)"

definition recordProximity ::
  "('a DB_scheme) ogm_config \<Rightarrow> time \<Rightarrow> NodeID \<Rightarrow> 32 word \<Rightarrow> 'a DB_scheme \<Rightarrow> 'a DB_scheme" where
  "recordProximity cfg now observed hopCount w =
     (if \<not> has_Trust cfg then w
      else let transport = (if hopCount = 0 then TransportHubDirect else TransportHubRelay);
               rssi = (if hopCount = 0 then - 55 else - 80)
           in snd (RecordProximity (SelfID cfg) observed rssi transport now w))"

definition applyLocation :: "time \<Rightarrow> NodeID \<Rightarrow> Ogm \<Rightarrow> 'a DB_scheme \<Rightarrow> 'a DB_scheme" where
  "applyLocation now nodeID msg w =
     (case (Lat msg, Lon msg) of
        (Some lat, Some lon) \<Rightarrow>
          if flt lat (Fin (- 90)) \<or> fgt lat (Fin 90) \<or> flt lon (Fin (- 180)) \<or> fgt lon (Fin 180) then w
          else if feq lat (Fin 0) \<and> feq lon (Fin 0) then w
          else let at_ms = (case LocationAtUnixMs msg of
                              Some ms \<Rightarrow> if ms > 0 then fromUnixMilli ms else now
                            | None \<Rightarrow> now)
               in snd (UpdateLocation nodeID lat lon at_ms w)
      | _ \<Rightarrow> w)"

text \<open>\<^verbatim>\<open>routing.TransmitQuality(0.85)\<close>\<close>

definition tq_via :: TransmitQuality where
  "tq_via = fl (17 / 20)"

definition candidate_route :: "NodeID \<Rightarrow> NodeID \<Rightarrow> 32 word \<Rightarrow> OgmEngine \<Rightarrow> Route" where
  "candidate_route originID forwarder msgHops e =
     (let hopCount = uint msgHops + 1;
          ltq = linkTQ forwarder e;
          pathTQ = (if hopCount > 1 then PathTQ ltq tq_via else ltq);
          latency = neighborLatency forwarder e
      in \<lparr>Destination = originID, NextHop = forwarder, TQ = pathTQ, LatencyMs = latency * hopCount,
          HopCount = hopCount\<rparr>)"

text \<open>
  \<^verbatim>\<open>handleOgm\<close> in its three parts: the section under the lock that attributes the message to a link,
  the processing of a message that is new, and the whole handler.
\<close>

definition countLink :: "NodeID \<Rightarrow> Ogm \<Rightarrow> UDPAddr \<Rightarrow> OgmEngine \<Rightarrow> NodeID \<times> OgmEngine" where
  "countLink originID msg raddr e =
     (let direct = (ogm_HopCount msg = 0 \<and> LastHopId msg = []);
          forwarder = (if direct then originID else resolveForwarder msg raddr e);
          e1 = (if direct then e\<lparr>peerByAddr := (peerByAddr e)(addr_String raddr \<mapsto> originID)\<rparr> else e)
      in (forwarder, e1\<lparr>linkRQ := map_inc (NodeID_String forwarder) (linkRQ e1)\<rparr>))"

definition acceptOgm ::
  "net \<Rightarrow> ('a DB_scheme) ogm_config \<Rightarrow> time \<Rightarrow> Ogm \<Rightarrow> UDPAddr \<Rightarrow> NodeID \<Rightarrow> NodeID \<Rightarrow>
   OgmEngine \<times> 'a DB_scheme \<Rightarrow> OgmEngine \<times> 'a DB_scheme" where
  "acceptOgm N cfg now msg raddr originID forwarder = (\<lambda>(e, w).
     let addrKey = addr_String raddr;
         w1 = (if ogm_HopCount msg = 0 \<and> originID \<noteq> SelfID cfg
               then upsertPeerHub cfg now originID raddr w else w)
     in case UpsertSeen originID now w1 of
          (Inl err, w2) \<Rightarrow> (e, w2)
        | (Inr statusChanged, w2) \<Rightarrow>
            let fire = (statusChanged \<and> Handler cfg \<noteq> None);
                w3 = (if fire then notify cfg (NodeStatusChanged originID NodeStatusOnline) w2 else w2);
                e4 = (if fire then rebroadcastStartup N cfg msg addrKey e else e);
                w4 = recordProximity cfg now originID (ogm_HopCount msg) w3;
                w5 = applyLocation now originID msg w4;
                (e5, w6) = maybeUpsertRoute cfg now
                             (candidate_route originID forwarder (ogm_HopCount msg) e4) (e4, w5)
            in (if Ttl msg > 0 then maybeRebroadcast N cfg msg addrKey e5 else e5, w6))"

definition already_seen :: "string \<Rightarrow> Ogm \<Rightarrow> OgmEngine \<Rightarrow> bool" where
  "already_seen originKey msg e =
     (case lastSeq e originKey of None \<Rightarrow> False | Some lst \<Rightarrow> SequenceNumber msg \<le> lst)"

definition handleOgm ::
  "net \<Rightarrow> ('a DB_scheme) ogm_config \<Rightarrow> time \<Rightarrow> Ogm \<Rightarrow> UDPAddr \<Rightarrow>
   OgmEngine \<times> 'a DB_scheme \<Rightarrow> OgmEngine \<times> 'a DB_scheme" where
  "handleOgm N cfg now msg raddr = (\<lambda>(e, w).
     let originID = scan_id (NodeId msg); originKey = NodeID_String originID in
     if originID = SelfID cfg then
       (if ogm_HopCount msg > 0
        then (e\<lparr>linkEQ := map_inc (NodeID_String (resolveForwarder msg raddr e)) (linkEQ e)\<rparr>, w)
        else (e, w))
     else
       let (forwarder, e2) = countLink originID msg raddr e in
       if already_seen originKey msg e2 then (e2, w)
       else acceptOgm N cfg now msg raddr originID forwarder
              (e2\<lparr>lastSeq := (lastSeq e2)(originKey \<mapsto> SequenceNumber msg)\<rparr>, w))"

definition handleHello :: "time \<Rightarrow> Hello \<Rightarrow> UDPAddr \<Rightarrow> OgmEngine \<Rightarrow> OgmEngine" where
  "handleHello now msg raddr e =
     (case pendingHello e (addr_String raddr) of
        None \<Rightarrow> e
      | Some sentAt \<Rightarrow>
          let rtt = time_Sub now sentAt;
              e1 = (if rtt > 0 \<and> rtt < 10 * Second
                    then e\<lparr>latencyMs := (latencyMs e)(NodeID_String (scan_id (hello_NodeId msg)) \<mapsto> rtt div Millisecond)\<rparr>
                    else e)
          in e1\<lparr>pendingHello := (pendingHello e1)(addr_String raddr := None)\<rparr>)"

definition handlePacket ::
  "net \<Rightarrow> ('a DB_scheme) ogm_config \<Rightarrow> time \<Rightarrow> bytes \<Rightarrow> UDPAddr \<Rightarrow>
   OgmEngine \<times> 'a DB_scheme \<Rightarrow> OgmEngine \<times> 'a DB_scheme" where
  "handlePacket N cfg now data raddr = (\<lambda>(e, w).
     case Unmarshal_Ogm N data of
       Some ogm \<Rightarrow>
         if length (NodeId ogm) = node_id_len then handleOgm N cfg now ogm raddr (e, w)
         else (case Unmarshal_Hello N data of
                 Some hello \<Rightarrow> (if length (hello_NodeId hello) = node_id_len
                                then (handleHello now hello raddr e, w) else (e, w))
               | None \<Rightarrow> (e, w))
     | None \<Rightarrow>
         (case Unmarshal_Hello N data of
            Some hello \<Rightarrow> (if length (hello_NodeId hello) = node_id_len
                           then (handleHello now hello raddr e, w) else (e, w))
          | None \<Rightarrow> (e, w)))"

section \<open>Sweeps and failover\<close>

text \<open>
  \<^verbatim>\<open>for destKey, alts := range e.alternates\<close>: Go walks a map in any order, here the order of the
  association list.
\<close>

fun failover_alternates ::
  "('a DB_scheme) ogm_config \<Rightarrow> NodeID \<Rightarrow> (string \<times> Route list) list \<Rightarrow> 'a DB_scheme \<Rightarrow>
   (string \<times> Route list) list \<times> 'a DB_scheme" where
  "failover_alternates cfg staleNode [] w = ([], w)"
| "failover_alternates cfg staleNode ((destKey, alts) # rest) w =
     (let remaining = filter (\<lambda>alt. NextHop alt \<noteq> staleNode) alts;
          w1 = (case remaining of
                  [] \<Rightarrow> w
                | promoted # _ \<Rightarrow> notify cfg (RouteChanged promoted) (snd (UpsertRoute promoted w)));
          (rest', w2) = failover_alternates cfg staleNode rest w1
      in ((destKey, remaining) # rest', w2))"

definition failoverRoutes ::
  "('a DB_scheme) ogm_config \<Rightarrow> NodeID \<Rightarrow> OgmEngine \<times> 'a DB_scheme \<Rightarrow> OgmEngine \<times> 'a DB_scheme" where
  "failoverRoutes cfg staleNode = (\<lambda>(e, w).
     let w1 = snd (DeleteRoutesViaNextHop staleNode w);
         (alts, w2) = failover_alternates cfg staleNode (alternates e) w1
     in (e\<lparr>alternates := alts\<rparr>, w2))"

fun fail_nodes ::
  "('a DB_scheme) ogm_config \<Rightarrow> NodeID list \<Rightarrow> OgmEngine \<times> 'a DB_scheme \<Rightarrow> OgmEngine \<times> 'a DB_scheme" where
  "fail_nodes cfg [] s = s"
| "fail_nodes cfg (i # ids) s =
     (let (e, w) = failoverRoutes cfg i s in fail_nodes cfg ids (e, notify cfg (NodeStatusChanged i NodeStatusStale) w))"

definition staleSweep ::
  "('a DB_scheme) ogm_config \<Rightarrow> time \<Rightarrow> OgmEngine \<times> 'a DB_scheme \<Rightarrow> OgmEngine \<times> 'a DB_scheme" where
  "staleSweep cfg now = (\<lambda>(e, w).
     case MarkStaleBefore (now - StaleAfter cfg) w of
       (Inl err, w1) \<Rightarrow> (e, w1)
     | (Inr stale, w1) \<Rightarrow>
         (let (e2, w2) = fail_nodes cfg stale (e, w1) in
          case MarkHubsStaleBefore (now - StaleAfter cfg) w2 of
            (Inl err, w3) \<Rightarrow> (e2, w3)
          | (Inr staleHubs, w3) \<Rightarrow>
              (e2, fold (\<lambda>i. notify cfg (HubStatusChanged i HubStatusStale)) staleHubs w3)))"

definition staleNodeIDs :: "('a DB_scheme, NodeID list) stmt" where
  "staleNodeIDs = bnd Nodes (\<lambda>nodes. ret (map n_NodeID (filter (\<lambda>n. n_Status n = NodeStatusStale) nodes)))"

definition staleProbe ::
  "net \<Rightarrow> ('a DB_scheme) ogm_config \<Rightarrow> time \<Rightarrow> OgmEngine \<times> 'a DB_scheme \<Rightarrow> OgmEngine \<times> 'a DB_scheme" where
  "staleProbe N cfg now = (\<lambda>(e, w).
     case staleNodeIDs w of
       (Inl err, w1) \<Rightarrow> (e, w1)
     | (Inr stale, w1) \<Rightarrow>
         if stale = [] then (e, w1) else (broadcastStartup N cfg (sendHellos N cfg now e), w1))"

text \<open>The five loops that \<^verbatim>\<open>Start\<close> launches, one step each.\<close>

datatype ogm_input =
    Packet bytes UDPAddr
  | SendTick
  | HelloTick
  | ProbeTick
  | SweepTick

fun ogm_handle ::
  "net \<Rightarrow> ('a DB_scheme) ogm_config \<Rightarrow> time \<Rightarrow> ogm_input \<Rightarrow> OgmEngine \<times> 'a DB_scheme \<Rightarrow> OgmEngine \<times> 'a DB_scheme" where
  "ogm_handle N cfg now (Packet data raddr) s = handlePacket N cfg now data raddr s"
| "ogm_handle N cfg now SendTick s = (broadcastOnce N cfg (fst s), snd s)"
| "ogm_handle N cfg now HelloTick s = (sendHellos N cfg now (fst s), snd s)"
| "ogm_handle N cfg now ProbeTick s = staleProbe N cfg now s"
| "ogm_handle N cfg now SweepTick s = staleSweep cfg now s"

text \<open>
  A run starts with an engine without memory on a database whose routes are sound: an empty one,
  or what an earlier run of the same hub left. Between the engine's steps other components may
  change anything but \<^verbatim>\<open>routing_table\<close>, which they never write.
\<close>

definition route_sound :: "NodeID \<Rightarrow> Route \<Rightarrow> bool" where
  "route_sound self r = (Destination r \<noteq> self \<and> length (Destination r) = 32 \<and> length (NextHop r) = 32 \<and>
     unit_tq (TQ r) \<and> 0 \<le> LatencyMs r \<and> 1 \<le> HopCount r)"

definition routes_sound :: "NodeID \<Rightarrow> 'a DB_scheme \<Rightarrow> bool" where
  "routes_sound self w = (\<forall>r \<in> set (routing_table w). route_sound self (to_Route r) \<and> length (rt_dest r) = 32)"

inductive ogm_reachable :: "net \<Rightarrow> ('a DB_scheme) ogm_config \<Rightarrow> OgmEngine \<times> 'a DB_scheme \<Rightarrow> bool"
  for N cfg where
  start: "routes_sound (SelfID cfg) w \<Longrightarrow> ogm_reachable N cfg (ogm_New, w)"
| step: "ogm_reachable N cfg s \<Longrightarrow> ogm_reachable N cfg (ogm_handle N cfg now i s)"
| other: "ogm_reachable N cfg (e, w) \<Longrightarrow> routing_table w' = routing_table w \<Longrightarrow> ogm_reachable N cfg (e, w')"

section \<open>Frames\<close>

definition same_routes :: "route_row list \<Rightarrow> 'a DB_scheme \<Rightarrow> bool" where
  "same_routes c w = (routing_table w = c)"

lemma same_routes_faults [simp]: "same_routes c (w\<lparr>faults := fs\<rparr>) = same_routes c w"
  by (simp add: same_routes_def)

lemma keeps_same_routes:
  "keeps (same_routes c) (UpsertSeen n t)" "keeps (same_routes c) (UpsertHubSeen n ip port t)"
  "keeps (same_routes c) (MarkStaleBefore t)" "keeps (same_routes c) (MarkHubsStaleBefore t)"
  "keeps (same_routes c) (UpdateLocation n x y t)" "keeps (same_routes c) (RecordProximity n m rssi tr t)"
  "keeps (same_routes c) (metrics_Record nm i v t)" "keeps (same_routes c) (GetRoute n)"
  "keeps (same_routes c) Nodes"
  unfolding UpsertSeen_def UpsertHubSeen_def MarkStaleBefore_def MarkHubsStaleBefore_def UpdateLocation_def
    RecordProximity_def metrics_Record_def GetRoute_def Nodes_def Let_def
  by (auto intro!: keeps_stmts keeps_exec keeps_bnd split: option.splits)
    (auto simp: same_routes_def stmt_defs split: if_splits)

lemma same_routesD: "(\<And>c. keeps (same_routes c) m) \<Longrightarrow> routing_table (snd (m w)) = routing_table w"
  by (auto simp: keeps_def same_routes_def)

lemma routing_frames [simp]:
  "routing_table (snd (UpsertSeen n t w)) = routing_table w"
  "routing_table (snd (UpsertHubSeen n ip port t w)) = routing_table w"
  "routing_table (snd (MarkStaleBefore t w)) = routing_table w"
  "routing_table (snd (MarkHubsStaleBefore t w)) = routing_table w"
  "routing_table (snd (UpdateLocation n x y t w)) = routing_table w"
  "routing_table (snd (RecordProximity n m rssi tr t w)) = routing_table w"
  "routing_table (snd (metrics_Record nm i v t w)) = routing_table w"
  "routing_table (snd (GetRoute n w)) = routing_table w"
  "routing_table (snd (Nodes w)) = routing_table w"
  by (rule same_routesD, rule keeps_same_routes)+

lemma routes_sound_cong: "routing_table w' = routing_table w \<Longrightarrow> routes_sound self w' = routes_sound self w"
  by (simp add: routes_sound_def)

section \<open>The invariant\<close>

definition alts_ok :: "NodeID \<Rightarrow> string \<times> Route list \<Rightarrow> bool" where
  "alts_ok self = (\<lambda>(k, alts). length alts \<le> 3 \<and> distinct (map NextHop alts) \<and>
     (\<forall>r \<in> set alts. NodeID_String (Destination r) = k \<and> route_sound self r))"

definition engine_ok :: "NodeID \<Rightarrow> OgmEngine \<Rightarrow> bool" where
  "engine_ok self e = (distinct (map fst (alternates e)) \<and> (\<forall>ka \<in> set (alternates e). alts_ok self ka) \<and>
     (\<forall>a i. peerByAddr e a = Some i \<longrightarrow> length i = 32) \<and> (\<forall>k l. latencyMs e k = Some l \<longrightarrow> 0 \<le> l))"

lemma engine_ok_New: "engine_ok self ogm_New"
  by (simp add: engine_ok_def ogm_New_def)

lemma engine_ok_cong:
  "alternates e' = alternates e \<Longrightarrow> peerByAddr e' = peerByAddr e \<Longrightarrow> latencyMs e' = latencyMs e \<Longrightarrow>
   engine_ok self e' = engine_ok self e"
  by (simp add: engine_ok_def)

lemma floodOgm_frame [simp]:
  "alternates (floodOgm N cfg m x e) = alternates e" "peerByAddr (floodOgm N cfg m x e) = peerByAddr e"
  "latencyMs (floodOgm N cfg m x e) = latencyMs e" "lastSeq (floodOgm N cfg m x e) = lastSeq e"
  "rebroadcasted (floodOgm N cfg m x e) = rebroadcasted e" "linkRQ (floodOgm N cfg m x e) = linkRQ e"
  "linkEQ (floodOgm N cfg m x e) = linkEQ e" "seq (floodOgm N cfg m x e) = seq e"
  by (simp_all add: floodOgm_def split: option.split)

lemma engine_ok_sends [simp]:
  "engine_ok self (floodOgm N cfg m x e) = engine_ok self e"
  "engine_ok self (broadcastOnce N cfg e) = engine_ok self e"
  "engine_ok self (broadcastStartup N cfg e) = engine_ok self e"
  "engine_ok self (rebroadcastStartup N cfg m x e) = engine_ok self e"
  "engine_ok self (maybeRebroadcast N cfg m x e) = engine_ok self e"
  by (simp_all add: engine_ok_def broadcastOnce_def broadcastStartup_def rebroadcastStartup_def
      maybeRebroadcast_def Let_def)

lemma engine_ok_hello_peers [simp]: "engine_ok self (hello_peers N now p ps e) = engine_ok self e"
proof (induction N now p ps e rule: hello_peers.induct)
  case (2 N now payload p ps e)
  then show ?case
    by (cases "ResolveUDPAddr N p") (simp_all add: engine_ok_def)
qed simp

lemma engine_ok_sendHellos [simp]: "engine_ok self (sendHellos N cfg now e) = engine_ok self e"
  by (simp add: sendHellos_def split: option.split)

lemma engine_ok_handleHello: "engine_ok self e \<Longrightarrow> engine_ok self (handleHello now msg raddr e)"
  by (auto simp: handleHello_def Let_def engine_ok_def split: option.split)

lemma length_scan_id [simp]: "length (scan_id b) = 32"
  by (simp add: scan_id_def node_id_len_def)

definition last3 :: "'b list \<Rightarrow> 'b list" where
  "last3 xs = (if length xs > 3 then drop (length xs - 3) xs else xs)"

lemma last3_props: "length (last3 xs) \<le> 3" "set (last3 xs) \<subseteq> set xs" "distinct (map f xs) \<Longrightarrow> distinct (map f (last3 xs))"
  by (auto simp: last3_def set_drop_subset distinct_drop simp flip: drop_map dest: in_set_dropD)

lemma storeAlternate_eq:
  "storeAlternate r e = (let k = NodeID_String (Destination r) in
     if NextHop r \<in> NextHop ` set (alts_for k e) then e
     else e\<lparr>alternates := AList.update k (last3 (alts_for k e @ [r])) (alternates e)\<rparr>)"
  by (auto simp: storeAlternate_def last3_def Let_def image_iff) (metis+)?

lemma set_alist_update: "set (AList.update k v al) \<subseteq> insert (k, v) (set al)"
  by (induction al) auto

lemma storeAlternate_ok:
  assumes "engine_ok self e" and "route_sound self r"
  shows "engine_ok self (storeAlternate r e)"
proof (cases "NextHop r \<in> NextHop ` set (alts_for (NodeID_String (Destination r)) e)")
  case False
  define k where "k = NodeID_String (Destination r)"
  define alts where "alts = alts_for k e"
  have old: "alts_ok self (k, alts)"
    using assms(1) by (auto simp: engine_ok_def alts_ok_def alts_def alts_for_def dest: map_of_SomeD split: option.split)
  then have "distinct (map NextHop (alts @ [r]))" using False by (auto simp: alts_ok_def alts_def k_def)
  then have "alts_ok self (k, last3 (alts @ [r]))"
    using old assms(2) last3_props(2) [of "alts @ [r]"]
    by (auto simp: alts_ok_def last3_props simp flip: k_def)
  then have "\<forall>ka \<in> set (AList.update k (last3 (alts @ [r])) (alternates e)). alts_ok self ka"
    using assms(1) set_alist_update [of k "last3 (alts @ [r])" "alternates e"] by (auto simp: engine_ok_def)
  then show ?thesis
    using assms(1) False
    by (simp add: storeAlternate_eq Let_def engine_ok_def distinct_update flip: k_def alts_def)
qed (use assms(1) in \<open>simp add: storeAlternate_eq Let_def\<close>)

lemma tq_via_unit: "unit_tq tq_via"
proof -
  have "0 \<le> rnd (17 / 20)" "rnd (17 / 20) \<le> 1" using rnd_unit [of "17 / 20"] by simp_all
  then show ?thesis by (simp add: tq_via_def fl_small)
qed

lemma candidate_sound:
  assumes "engine_ok self e" and "originID \<noteq> self" and "length originID = 32" and "length forwarder = 32"
  shows "route_sound self (candidate_route originID forwarder hops e)"
proof -
  have "0 \<le> neighborLatency forwarder e"
    using assms(1) by (auto simp: neighborLatency_def map_get_def engine_ok_def split: option.split)
  moreover have "unit_tq (linkTQ forwarder e)" by (simp add: linkTQ_def Let_def ComputeTQ_unit)
  ultimately show ?thesis
    using assms by (simp add: candidate_route_def Let_def route_sound_def PathTQ_unit tq_via_unit)
qed

lemma resolveForwarder_length: "engine_ok self e \<Longrightarrow> length (resolveForwarder msg raddr e) = 32"
  by (auto simp: resolveForwarder_def engine_ok_def node_id_len_def split: option.split)

lemma GetRoute_sound:
  assumes "routes_sound self w" and "GetRoute k w = (Inr (Some r), w')"
  shows "route_sound self r"
  using assms unfolding GetRoute_def
  by (cases rule: query_cases [of "\<lambda>w. map_option to_Route (find_row rt_dest k (routing_table w))" w])
    (auto simp: routes_sound_def dest: find_row_Some_in)

lemma rt_dest_row [simp]: "rt_dest (route_row_of r) = Destination r"
  by (simp add: route_row_of_def)

lemma UpsertRoute_sound:
  assumes "route_sound self r" and "routes_sound self w"
  shows "routes_sound self (snd (UpsertRoute r w))"
proof -
  have len: "length (Destination r) = 32" "length (NextHop r) = 32" using assms(1) by (simp_all add: route_sound_def)
  have "keeps (routes_sound self) (UpsertRoute r)"
    unfolding UpsertRoute_def
    by (intro keeps_bnd keeps_exec keeps_ret)
      (use assms(1) len in \<open>auto simp: routes_sound_def upsert_stmt_def split: if_splits dest!: set_upsert_row\<close>)
  then show ?thesis using assms(2) by (rule keepsD)
qed

lemma DeleteRoutes_sound: "routes_sound self w \<Longrightarrow> routes_sound self (snd (DeleteRoutesViaNextHop n w))"
  unfolding DeleteRoutesViaNextHop_def
  by (rule keepsD [OF keeps_delete]) (auto simp: routes_sound_def)

lemma acceptOgm_Inr:
  assumes "UpsertSeen originID now (if ogm_HopCount msg = 0 \<and> originID \<noteq> SelfID cfg
      then upsertPeerHub cfg now originID raddr w else w) = (Inr changed, w2)"
  shows "acceptOgm N cfg now msg raddr originID forwarder (e, w) =
    (let fire = (changed \<and> Handler cfg \<noteq> None);
         w3 = (if fire then notify cfg (NodeStatusChanged originID NodeStatusOnline) w2 else w2);
         e4 = (if fire then rebroadcastStartup N cfg msg (addr_String raddr) e else e);
         w5 = applyLocation now originID msg (recordProximity cfg now originID (ogm_HopCount msg) w3);
         m = maybeUpsertRoute cfg now (candidate_route originID forwarder (ogm_HopCount msg) e4) (e4, w5)
     in (if Ttl msg > 0 then maybeRebroadcast N cfg msg (addr_String raddr) (fst m) else fst m, snd m))"
  unfolding acceptOgm_def Let_def prod.case assms sum.case by (simp only: split_beta)

section \<open>The contract with the engine's client\<close>

text \<open>What the engine relies on of its event handler: it does not write the routing table.\<close>

locale ogm_client =
  fixes cfg :: "('a DB_scheme) ogm_config"
  assumes handler_routes: "Handler cfg = Some h \<Longrightarrow> routing_table (h ev w) = routing_table w"
begin

lemma notify_routes [simp]: "routing_table (notify cfg ev w) = routing_table w"
  by (auto simp: notify_def handler_routes split: option.split)

lemma routes_sound_notify [simp]: "routes_sound self (notify cfg ev w) = routes_sound self w"
  by (simp add: routes_sound_def)

lemma upsertPeerHub_routes [simp]: "routing_table (upsertPeerHub cfg now i raddr w) = routing_table w"
proof -
  obtain q w1 where u: "UpsertHubSeen i (addr_IP raddr) (addr_Port raddr) now w = (q, w1)" by force
  then have "routing_table w1 = routing_table w"
    using routing_frames(2) [of i "addr_IP raddr" "addr_Port raddr" now w] by simp
  then show ?thesis by (simp add: upsertPeerHub_def u split: sum.split)
qed

lemma recordProximity_routes [simp]: "routing_table (recordProximity cfg now i h w) = routing_table w"
  by (simp add: recordProximity_def Let_def)

lemma applyLocation_routes [simp]: "routing_table (applyLocation now i msg w) = routing_table w"
  by (auto simp: applyLocation_def Let_def split: option.split)

lemma maybeUpsertRoute_ok:
  assumes "engine_ok self e" and "routes_sound self w" and "route_sound self r"
    and "maybeUpsertRoute cfg now r (e, w) = (e', w')"
  shows "engine_ok self e' \<and> routes_sound self w'"
proof -
  obtain q w1 where g: "GetRoute (Destination r) w = (q, w1)" by force
  have w1: "routes_sound self w1"
    using assms(2) routing_frames(8) [of "Destination r" w] g by (simp add: routes_sound_def)
  obtain q2 w2 where u: "UpsertRoute r w1 = (q2, w2)" by force
  have w2: "routes_sound self w2" using UpsertRoute_sound [OF assms(3) w1] u by simp
  have cur: "route_sound self c" if "q = Inr (Some c)" for c
    using GetRoute_sound [OF assms(2), of "Destination r" c w1] g that by simp
  have met: "routes_sound self (snd (metrics_Record nm i v now w2))" for nm i v
    using w2 by (simp add: routes_sound_def)
  show ?thesis
    using assms(1,3,4) w1 w2 met cur
    by (auto simp: maybeUpsertRoute_def g u Let_def storeAlternate_ok split: sum.splits option.splits if_splits)
qed

lemma acceptOgm_ok:
  assumes e: "engine_ok (SelfID cfg) e" and w: "routes_sound (SelfID cfg) w"
    and o: "originID \<noteq> SelfID cfg" "length originID = 32" and f: "length forwarder = 32"
    and h: "acceptOgm N cfg now msg raddr originID forwarder (e, w) = (e', w')"
  shows "engine_ok (SelfID cfg) e' \<and> routes_sound (SelfID cfg) w'"
proof -
  define w1 where "w1 = (if ogm_HopCount msg = 0 \<and> originID \<noteq> SelfID cfg then upsertPeerHub cfg now originID raddr w else w)"
  obtain q w2 where u: "UpsertSeen originID now w1 = (q, w2)" by force
  have "routing_table w2 = routing_table w1" using routing_frames(1) [of originID now w1] u by simp
  then have w2: "routing_table w2 = routing_table w" by (simp add: w1_def)
  show ?thesis
  proof (cases q)
    case (Inl err)
    with h u have "(e', w') = (e, w2)" by (simp add: acceptOgm_def Let_def flip: w1_def)
    then show ?thesis using e w w2 by (simp add: routes_sound_def)
  next
    case (Inr changed)
    define fire where "fire = (changed \<and> Handler cfg \<noteq> None)"
    define w3 where "w3 = (if fire then notify cfg (NodeStatusChanged originID NodeStatusOnline) w2 else w2)"
    define e4 where "e4 = (if fire then rebroadcastStartup N cfg msg (addr_String raddr) e else e)"
    define w5 where "w5 = applyLocation now originID msg (recordProximity cfg now originID (ogm_HopCount msg) w3)"
    obtain e5 w6 where m: "maybeUpsertRoute cfg now (candidate_route originID forwarder (ogm_HopCount msg) e4) (e4, w5) = (e5, w6)"
      by force
    have e4: "engine_ok (SelfID cfg) e4" using e by (simp add: e4_def)
    have "routing_table w5 = routing_table w" using w2 by (simp add: w5_def w3_def)
    then have "routes_sound (SelfID cfg) w5" using w by (simp add: routes_sound_def)
    from maybeUpsertRoute_ok [OF e4 this candidate_sound [OF e4 o f] m]
    have "engine_ok (SelfID cfg) e5 \<and> routes_sound (SelfID cfg) w6" .
    moreover have "e' = (if Ttl msg > 0 then maybeRebroadcast N cfg msg (addr_String raddr) e5 else e5) \<and> w' = w6"
      using h unfolding acceptOgm_Inr [OF u [unfolded w1_def Inr]] Let_def m [unfolded w5_def w3_def e4_def fire_def]
      by auto
    ultimately show ?thesis by simp
  qed
qed

lemma handleOgm_ok:
  assumes e: "engine_ok (SelfID cfg) e" and w: "routes_sound (SelfID cfg) w"
    and h: "handleOgm N cfg now msg raddr (e, w) = (e', w')"
  shows "engine_ok (SelfID cfg) e' \<and> routes_sound (SelfID cfg) w'"
proof (cases "scan_id (NodeId msg) = SelfID cfg")
  case True
  then have "w' = w \<and> alternates e' = alternates e \<and> peerByAddr e' = peerByAddr e \<and> latencyMs e' = latencyMs e"
    using h by (auto simp: handleOgm_def Let_def split: if_splits)
  then show ?thesis using e w by (simp add: engine_ok_def)
next
  case False
  obtain f e2 where c: "countLink (scan_id (NodeId msg)) msg raddr e = (f, e2)" by force
  have e2: "engine_ok (SelfID cfg) e2" and f: "length f = 32"
    using e c resolveForwarder_length [OF e, of msg raddr]
    by (auto simp: countLink_def Let_def engine_ok_def split: if_splits)
  let ?e3 = "e2\<lparr>lastSeq := (lastSeq e2)(NodeID_String (scan_id (NodeId msg)) \<mapsto> SequenceNumber msg)\<rparr>"
  have e3: "engine_ok (SelfID cfg) ?e3" using e2 by (simp add: engine_ok_def)
  show ?thesis
  proof (cases "already_seen (NodeID_String (scan_id (NodeId msg))) msg e2")
    case True
    with h c False e2 w show ?thesis by (simp add: handleOgm_def Let_def)
  next
    case new: False
    with h c False have "acceptOgm N cfg now msg raddr (scan_id (NodeId msg)) f (?e3, w) = (e', w')"
      by (simp add: handleOgm_def Let_def)
    from acceptOgm_ok [OF e3 w False _ f this] show ?thesis by simp
  qed
qed

lemma handlePacket_ok:
  assumes "engine_ok (SelfID cfg) e" and "routes_sound (SelfID cfg) w"
    and "handlePacket N cfg now data raddr (e, w) = (e', w')"
  shows "engine_ok (SelfID cfg) e' \<and> routes_sound (SelfID cfg) w'"
  using assms engine_ok_handleHello [OF assms(1)]
  by (auto simp: handlePacket_def split: option.splits if_splits dest: handleOgm_ok)

lemma failover_alternates_ok:
  assumes "\<forall>ka \<in> set al. alts_ok self ka" and "routes_sound self w"
    and "failover_alternates cfg stale al w = (al', w')"
  shows "map fst al' = map fst al \<and> (\<forall>ka \<in> set al'. alts_ok self ka) \<and> routes_sound self w'"
  using assms
proof (induction al arbitrary: w al' w')
  case (Cons ka al)
  obtain k alts where ka: "ka = (k, alts)" by force
  define remaining where "remaining = filter (\<lambda>alt. NextHop alt \<noteq> stale) alts"
  define w1 where "w1 = (case remaining of [] \<Rightarrow> w
     | promoted # _ \<Rightarrow> notify cfg (RouteChanged promoted) (snd (UpsertRoute promoted w)))"
  obtain al2 w2 where r: "failover_alternates cfg stale al w1 = (al2, w2)" by force
  have alts: "alts_ok self (k, alts)" using Cons.prems(1) ka by simp
  then have rem: "alts_ok self (k, remaining)"
    by (auto simp: alts_ok_def remaining_def distinct_map_filter intro: order_trans [OF length_filter_le])
  then have "routes_sound self w1"
    using Cons.prems(2) by (auto simp: w1_def alts_ok_def UpsertRoute_sound split: list.split)
  with Cons.IH [OF _ _ r] Cons.prems(1)
  have IH: "map fst al2 = map fst al \<and> (\<forall>ka \<in> set al2. alts_ok self ka) \<and> routes_sound self w2" by simp
  have "al' = (k, remaining) # al2 \<and> w' = w2"
    using Cons.prems(3) r by (simp add: ka Let_def flip: remaining_def w1_def)
  with IH rem ka show ?case by simp
qed simp

lemma failoverRoutes_ok:
  assumes "engine_ok self e" and "routes_sound self w" and "failoverRoutes cfg i (e, w) = (e', w')"
  shows "engine_ok self e' \<and> routes_sound self w'"
proof -
  obtain al w2 where f: "failover_alternates cfg i (alternates e) (snd (DeleteRoutesViaNextHop i w)) = (al, w2)" by force
  from failover_alternates_ok [OF _ DeleteRoutes_sound [OF assms(2)] f] assms(1)
  have "map fst al = map fst (alternates e) \<and> (\<forall>ka \<in> set al. alts_ok self ka) \<and> routes_sound self w2"
    by (simp add: engine_ok_def)
  moreover have "e' = e\<lparr>alternates := al\<rparr>" "w' = w2"
    using assms(3) f by (simp_all add: failoverRoutes_def Let_def)
  ultimately show ?thesis using assms(1) by (simp add: engine_ok_def)
qed

lemma fail_nodes_ok:
  "engine_ok self e \<Longrightarrow> routes_sound self w \<Longrightarrow> fail_nodes cfg ids (e, w) = (e', w') \<Longrightarrow>
   engine_ok self e' \<and> routes_sound self w'"
proof (induction ids arbitrary: e w)
  case (Cons i ids)
  obtain e1 w1 where f: "failoverRoutes cfg i (e, w) = (e1, w1)" by force
  from failoverRoutes_ok [OF Cons.prems(1,2) f] Cons.IH [of e1 "notify cfg (NodeStatusChanged i NodeStatusStale) w1"]
    Cons.prems(3)
  show ?case by (simp add: f Let_def)
qed simp

lemma fold_notify_routes: "routing_table (fold (\<lambda>i. notify cfg (ev i)) ids w) = routing_table w"
  by (induction ids arbitrary: w) simp_all

lemma staleSweep_ok:
  assumes "engine_ok self e" and "routes_sound self w" and "staleSweep cfg now (e, w) = (e', w')"
  shows "engine_ok self e' \<and> routes_sound self w'"
proof -
  obtain q w1 where m: "MarkStaleBefore (now - StaleAfter cfg) w = (q, w1)" by force
  have w1: "routes_sound self w1"
    using routing_frames(3) [of "now - StaleAfter cfg" w] m assms(2) by (simp add: routes_sound_def)
  show ?thesis
  proof (cases q)
    case (Inl err)
    with assms m w1 show ?thesis by (simp add: staleSweep_def)
  next
    case (Inr ids)
    obtain e2 w2 where f: "fail_nodes cfg ids (e, w1) = (e2, w2)" by force
    note ok = fail_nodes_ok [OF assms(1) w1 f]
    obtain q2 w3 where h: "MarkHubsStaleBefore (now - StaleAfter cfg) w2 = (q2, w3)" by force
    have "routing_table w3 = routing_table w2"
      using routing_frames(4) [of "now - StaleAfter cfg" w2] h by simp
    then have "e' = e2 \<and> routing_table w' = routing_table w2"
      using assms(3) m Inr f h by (auto simp: staleSweep_def fold_notify_routes split: sum.splits)
    with ok show ?thesis by (simp add: routes_sound_def)
  qed
qed

lemma staleProbe_ok:
  assumes "engine_ok self e" and "routes_sound self w" and "staleProbe N cfg now (e, w) = (e', w')"
  shows "engine_ok self e' \<and> routes_sound self w'"
proof -
  obtain q w1 where s: "staleNodeIDs w = (q, w1)" by force
  obtain r w0 where n: "Nodes w = (r, w0)" by force
  have "routing_table w0 = routing_table w" using routing_frames(9) [of w] n by simp
  moreover have "w1 = w0" using s n by (auto simp: staleNodeIDs_def bnd_def split: sum.splits)
  ultimately have "routing_table w1 = routing_table w" by simp
  with assms s show ?thesis
    by (auto simp: staleProbe_def routes_sound_def split: sum.splits if_splits)
qed

text \<open>Every step of the engine keeps the invariant.\<close>

lemma ogm_handle_ok:
  assumes "engine_ok (SelfID cfg) e" and "routes_sound (SelfID cfg) w" and "ogm_handle N cfg now i (e, w) = (e', w')"
  shows "engine_ok (SelfID cfg) e' \<and> routes_sound (SelfID cfg) w'"
  using assms
  by (cases i) (auto dest: handlePacket_ok staleSweep_ok staleProbe_ok)

lemma reachable_ok:
  "ogm_reachable N cfg s \<Longrightarrow> engine_ok (SelfID cfg) (fst s) \<and> routes_sound (SelfID cfg) (snd s)"
proof (induction rule: ogm_reachable.induct)
  case (start w)
  then show ?case by (simp add: engine_ok_New)
next
  case (step s now i)
  then show ?case using ogm_handle_ok [of "fst s" "snd s" N now i] by (cases s; cases "ogm_handle N cfg now i s") auto
next
  case (other e w w')
  then show ?case by (simp add: routes_sound_def)
qed

end

section \<open>Replays and forwarding\<close>

lemma countLink_frame:
  assumes "countLink i msg raddr e = (f, e2)"
  shows "sent e2 = sent e" "lastSeq e2 = lastSeq e" "rebroadcasted e2 = rebroadcasted e"
    "alternates e2 = alternates e"
  using assms by (auto simp: countLink_def Let_def split: if_splits)

lemma handleOgm_replay_frame:
  assumes "scan_id (NodeId msg) = SelfID cfg \<or> already_seen (NodeID_String (scan_id (NodeId msg))) msg e"
    and "handleOgm N cfg now msg raddr (e, w) = (e', w')"
  shows "w' = w \<and> sent e' = sent e \<and> lastSeq e' = lastSeq e \<and> rebroadcasted e' = rebroadcasted e \<and>
    alternates e' = alternates e"
proof -
  obtain f e2 where c: "countLink (scan_id (NodeId msg)) msg raddr e = (f, e2)" by force
  have "already_seen k m e2 = already_seen k m e" for k m
    using countLink_frame(2) [OF c] by (simp add: already_seen_def)
  with assms c countLink_frame [OF c] show ?thesis
    by (auto simp: handleOgm_def Let_def split: if_splits)
qed

text \<open>
  C28. Replays are harmless. A message whose sequence number is not above the last one accepted from
  its originator, and a message of the hub's own that comes back, change neither the database nor
  the routes kept in memory and are not forwarded; only link counters move.
\<close>

theorem handleOgm_replay:
  assumes "scan_id (NodeId msg) = SelfID cfg \<or> already_seen (NodeID_String (scan_id (NodeId msg))) msg e"
    and "handleOgm N cfg now msg raddr (e, w) = (e', w')"
  shows "w' = w \<and> sent e' = sent e \<and> lastSeq e' = lastSeq e \<and> rebroadcasted e' = rebroadcasted e \<and>
    alternates e' = alternates e"
  using handleOgm_replay_frame [OF assms] .

definition sample_ogm :: "nat \<Rightarrow> Ogm" where
  "sample_ogm s = \<lparr>NodeId = sample_id 2, SequenceNumber = of_nat s, Ttl = 3, IsStartupAnnounce = False,
     LastHopId = [], ogm_HopCount = 0, Lat = None, Lon = None, LocationAccuracyM = None,
     LocationAtUnixMs = None\<rparr>"

definition sample_cfg :: "('a DB_scheme) ogm_config" where
  "sample_cfg = \<lparr>SelfID = sample_id 1, Peers = [''a'', ''b''], ogm_Interval = Second, StaleAfter = Minute,
     TTL = 8, has_Trust = False, has_Metrics = False, Handler = None\<rparr>"

definition sample_net :: net where
  "sample_net = \<lparr>Marshal_Ogm = (\<lambda>m. Some (NodeId m)), Marshal_Hello = (\<lambda>_. Some []),
     Unmarshal_Ogm = (\<lambda>_. None), Unmarshal_Hello = (\<lambda>_. None), ResolveUDPAddr = (\<lambda>s. Some s)\<rparr>"

theorem handleOgm_replay_witness:
  "snd (handleOgm sample_net sample_cfg 0 (sample_ogm 4) \<lparr>addr_String = ''a'', addr_IP = ''a'', addr_Port = 1\<rparr>
     (ogm_New\<lparr>lastSeq := [NodeID_String (sample_id 2) \<mapsto> 5]\<rparr>, empty_DB)) = empty_DB"
proof -
  let ?e = "ogm_New\<lparr>lastSeq := [NodeID_String (sample_id 2) \<mapsto> 5]\<rparr>"
  let ?r = "\<lparr>addr_String = ''a'', addr_IP = ''a'', addr_Port = 1\<rparr> :: UDPAddr"
  have "already_seen (NodeID_String (scan_id (NodeId (sample_ogm 4)))) (sample_ogm 4) ?e"
    by (simp add: already_seen_def sample_ogm_def)
  then show ?thesis
    using handleOgm_replay [of "sample_ogm 4" sample_cfg ?e sample_net 0 ?r empty_DB
        "fst (handleOgm sample_net sample_cfg 0 (sample_ogm 4) ?r (?e, empty_DB))"
        "snd (handleOgm sample_net sample_cfg 0 (sample_ogm 4) ?r (?e, empty_DB))"]
    by simp
qed

text \<open>What one flooded message may look like, seen from the message that caused it.\<close>

definition forwards :: "net \<Rightarrow> 'w ogm_config \<Rightarrow> Ogm \<Rightarrow> string \<Rightarrow> string \<times> bytes \<Rightarrow> bool" where
  "forwards N cfg msg fromAddr d =
     ((\<exists>p \<in> set (Peers cfg). p \<noteq> fromAddr \<and> ResolveUDPAddr N p = Some (fst d)) \<and>
      (\<exists>m. Marshal_Ogm N m = Some (snd d) \<and> NodeId m = NodeId msg \<and> SequenceNumber m = SequenceNumber msg \<and>
         unat (Ttl m) + 1 = unat (Ttl msg) \<and> ogm_HopCount m = ogm_HopCount msg + 1 \<and> LastHopId m = SelfID cfg))"

lemma flood_peers_in:
  "(a, b) \<in> set (flood_peers N payload x ps) \<Longrightarrow> b = payload \<and> (\<exists>p \<in> set ps. p \<noteq> x \<and> ResolveUDPAddr N p = Some a)"
  by (induction ps) (auto split: if_splits option.splits)

lemma length_flood_peers: "length (flood_peers N payload x ps) \<le> length ps"
  by (induction ps) (auto split: option.splits)

lemma floodOgm_sent:
  assumes "NodeId m = NodeId msg" "SequenceNumber m = SequenceNumber msg" "Ttl m = Ttl msg - 1"
    "ogm_HopCount m = ogm_HopCount msg + 1" "LastHopId m = SelfID cfg" "Ttl msg \<noteq> 0"
  shows "\<exists>out. sent (floodOgm N cfg m x e) = sent e @ out \<and> length out \<le> length (Peers cfg) \<and>
    (\<forall>d \<in> set out. forwards N cfg msg x d)"
proof -
  have "unat (Ttl m) + 1 = unat (Ttl msg)" using assms(3,6) by (simp add: unat_minus_one)
      (metis One_nat_def Suc_pred unat_gt_0)
  then show ?thesis
    using assms
    by (cases "Marshal_Ogm N m")
      (auto simp: floodOgm_def forwards_def length_flood_peers dest!: flood_peers_in)
qed

lemma sent_storeAlternate [simp]: "sent (storeAlternate r e) = sent e"
  by (simp add: storeAlternate_def Let_def)

lemma sent_maybeUpsertRoute: "sent (fst (maybeUpsertRoute cfg now r (e, w))) = sent e"
  by (auto simp: maybeUpsertRoute_def Let_def split: prod.split sum.split option.split)

lemma rebroadcastStartup_sent:
  "\<exists>out. sent (rebroadcastStartup N cfg msg x e) = sent e @ out \<and> length out \<le> length (Peers cfg) \<and>
    (Ttl msg = 0 \<longrightarrow> out = []) \<and> (\<forall>d \<in> set out. forwards N cfg msg x d)"
  using floodOgm_sent [of "msg\<lparr>IsStartupAnnounce := True, Ttl := Ttl msg - 1,
             ogm_HopCount := ogm_HopCount msg + 1, LastHopId := SelfID cfg\<rparr>" msg cfg N x e]
  by (auto simp: rebroadcastStartup_def)

lemma maybeRebroadcast_sent:
  assumes "Ttl msg \<noteq> 0"
  shows "\<exists>out. sent (maybeRebroadcast N cfg msg x e) = sent e @ out \<and> length out \<le> length (Peers cfg) \<and>
    (\<forall>d \<in> set out. forwards N cfg msg x d)"
  using floodOgm_sent [of "msg\<lparr>Ttl := Ttl msg - 1, ogm_HopCount := ogm_HopCount msg + 1, LastHopId := SelfID cfg\<rparr>"
      msg cfg N x "e\<lparr>rebroadcasted := (rebroadcasted e)(NodeID_String (scan_id (NodeId msg)) \<mapsto> SequenceNumber msg)\<rparr>"]
    assms
  by (auto simp: maybeRebroadcast_def Let_def)

lemma handleOgm_sends:
  "\<exists>out. sent (fst (handleOgm N cfg now msg raddr (e, w))) = sent e @ out \<and>
     length out \<le> 2 * length (Peers cfg) \<and> (if Ttl msg = 0 then out = [] else True) \<and>
     list_all (forwards N cfg msg (addr_String raddr)) out"
proof (cases "scan_id (NodeId msg) = SelfID cfg \<or> already_seen (NodeID_String (scan_id (NodeId msg))) msg e")
  case True
  from handleOgm_replay_frame [OF True, of N now raddr w] show ?thesis
    by (cases "handleOgm N cfg now msg raddr (e, w)") (auto intro: exI [of _ "[]"])
next
  case False
  let ?o = "scan_id (NodeId msg)" and ?x = "addr_String raddr"
  obtain f e2 where c: "countLink ?o msg raddr e = (f, e2)" by force
  define e3 where "e3 = e2\<lparr>lastSeq := (lastSeq e2)(NodeID_String ?o \<mapsto> SequenceNumber msg)\<rparr>"
  have s3: "sent e3 = sent e" using countLink_frame(1) [OF c] by (simp add: e3_def)
  have h: "handleOgm N cfg now msg raddr (e, w) = acceptOgm N cfg now msg raddr ?o f (e3, w)"
    using False c countLink_frame(2) [OF c] by (simp add: handleOgm_def Let_def already_seen_def e3_def)
  define w1 where "w1 = (if ogm_HopCount msg = 0 \<and> ?o \<noteq> SelfID cfg then upsertPeerHub cfg now ?o raddr w else w)"
  obtain q w2 where u: "UpsertSeen ?o now w1 = (q, w2)" by force
  show ?thesis
  proof (cases q)
    case (Inl err)
    then have "fst (handleOgm N cfg now msg raddr (e, w)) = e3"
      using u by (simp add: h acceptOgm_def Let_def flip: w1_def)
    with s3 show ?thesis by (intro exI [of _ "[]"]) simp
  next
    case (Inr changed)
    define fire where "fire = (changed \<and> Handler cfg \<noteq> None)"
    define e4 where "e4 = (if fire then rebroadcastStartup N cfg msg ?x e3 else e3)"
    define w3 where "w3 = (if fire then notify cfg (NodeStatusChanged ?o NodeStatusOnline) w2 else w2)"
    define w5 where "w5 = applyLocation now ?o msg (recordProximity cfg now ?o (ogm_HopCount msg) w3)"
    have step: "fst (handleOgm N cfg now msg raddr (e, w)) =
        (let e5 = fst (maybeUpsertRoute cfg now (candidate_route ?o f (ogm_HopCount msg) e4) (e4, w5))
         in if Ttl msg > 0 then maybeRebroadcast N cfg msg ?x e5 else e5)"
      unfolding h acceptOgm_Inr [OF u [unfolded w1_def Inr]] Let_def fst_conv e4_def w5_def w3_def fire_def ..
    obtain out4 where o4: "sent e4 = sent e @ out4" "length out4 \<le> length (Peers cfg)"
      "Ttl msg = 0 \<longrightarrow> out4 = []" "\<forall>d \<in> set out4. forwards N cfg msg ?x d"
      using rebroadcastStartup_sent [of N cfg msg ?x e3] s3 by (cases fire) (auto simp: e4_def)
    let ?e5 = "fst (maybeUpsertRoute cfg now (candidate_route ?o f (ogm_HopCount msg) e4) (e4, w5))"
    have e5: "sent ?e5 = sent e4" by (rule sent_maybeUpsertRoute)
    show ?thesis
    proof (cases "Ttl msg = 0")
      case True
      then show ?thesis using step e5 o4 by (intro exI [of _ "[]"]) (simp add: Let_def)
    next
      case False
      obtain out5 where o5: "sent (maybeRebroadcast N cfg msg ?x ?e5) = sent ?e5 @ out5"
        "length out5 \<le> length (Peers cfg)" "\<forall>d \<in> set out5. forwards N cfg msg ?x d"
        using maybeRebroadcast_sent [OF False] by blast
      have "Ttl msg > 0" using False by (simp add: word_gt_0)
      then show ?thesis
        using step e5 o4 o5 False by (intro exI [of _ "out4 @ out5"]) (auto simp: Let_def list_all_iff)
    qed
  qed
qed


section \<open>Failover\<close>

text \<open>The first alternate for a destination that does not go through the dead neighbour.\<close>

definition survivor :: "NodeID \<Rightarrow> (string \<times> Route list) list \<Rightarrow> NodeID \<Rightarrow> Route option" where
  "survivor stale al k = (case map_of al (NodeID_String k) of None \<Rightarrow> None
     | Some alts \<Rightarrow> find (\<lambda>alt. NextHop alt \<noteq> stale) alts)"

lemma find_filter_hd: "find P xs = (case filter P xs of [] \<Rightarrow> None | x # _ \<Rightarrow> Some x)"
  by (induction xs) auto

lemma NodeID_String_inj [simp]: "NodeID_String a = NodeID_String b \<longleftrightarrow> a = b"
  by (simp add: NodeID_String_def)

text \<open>A client that, besides, causes no database failures.\<close>

locale ogm_quiet_client = ogm_client +
  assumes handler_faults: "Handler cfg = Some h \<Longrightarrow> faults w = [] \<Longrightarrow> faults (h ev w) = []"
begin

lemma notify_faults: "faults w = [] \<Longrightarrow> faults (notify cfg ev w) = []"
  by (auto simp: notify_def handler_faults split: option.split)

lemma failover_alternates_spec:
  assumes "faults w = []" and "distinct (map fst al)" and "\<forall>ka \<in> set al. alts_ok self ka"
    and "failover_alternates cfg stale al w = (al', w')"
  shows "faults w' = [] \<and> find_row rt_dest k (routing_table w') =
    (case survivor stale al k of Some r \<Rightarrow> Some (route_row_of r) | None \<Rightarrow> find_row rt_dest k (routing_table w))"
  using assms
proof (induction al arbitrary: w al')
  case Nil
  then show ?case by (simp add: survivor_def)
next
  case (Cons ka al)
  obtain key alts where ka: "ka = (key, alts)" by force
  define remaining where "remaining = filter (\<lambda>alt. NextHop alt \<noteq> stale) alts"
  define w1 where "w1 = (case remaining of [] \<Rightarrow> w
     | promoted # _ \<Rightarrow> notify cfg (RouteChanged promoted) (snd (UpsertRoute promoted w)))"
  obtain al2 where r: "failover_alternates cfg stale al w1 = (al2, w')"
    using Cons.prems(4) by (auto simp: ka Let_def split: prod.splits simp flip: remaining_def w1_def)
  have key: "NodeID_String (Destination x) = key \<and> TQ x \<noteq> NaN" if "x \<in> set remaining" for x
    using that Cons.prems(3) by (auto simp: ka alts_ok_def remaining_def route_sound_def unit_tq_def)
  have w1: "faults w1 = [] \<and> find_row rt_dest k (routing_table w1) =
      (if NodeID_String k = key \<and> remaining \<noteq> [] then Some (route_row_of (hd remaining))
       else find_row rt_dest k (routing_table w))"
  proof (cases remaining)
    case (Cons x xs)
    with key have x: "NodeID_String (Destination x) = key" "TQ x \<noteq> NaN" by auto
    have "find_row rt_dest k (upsert_row rt_dest (\<lambda>_. route_row_of x) (route_row_of x) (routing_table w)) =
        (if k = Destination x then Some (route_row_of x) else find_row rt_dest k (routing_table w))"
      by (subst find_row_upsert_row) (auto split: option.split)
    then show ?thesis
      using x \<open>faults w = []\<close> by (auto simp: w1_def Cons UpsertRoute_ok notify_faults)
  qed (simp add: w1_def \<open>faults w = []\<close>)
  have IH: "faults w' = [] \<and> find_row rt_dest k (routing_table w') =
    (case survivor stale al k of Some r \<Rightarrow> Some (route_row_of r) | None \<Rightarrow> find_row rt_dest k (routing_table w1))"
    using Cons.IH [OF _ _ _ r] Cons.prems w1 by simp
  show ?case
  proof (cases "NodeID_String k = key")
    case True
    then have "map_of al (NodeID_String k) = None"
      using Cons.prems(2) ka by (simp add: map_of_eq_None_iff)
    then have "survivor stale al k = None" by (simp add: survivor_def)
    moreover have "survivor stale (ka # al) k = (case remaining of [] \<Rightarrow> None | x # _ \<Rightarrow> Some x)"
      using True by (simp add: survivor_def ka find_filter_hd remaining_def)
    ultimately show ?thesis using IH w1 True by (cases remaining) auto
  next
    case False
    then have "survivor stale (ka # al) k = survivor stale al k" by (simp add: survivor_def ka)
    then show ?thesis using IH w1 False by (simp cong: option.case_cong)
  qed
qed

text \<open>
  After a failover the route to a destination is its first alternate that avoids the dead
  neighbour, otherwise the old route unless it went through that neighbour.
\<close>

lemma failoverRoutes_spec:
  assumes "faults w = []" and "engine_ok self e" and "unique_key rt_dest (routing_table w)"
    and "failoverRoutes cfg stale (e, w) = (e', w')"
  shows "faults w' = [] \<and> find_row rt_dest k (routing_table w') =
    (case survivor stale (alternates e) k of
       Some r \<Rightarrow> Some (route_row_of r)
     | None \<Rightarrow> (case find_row rt_dest k (routing_table w) of
         None \<Rightarrow> None | Some r \<Rightarrow> if rt_next r = stale then None else Some r))"
proof -
  let ?w = "routing_table_update (delete_rows (\<lambda>r. rt_next r = stale)) w"
  obtain al where f: "failover_alternates cfg stale (alternates e) ?w = (al, w')"
    using assms(1,4)
    by (auto simp: failoverRoutes_def DeleteRoutesViaNextHop_def db_simps delete_stmt_def split: prod.splits)
  have "faults w' = [] \<and> find_row rt_dest k (routing_table w') =
    (case survivor stale (alternates e) k of Some r \<Rightarrow> Some (route_row_of r)
     | None \<Rightarrow> find_row rt_dest k (routing_table ?w))"
    using failover_alternates_spec [OF _ _ _ f, of self k] assms(1,2) by (simp add: engine_ok_def)
  then show ?thesis using find_row_delete_rows [OF assms(3), of k] by (simp cong: option.case_cong)
qed

end

end
