(* ===== verification/ConfigFallback.thy ===== *)
theory ConfigFallback
  imports Registry
begin

text \<open>
  \<^verbatim>\<open>hub/internal/configstore/configstore.go\<close>, the key-value configuration table, and
  \<^verbatim>\<open>hub/internal/fallback/fallback.go\<close>, the engine that polls one of its flags and notifies on changes.

  Shown: configuration values are read back; a flag written is the flag read; the fallback engine
  notifies on the first successful poll and then exactly on changes of the value it reads.
\<close>

section \<open>Configuration\<close>

abbreviation KeyInternetFallbackEnabled :: string where
  "KeyInternetFallbackEnabled \<equiv> ''internet_fallback_enabled''"

definition config_Get :: "string \<Rightarrow> ('a DB_scheme, string) stmt" where
  "config_Get key = query (\<lambda>w. case find_row fst key (config_table w) of None \<Rightarrow> '''' | Some r \<Rightarrow> snd r)"

definition config_Set :: "string \<Rightarrow> string \<Rightarrow> ('a DB_scheme, unit) stmt" where
  "config_Set key val =
     bnd (exec (upsert_stmt fst config_table_update (\<lambda>r. (fst r, val)) (key, val))) (\<lambda>_. ret ())"

text \<open>\<^verbatim>\<open>strconv.ParseBool\<close> and \<^verbatim>\<open>strconv.FormatBool\<close>\<close>

definition ParseBool :: "string \<Rightarrow> bool option" where
  "ParseBool s =
     (if s \<in> {''1'', ''t'', ''T'', ''true'', ''TRUE'', ''True''} then Some True
      else if s \<in> {''0'', ''f'', ''F'', ''false'', ''FALSE'', ''False''} then Some False
      else None)"

definition FormatBool :: "bool \<Rightarrow> string" where
  "FormatBool b = (if b then ''true'' else ''false'')"

definition config_GetBool :: "string \<Rightarrow> bool \<Rightarrow> ('a DB_scheme, bool) stmt" where
  "config_GetBool key defaultVal =
     bnd (query (\<lambda>w. map_option snd (find_row fst key (config_table w)))) (\<lambda>found.
       ret (case found of
              None \<Rightarrow> defaultVal
            | Some val \<Rightarrow> (case ParseBool val of None \<Rightarrow> defaultVal | Some b \<Rightarrow> b)))"

definition config_SetBool :: "string \<Rightarrow> bool \<Rightarrow> ('a DB_scheme, unit) stmt" where
  "config_SetBool key val =
     bnd (exec (upsert_stmt fst config_table_update (\<lambda>r. (fst r, FormatBool val)) (key, FormatBool val)))
       (\<lambda>_. ret ())"

section \<open>The fallback engine\<close>

record FallbackEngine =
  fb_last :: bool
  fb_hasLast :: bool

definition fallback_New :: FallbackEngine where
  "fallback_New = \<lparr>fb_last = False, fb_hasLast = False\<rparr>"

definition poll ::
  "(bool \<Rightarrow> 'a DB_scheme \<Rightarrow> 'a DB_scheme) option \<Rightarrow> FallbackEngine \<times> 'a DB_scheme \<Rightarrow> FallbackEngine \<times> 'a DB_scheme" where
  "poll notifier = (\<lambda>(e, w).
     case config_GetBool KeyInternetFallbackEnabled False w of
       (Inl err, w1) \<Rightarrow> (e, w1)
     | (Inr enabled, w1) \<Rightarrow>
         (if \<not> fb_hasLast e \<or> enabled \<noteq> fb_last e then
            (e\<lparr>fb_last := enabled, fb_hasLast := True\<rparr>,
             case notifier of None \<Rightarrow> w1 | Some n \<Rightarrow> n enabled w1)
          else (e, w1)))"

definition fallback_Enabled :: "('a DB_scheme, bool) stmt" where
  "fallback_Enabled w =
     (case config_GetBool KeyInternetFallbackEnabled False w of
        (Inl err, w1) \<Rightarrow> (Inr False, w1)
      | (Inr b, w1) \<Rightarrow> (Inr b, w1))"

section \<open>Configuration is a keyed store\<close>

lemma find_config_upsert:
  "find_row fst k (upsert_row fst (\<lambda>r. (fst r, v)) (key, v) rows) =
    (if k = key then Some (key, v) else find_row fst k rows)"
  by (subst find_row_upsert_row) (auto split: option.split dest: find_row_Some_in)

lemma config_Set_ok [db_simps]:
  "faults w = [] \<Longrightarrow> config_Set k v w = (Inr (), config_table_update (upsert_row fst (\<lambda>r. (fst r, v)) (k, v)) w)"
  by (simp add: config_Set_def db_simps upsert_stmt_def)

definition config_put :: "string \<times> string \<Rightarrow> ('a DB_scheme, unit) stmt" where
  "config_put = (\<lambda>(k, v). config_Set k v)"

definition config_lookup :: "string \<Rightarrow> ('a DB_scheme, (string \<times> string) option) stmt" where
  "config_lookup k = query (\<lambda>w. find_row fst k (config_table w))"

interpretation config: keyed_store fst config_put config_lookup "\<lambda>_ _. True" "\<lambda>w. faults w = []"
  by unfold_locales
    (auto simp: config_put_def config_lookup_def db_simps find_config_upsert split: prod.splits)

lemma config_Set_wf [inv_intros]: "keeps db_wf (config_Set k v)" "keeps db_wf (config_SetBool k b)"
  unfolding config_Set_def config_SetBool_def
  by (auto intro!: keeps_bnd keeps_wf_stmts db_wf_updates unique_key_upsert_row db_wf_unique)

text \<open>
  A flag that was set is the flag that is read: after \<^verbatim>\<open>SetBool\<close> succeeded, \<^verbatim>\<open>GetBool\<close> returns the value
  for that key whatever the default, and every other key is as before.
\<close>

theorem GetBool_after_SetBool:
  assumes "faults w = []" and "config_SetBool key val w = (Inr (), w')"
  shows "fst (config_GetBool k d w') = (if k = key then Inr val else fst (config_GetBool k d w))"
proof -
  have w': "w' = config_table_update (upsert_row fst (\<lambda>r. (fst r, FormatBool val)) (key, FormatBool val)) w"
    using assms by (simp add: config_SetBool_def db_simps upsert_stmt_def)
  have "ParseBool (FormatBool val) = Some val" by (simp add: ParseBool_def FormatBool_def)
  then show ?thesis using assms(1) by (simp add: w' config_GetBool_def db_simps find_config_upsert)
qed

theorem GetBool_after_SetBool_witness:
  "fst (config_GetBool ''k'' False (snd (config_SetBool ''k'' True empty_DB))) = Inr True"
proof -
  have "config_SetBool ''k'' True empty_DB = (Inr (), snd (config_SetBool ''k'' True empty_DB))"
    by (simp add: config_SetBool_def empty_DB_def db_simps upsert_stmt_def)
  from GetBool_after_SetBool [OF _ this, of "''k''" False] show ?thesis by (simp add: empty_DB_def)
qed

section \<open>Notifications\<close>

text \<open>
  One poll after another, each on the database as it is at that moment (\<open>ws\<close>): the notifications
  given.
\<close>

fun polls :: "FallbackEngine \<Rightarrow> ('a DB_scheme) list \<Rightarrow> bool list" where
  "polls e [] = []"
| "polls e (w # ws) =
     (let e' = fst (poll None (e, w)) in
      (if e' \<noteq> e then [fb_last e'] else []) @ polls e' ws)"

definition reads :: "('a DB_scheme) list \<Rightarrow> bool list" where
  "reads ws = List.map_filter (\<lambda>w. case fst (config_GetBool KeyInternetFallbackEnabled False w) of
     Inl e \<Rightarrow> None | Inr b \<Rightarrow> Some b) ws"

lemma poll_engine:
  "fst (poll None (e, w)) = (case fst (config_GetBool KeyInternetFallbackEnabled False w) of
     Inl err \<Rightarrow> e | Inr b \<Rightarrow> if \<not> fb_hasLast e \<or> b \<noteq> fb_last e then e\<lparr>fb_last := b, fb_hasLast := True\<rparr> else e)"
  by (cases "config_GetBool KeyInternetFallbackEnabled False w") (auto simp: poll_def split: sum.split)

lemma polls_remdups_adj:
  "polls e ws = (if fb_hasLast e then tl (remdups_adj (fb_last e # reads ws)) else remdups_adj (reads ws))"
proof (induction ws arbitrary: e)
  case Nil
  then show ?case by (simp add: reads_def map_filter_simps)
next
  case (Cons w ws)
  obtain r where r: "fst (config_GetBool KeyInternetFallbackEnabled False w) = r" by blast
  show ?case
  proof (cases r)
    case (Inl err)
    then show ?thesis using Cons.IH [of e] r by (simp add: poll_engine reads_def map_filter_simps)
  next
    case (Inr b)
    then have rd: "reads (w # ws) = b # reads ws" using r by (simp add: reads_def map_filter_simps)
    show ?thesis
    proof (cases "\<not> fb_hasLast e \<or> b \<noteq> fb_last e")
      case True
      let ?e = "e\<lparr>fb_last := b, fb_hasLast := True\<rparr>"
      have "?e \<noteq> e" using True by (cases e) auto
      moreover have "fst (poll None (e, w)) = ?e" using True Inr r by (simp add: poll_engine)
      moreover have "b # tl (remdups_adj (b # reads ws)) = remdups_adj (b # reads ws)"
        by (metis list.collapse hd_remdups_adj list.sel(1) remdups_adj_Nil_iff list.distinct(1))
      ultimately show ?thesis using Cons.IH [of ?e] True rd by (auto simp: Let_def)
    next
      case False
      then have "fst (poll None (e, w)) = e" using Inr r by (simp add: poll_engine)
      then show ?thesis using Cons.IH [of e] False rd by (simp add: Let_def)
    qed
  qed
qed

text \<open>
  The fallback engine reports changes and nothing else. Over any sequence of polls, with the
  configuration changing and the database failing in between, a new engine's notifications are
  the values it read with immediate repetitions removed: the first value is reported, each later
  one only if it differs from the previous, and polls that fail are invisible.
\<close>

theorem fallback_reports_changes:
  "polls fallback_New ws = remdups_adj (reads ws) \<and> distinct_adj (polls fallback_New ws)"
  by (simp add: polls_remdups_adj fallback_New_def)

end
