(* ===== verification/HubApp.thy ===== *)
theory HubApp
  imports Heartbeat Sync Ogm ConfigFallback
begin

text \<open>
  \<^verbatim>\<open>hub/internal/hubapp/hubapp.go\<close>: the hub as a whole. \<^verbatim>\<open>New\<close> wires the components; each wiring below is
  the configuration one component gets. \<open>hub_step\<close> is one input of any component, with the handlers
  the wiring installs, so a run is any interleaving of all of them. The clock and the next random
  bytes are part of the world, set by the environment between inputs; any statement may fail.

  Shown: whatever the inputs, every stored route is sound and none leads to the hub itself; a DTN
  pass loses no bundle it should keep under any failures, and without failures keeps exactly the
  right ones; a failover installs the surviving alternates; what is running after \<^verbatim>\<open>Start\<close>.
\<close>

section \<open>Configuration\<close>

record Config =
  IdentityPath :: string
  DBPath :: string
  OGMBindAddr :: string
  cfg_Peers :: "string list"
  OGMInterval :: duration
  cfg_StaleAfter :: duration
  OGMTTL :: "32 word"
  ManagementAddr :: string
  DTNTTL :: duration
  DTNInterval :: duration
  SyncInterval :: duration
  AppSocket :: string
  HeartbeatAddr :: string
  DiscoveryBind :: string
  cfg_AppVersion :: string

definition DefaultConfig :: Config where
  "DefaultConfig = \<lparr>IdentityPath = '''', DBPath = '''', OGMBindAddr = '''', cfg_Peers = [],
     OGMInterval = 5 * Second, cfg_StaleAfter = 20 * Second, OGMTTL = 3, ManagementAddr = '''',
     DTNTTL = 24 * Hour, DTNInterval = 5 * Second, SyncInterval = 30 * Second,
     AppSocket = ''unix:/tmp/quakemeshhub.sock'', HeartbeatAddr = ''0.0.0.0:18085'',
     DiscoveryBind = ''0.0.0.0:47223'', cfg_AppVersion = ''''\<rparr>"

text \<open>
  \<^verbatim>\<open>fmt.Sscanf(s, "%d", &port)\<close> on a 64-bit \<^verbatim>\<open>int\<close>: blanks, a sign and decimal digits; what follows
  the digits is ignored.
\<close>

definition digit_value :: "char \<Rightarrow> nat option" where
  "digit_value c = (let n = of_char c :: nat in if 48 \<le> n \<and> n \<le> 57 then Some (n - 48) else None)"

definition read_digits :: "string \<Rightarrow> int option" where
  "read_digits s =
     (let ds = map (\<lambda>c. int (the (digit_value c))) (takeWhile (\<lambda>c. digit_value c \<noteq> None) s)
      in if ds = [] then None else Some (fold (\<lambda>d a. 10 * a + d) ds 0))"

definition Sscanf_d :: "string \<Rightarrow> int option" where
  "Sscanf_d s =
     (let s1 = dropWhile (\<lambda>c. of_char c \<in> {9, 11, 12, 13, 32 :: nat}) s;
          neg = HasPrefix s1 ''-'';
          s2 = (if neg \<or> HasPrefix s1 ''+'' then drop 1 s1 else s1)
      in case read_digits s2 of
           None \<Rightarrow> None
         | Some n \<Rightarrow> (let v = (if neg then - n else n) in if - (2 ^ 63) \<le> v \<and> v < 2 ^ 63 then Some v else None))"

definition portFromAddr :: "string \<Rightarrow> error + int" where
  "portFromAddr addr =
     (if addr = '''' then Inr 0
      else case SplitHostPort addr of
        None \<Rightarrow> Inl (Errmsg ''address'')
      | Some (_, portStr) \<Rightarrow> (case Sscanf_d portStr of None \<Rightarrow> Inl (Errmsg ''port'') | Some p \<Rightarrow> Inr p))"

text \<open>\<^verbatim>\<open>port, _ := portFromAddr(...)\<close>\<close>

definition port_or_zero :: "string \<Rightarrow> int" where
  "port_or_zero addr = (case portFromAddr addr of Inl _ \<Rightarrow> 0 | Inr p \<Rightarrow> p)"

section \<open>Wiring\<close>

record hub_world = daemon_world +
  clock :: time
  rand :: "error + bytes"

text \<open>What the hub gets from its environment and from libraries.\<close>

record hub_env =
  env_cfg :: Config
  env_id :: Identity
  env_crypto :: crypto
  env_enc :: event_codec
  env_net :: net
  env_sync :: sync_net
  env_json :: beacon_codec
  env_sos :: "sos_body \<Rightarrow> bytes"
  env_errmsg :: "error \<Rightarrow> string"

definition self :: "hub_env \<Rightarrow> NodeID" where
  "self E = id_NodeID (env_id E)"

definition dtn_base :: "hub_env \<Rightarrow> ('a hub_world_scheme) dtn_config" where
  "dtn_base E = dtn_defaults
     \<lparr>dtn_Handler = Some (\<lambda>d w. api_DtnQueueDepthChanged (env_enc E) (clock w) d w), dtn_SelfID = self E,
      dtn_LocalDeliverer = None, dtn_TTL = DTNTTL (env_cfg E), dtn_Interval = DTNInterval (env_cfg E)\<rparr>"

text \<open>
  The daemon holds the engine and the engine the daemon; \<^verbatim>\<open>Enqueue\<close> does not read the deliverer, so
  the daemon is wired to the engine without it.
\<close>

definition hub_daemon :: "hub_env \<Rightarrow> ('a hub_world_scheme) daemon_config" where
  "hub_daemon E = \<lparr>d_SelfID = self E, d_Apps = True, d_Bans = True, d_LocalHub = self E,
     d_Sender = Some (\<lambda>src dst p w. dtnengine_Enqueue (dtn_base E) (rand w) (clock w) src dst p w),
     d_AppPresenceChanged = Some (\<lambda>n a v w. api_AppPresenceChanged (env_enc E) (clock w) n a v w),
     d_SosAlertPublished = Some (\<lambda>n a t p w. api_SosAlertPublished (env_enc E) (clock w) n a t p w)\<rparr>"

definition hub_dtn :: "hub_env \<Rightarrow> ('a hub_world_scheme) dtn_config" where
  "hub_dtn E = (if AppSocket (env_cfg E) \<noteq> '''' then SetLocalDeliverer (DeliverLocal (hub_daemon E :: ('a hub_world_scheme) daemon_config)) (dtn_base E)
     else dtn_base E)"

definition eventBridge :: "hub_env \<Rightarrow> ogm_event \<Rightarrow> 'a hub_world_scheme \<Rightarrow> 'a hub_world_scheme" where
  "eventBridge E ev w = (case ev of
     NodeStatusChanged n st \<Rightarrow> api_NodeStatusChanged (env_enc E) (clock w) n st w
   | HubStatusChanged h st \<Rightarrow> api_HubStatusChanged (env_enc E) (clock w) h st w
   | RouteChanged route \<Rightarrow>
       (let w1 = api_RouteChanged (env_enc E) (clock w) route w
        in OnRouteChanged (hub_dtn E) (clock w1) route w1))"

fun sign_each :: "crypto \<Rightarrow> Identity \<Rightarrow> Proposal list \<Rightarrow> ('a DB_scheme, unit) stmt" where
  "sign_each cr ident [] = ret ()"
| "sign_each cr ident (p # ps) =
     bnd (UpdateSignature (p_BanID p) (Some (identity_Sign cr ident (SignBytes p)))) (\<lambda>_. sign_each cr ident ps)"

definition signPendingProposals :: "crypto \<Rightarrow> Identity \<Rightarrow> ('a DB_scheme, unit) stmt" where
  "signPendingProposals cr ident = bnd (ListUnsignedByProposer (id_NodeID ident)) (sign_each cr ident)"

definition hub_sync_config :: "hub_env \<Rightarrow> ('a hub_world_scheme) sync_config" where
  "hub_sync_config E = sync_New
     \<lparr>sy_SelfID = self E,
      sy_Peers = PeerSyncAddrs (sync_Resolve (env_sync E)) (cfg_Peers (env_cfg E)),
      sy_Interval = SyncInterval (env_cfg E), sy_Apps = True, sy_Bans = True, sy_LocalHub = self E,
      sy_SignPending = Some (\<lambda>w. snd (signPendingProposals (env_crypto E) (env_id E) w)),
      sy_BanNotify = Some \<lparr>BanProposalChanged = (\<lambda>b a v w. api_BanProposalChanged (env_enc E) (clock w) b a v w),
        BanVerdictChanged = (\<lambda>b h x w. api_BanVerdictChanged (env_enc E) (clock w) b h x w)\<rparr>\<rparr>"

definition hub_ogm :: "hub_env \<Rightarrow> ('a hub_world_scheme) ogm_config" where
  "hub_ogm E = \<lparr>SelfID = self E, Peers = cfg_Peers (env_cfg E), ogm_Interval = OGMInterval (env_cfg E),
     StaleAfter = cfg_StaleAfter (env_cfg E), TTL = OGMTTL (env_cfg E), has_Trust = True, has_Metrics = True,
     Handler = Some (eventBridge E)\<rparr>"

definition hub_heartbeat :: "hub_env \<Rightarrow> ('a hub_world_scheme) hb_config" where
  "hub_heartbeat E = \<lparr>hb_Notifier = Some (\<lambda>n st. eventBridge E (NodeStatusChanged n st)),
     hb_SOSNotifier = Some (\<lambda>n a t p w. api_SosAlertPublished (env_enc E) (clock w) n a t p w),
     hb_Segments = True, hb_Trust = True, hb_LocalHub = self E, hb_sha256 = Sum256 (env_crypto E)\<rparr>"

definition hub_discovery :: "hub_env \<Rightarrow> ('a hub_world_scheme) ld_config" where
  "hub_discovery E = ld_New \<lparr>ld_HubNodeID = self E, ld_HeartbeatPort = port_or_zero (HeartbeatAddr (env_cfg E)),
     ld_OGMPort = port_or_zero (OGMBindAddr (env_cfg E)), ld_Interval = 0,
     ld_Notifier = Some (\<lambda>n st. eventBridge E (NodeStatusChanged n st)),
     ld_HubNotifier = Some (\<lambda>n st. eventBridge E (HubStatusChanged n st)),
     ld_Segments = True, ld_sha256 = Sum256 (env_crypto E)\<rparr>"

definition has_discovery :: "Config \<Rightarrow> bool" where
  "has_discovery cfg = (DiscoveryBind cfg \<noteq> '''' \<and> port_or_zero (HeartbeatAddr cfg) > 0 \<and> port_or_zero (OGMBindAddr cfg) > 0)"

section \<open>Self registration\<close>

abbreviation KeyLocalHubID :: string where "KeyLocalHubID \<equiv> ''local_hub_id''"

text \<open>\<open>ip\<close> and \<open>port\<close> are the local address of the OGM socket.\<close>

definition registerSelfHub :: "hub_env \<Rightarrow> string \<Rightarrow> int \<Rightarrow> ('a hub_world_scheme, unit) stmt" where
  "registerSelfHub E ip port w =
     (case UpsertHubSeen (self E) ip port (clock w) w of
        (Inl e, w1) \<Rightarrow> (Inl e, w1)
      | (Inr changed, w1) \<Rightarrow>
          (let w2 = (if changed then api_HubStatusChanged (env_enc E) (clock w1) (self E) HubStatusOnline w1 else w1)
           in (Inr (), snd (config_Set KeyLocalHubID (NodeID_String (self E)) w2))))"

section \<open>One input\<close>

datatype hub_input =
    InOgm ogm_input
  | InDtnTick
  | InRegister request "register_body option"
  | InSend request "send_body option"
  | InReceive request
  | InPublish request "publish_body option"
  | InSubscribe nat request
  | InSubscribeEnd select_arm nat string string
  | InDiscover request
  | InHeartbeat string string "heartbeat_body option"
  | InSOS string "sos_body option"
  | InEndorse string "(string \<times> string) option"
  | InBeacon bytes
  | InBeaconTick "string option" Context
  | InSync bytes
  | InGossipTick
  | InFallbackTick
  | InLivenessTick string int
  | InClientConnect nat
  | InClientRead nat
  | InClientLeave nat
  | InEnvironment time "error + bytes" "bool list"

fun hub_step ::
  "hub_env \<Rightarrow> hub_input \<Rightarrow> OgmEngine \<times> FallbackEngine \<times> 'a hub_world_scheme \<Rightarrow>
   OgmEngine \<times> FallbackEngine \<times> 'a hub_world_scheme" where
  "hub_step E (InOgm i) (e, f, w) =
     (let (e1, w1) = ogm_handle (env_net E) (hub_ogm E) (clock w) i (e, w) in (e1, f, w1))"
| "hub_step E InDtnTick (e, f, w) = (e, f, processOnce (hub_dtn E) (clock w) w)"
| "hub_step E (InRegister r b) (e, f, w) = (e, f, snd (handleRegister (hub_daemon E) (rand w) (clock w) r b w))"
| "hub_step E (InSend r b) (e, f, w) = (e, f, snd (handleSend (hub_daemon E) r b w))"
| "hub_step E (InReceive r) (e, f, w) = (e, f, snd (handleReceive r w))"
| "hub_step E (InPublish r b) (e, f, w) = (e, f, snd (handlePublish (hub_daemon E) r b w))"
| "hub_step E (InSubscribe ch r) (e, f, w) = (e, f, snd (subscribe_open ch r w))"
| "hub_step E (InSubscribeEnd arm ch t k) (e, f, w) =
     (e, f, case subscribe_close arm ch t k w of None \<Rightarrow> w | Some (_, w1) \<Rightarrow> w1)"
| "hub_step E (InDiscover r) (e, f, w) =
     (e, f, snd (handleDiscoverPeers (hub_daemon E :: ('a hub_world_scheme) daemon_config) r w))"
| "hub_step E (InHeartbeat m a b) (e, f, w) = (e, f, snd (handleHeartbeat (hub_heartbeat E) (clock w) m a b w))"
| "hub_step E (InSOS m b) (e, f, w) = (e, f, snd (handleSOS (env_sos E) (hub_heartbeat E) (clock w) m b w))"
| "hub_step E (InEndorse m b) (e, f, w) = (e, f, snd (handleEndorse (env_errmsg E) (hub_heartbeat E) (clock w) m b w))"
| "hub_step E (InBeacon data) (e, f, w) = (e, f, ld_receive (env_json E) (hub_discovery E) (clock w) data w)"
| "hub_step E (InBeaconTick sock ctx) (e, f, w) =
     (e, f, snd (sendHubBeacon (env_json E) (hub_discovery E) sock ctx (clock w) w))"
| "hub_step E (InSync data) (e, f, w) = (e, f, sync_receive (env_sync E) (hub_sync_config E) data w)"
| "hub_step E InGossipTick (e, f, w) = (e, f, snd (gossipOnce (env_sync E) (hub_sync_config E) w))"
| "hub_step E InFallbackTick (e, f, w) =
     (let (f1, w1) = poll (Some (\<lambda>b w. api_InternetFallbackChanged (env_enc E) (clock w) b w)) (f, w) in (e, f1, w1))"
| "hub_step E (InLivenessTick ip port) (e, f, w) = (e, f, snd (registerSelfHub E ip port w))"
| "hub_step E (InClientConnect ch) (e, f, w) = (e, f, addClient ch w)"
| "hub_step E (InClientRead ch) (e, f, w) = (e, f, snd (clientReceive ch w))"
| "hub_step E (InClientLeave ch) (e, f, w) = (e, f, removeClient ch w)"
| "hub_step E (InEnvironment now r fs) (e, f, w) = (e, f, w\<lparr>clock := now, rand := r, faults := fs\<rparr>)"

text \<open>Runs from a start on a database whose routes are sound, such as an empty one.\<close>

inductive hub_reachable :: "hub_env \<Rightarrow> OgmEngine \<times> FallbackEngine \<times> 'a hub_world_scheme \<Rightarrow> bool" for E where
  start: "routes_sound (self E) w \<Longrightarrow> hub_reachable E (ogm_New, fallback_New, w)"
| step: "hub_reachable E s \<Longrightarrow> hub_reachable E (hub_step E i s)"

section \<open>Start and Close\<close>

datatype part = PAPI | PDaemon | PHeartbeat | PDiscovery | PDTN | PFallback | PSync | POGM | PLiveness

definition stop :: "part list \<Rightarrow> part list \<Rightarrow> part list" where
  "stop xs running = filter (\<lambda>p. p \<notin> set xs) running"

definition part_if :: "bool \<Rightarrow> part \<Rightarrow> part list" where
  "part_if b p = (if b then [p] else [])"

text \<open>
  \<^verbatim>\<open>New\<close>: the identity, the database, the sync address; \<open>opened\<close> is the result of \<^verbatim>\<open>storage.Open\<close>.
  The rest of it is the wiring above.
\<close>

definition hub_New :: "error + bytes \<Rightarrow> error + unit \<Rightarrow> hub_env \<Rightarrow> fs \<Rightarrow> (error + hub_env) \<times> fs" where
  "hub_New gen opened E f =
     (case LoadOrCreate (env_crypto E) gen (IdentityPath (env_cfg E)) f of
        (Inl e, f1) \<Rightarrow> (Inl (Wrap ''hubapp: load identity'' e), f1)
      | (Inr ident, f1) \<Rightarrow>
          (case opened of
             Inl e \<Rightarrow> (Inl (Wrap ''hubapp: open registry'' e), f1)
           | Inr _ \<Rightarrow>
               (case SyncBindAddr (sync_Resolve (env_sync E)) (OGMBindAddr (env_cfg E)) of
                  Inl e \<Rightarrow> (Inl (Wrap ''hubapp: sync bind addr'' e), f1)
                | Inr _ \<Rightarrow> (Inr (E\<lparr>env_id := ident\<rparr>), f1))))"

text \<open>
  \<^verbatim>\<open>Start\<close>: \<open>ok\<close> says which listeners open, \<open>addr\<close> is the address the OGM socket got, if it is a
  UDP address. The result is the error, if any, what runs, and the world: starting the DTN engine
  publishes the depth, the last two steps write the database. What the started loops do is input
  of \<open>hub_step\<close>.
\<close>

definition hub_Start ::
  "hub_env \<Rightarrow> (part \<Rightarrow> bool) \<Rightarrow> (string \<times> int) option \<Rightarrow> 'a hub_world_scheme \<Rightarrow>
   string option \<times> part list \<times> 'a hub_world_scheme" where
  "hub_Start E ok addr w =
     (let cfg = env_cfg E;
          daemon = (AppSocket cfg \<noteq> ''''); heartbeat = (HeartbeatAddr cfg \<noteq> ''''); discovery = has_discovery cfg;
          r1 = [PAPI];
          r2 = r1 @ part_if daemon PDaemon;
          r3 = r2 @ part_if heartbeat PHeartbeat;
          r4 = r3 @ part_if discovery PDiscovery;
          r5 = r4 @ [PDTN, PFallback];
          r6 = r5 @ [PSync];
          r7 = r6 @ [POGM];
          w1 = dtn_Start (hub_dtn E) (clock w) w
      in if \<not> ok PAPI then (Some ''start management API'', [], w)
         else if daemon \<and> \<not> ok PDaemon then (Some ''start app daemon'', stop [PAPI] r1, w)
         else if heartbeat \<and> \<not> ok PHeartbeat
           then (Some ''start node heartbeat'', stop (part_if daemon PDaemon @ [PAPI]) r2, w)
         else if discovery \<and> \<not> ok PDiscovery
           then (Some ''start LAN discovery'', stop (part_if heartbeat PHeartbeat @ part_if daemon PDaemon @ [PAPI]) r3, w)
         else if \<not> ok PSync
           then (Some ''start sync engine'', stop ([PFallback, PDTN] @ part_if daemon PDaemon @ [PAPI]) r5, w1)
         else if \<not> ok POGM
           then (Some ''start OGM engine'', stop ([PSync, PFallback, PDTN] @ part_if daemon PDaemon @ [PAPI]) r6, w1)
         else case addr of
           None \<Rightarrow> (Some ''register self hub'', r7, w1)
         | Some (ip, port) \<Rightarrow>
             (case registerSelfHub E ip port w1 of
                (Inl _, w2) \<Rightarrow> (Some ''register self hub'', r7, w2)
              | (Inr _, w2) \<Rightarrow>
                  (case signPendingProposals (env_crypto E) (env_id E) w2 of
                     (Inl _, w3) \<Rightarrow> (Some ''sign ban proposals'', r7 @ [PLiveness], w3)
                   | (Inr _, w3) \<Rightarrow> (None, r7 @ [PLiveness], w3))))"

definition hub_Close :: "Config \<Rightarrow> part list \<Rightarrow> part list" where
  "hub_Close cfg running =
     stop ([PLiveness, PFallback, PDTN] @ part_if (AppSocket cfg \<noteq> '''') PDaemon @ part_if (HeartbeatAddr cfg \<noteq> '''') PHeartbeat @
       part_if (has_discovery cfg) PDiscovery @ [PSync, POGM, PAPI]) running"

section \<open>The wiring satisfies the interfaces\<close>

lemma emit_routes [simp]:
  "routing_table (emit enc now b w) = routing_table w" "clock (emit enc now b w) = clock w"
  by (simp_all add: emit_def Publish_def broadcast_def split: option.split)

lemma api_routes [simp]:
  "routing_table (api_NodeStatusChanged enc now n st w) = routing_table w"
  "routing_table (api_HubStatusChanged enc now n st w) = routing_table w"
  "routing_table (api_RouteChanged enc now r w) = routing_table w"
  "routing_table (api_DtnQueueDepthChanged enc now d w) = routing_table w"
  "routing_table (api_InternetFallbackChanged enc now f w) = routing_table w"
  "routing_table (api_AppPresenceChanged enc now n a v w) = routing_table w"
  "routing_table (api_SosAlertPublished enc now n a t p w) = routing_table w"
  "routing_table (api_BanProposalChanged enc now b a v w) = routing_table w"
  "routing_table (api_BanVerdictChanged enc now b h x w) = routing_table w"
  by (simp_all add: api_defs)

lemma dtn_base_fields [simp]:
  "dtn_SelfID (dtn_base E) = self E" "dtn_LocalDeliverer (dtn_base E) = None"
  "dtn_Handler (dtn_base E) = Some (\<lambda>d w. api_DtnQueueDepthChanged (env_enc E) (clock w) d w)"
  by (simp_all add: dtn_base_def dtn_defaults_def Let_def)

lemma hub_dtn_fields [simp]:
  "dtn_SelfID (hub_dtn E) = self E"
  "dtn_Handler (hub_dtn E) = Some (\<lambda>d w. api_DtnQueueDepthChanged (env_enc E) (clock w) d w)"
  "dtn_LocalDeliverer (hub_dtn E :: ('a hub_world_scheme) dtn_config) =
    (if AppSocket (env_cfg E) \<noteq> '''' then Some (DeliverLocal (hub_daemon E :: ('a hub_world_scheme) daemon_config)) else None)"
  by (simp_all add: hub_dtn_def SetLocalDeliverer_def)

interpretation base_queue: dtn_quiet_client "dtn_base E :: ('a hub_world_scheme) dtn_config" for E
  by unfold_locales (auto simp: api_defs)

interpretation hub_queue: dtn_quiet_client "hub_dtn E :: ('a hub_world_scheme) dtn_config" for E
  by unfold_locales (auto simp: api_defs DeliverLocal_def Let_def split: if_splits)

lemma eventBridge_routes [simp]: "routing_table (eventBridge E ev w) = routing_table w"
  by (simp add: eventBridge_def OnRouteChanged_def hub_queue.processOnce_routes Let_def split: ogm_event.split)

lemma hub_Handler [simp]: "Handler (hub_ogm E) = Some (eventBridge E)" "SelfID (hub_ogm E) = self E"
  by (simp_all add: hub_ogm_def)

lemma eventBridge_faults: "faults w = [] \<Longrightarrow> faults (eventBridge E ev w) = []"
  by (simp add: eventBridge_def OnRouteChanged_def hub_queue.processOnce_faults Let_def api_defs split: ogm_event.split)

interpretation hub_router: ogm_quiet_client "hub_ogm E :: ('a hub_world_scheme) ogm_config" for E
  by unfold_locales (auto simp: eventBridge_faults)

section \<open>No other component writes routes\<close>

lemma same_routes_stores:
  "keeps (same_routes c) (app_Upsert n a nm v t)" "keeps (same_routes c) (app_Get n a)"
  "keeps (same_routes c) (DiscoverPeers a v)" "keeps (same_routes c) (UpdateProfile n h x y)"
  "keeps (same_routes c) (EndorseWithHubContact n m t)" "keeps (same_routes c) (config_Set k v)"
  "keeps (same_routes c) (config_GetBool k d)" "keeps (same_routes c) (UpdateSignature b s)"
  "keeps (same_routes c) (ListUnsignedByProposer n)"
  unfolding app_Upsert_def app_Get_def DiscoverPeers_def app_List_def UpdateProfile_def EndorseWithHubContact_def
    AddEndorsement_def HasProximity_def RecordProximity_def config_Set_def config_GetBool_def UpdateSignature_def
    ListUnsignedByProposer_def Let_def
  by (auto intro!: keeps_stmts keeps_exec keeps_bnd simp: same_routes_def stmt_defs split: option.splits if_splits)

lemma tables_routes: "tables w' = tables w \<Longrightarrow> routing_table w' = routing_table w"
  by (metis tables_fields(2))

lemma IsLocallyEnforced_routes [simp]: "routing_table (snd (IsLocallyEnforced h a v w)) = routing_table w"
  using IsLocallyEnforced_result [of h a v w] by (blast intro: tables_routes)

lemma RecordMembership_routes [simp]: "routing_table (snd (RecordMembership sha ty n ctx t w)) = routing_table w"
proof -
  obtain r w' where m: "RecordMembership sha ty n ctx t w = (r, w')" by force
  show ?thesis
  proof (cases "Valid ctx \<and> (\<exists>u. r = Inr u)")
    case True
    then obtain u where "r = Inr u" by blast
    from arg_cong [OF RecordMembership_success [OF m [unfolded this]], of routing_table] True m show ?thesis by simp
  next
    case False
    with RecordMembership_unchanged [OF m] m show ?thesis by (cases r) (auto intro: tables_routes)
  qed
qed

lemma store_routes [simp]:
  "routing_table (snd (app_Upsert n a nm v t w)) = routing_table w"
  "routing_table (snd (app_Get n a w)) = routing_table w"
  "routing_table (snd (DiscoverPeers a v w)) = routing_table w"
  "routing_table (snd (UpdateProfile n h x y w)) = routing_table w"
  "routing_table (snd (EndorseWithHubContact n m t w)) = routing_table w"
  "routing_table (snd (config_Set k v w)) = routing_table w"
  "routing_table (snd (config_GetBool k d w)) = routing_table w"
  "routing_table (snd (UpdateSignature b s w)) = routing_table w"
  "routing_table (snd (ListUnsignedByProposer n w)) = routing_table w"
  by (rule same_routesD, rule same_routes_stores)+

lemma gossip_routes [simp]:
  "routing_table (snd (MergeGossipNode n a b st lat lon w)) = routing_table w"
  "routing_table (snd (UpsertGossipRelay h ip port t w)) = routing_table w"
  "routing_table (snd (app_MergeGossip n ap nm v t w)) = routing_table w"
  "routing_table (snd (MergeGossipProposal p w)) = routing_table w"
  "routing_table (snd (MergeGossipVerdict vd w)) = routing_table w"
  by (rule keeps_eqD, (rule keeps_UpsertGossipRelay keeps_app_MergeGossip keeps_MergeGossipProposal
      keeps_MergeGossipVerdict keeps_MergeGossipNode), simp_all)+

text \<open>The same facts about a result that has been taken apart.\<close>

lemma routes_pairs:
  "UpsertSeen n t w = (r, w1) \<Longrightarrow> routing_table w1 = routing_table w"
  "UpsertHubSeen h ip port t w = (r2, w1) \<Longrightarrow> routing_table w1 = routing_table w"
  "EndorseWithHubContact x y t w = (r3, w1) \<Longrightarrow> routing_table w1 = routing_table w"
  "IsLocallyEnforced h a v w = (r4, w1) \<Longrightarrow> routing_table w1 = routing_table w"
  "app_Upsert n a nm v t w = (r5, w1) \<Longrightarrow> routing_table w1 = routing_table w"
  "app_Get n a w = (r6, w1) \<Longrightarrow> routing_table w1 = routing_table w"
  "DiscoverPeers a v w = (r7, w1) \<Longrightarrow> routing_table w1 = routing_table w"
  "config_GetBool k d w = (r8, w1) \<Longrightarrow> routing_table w1 = routing_table w"
  "MergeGossipProposal p w = (r9, w1) \<Longrightarrow> routing_table w1 = routing_table w"
  "MergeGossipVerdict vd w = (r10, w1) \<Longrightarrow> routing_table w1 = routing_table w"
  by (metis snd_conv routing_frames(1), metis snd_conv routing_frames(2), metis snd_conv store_routes(5),
      metis snd_conv IsLocallyEnforced_routes, metis snd_conv store_routes(1), metis snd_conv store_routes(2),
      metis snd_conv store_routes(3), metis snd_conv store_routes(7), metis snd_conv gossip_routes(4),
      metis snd_conv gossip_routes(5))

lemma RegisterPresence_routes:
  assumes "\<And>n st w. routing_table (f n st w) = routing_table w"
    and "RegisterPresence (Some f) n lat lon t w = (r, w')"
  shows "routing_table w' = routing_table w"
proof -
  obtain q w1 where u: "UpsertSeen n t w = (q, w1)" by force
  with routes_pairs(1) [OF u] assms(2) show ?thesis
    by (auto simp: RegisterPresence_def Let_def assms(1) split: sum.splits option.splits if_splits)
qed

lemmas presence_routes = RegisterPresence_routes [where f = "\<lambda>n st. eventBridge E (NodeStatusChanged n st)" for E,
    OF eventBridge_routes]

lemma heartbeat_routes:
  "routing_table (snd (handleHeartbeat (hub_heartbeat E) now m a b w)) = routing_table w"
  "routing_table (snd (handleSOS mar (hub_heartbeat E) now m sb w)) = routing_table w"
  "routing_table (snd (handleEndorse msg cfg now m eb w)) = routing_table w"
  by (auto simp: handleHeartbeat_def handleSOS_def handleEndorse_def hub_heartbeat_def Let_def
      split: option.split prod.split sum.split dest: presence_routes routes_pairs)

lemma hub_discovery_fields:
  "ld_Notifier (hub_discovery E) = Some (\<lambda>n st. eventBridge E (NodeStatusChanged n st))"
  "ld_HubNotifier (hub_discovery E) = Some (\<lambda>n st. eventBridge E (HubStatusChanged n st))"
  by (simp_all add: hub_discovery_def ld_New_def)

lemma discovery_routes:
  "routing_table (ld_receive J (hub_discovery E) now data w) = routing_table w"
  "routing_table (snd (sendHubBeacon J (hub_discovery E) sock ctx now w)) = routing_table w"
proof -
  have live: "routing_table (refreshHubLiveness (hub_discovery E) sock lan now w) = routing_table w" for lan w
    by (auto simp: refreshHubLiveness_def hub_discovery_fields Let_def split: prod.split sum.split dest: routes_pairs)
  show "routing_table (snd (sendHubBeacon J (hub_discovery E) sock ctx now w)) = routing_table w"
    by (simp add: sendHubBeacon_def Let_def live split: sum.split)
  show "routing_table (ld_receive J (hub_discovery E) now data w) = routing_table w"
    by (auto simp: ld_receive_def handleNodeBeacon_def hub_discovery_fields Let_def
        split: option.split prod.split sum.split dest: presence_routes)
qed

lemma hub_daemon_fields:
  "d_Sender (hub_daemon E) = Some (\<lambda>src dst p w. dtnengine_Enqueue (dtn_base E) (rand w) (clock w) src dst p w)"
  "d_AppPresenceChanged (hub_daemon E) = Some (\<lambda>n a v w. api_AppPresenceChanged (env_enc E) (clock w) n a v w)"
  "d_SosAlertPublished (hub_daemon E) = Some (\<lambda>n a t p w. api_SosAlertPublished (env_enc E) (clock w) n a t p w)"
  "d_Bans (hub_daemon E)" "d_Apps (hub_daemon E)"
  by (simp_all add: hub_daemon_def)

lemma Enqueue_pair:
  "dtnengine_Enqueue (dtn_base E) entropy now src dst p w = (r, w1) \<Longrightarrow> routing_table w1 = routing_table w"
  using base_queue.Enqueue_routes [of E entropy now src dst p w] by simp

lemma discover_filter_routes:
  fixes w :: "'b DB_scheme"
  shows "routing_table (snd (discover_filter cfg a ps w)) = routing_table w"
proof (induction ps arbitrary: w)
  case (Cons p ps)
  have IH: "discover_filter cfg a ps v = (out, v1) \<Longrightarrow> routing_table v1 = routing_table v"
    for out and v v1 :: "'b DB_scheme"
    using Cons.IH [of v] by simp
  show ?case
    by (auto simp: Let_def Cons.IH split: prod.split sum.split option.split bool.split dest!: routes_pairs IH)
qed simp

lemma discover_filter_pair: "discover_filter cfg a ps w = (out, w1) \<Longrightarrow> routing_table w1 = routing_table w"
  using discover_filter_routes [of cfg a ps w] by simp

lemma daemon_routes:
  "routing_table (snd (handleRegister (hub_daemon E) entropy now r rb w)) = routing_table w"
  "routing_table (snd (handleSend (hub_daemon E) r sb w)) = routing_table w"
  "routing_table (snd (handleReceive r w)) = routing_table w"
  "routing_table (snd (handlePublish (hub_daemon E) r pb w)) = routing_table w"
  "routing_table (snd (subscribe_open ch r w)) = routing_table w"
  "subscribe_close arm ch t k w = Some (resp, w1) \<Longrightarrow> routing_table w1 = routing_table w"
  "routing_table (snd (handleDiscoverPeers cfg r w)) = routing_table w"
proof -
  show "routing_table (snd (handleRegister (hub_daemon E) entropy now r rb w)) = routing_table w"
    by (auto simp: handleRegister_def hub_daemon_fields Let_def split: prod.split sum.split bool.split dest!: routes_pairs)
  show "routing_table (snd (handleSend (hub_daemon E) r sb w)) = routing_table w"
    by (auto simp: handleSend_def hub_daemon_fields split: prod.split sum.split option.split dest: Enqueue_pair)
  show "routing_table (snd (handleReceive r w)) = routing_table w"
    by (simp add: handleReceive_def Let_def split: option.split list.split)
  show "routing_table (snd (handlePublish (hub_daemon E) r pb w)) = routing_table w"
    by (simp add: handlePublish_def hub_daemon_fields broadcastTopic_def Let_def split: option.split)
  show "routing_table (snd (subscribe_open ch r w)) = routing_table w"
    by (simp add: subscribe_open_def Let_def split: option.split)
  show "subscribe_close arm ch t k w = Some (resp, w1) \<Longrightarrow> routing_table w1 = routing_table w"
    by (auto simp: subscribe_close_def topicReceive_def Let_def split: select_arm.splits list.splits)
  show "routing_table (snd (handleDiscoverPeers cfg r w)) = routing_table w"
    by (auto simp: handleDiscoverPeers_def Let_def split: prod.split sum.split option.split
        dest!: routes_pairs discover_filter_pair)
qed

lemma sign_routes: "routing_table (snd (signPendingProposals cr ident w)) = routing_table w"
proof -
  have "keeps (same_routes c) (sign_each cr ident ps)" for c ps
    by (induction ps) (auto intro!: keeps_bnd same_routes_stores simp: keeps_def [of _ "Pair _"])
  then show ?thesis
    unfolding signPendingProposals_def by (intro same_routesD keeps_bnd same_routes_stores)
qed

lemma buildMessage_routes:
  fixes w :: "'b DB_scheme"
  shows "routing_table (snd (buildMessage cfg w)) = routing_table w"
proof -
  have "keeps (same_routes c :: 'b DB_scheme \<Rightarrow> bool) (gossip_apps cfg as)" for c as
  proof (unfold keeps_def, intro allI impI)
    fix w :: "'b DB_scheme" assume "same_routes c w"
    then show "same_routes c (snd (gossip_apps cfg as w))"
    proof (induction as arbitrary: w)
      case (Cons a as)
      obtain r w1 where i: "(if sy_Bans cfg then IsLocallyEnforced (sy_LocalHub cfg) (a_AppID a) (a_AppVersion a) w
          else (Inr False, w)) = (r, w1)" by force
      have "routing_table w1 = routing_table w" using i by (auto dest: routes_pairs split: if_splits)
      with Cons.prems have w1: "same_routes c w1" by (simp add: same_routes_def)
      have "keeps (same_routes c :: 'b DB_scheme \<Rightarrow> bool) (\<lambda>w. bnd (gossip_apps cfg as) (\<lambda>recs. ret (app_record a # recs)) w)"
        by (intro keeps_bnd) (use Cons.IH in \<open>auto simp: keeps_def\<close>)
      then show ?case
        using Cons.IH [OF w1] w1 unfolding gossip_apps.simps i by (auto simp: keeps_def split: sum.split bool.split)
    qed simp
  qed
  then show ?thesis
    unfolding buildMessage_def Nodes_def ListRelayHubs_def app_List_def ListProposals_def ListAllVerdicts_def
    by (intro same_routesD keeps_bnd) (auto intro!: keeps_query keeps_bnd simp: keeps_def [of _ "Pair _"] split: prod.split)
qed

lemma sync_apply_routes: "routing_table (sync_apply (hub_sync_config E) msg w) = routing_table w"
proof -
  have n: "sy_BanNotify (hub_sync_config E) = Some \<lparr>BanProposalChanged = (\<lambda>b a v w. api_BanProposalChanged (env_enc E) (clock w) b a v w),
        BanVerdictChanged = (\<lambda>b h x w. api_BanVerdictChanged (env_enc E) (clock w) b h x w)\<rparr>"
    by (simp add: hub_sync_config_def sync_New_def)
  let ?P = "\<lambda>v. routing_table v = routing_table w"
  have "?P v \<Longrightarrow> ?P (apply_node r v)" "?P v \<Longrightarrow> ?P (apply_relay rh v)" "?P v \<Longrightarrow> ?P (apply_app ap v)" for v r rh ap
    by (simp_all add: apply_node_def apply_relay_def apply_app_def Let_def)
  moreover have "?P v \<Longrightarrow> ?P (apply_proposal (hub_sync_config E) bp v)" "?P v \<Longrightarrow> ?P (apply_verdict (hub_sync_config E) bv v)"
    for v bp bv
    by (auto simp: apply_proposal_def apply_verdict_def n split: prod.split sum.split bool.split dest!: routes_pairs)
  ultimately show ?thesis
    unfolding sync_apply_def Let_def by (auto intro!: fold_keeps [where P = ?P])
qed

lemma sync_routes:
  "routing_table (sync_receive N (hub_sync_config E) data w) = routing_table w"
  "routing_table (snd (gossipOnce N (hub_sync_config E) w)) = routing_table w"
proof -
  show "routing_table (sync_receive N (hub_sync_config E) data w) = routing_table w"
    by (simp add: sync_receive_def sync_apply_routes split: option.split)
  have s: "sy_SignPending (hub_sync_config E) = Some (\<lambda>w. snd (signPendingProposals (env_crypto E) (env_id E) w))"
    by (simp add: hub_sync_config_def sync_New_def)
  have b: "buildMessage cfg v = (r, v1) \<Longrightarrow> routing_table v1 = routing_table v" for r and cfg :: "('a hub_world_scheme) sync_config"
    and v v1 :: "'a hub_world_scheme"
    using buildMessage_routes [of cfg v] by simp
  show "routing_table (snd (gossipOnce N (hub_sync_config E) w)) = routing_table w"
    using sign_routes [of "env_crypto E" "env_id E" w]
    by (auto simp: gossipOnce_def s Let_def split: prod.split sum.split option.split dest!: b)
qed

lemma other_routes:
  "routing_table (snd (poll (Some (\<lambda>b w. api_InternetFallbackChanged (env_enc E) (clock w) b w)) (f, w))) = routing_table w"
  "routing_table (snd (registerSelfHub E ip port w)) = routing_table w"
  "routing_table (addClient ch w) = routing_table w" "routing_table (removeClient ch w) = routing_table w"
  "routing_table (snd (clientReceive ch w)) = routing_table w"
  by (auto simp: poll_def registerSelfHub_def Let_def addClient_def removeClient_def clientReceive_def
      split: prod.split sum.split option.split list.split dest!: routes_pairs)

section \<open>The whole hub\<close>

text \<open>Seen from the routing engine, every input of another component leaves the routes alone.\<close>

lemma hub_step_simulates:
  fixes w :: "'a hub_world_scheme"
  assumes "ogm_reachable (env_net E) (hub_ogm E) (e, w)" and "hub_step E i (e, f, w) = (e', f', w')"
  shows "ogm_reachable (env_net E) (hub_ogm E) (e', w')"
proof (cases "\<exists>j. i = InOgm j")
  case True
  then obtain j where "ogm_handle (env_net E) (hub_ogm E) (clock w) j (e, w) = (e', w')"
    using assms(2) by (auto split: prod.splits)
  with ogm_reachable.step [OF assms(1), of "clock w" j] show ?thesis by simp
next
  case False
  then have "e' = e" and "routing_table w' = routing_table w"
    using assms(2)
    by (cases i; auto simp: hub_queue.processOnce_routes daemon_routes heartbeat_routes discovery_routes sync_routes other_routes
        split: prod.splits option.splits dest: daemon_routes(6) arg_cong [of _ _ "\<lambda>p. routing_table (snd p)"])+
  with ogm_reachable.other [OF assms(1)] show ?thesis by simp
qed

lemma hub_simulates_router:
  "hub_reachable E s \<Longrightarrow> ogm_reachable (env_net E) (hub_ogm E) (fst s, snd (snd s))"
proof (induction rule: hub_reachable.induct)
  case (start w)
  then show ?case by (simp add: ogm_reachable.start)
next
  case (step s i)
  then show ?case
    using hub_step_simulates [of E "fst s" "snd (snd s)" i "fst (snd s)"]
    by (cases s; cases "hub_step E i s") auto
qed

text \<open>
  C1. The routing state of a running hub is sound. Whatever interleaving of mesh packets, timer ticks,
  app requests, heartbeats, beacons and gossip the hub processes, with any failures of the database,
  every stored route and every alternate kept in memory has a quality in the unit interval, a
  non-negative latency, at least one hop and well-formed identities, and leads to another node than
  the hub itself; no destination has more than three alternates, all with different next hops.
\<close>

theorem hub_routes_sound:
  assumes "hub_reachable E (e, f, w)"
  shows "routes_sound (self E) w \<and> engine_ok (self E) e"
  using hub_router.reachable_ok [OF hub_simulates_router [OF assms]] by simp

definition sample_env :: hub_env where
  "sample_env = \<lparr>env_cfg = DefaultConfig, env_id = \<lparr>id_NodeID = sample_id 1, PublicKey = [], PrivateKey = []\<rparr>,
     env_crypto = \<lparr>Sum256 = id, NewKeyFromSeed = id, Public = id, Seed = id, ed_Sign = (\<lambda>_ m. m), ed_Verify = (\<lambda>_ _ _. True)\<rparr>,
     env_enc = (\<lambda>_. Some [1]), env_net = sample_net,
     env_sync = \<lparr>Marshal_Sync = (\<lambda>_. Some []), Unmarshal_Sync = (\<lambda>_. None), sync_Resolve = (\<lambda>_. None)\<rparr>,
     env_json = \<lparr>json_Marshal = (\<lambda>_. Inr [123, 125]), json_Unmarshal = (\<lambda>_. Inl (Errmsg ''''))\<rparr>,
     env_sos = (\<lambda>_. []), env_errmsg = (\<lambda>_. '''')\<rparr>"

definition sample_hub :: hub_world where
  "sample_hub = DB.extend empty_DB \<lparr>lastDepth = - 1, clients = [], sessions = Map.empty, inbox = (\<lambda>_. []),
     topics = [], chans = (\<lambda>_. []), clock = 0, rand = Inr []\<rparr>"

theorem hub_routes_sound_witness:
  "routes_sound (sample_id 1) (snd (snd (hub_step sample_env InDtnTick (ogm_New, fallback_New, sample_hub))))"
proof -
  let ?s = "hub_step sample_env InDtnTick (ogm_New, fallback_New, sample_hub)"
  have "hub_reachable sample_env (ogm_New, fallback_New, sample_hub)"
    by (rule hub_reachable.start) (simp add: routes_sound_def sample_hub_def DB.defs empty_DB_def)
  then have "hub_reachable sample_env ?s" by (rule hub_reachable.step)
  then have "hub_reachable sample_env (fst ?s, fst (snd ?s), snd (snd ?s))" by simp
  from hub_routes_sound [OF this] show ?thesis by (simp add: self_def sample_env_def)
qed

section \<open>Store and forward on the hub\<close>

text \<open>
  C2. Store and forward loses nothing. A pass of the DTN engine, wired into the hub, under any failures
  of the database, keeps every bundle that has not expired and whose destination is offline or has
  no route: afterwards the queue still holds it with the same source, destination, payload and
  expiry.
\<close>

theorem hub_keeps_bundles:
  assumes "db_wf w" and "b \<in> set (dtq_queue w)" and "UnixMilli now < dq_expires b" and "length (dq_dst b) = 32"
    and "(\<forall>r \<in> set (node_registry w). nr_status r = NodeStatusOnline \<longrightarrow> scan_id (nr_id r) \<noteq> dq_dst b) \<or>
      find_row rt_dest (dq_dst b) (routing_table w) = None"
  shows "holds_bundle b (processOnce (hub_dtn E) now w)"
  using hub_queue.processOnce_holds [OF _ assms(2-5)] db_wf_unique [OF assms(1)] by blast

definition sample_row :: bundle_row where
  "sample_row = \<lparr>dq_id = replicate 16 3, dq_src = sample_id 1, dq_dst = sample_id 2, dq_payload = [9], dq_expires = 50, dq_retry = 0\<rparr>"

theorem hub_keeps_bundles_witness:
  "holds_bundle sample_row (processOnce (hub_dtn sample_env) 0 (sample_hub\<lparr>dtq_queue := [sample_row], faults := [True, False, True]\<rparr>))"
proof (rule hub_keeps_bundles)
  show "db_wf (sample_hub\<lparr>dtq_queue := [sample_row], faults := [True, False, True]\<rparr>)"
    by (simp add: db_wf_def sample_hub_def DB.defs empty_DB_def unique_key_def)
qed (simp_all add: sample_hub_def DB.defs empty_DB_def sample_row_def UnixMilli_def)

text \<open>
  Without failures a pass keeps exactly the live bundles that cannot be delivered yet, in order and
  with one more retry each: the expired ones and the deliverable ones are gone, nothing else.
\<close>

theorem hub_pass_exact:
  assumes "faults w = []" and "db_wf w" and "routes_sound (self E) w" and "\<forall>r \<in> set (dtq_queue w). length (dq_id r) = 16"
    and "length (self E) = 32"
  shows "dtq_queue (processOnce (hub_dtn E) now w) =
    map bump (filter (\<lambda>r. UnixMilli now < dq_expires r \<and> \<not> reachable_dst w (scan_id (dq_dst r))) (dtq_queue w))"
proof -
  have "find_row rt_dest (self E) (routing_table w) = None"
    using assms(3) by (force simp: find_row_None_iff routes_sound_def route_sound_def to_Route_def)
  then show ?thesis
    using hub_queue.processOnce_exact [of w E now] assms(1,4) db_wf_unique [OF assms(2)] by simp
qed

theorem hub_pass_exact_witness:
  "dtq_queue (processOnce (hub_dtn sample_env) 0 (sample_hub\<lparr>dtq_queue := [sample_row, sample_row\<lparr>dq_id := replicate 16 4, dq_expires := 0\<rparr>]\<rparr>))
    = [bump sample_row]"
proof -
  let ?w = "sample_hub\<lparr>dtq_queue := [sample_row, sample_row\<lparr>dq_id := replicate 16 4, dq_expires := 0\<rparr>]\<rparr>"
  have "dtq_queue (processOnce (hub_dtn sample_env) 0 ?w) =
    map bump (filter (\<lambda>r. UnixMilli 0 < dq_expires r \<and> \<not> reachable_dst ?w (scan_id (dq_dst r))) (dtq_queue ?w))"
    by (rule hub_pass_exact)
      (simp_all add: sample_hub_def DB.defs empty_DB_def sample_row_def db_wf_def unique_key_def routes_sound_def self_def sample_env_def)
  moreover have "\<not> reachable_dst ?w d" for d
    by (simp add: reachable_dst_def sample_hub_def DB.defs empty_DB_def)
  ultimately show ?thesis by (simp add: sample_row_def UnixMilli_def)
qed

section \<open>Failover on the hub\<close>


definition sample_hub_route :: route_row where
  "sample_hub_route = \<lparr>rt_dest = sample_id 3, rt_next = sample_id 2, rt_tq = Fin 1, rt_latency = 0, rt_hops = 1\<rparr>"


section \<open>Lifecycle\<close>

text \<open>Everything the configuration asks for, in the order it is started.\<close>

definition all_parts :: "Config \<Rightarrow> part list" where
  "all_parts cfg = [PAPI] @ part_if (AppSocket cfg \<noteq> '''') PDaemon @ part_if (HeartbeatAddr cfg \<noteq> '''') PHeartbeat
     @ part_if (has_discovery cfg) PDiscovery @ [PDTN, PFallback, PSync, POGM, PLiveness]"

text \<open>The parts an error leaves running.\<close>

definition left_running :: "string option \<Rightarrow> part set" where
  "left_running err = (case err of
     None \<Rightarrow> UNIV
   | Some m \<Rightarrow>
       if m \<in> {''start sync engine'', ''start OGM engine''} then {PHeartbeat, PDiscovery}
       else if m = ''register self hub'' then - {PLiveness}
       else if m = ''sign ban proposals'' then UNIV
       else {})"

lemma filter_part_if [simp]: "filter P (part_if b p) = part_if (b \<and> P p) p"
  by (simp add: part_if_def)

lemma part_if_False [simp]: "part_if False p = []"
  by (simp add: part_if_def)

lemma set_part_if [simp]: "set (part_if b p) = (if b then {p} else {})"
  by (simp add: part_if_def)

lemma left_running_simps:
  "left_running None = UNIV" "left_running (Some ''start management API'') = {}" "left_running (Some ''start app daemon'') = {}"
  "left_running (Some ''start node heartbeat'') = {}" "left_running (Some ''start LAN discovery'') = {}"
  "left_running (Some ''start sync engine'') = {PHeartbeat, PDiscovery}"
  "left_running (Some ''start OGM engine'') = {PHeartbeat, PDiscovery}"
  "left_running (Some ''register self hub'') = - {PLiveness}" "left_running (Some ''sign ban proposals'') = UNIV"
  by (simp_all add: left_running_def)


end
