(* ===== verification/Sniff.thy ===== *)
theory Sniff
  imports HubApp
begin

text \<open>
  The identity pages that the servers of a hub show to a scanner on the LAN:
  \<^verbatim>\<open>hub/internal/managementapi/sniff.go\<close> and \<^verbatim>\<open>hub/internal/nodeheartbeat/sniff.go\<close>, with the helpers
  that they, and \<^verbatim>\<open>monitor/internal/server/sniff.go\<close>, each have a copy of.

  Shown: a page lists exactly the listeners with a known port, and the addresses in it parse back.
\<close>

section \<open>Addresses\<close>

definition JoinHostPort :: "string \<Rightarrow> string \<Rightarrow> string" where
  "JoinHostPort host port = (if CHR '':'' \<in> set host then ''['' @ host @ '']:'' @ port else host @ '':'' @ port)"

text \<open>The number of \<^verbatim>\<open>strconv.Atoi\<close>, as it is when the error is ignored.\<close>

definition Atoi_value :: "string \<Rightarrow> int" where
  "Atoi_value s =
     (let neg = HasPrefix s ''-'';
          ds = (if neg \<or> HasPrefix s ''+'' then drop 1 s else s)
      in if ds = [] \<or> \<not> list_all (\<lambda>c. digit_value c \<noteq> None) ds then 0
         else case read_digits ds of
           None \<Rightarrow> 0
         | Some n \<Rightarrow> max (- (2 ^ 63)) (min (2 ^ 63 - 1) (if neg then - n else n)))"

text \<open>The argument is the \<^verbatim>\<open>Host\<close> of the request.\<close>

definition requestHost :: "string \<Rightarrow> string" where
  "requestHost h =
     (if h = '''' then ''127.0.0.1''
      else case SplitHostPort h of
        Some (host, _) \<Rightarrow> host
      | None \<Rightarrow> (let br = (\<lambda>c. c = CHR ''['' \<or> c = CHR '']'')
                 in rev (dropWhile br (rev (dropWhile br h)))))"

definition portFromListenAddr :: "string \<Rightarrow> int" where
  "portFromListenAddr addr =
     (if addr = '''' then 0
      else case SplitHostPort addr of None \<Rightarrow> 0 | Some (_, portStr) \<Rightarrow> Atoi_value portStr)"

section \<open>The pages\<close>

record sniffService =
  ss_Name :: string
  ss_Port :: int
  ss_URL :: string

record SniffConfig =
  sc_MeshID :: string
  sc_AppVersion :: string
  sc_HeartbeatPort :: int
  sc_ManagementPort :: int
  sc_OGMPort :: int
  sc_DiscoveryPort :: int

record sniff_page =
  sp_meshId :: string
  sp_appVersion :: string
  sp_url :: string
  sp_services :: "sniffService list"

datatype sniff_response = SniffNotAllowed | SniffHead | SniffPage sniff_page

definition service :: "string \<Rightarrow> int \<Rightarrow> string \<Rightarrow> sniffService list" where
  "service name port url = (if port > 0 then [\<lparr>ss_Name = name, ss_Port = port, ss_URL = url\<rparr>] else [])"

definition heartbeat_url :: "string \<Rightarrow> int \<Rightarrow> string" where
  "heartbeat_url host port = ''http://'' @ JoinHostPort host (show_int port) @ ''/v1/heartbeat''"

text \<open>\<open>listenAddr\<close> is the address of the management server, \<open>cfg\<close> what \<^verbatim>\<open>SetSniff\<close> installed.\<close>

definition mgmt_handleSniff :: "string \<Rightarrow> SniffConfig \<Rightarrow> string \<Rightarrow> string \<Rightarrow> sniff_response" where
  "mgmt_handleSniff listenAddr cfg meth reqHost =
     (if meth \<noteq> ''GET'' \<and> meth \<noteq> ''HEAD'' then SniffNotAllowed
      else
        let host = requestHost reqHost;
            mgmtPort = (if sc_ManagementPort cfg \<le> 0 then portFromListenAddr listenAddr else sc_ManagementPort cfg);
            managementURL = (if mgmtPort > 0 then ''ws://'' @ JoinHostPort host (show_int mgmtPort) @ ''/ws'' else '''');
            services = service ''QuakeMesh Hub Heartbeat'' (sc_HeartbeatPort cfg) (heartbeat_url host (sc_HeartbeatPort cfg)) @
              service ''QuakeMesh Hub Management'' mgmtPort managementURL @
              service ''QuakeMesh Hub OGM'' (sc_OGMPort cfg) '''' @
              service ''QuakeMesh Hub Discovery'' (sc_DiscoveryPort cfg) ''''
        in if meth = ''HEAD'' then SniffHead
           else SniffPage \<lparr>sp_meshId = sc_MeshID cfg, sp_appVersion = sc_AppVersion cfg, sp_url = managementURL, sp_services = services\<rparr>)"

text \<open>The heartbeat server has the ports in its own configuration, and the identifier as an array.\<close>

definition hb_handleSniff :: "string \<Rightarrow> NodeID \<Rightarrow> SniffConfig \<Rightarrow> string \<Rightarrow> string \<Rightarrow> sniff_response" where
  "hb_handleSniff listenAddr localHub cfg meth reqHost =
     (if meth \<noteq> ''GET'' \<and> meth \<noteq> ''HEAD'' then SniffNotAllowed
      else
        let host = requestHost reqHost;
            hbPort = (if sc_HeartbeatPort cfg \<le> 0 then portFromListenAddr listenAddr else sc_HeartbeatPort cfg);
            heartbeatURL = (if hbPort > 0 then heartbeat_url host hbPort else '''');
            services = service ''QuakeMesh Hub Heartbeat'' hbPort heartbeatURL @
              service ''QuakeMesh Hub Management'' (sc_ManagementPort cfg) '''' @
              service ''QuakeMesh Hub OGM'' (sc_OGMPort cfg) '''' @
              service ''QuakeMesh Hub Discovery'' (sc_DiscoveryPort cfg) '''';
            meshID = (if localHub \<noteq> zero_id then NodeID_String localHub else '''')
        in if meth = ''HEAD'' then SniffHead
           else SniffPage \<lparr>sp_meshId = meshID, sp_appVersion = sc_AppVersion cfg, sp_url = heartbeatURL, sp_services = services\<rparr>)"

text \<open>What \<^verbatim>\<open>New\<close> of \<^verbatim>\<open>hubapp.go\<close> passes to both.\<close>

definition hub_sniff :: "hub_env \<Rightarrow> SniffConfig" where
  "hub_sniff E = \<lparr>sc_MeshID = NodeID_String (self E), sc_AppVersion = cfg_AppVersion (env_cfg E),
     sc_HeartbeatPort = port_or_zero (HeartbeatAddr (env_cfg E)), sc_ManagementPort = port_or_zero (ManagementAddr (env_cfg E)),
     sc_OGMPort = port_or_zero (OGMBindAddr (env_cfg E)), sc_DiscoveryPort = port_or_zero (DiscoveryBind (env_cfg E))\<rparr>"

section \<open>Addresses parse back\<close>

lemma last_colon_append: "CHR '':'' \<notin> set p \<Longrightarrow> last_colon (h @ '':'' @ p) = Some (length h)"
proof -
  assume p: "CHR '':'' \<notin> set p"
  have "takeWhile (\<lambda>c. c \<noteq> CHR '':'') (rev p @ CHR '':'' # rev h) = rev p"
    using p by (subst takeWhile_append2) auto
  then show ?thesis by (simp add: last_colon_def)
qed

lemma SplitHostPort_JoinHostPort:
  assumes "\<forall>c \<in> set host. c \<noteq> CHR ''['' \<and> c \<noteq> CHR '']''" and "\<forall>c \<in> set port. c \<notin> {CHR '':'', CHR ''['', CHR '']''}"
  shows "SplitHostPort (JoinHostPort host port) = Some (host, port)"
proof (cases "CHR '':'' \<in> set host")
  case True
  let ?s = "''['' @ host @ '']:'' @ port"
  have c: "last_colon ?s = Some (length host + 2)"
    using last_colon_append [of port "''['' @ host @ '']''"] assms(2) by auto
  have "takeWhile (\<lambda>c. c \<noteq> CHR '']'') (host @ '']:'' @ port) = host"
    using assms(1) by (subst takeWhile_append2) auto
  then have e: "length (takeWhile (\<lambda>c. c \<noteq> CHR '']'') ?s) = length host + 1" by simp
  have "CHR ''['' \<notin> set (drop 1 ?s)" "CHR '']'' \<notin> set (drop (length host + 1 + 1) ?s)"
    using assms by auto
  then show ?thesis
    using True c e by (simp add: SplitHostPort_def JoinHostPort_def HasPrefix_def Let_def)
next
  case False
  let ?s = "host @ '':'' @ port"
  have c: "last_colon ?s = Some (length host)"
    using last_colon_append [of port host] assms(2) by auto
  have "\<not> HasPrefix ?s ''[''"
    using assms(1) by (cases host) (auto simp: HasPrefix_def)
  moreover have "CHR ''['' \<notin> set ?s" "CHR '']'' \<notin> set ?s" using assms by auto
  ultimately show ?thesis
    using False c by (simp add: SplitHostPort_def JoinHostPort_def Let_def)
qed

lemma digit_value_char [simp]: "d < 10 \<Longrightarrow> digit_value (digit_char d) = Some d"
  by (simp add: digit_value_def digit_char_def Let_def)

lemma show_nat_digits: "list_all (\<lambda>c. digit_value c \<noteq> None) (show_nat n) \<and> show_nat n \<noteq> []"
proof (induction n rule: show_nat.induct)
  case (1 n)
  then show ?case by (cases "n < 10") (simp_all add: show_nat.simps [of n])
qed

lemma fold_show_nat: "fold (\<lambda>d a. 10 * a + d) (map (\<lambda>c. int (the (digit_value c))) (show_nat n)) 0 = int n"
proof (induction n rule: show_nat.induct)
  case (1 n)
  show ?case
    by (subst show_nat.simps) (use 1 in \<open>simp add: zdiv_int zmod_int\<close>)
qed

lemma read_digits_show_nat: "read_digits (show_nat n) = Some (int n)"
proof -
  have "takeWhile (\<lambda>c. digit_value c \<noteq> None) (show_nat n) = show_nat n"
    using show_nat_digits [of n] by (simp add: takeWhile_eq_all_conv list_all_iff)
  then show ?thesis
    unfolding read_digits_def Let_def using show_nat_digits [of n] fold_show_nat [of n] by (auto simp only: map_is_Nil_conv if_False)
qed

lemma show_nat_no_sign: "\<not> HasPrefix (show_nat n) ''-'' \<and> \<not> HasPrefix (show_nat n) ''+''"
proof -
  obtain c cs where s: "show_nat n = c # cs" using show_nat_digits [of n] by (cases "show_nat n") auto
  then have "digit_value c \<noteq> None" using show_nat_digits [of n] by simp
  then show ?thesis unfolding s by (auto simp: HasPrefix_def digit_value_def Let_def split: if_splits)
qed

lemma Atoi_show_int:
  assumes "0 \<le> p" and "p < 2 ^ 63"
  shows "Atoi_value (show_int p) = p"
  using assms show_nat_digits [of "nat p"] show_nat_no_sign [of "nat p"]
  by (simp add: Atoi_value_def show_int_def Let_def read_digits_show_nat)

lemma show_int_clean: "0 \<le> p \<Longrightarrow> \<forall>c \<in> set (show_int p). c \<notin> {CHR '':'', CHR ''['', CHR '']''}"
  using show_nat_digits [of "nat p"]
  by (auto simp: show_int_def list_all_iff digit_value_def Let_def dest!: bspec)

lemma address_parses_back:
  assumes "\<forall>c \<in> set host. c \<noteq> CHR ''['' \<and> c \<noteq> CHR '']''" and "0 \<le> p" and "p < 2 ^ 63"
  shows "portFromListenAddr (JoinHostPort host (show_int p)) = p" and "requestHost (JoinHostPort host (show_int p)) = host"
proof -
  have s: "SplitHostPort (JoinHostPort host (show_int p)) = Some (host, show_int p)"
    using assms by (intro SplitHostPort_JoinHostPort show_int_clean)
  have "JoinHostPort host (show_int p) \<noteq> ''''" by (simp add: JoinHostPort_def)
  with s show "portFromListenAddr (JoinHostPort host (show_int p)) = p" "requestHost (JoinHostPort host (show_int p)) = host"
    by (simp_all add: portFromListenAddr_def requestHost_def Atoi_show_int [OF assms(2,3)])
qed

section \<open>Both pages of a hub\<close>

definition listed :: "sniff_page \<Rightarrow> (string \<times> int) list" where
  "listed p = map (\<lambda>s. (ss_Name s, ss_Port s)) (sp_services p)"

text \<open>The listeners of a hub with the ports that its configuration names.\<close>

definition listeners_of :: "Config \<Rightarrow> (string \<times> int) list" where
  "listeners_of cfg = filter (\<lambda>(n, p). p > 0)
     [(''QuakeMesh Hub Heartbeat'', port_or_zero (HeartbeatAddr cfg)), (''QuakeMesh Hub Management'', port_or_zero (ManagementAddr cfg)),
      (''QuakeMesh Hub OGM'', port_or_zero (OGMBindAddr cfg)), (''QuakeMesh Hub Discovery'', port_or_zero (DiscoveryBind cfg))]"

text \<open>
  A scanner sees one hub. The page of the management server and that of the heartbeat server show the
  same identifier and the same services: exactly the listeners with a positive port. The address that a
  page advertises, given back as a listening address or as a \<^verbatim>\<open>Host\<close>, reads as the port that was
  printed and the host of the request.
\<close>

theorem sniff_pages_agree:
  assumes "port_or_zero (HeartbeatAddr (env_cfg E)) > 0" and "port_or_zero (ManagementAddr (env_cfg E)) > 0"
    and "self E \<noteq> zero_id" and "\<forall>c \<in> set (requestHost h). c \<noteq> CHR ''['' \<and> c \<noteq> CHR '']''"
    and "port_or_zero (ManagementAddr (env_cfg E)) < 2 ^ 63" and "port_or_zero (HeartbeatAddr (env_cfg E)) < 2 ^ 63"
  shows "\<exists>ma ba m b. mgmt_handleSniff (ManagementAddr (env_cfg E)) (hub_sniff E) ''GET'' h = SniffPage m \<and>
    hb_handleSniff (HeartbeatAddr (env_cfg E)) (self E) (hub_sniff E) ''GET'' h = SniffPage b \<and>
    listed m = listeners_of (env_cfg E) \<and> listed b = listed m \<and> sp_meshId b = sp_meshId m \<and>
    sp_url m = ''ws://'' @ ma @ ''/ws'' \<and> portFromListenAddr ma = port_or_zero (ManagementAddr (env_cfg E)) \<and> requestHost ma = requestHost h \<and>
    sp_url b = ''http://'' @ ba @ ''/v1/heartbeat'' \<and> portFromListenAddr ba = port_or_zero (HeartbeatAddr (env_cfg E)) \<and> requestHost ba = requestHost h"
proof -
  let ?host = "requestHost h"
  note parses = address_parses_back [OF assms(4)]
  have m: "portFromListenAddr (JoinHostPort ?host (show_int (port_or_zero (ManagementAddr (env_cfg E))))) = port_or_zero (ManagementAddr (env_cfg E))"
    "requestHost (JoinHostPort ?host (show_int (port_or_zero (ManagementAddr (env_cfg E))))) = ?host"
    using parses [OF _ assms(5)] assms(2) by simp_all
  have b: "portFromListenAddr (JoinHostPort ?host (show_int (port_or_zero (HeartbeatAddr (env_cfg E))))) = port_or_zero (HeartbeatAddr (env_cfg E))"
    "requestHost (JoinHostPort ?host (show_int (port_or_zero (HeartbeatAddr (env_cfg E))))) = ?host"
    using parses [OF _ assms(6)] assms(1) by simp_all
  show ?thesis
    using assms(1-3) m b
    by (intro exI [of _ "JoinHostPort ?host (show_int (port_or_zero (ManagementAddr (env_cfg E))))"]
        exI [of _ "JoinHostPort ?host (show_int (port_or_zero (HeartbeatAddr (env_cfg E))))"])
       (simp add: mgmt_handleSniff_def hb_handleSniff_def hub_sniff_def Let_def service_def listed_def listeners_of_def heartbeat_url_def)
qed

definition sniff_env :: hub_env where
  "sniff_env = sample_env\<lparr>env_cfg := DefaultConfig\<lparr>ManagementAddr := ''127.0.0.1:8083''\<rparr>\<rparr>"

lemma sniff_pages_agree_witness:
  "\<exists>m. mgmt_handleSniff (ManagementAddr (env_cfg sniff_env)) (hub_sniff sniff_env) ''GET'' '''' = SniffPage m \<and>
     listed m = listeners_of (env_cfg sniff_env)"
proof -
  have "port_or_zero (HeartbeatAddr (env_cfg sniff_env)) > 0" "port_or_zero (ManagementAddr (env_cfg sniff_env)) > 0"
    "self sniff_env \<noteq> zero_id" "\<forall>c \<in> set (requestHost ''''). c \<noteq> CHR ''['' \<and> c \<noteq> CHR '']''"
    "port_or_zero (ManagementAddr (env_cfg sniff_env)) < 2 ^ 63" "port_or_zero (HeartbeatAddr (env_cfg sniff_env)) < 2 ^ 63"
    by code_simp+
  from sniff_pages_agree [OF this] show ?thesis by blast
qed

end
