(* ===== verification/MonitorAuth.thy ===== *)
theory MonitorAuth
  imports Trust
begin

text \<open>
  \<^verbatim>\<open>monitor/internal/auth/auth.go\<close>: the administrator accounts, sessions and login attempts of the
  dashboard. Accounts are rows of \<open>admin_users\<close>, sessions and attempts live in memory beside the
  database. bcrypt is a parameter, the clock and the random bytes are arguments.

  Shown: how many passwords a client key can try in a given time, what a login gives and for how
  long, that a password change takes effect for exactly the named account, and that the seeded
  account must change its password.
\<close>

section \<open>State\<close>

abbreviation DefaultUsername :: string where "DefaultUsername \<equiv> ''Admin''"
abbreviation DefaultPassword :: string where "DefaultPassword \<equiv> ''test1234''"
abbreviation maxLoginFailures :: nat where "maxLoginFailures \<equiv> 5"
abbreviation lockoutDuration :: duration where "lockoutDuration \<equiv> 60 * Second"
abbreviation sessionLifetime :: duration where "sessionLifetime \<equiv> 24 * Hour"

abbreviation ErrInvalidCredentials :: error where
  "ErrInvalidCredentials \<equiv> Errmsg ''invalid username or password''"
abbreviation ErrLockedOut :: error where
  "ErrLockedOut \<equiv> Errmsg ''too many failed login attempts; try again later''"
abbreviation ErrMustChangePassword :: error where
  "ErrMustChangePassword \<equiv> Errmsg ''password change required''"

record auth_session =
  as_username :: string
  as_mustChange :: bool
  as_expiresAt :: time

record loginAttempts =
  la_failures :: nat
  la_lockedUntil :: time

record auth_world = DB +
  auth_sessions :: "string \<Rightarrow> auth_session option"
  attempts :: "string \<Rightarrow> loginAttempts option"

text \<open>
  bcrypt: \<open>GenerateFromPassword\<close> draws a salt, here its first argument, and may fail;
  \<open>CompareHash\<close> is \<^verbatim>\<open>CompareHashAndPassword(...) == nil\<close>.
\<close>

record bcrypt =
  GenerateFromPassword :: "bytes \<Rightarrow> string \<Rightarrow> error + bytes"
  CompareHash :: "bytes \<Rightarrow> string \<Rightarrow> bool"

definition auth_New :: "DB \<Rightarrow> auth_world" where
  "auth_New w = DB.extend w \<lparr>auth_sessions = Map.empty, attempts = Map.empty\<rparr>"

section \<open>Operations\<close>

definition EnsureDefaultAdmin :: "bcrypt \<Rightarrow> bytes \<Rightarrow> ('a DB_scheme, unit) stmt" where
  "EnsureDefaultAdmin bc salt =
     bnd (wrap_err ''auth: count admin_users'' (query (\<lambda>w. length (admin_users w)))) (\<lambda>count.
     if count > 0 then ret ()
     else case GenerateFromPassword bc salt DefaultPassword of
       Inl e \<Rightarrow> fail (Wrap ''auth: hash default password'' e)
     | Inr hash \<Rightarrow>
         bnd (wrap_err ''auth: seed default admin''
                (exec (insert_stmt au_username admin_users admin_users_update
                   \<lparr>au_username = DefaultUsername, au_hash = hash, au_salt = [], au_must_change = 1\<rparr>)))
           (\<lambda>_. ret ()))"

definition checkLockout :: "time \<Rightarrow> string \<Rightarrow> 'a auth_world_scheme \<Rightarrow> error option" where
  "checkLockout now clientKey w =
     (case attempts w clientKey of
        Some att \<Rightarrow> if now < la_lockedUntil att then Some ErrLockedOut else None
      | None \<Rightarrow> None)"

text \<open>A client that was never locked out has the zero time.\<close>

definition recordFailure :: "time \<Rightarrow> string \<Rightarrow> 'a auth_world_scheme \<Rightarrow> 'a auth_world_scheme" where
  "recordFailure now clientKey w =
     (let att = (case attempts w clientKey of
                   Some a \<Rightarrow> a | None \<Rightarrow> \<lparr>la_failures = 0, la_lockedUntil = zero_time\<rparr>);
          att1 = att\<lparr>la_failures := la_failures att + 1\<rparr>;
          att2 = (if la_failures att1 \<ge> maxLoginFailures
                  then \<lparr>la_failures = 0, la_lockedUntil = now + lockoutDuration\<rparr> else att1)
      in w\<lparr>attempts := (attempts w)(clientKey \<mapsto> att2)\<rparr>)"

definition clearFailures :: "string \<Rightarrow> 'a auth_world_scheme \<Rightarrow> 'a auth_world_scheme" where
  "clearFailures clientKey w = w\<lparr>attempts := (attempts w)(clientKey := None)\<rparr>"

definition auth_newToken :: "error + bytes \<Rightarrow> error + string" where
  "auth_newToken entropy =
     (case entropy of
        Inl e \<Rightarrow> Inl (Wrap ''auth: session token'' e)
      | Inr b \<Rightarrow> Inr (hex_EncodeToString (copy_array 32 b)))"

definition Login ::
  "bcrypt \<Rightarrow> error + bytes \<Rightarrow> time \<Rightarrow> string \<Rightarrow> string \<Rightarrow> string \<Rightarrow> ('a auth_world_scheme, string \<times> bool) stmt" where
  "Login bc entropy now username password clientKey w =
     (case checkLockout now clientKey w of
        Some e \<Rightarrow> (Inl e, w)
      | None \<Rightarrow>
          (case query (\<lambda>w. find_row au_username username (admin_users w)) w of
             (Inl e, w1) \<Rightarrow> (Inl (Wrap ''auth: lookup user'' e), w1)
           | (Inr None, w1) \<Rightarrow> (Inl ErrInvalidCredentials, recordFailure now clientKey w1)
           | (Inr (Some row), w1) \<Rightarrow>
               (if \<not> CompareHash bc (au_hash row) password
                then (Inl ErrInvalidCredentials, recordFailure now clientKey w1)
                else let w2 = clearFailures clientKey w1 in
                  case auth_newToken entropy of
                    Inl e \<Rightarrow> (Inl e, w2)
                  | Inr token \<Rightarrow>
                      (Inr (token, au_must_change row \<noteq> 0),
                       w2\<lparr>auth_sessions := (auth_sessions w2)(token \<mapsto>
                          \<lparr>as_username = username, as_mustChange = (au_must_change row \<noteq> 0),
                           as_expiresAt = now + sessionLifetime\<rparr>)\<rparr>))))"

definition clear_must_change :: "string \<Rightarrow> (string \<Rightarrow> auth_session option) \<Rightarrow> string \<Rightarrow> auth_session option" where
  "clear_must_change username m token =
     map_option (\<lambda>s. if as_username s = username then s\<lparr>as_mustChange := False\<rparr> else s) (m token)"

definition ChangePassword ::
  "bcrypt \<Rightarrow> bytes \<Rightarrow> string \<Rightarrow> string \<Rightarrow> string \<Rightarrow> ('a auth_world_scheme, unit) stmt" where
  "ChangePassword bc salt username currentPassword newPassword =
     (if length newPassword < 8 then fail (Errmsg ''password must be at least 8 characters'')
      else if currentPassword = newPassword then fail (Errmsg ''new password must differ from the current password'')
      else if username = DefaultUsername \<and> newPassword = DefaultPassword
        then fail (Errmsg ''default password cannot be reused'')
      else
        bnd (wrap_err ''auth: lookup user''
               (bnd (query (\<lambda>w. find_row au_username username (admin_users w)))
                 (\<lambda>r. case r of None \<Rightarrow> fail NoRows | Some row \<Rightarrow> ret (au_hash row)))) (\<lambda>hash.
        if \<not> CompareHash bc hash currentPassword then fail ErrInvalidCredentials
        else case GenerateFromPassword bc salt newPassword of
          Inl e \<Rightarrow> fail (Wrap ''auth: hash new password'' e)
        | Inr newHash \<Rightarrow>
            bnd (wrap_err ''auth: update password''
                   (exec (update_stmt admin_users admin_users_update (\<lambda>r. au_username r = username)
                      (\<lambda>r. r\<lparr>au_hash := newHash, au_must_change := 0\<rparr>))))
              (\<lambda>_ w. (Inr (), w\<lparr>auth_sessions := clear_must_change username (auth_sessions w)\<rparr>))))"

text \<open>The result is the user and whether a password change is required, if the session is valid.\<close>

definition ValidateSession ::
  "time \<Rightarrow> string \<Rightarrow> 'a auth_world_scheme \<Rightarrow> (string \<times> bool) option \<times> 'a auth_world_scheme" where
  "ValidateSession now token w =
     (case auth_sessions w token of
        None \<Rightarrow> (None, w)
      | Some s \<Rightarrow>
          if now > as_expiresAt s then (None, w\<lparr>auth_sessions := (auth_sessions w)(token := None)\<rparr>)
          else (Some (as_username s, as_mustChange s), w))"

definition Logout :: "string \<Rightarrow> 'a auth_world_scheme \<Rightarrow> 'a auth_world_scheme" where
  "Logout token w = w\<lparr>auth_sessions := (auth_sessions w)(token := None)\<rparr>"

section \<open>Login attempts\<close>

text \<open>One call of \<^verbatim>\<open>Login\<close>. A client key is the address and port of one connection, on which requests follow one another.\<close>

record login_attempt =
  at_time :: time
  at_entropy :: "error + bytes"
  at_user :: string
  at_password :: string
  at_key :: string

definition try_login :: "bcrypt \<Rightarrow> login_attempt \<Rightarrow> ('a auth_world_scheme, string \<times> bool) stmt" where
  "try_login bc a = Login bc (at_entropy a) (at_time a) (at_user a) (at_password a) (at_key a)"

text \<open>The attempts of a client whose password was compared with an account, and found wrong.\<close>

fun checked_guesses :: "bcrypt \<Rightarrow> string \<Rightarrow> login_attempt list \<Rightarrow> 'a auth_world_scheme \<Rightarrow> nat" where
  "checked_guesses bc key [] w = 0"
| "checked_guesses bc key (a # as) w =
     (let (r, w1) = try_login bc a w
      in (if at_key a = key \<and> r = Inl ErrInvalidCredentials then 1 else 0) + checked_guesses bc key as w1)"

definition accepts :: "bcrypt \<Rightarrow> 'a DB_scheme \<Rightarrow> string \<Rightarrow> string \<Rightarrow> bool" where
  "accepts bc w username password =
     (case find_row au_username username (admin_users w) of
        None \<Rightarrow> False | Some row \<Rightarrow> CompareHash bc (au_hash row) password)"

text \<open>What the counter of a client says after \<open>k\<close> checked guesses since \<open>t0\<close>.\<close>

definition counted :: "time \<Rightarrow> string \<Rightarrow> nat \<Rightarrow> 'a auth_world_scheme \<Rightarrow> bool" where
  "counted t0 key k w =
     (case attempts w key of
        None \<Rightarrow> k = 0
      | Some a \<Rightarrow> la_failures a = k mod 5 \<and> (k \<ge> 5 \<longrightarrow> t0 + lockoutDuration * int (k div 5) \<le> la_lockedUntil a))"

lemma Login_admin_users [simp]: "admin_users (snd (try_login bc a w)) = admin_users w"
  unfolding try_login_def Login_def
  by (cases "checkLockout (at_time a) (at_key a) w"; rule query_cases [of "\<lambda>w. find_row au_username (at_user a) (admin_users w)" w])
     (auto simp: recordFailure_def clearFailures_def Let_def split: option.split sum.split)

lemma accepts_same: "admin_users w' = admin_users w \<Longrightarrow> accepts bc w' u p = accepts bc w u p"
  by (simp add: accepts_def)

text \<open>An attempt with wrong credentials either stops before they are compared, or counts as a failure.\<close>

lemma wrong_login_cases:
  assumes "\<not> accepts bc w (at_user a) (at_password a)"
  obtains (stopped) fs e where "try_login bc a w = (Inl e, w\<lparr>faults := fs\<rparr>)" "e \<noteq> ErrInvalidCredentials"
  | (counted) fs where "checkLockout (at_time a) (at_key a) w = None"
      "try_login bc a w = (Inl ErrInvalidCredentials, recordFailure (at_time a) (at_key a) (w\<lparr>faults := fs\<rparr>))"
proof (cases "checkLockout (at_time a) (at_key a) w")
  case None
  let ?q = "\<lambda>w. find_row au_username (at_user a) (admin_users w)"
  show ?thesis
  proof (rule query_cases [of ?q w])
    fix fs assume q: "query ?q w = (Inr (?q (w\<lparr>faults := fs\<rparr>)), w\<lparr>faults := fs\<rparr>)"
    have "try_login bc a w = (Inl ErrInvalidCredentials, recordFailure (at_time a) (at_key a) (w\<lparr>faults := fs\<rparr>))"
      using assms None q by (simp add: try_login_def Login_def accepts_def split: option.splits)
    with None show ?thesis by (rule that(2))
  next
    fix fs assume "query ?q w = (Inl SqlFailure, w\<lparr>faults := fs\<rparr>)"
    then have "try_login bc a w = (Inl (Wrap ''auth: lookup user'' SqlFailure), w\<lparr>faults := fs\<rparr>)"
      using None by (simp add: try_login_def Login_def)
    then show ?thesis by (rule that(1)) simp
  qed
next
  case (Some e)
  then have "try_login bc a w = (Inl e, w\<lparr>faults := faults w\<rparr>)" by (simp add: try_login_def Login_def)
  moreover from Some have "e \<noteq> ErrInvalidCredentials" by (auto simp: checkLockout_def split: option.splits if_splits)
  ultimately show ?thesis by (rule that(1))
qed

lemma attempts_other: "at_key a \<noteq> key \<Longrightarrow> attempts (snd (try_login bc a w)) key = attempts w key"
  unfolding try_login_def Login_def
  by (cases "checkLockout (at_time a) (at_key a) w"; rule query_cases [of "\<lambda>w. find_row au_username (at_user a) (admin_users w)" w])
     (auto simp: recordFailure_def clearFailures_def Let_def split: option.split sum.split)

text \<open>A guess that is checked while the counter stands at \<open>k\<close> comes \<open>k div 5\<close> lockouts after the start.\<close>

lemma counted_failure:
  assumes "counted t0 key k w" and "checkLockout t key w = None" and "t0 \<le> t"
  shows "counted t0 key (Suc k) (recordFailure t key w) \<and> lockoutDuration * int (k div 5) \<le> t - t0"
proof -
  have late: "lockoutDuration * int (k div 5) \<le> t - t0"
    using assms by (cases "k \<ge> 5") (auto simp: counted_def checkLockout_def split: option.splits if_splits)
  have "counted t0 key (Suc k) (recordFailure t key w)"
  proof (cases "Suc (k mod 5) = 5")
    case True
    then have k: "Suc k mod 5 = 0" "Suc k div 5 = Suc (k div 5)" by (simp_all add: mod_Suc div_Suc)
    with True late assms(1) show ?thesis
      by (auto simp: counted_def recordFailure_def Let_def algebra_simps split: option.splits)
  next
    case False
    then have k: "Suc k mod 5 = Suc (k mod 5)" "Suc k div 5 = k div 5" by (simp_all add: mod_Suc div_Suc)
    have "5 \<le> k" if "5 \<le> Suc k" using that False by (cases "k = 4") auto
    with k False assms(1) show ?thesis
      by (auto simp: counted_def recordFailure_def Let_def split: option.splits)
  qed
  with late show ?thesis by simp
qed

lemma checked_guesses_bound:
  assumes "counted t0 key k w" and "int k \<le> 5 * ((t1 - t0) div lockoutDuration + 1)"
    and "\<forall>a \<in> set as. at_key a = key \<longrightarrow> t0 \<le> at_time a \<and> at_time a \<le> t1 \<and> \<not> accepts bc w (at_user a) (at_password a)"
  shows "int (k + checked_guesses bc key as w) \<le> 5 * ((t1 - t0) div lockoutDuration + 1)"
  using assms
proof (induction "as" arbitrary: k w)
  case (Cons a as)
  define w1 where "w1 = snd (try_login bc a w)"
  have acc: "accepts bc w1 u p = accepts bc w u p" for u p by (rule accepts_same) (simp add: w1_def)
  have rest: "\<forall>b \<in> set as. at_key b = key \<longrightarrow>
      t0 \<le> at_time b \<and> at_time b \<le> t1 \<and> \<not> accepts bc w1 (at_user b) (at_password b)"
    using Cons.prems(3) by (simp add: acc)
  show ?case
  proof (cases "at_key a = key")
    case False
    then have "counted t0 key k w1" using Cons.prems(1) by (simp add: counted_def w1_def attempts_other)
    from Cons.IH [OF this Cons.prems(2) rest] False show ?thesis
      by (simp add: case_prod_unfold w1_def)
  next
    case True
    with Cons.prems(3) have a: "t0 \<le> at_time a" "at_time a \<le> t1" "\<not> accepts bc w (at_user a) (at_password a)" by auto
    from a(3) show ?thesis
    proof (cases rule: wrong_login_cases)
      case (stopped fs e)
      then have "counted t0 key k w1" using Cons.prems(1) by (simp add: counted_def w1_def)
      from Cons.IH [OF this Cons.prems(2) rest] stopped show ?thesis by (simp add: w1_def)
    next
      case (counted fs)
      have "counted t0 key k (w\<lparr>faults := fs\<rparr>)" using Cons.prems(1) by (simp add: counted_def)
      moreover have "checkLockout (at_time a) key (w\<lparr>faults := fs\<rparr>) = None"
        using counted(1) True by (simp add: checkLockout_def)
      ultimately have c: "counted t0 key (Suc k) w1" and "lockoutDuration * int (k div 5) \<le> at_time a - t0"
        using counted_failure [of t0 key k "w\<lparr>faults := fs\<rparr>" "at_time a"] a(1) counted(2) True by (simp_all add: w1_def)
      then have "lockoutDuration * int (k div 5) div lockoutDuration \<le> (t1 - t0) div lockoutDuration"
        using a(2) by (intro zdiv_mono1) simp_all
      then have "int (k div 5) \<le> (t1 - t0) div lockoutDuration"
        by (subst (asm) nonzero_mult_div_cancel_left) simp_all
      moreover have "int (Suc k) \<le> 5 * (int (k div 5) + 1)" by presburger
      ultimately have "int (Suc k) \<le> 5 * ((t1 - t0) div lockoutDuration + 1)"
        by (meson add_right_mono mult_left_mono order_trans zero_le_numeral)
      from Cons.IH [OF c this rest] counted(2) True show ?thesis by (simp add: w1_def)
    qed
  qed
qed simp


text \<open>A hash that stores the password, to run the code.\<close>

definition plain_bcrypt :: bcrypt where
  "plain_bcrypt = \<lparr>GenerateFromPassword = (\<lambda>salt p. Inr (map of_char p)), CompareHash = (\<lambda>h p. h = map of_char p)\<rparr>"

definition sample_auth :: auth_world where
  "sample_auth = auth_New (empty_DB\<lparr>admin_users := [\<lparr>au_username = ''Admin'', au_hash = map of_char ''test1234'', au_salt = [], au_must_change = 1\<rparr>]\<rparr>)"

definition sample_guess :: "time \<Rightarrow> login_attempt" where
  "sample_guess t = \<lparr>at_time = t, at_entropy = Inr [], at_user = ''Admin'', at_password = ''letmein'', at_key = ''c''\<rparr>"


section \<open>Sessions\<close>

lemma Login_success:
  assumes "Login bc entropy now username password key w = (Inr (token, must), w')"
  obtains fs row where "find_row au_username username (admin_users w) = Some row" "CompareHash bc (au_hash row) password"
    "must = (au_must_change row \<noteq> 0)" "checkLockout now key w = None" "auth_newToken entropy = Inr token"
    "w' = w\<lparr>faults := fs, attempts := (attempts w)(key := None),
       auth_sessions := (auth_sessions w)(token \<mapsto> \<lparr>as_username = username, as_mustChange = must, as_expiresAt = now + sessionLifetime\<rparr>)\<rparr>"
proof -
  let ?q = "\<lambda>w. find_row au_username username (admin_users w)"
  have l: "checkLockout now key w = None"
    using assms by (auto simp: Login_def split: option.splits)
  obtain fs where q: "query ?q w = (Inr (?q (w\<lparr>faults := fs\<rparr>)), w\<lparr>faults := fs\<rparr>)"
    by (rule query_cases [of ?q w]) (use assms l in \<open>auto simp: Login_def\<close>)
  obtain row where r: "?q w = Some row" "CompareHash bc (au_hash row) password"
    using assms l q by (auto simp: Login_def split: option.splits if_splits)
  obtain tok where t: "auth_newToken entropy = Inr tok"
    using assms l q r by (cases "auth_newToken entropy") (auto simp: Login_def Let_def)
  show ?thesis
    by (rule that [of row fs]) (use assms l q r t in \<open>auto simp: Login_def clearFailures_def Let_def\<close>)
qed

text \<open>
  C35. A session is what the login gave. A login that succeeds used the password of the account and
  gives a token under which \<^verbatim>\<open>ValidateSession\<close> returns the account, and whether its password must be
  changed, for exactly 24 hours; after a logout it returns nothing.
\<close>

theorem Login_then_Validate:
  assumes "Login bc entropy now username password key w = (Inr (token, must), w')"
  shows "accepts bc w username password \<and>
    fst (ValidateSession t token w') = (if t \<le> now + sessionLifetime then Some (username, must) else None) \<and>
    fst (ValidateSession t token (Logout token w')) = None"
  using assms by (rule Login_success) (simp add: accepts_def ValidateSession_def Logout_def)

theorem Login_then_Validate_witness:
  "case Login plain_bcrypt (Inr []) 0 ''Admin'' ''test1234'' ''c'' sample_auth of
     (Inl e, w) \<Rightarrow> False
   | (Inr (token, must), w) \<Rightarrow> fst (ValidateSession Hour token w) = Some (''Admin'', True)"
proof -
  let ?r = "Login plain_bcrypt (Inr []) 0 ''Admin'' ''test1234'' ''c'' sample_auth"
  have r: "?r = (Inr (hex_EncodeToString (copy_array 32 []), True), snd ?r)"
    by (simp add: Login_def checkLockout_def sample_auth_def auth_New_def DB.defs empty_DB_def query_ok plain_bcrypt_def
        auth_newToken_def Let_def)
  show ?thesis
    using Login_then_Validate [OF r, of Hour] by (subst r) simp
qed

section \<open>Password changes\<close>

text \<open>A change fails with the accounts and sessions as they were, or it is done.\<close>

lemma ChangePassword_cases:
  fixes w :: "'a auth_world_scheme"
  obtains (failed) e fs where "ChangePassword bc salt username old new w = (Inl e, w\<lparr>faults := fs\<rparr>)"
  | (changed) h fs where "8 \<le> length new" "accepts bc w username old" "GenerateFromPassword bc salt new = Inr h"
      "ChangePassword bc salt username old new w =
        (Inr (), w\<lparr>faults := fs, auth_sessions := clear_must_change username (auth_sessions w),
           admin_users := update_rows (\<lambda>r. au_username r = username) (\<lambda>r. r\<lparr>au_hash := h, au_must_change := 0\<rparr>) (admin_users w)\<rparr>)"
proof -
  let ?q = "\<lambda>w :: 'a auth_world_scheme. find_row au_username username (admin_users w)"
  let ?c = "ChangePassword bc salt username old new w"
  note unf = ChangePassword_def wrap_err_def bnd_def
  show ?thesis
  proof (cases "length new < 8 \<or> old = new \<or> username = DefaultUsername \<and> new = DefaultPassword")
    case True
    then have "\<exists>e. ?c = (Inl e, w\<lparr>faults := faults w\<rparr>)" by (auto simp: ChangePassword_def)
    then show ?thesis using that(1) by blast
  next
    case False
    then have g: "(length new < 8) = False" "(old = new) = False" "(username = DefaultUsername \<and> new = DefaultPassword) = False"
      by blast+
    show ?thesis
    proof (rule query_cases [of ?q w])
      fix fs assume "query ?q w = (Inl SqlFailure, w\<lparr>faults := fs\<rparr>)"
      with g have "?c = (Inl (Wrap ''auth: lookup user'' SqlFailure), w\<lparr>faults := fs\<rparr>)" by (simp add: unf)
      then show ?thesis by (rule that(1))
    next
      fix fs assume q: "query ?q w = (Inr (?q (w\<lparr>faults := fs\<rparr>)), w\<lparr>faults := fs\<rparr>)"
      show ?thesis
      proof (cases "accepts bc w username old \<and> (\<exists>h. GenerateFromPassword bc salt new = Inr h)")
        case False
        show ?thesis
        proof (cases "?q w")
          case None
          with g q have "?c = (Inl (Wrap ''auth: lookup user'' NoRows), w\<lparr>faults := fs\<rparr>)" by (simp add: unf)
          then show ?thesis by (rule that(1))
        next
          case (Some row)
          with False g q have "?c = (Inl (if CompareHash bc (au_hash row) old
              then Wrap ''auth: hash new password'' (projl (GenerateFromPassword bc salt new))
              else ErrInvalidCredentials), w\<lparr>faults := fs\<rparr>)"
            by (cases "GenerateFromPassword bc salt new") (simp_all add: unf accepts_def)
          then show ?thesis by (rule that(1))
        qed
      next
        case True
        then obtain row h where r: "?q w = Some row" "CompareHash bc (au_hash row) old" "GenerateFromPassword bc salt new = Inr h"
          by (auto simp: accepts_def split: option.splits)
        let ?f = "update_stmt admin_users admin_users_update (\<lambda>r. au_username r = username)
            (\<lambda>r. r\<lparr>au_hash := h, au_must_change := 0\<rparr>)"
        show ?thesis
        proof (rule exec_cases [of ?f "w\<lparr>faults := fs\<rparr>"])
          fix fs' assume "exec ?f (w\<lparr>faults := fs\<rparr>) = (Inl SqlFailure, w\<lparr>faults := fs, faults := fs'\<rparr>)"
          with g q r have "?c = (Inl (Wrap ''auth: update password'' SqlFailure), w\<lparr>faults := fs'\<rparr>)"
            by (simp add: unf)
          then show ?thesis by (rule that(1))
        next
          fix fs' n w' assume "?f (w\<lparr>faults := fs, faults := fs'\<rparr>) = Inr (n, w')" "exec ?f (w\<lparr>faults := fs\<rparr>) = (Inr n, w')"
          with g q r have "?c =
            (Inr (), w\<lparr>faults := fs', auth_sessions := clear_must_change username (auth_sessions w),
           admin_users := update_rows (\<lambda>r. au_username r = username) (\<lambda>r. r\<lparr>au_hash := h, au_must_change := 0\<rparr>) (admin_users w)\<rparr>)"
            by (auto simp: unf update_stmt_def)
          then show ?thesis using that(2) True r(3) g(1) by (meson not_less)
        qed (simp add: update_stmt_def)
      qed
    qed
  qed
qed

text \<open>
  A password change takes effect for the account it names and for no other. When it fails, accounts
  and sessions are as before. When it succeeds, the old password was right, from then on the account
  accepts exactly what the hash of the new one accepts and need not change its password, every other
  account is as before, and the account's sessions lose the flag.
\<close>

theorem ChangePassword_effect:
  "case ChangePassword bc salt username old new w of
    (Inl e, w') \<Rightarrow> admin_users w' = admin_users w \<and> auth_sessions w' = auth_sessions w
  | (Inr _, w') \<Rightarrow> accepts bc w username old \<and> 8 \<le> length new \<and>
      (\<exists>h. GenerateFromPassword bc salt new = Inr h \<and>
         accepts bc w' u p = (if u = username then CompareHash bc h p else accepts bc w u p)) \<and>
      map_option au_must_change (find_row au_username u (admin_users w')) =
        (if u = username then Some 0 else map_option au_must_change (find_row au_username u (admin_users w))) \<and>
      auth_sessions w' = clear_must_change username (auth_sessions w)"
proof (rule ChangePassword_cases [of bc salt username old new w])
  fix h fs
  let ?m = "\<lambda>r. r\<lparr>au_hash := h, au_must_change := 0\<rparr>"
  assume c: "8 \<le> length new" "accepts bc w username old" "GenerateFromPassword bc salt new = Inr h"
    and r: "ChangePassword bc salt username old new w =
        (Inr (), w\<lparr>faults := fs, auth_sessions := clear_must_change username (auth_sessions w),
           admin_users := update_rows (\<lambda>r. au_username r = username) ?m (admin_users w)\<rparr>)"
  have "find_row au_username u (update_rows (\<lambda>r. au_username r = username) ?m (admin_users w)) =
      (if u = username then map_option ?m (find_row au_username username (admin_users w))
       else find_row au_username u (admin_users w))"
    by (rule find_row_update_key) simp
  with c show ?thesis
    unfolding r by (auto simp: accepts_def split: option.splits)
qed simp

section \<open>The account that must change its password\<close>

text \<open>
  A run of the store: its operations in any order, and between them steps of the other components,
  which touch neither the accounts nor the store's memory.
\<close>

inductive auth_reachable :: "bcrypt \<Rightarrow> 'a auth_world_scheme \<Rightarrow> bool" for bc where
  start: "auth_sessions w = Map.empty \<Longrightarrow> auth_reachable bc w"
| seed: "auth_reachable bc w \<Longrightarrow> auth_reachable bc (snd (EnsureDefaultAdmin bc salt w))"
| login: "auth_reachable bc w \<Longrightarrow> auth_reachable bc (snd (Login bc entropy now u p key w))"
| change: "auth_reachable bc w \<Longrightarrow> auth_reachable bc (snd (ChangePassword bc salt u old new w))"
| validate: "auth_reachable bc w \<Longrightarrow> auth_reachable bc (snd (ValidateSession now token w))"
| logout: "auth_reachable bc w \<Longrightarrow> auth_reachable bc (Logout token w)"
| other: "auth_reachable bc w \<Longrightarrow> admin_users w' = admin_users w \<Longrightarrow> auth_sessions w' = auth_sessions w \<Longrightarrow>
    auth_reachable bc w'"

definition must_change :: "'a DB_scheme \<Rightarrow> string \<Rightarrow> bool" where
  "must_change w u = (case find_row au_username u (admin_users w) of None \<Rightarrow> False | Some row \<Rightarrow> au_must_change row \<noteq> 0)"

text \<open>A session is in order when its account exists and its flag is set if the account's is.\<close>

definition session_ok :: "admin_row list \<Rightarrow> auth_session \<Rightarrow> bool" where
  "session_ok users s = (case find_row au_username (as_username s) users of
     None \<Rightarrow> False | Some row \<Rightarrow> au_must_change row = 0 \<or> as_mustChange s)"

definition flags_kept :: "'a auth_world_scheme \<Rightarrow> bool" where
  "flags_kept w = (\<forall>s \<in> ran (auth_sessions w). session_ok (admin_users w) s)"

lemma session_ok_append: "session_ok users s \<Longrightarrow> session_ok (users @ rows) s"
  by (simp add: session_ok_def find_row_append split: option.splits)

lemma flags_kept_frame:
  assumes "flags_kept w" and "admin_users w' = admin_users w" and "ran (auth_sessions w') \<subseteq> ran (auth_sessions w)"
  shows "flags_kept w'"
  using assms by (auto simp: flags_kept_def)

lemma EnsureDefaultAdmin_flags: "flags_kept w \<Longrightarrow> flags_kept (snd (EnsureDefaultAdmin bc salt w))"
proof (rule keepsD)
  have f: "flags_kept (w\<lparr>faults := fs\<rparr>)" if "flags_kept w" for w :: "'a auth_world_scheme" and fs
    using that by (simp add: flags_kept_def)
  have ins: "keeps flags_kept (exec (insert_stmt au_username admin_users admin_users_update row))" for row
    by (rule keeps_insert) (simp_all add: flags_kept_def session_ok_append)
  show "keeps flags_kept (EnsureDefaultAdmin bc salt :: ('a auth_world_scheme, unit) stmt)"
    unfolding EnsureDefaultAdmin_def
    by (auto intro!: keeps_bnd keeps_query f ins split: sum.split)
qed

lemma Login_refused:
  assumes "Login bc entropy now u p key w = (Inl e, w')"
  shows "admin_users w' = admin_users w \<and> auth_sessions w' = auth_sessions w"
  by (rule query_cases [of "\<lambda>w. find_row au_username u (admin_users w)" w];
      use assms in \<open>auto simp: Login_def recordFailure_def clearFailures_def Let_def split: option.splits if_splits sum.splits\<close>)

lemma Login_flags:
  assumes "flags_kept w"
  shows "flags_kept (snd (Login bc entropy now u p key w))"
proof (cases "fst (Login bc entropy now u p key w)")
  case (Inl e)
  then have "Login bc entropy now u p key w = (Inl e, snd (Login bc entropy now u p key w))" by (simp add: prod_eq_iff)
  from Login_refused [OF this] assms show ?thesis by (simp add: flags_kept_def)
next
  case (Inr tm)
  then have "Login bc entropy now u p key w = (Inr (fst tm, snd tm), snd (Login bc entropy now u p key w))"
    by (simp add: prod_eq_iff)
  then show ?thesis
  proof (rule Login_success)
    fix fs row
    assume row: "find_row au_username u (admin_users w) = Some row" "snd tm = (au_must_change row \<noteq> 0)"
      and w': "snd (Login bc entropy now u p key w) = w\<lparr>faults := fs, attempts := (attempts w)(key := None),
       auth_sessions := (auth_sessions w)(fst tm \<mapsto> \<lparr>as_username = u, as_mustChange = snd tm, as_expiresAt = now + sessionLifetime\<rparr>)\<rparr>"
    from row have "session_ok (admin_users w) \<lparr>as_username = u, as_mustChange = snd tm, as_expiresAt = now + sessionLifetime\<rparr>"
      by (simp add: session_ok_def)
    with assms show ?thesis unfolding w' by (auto simp: flags_kept_def ran_def)
  qed
qed

lemma ChangePassword_flags:
  assumes "flags_kept w"
  shows "flags_kept (snd (ChangePassword bc salt u old new w))"
proof (rule ChangePassword_cases [of bc salt u old new w])
  fix h fs
  let ?m = "\<lambda>r. r\<lparr>au_hash := h, au_must_change := 0\<rparr>"
  let ?users = "update_rows (\<lambda>r. au_username r = u) ?m (admin_users w)"
  assume r: "ChangePassword bc salt u old new w =
        (Inr (), w\<lparr>faults := fs, auth_sessions := clear_must_change u (auth_sessions w), admin_users := ?users\<rparr>)"
  have find: "find_row au_username v ?users = (if v = u then map_option ?m (find_row au_username u (admin_users w))
      else find_row au_username v (admin_users w))" for v
    by (rule find_row_update_key) simp
  have "session_ok ?users s" if "s \<in> ran (clear_must_change u (auth_sessions w))" for s
  proof -
    from that obtain s0 where s0: "s0 \<in> ran (auth_sessions w)"
      and s: "s = (if as_username s0 = u then s0\<lparr>as_mustChange := False\<rparr> else s0)"
      by (auto simp: ran_def clear_must_change_def)
    from assms s0 have "session_ok (admin_users w) s0" by (simp add: flags_kept_def)
    then show ?thesis unfolding s by (auto simp: session_ok_def find split: option.splits)
  qed
  then show ?thesis unfolding r by (simp add: flags_kept_def)
qed (use assms in \<open>simp add: flags_kept_def\<close>)

text \<open>
  C8. Nobody works on under a password that must be changed. In every run, each valid session belongs
  to an existing account and, while that account's row demands a change, carries the flag: only a
  successful change of that account's password lifts it.
\<close>

theorem must_change_enforced:
  assumes "auth_reachable bc w" and "fst (ValidateSession t token w) = Some (u, flag)"
  shows "u \<in> au_username ` set (admin_users w) \<and> (must_change w u \<longrightarrow> flag)"
proof -
  from assms(1) have "flags_kept w"
  proof induction
    case (start w)
    then show ?case by (simp add: flags_kept_def)
  next
    case (validate w now token)
    from validate(2) show ?case
      by (rule flags_kept_frame) (auto simp: ValidateSession_def ran_def split: option.split)
  next
    case (logout w token)
    from logout(2) show ?case by (rule flags_kept_frame) (auto simp: Logout_def ran_def)
  next
    case (other w w')
    then show ?case by (simp add: flags_kept_def)
  qed (simp_all add: EnsureDefaultAdmin_flags Login_flags ChangePassword_flags)
  moreover from assms(2) obtain s where "s \<in> ran (auth_sessions w)" "as_username s = u" "as_mustChange s = flag"
    by (auto simp: ValidateSession_def ran_def split: option.splits if_splits)
  ultimately have "session_ok (admin_users w) s" "as_username s = u" "as_mustChange s = flag" by (simp_all add: flags_kept_def)
  then show ?thesis
    using find_row_None_iff [of au_username u "admin_users w"]
    by (auto simp: session_ok_def must_change_def split: option.splits)
qed

theorem must_change_enforced_witness:
  "case Login plain_bcrypt (Inr []) 0 ''Admin'' ''test1234'' ''c'' sample_auth of
     (Inl e, w) \<Rightarrow> False
   | (Inr (token, must), w) \<Rightarrow> fst (ValidateSession Hour token w) = Some (''Admin'', must) \<and> must"
proof -
  let ?r = "Login plain_bcrypt (Inr []) 0 ''Admin'' ''test1234'' ''c'' sample_auth"
  let ?token = "hex_EncodeToString (copy_array 32 [])"
  have r: "?r = (Inr (?token, True), snd ?r)" and v: "fst (ValidateSession Hour ?token (snd ?r)) = Some (''Admin'', True)"
    by (simp_all add: Login_def checkLockout_def sample_auth_def auth_New_def DB.defs empty_DB_def query_ok plain_bcrypt_def
        auth_newToken_def clearFailures_def ValidateSession_def Let_def)
  have "auth_reachable plain_bcrypt (snd ?r)"
    by (intro auth_reachable.intros) (simp add: sample_auth_def auth_New_def DB.defs)
  from must_change_enforced [OF this v] v show ?thesis by (subst r) simp
qed

end
