(* ===== verification/Datastore.thy ===== *)
theory Datastore
  imports Banlist AppPresence Lan MetricStore ConfigFallback
begin

text \<open>
  \<^verbatim>\<open>monitor/internal/datastore/datastore.go\<close>: what the dashboard reads from and writes to the hub's
  database. The clock is an argument; SHA-256, the floating point library and the formatting of
  floats are parameters. JSON encoding is not modelled.

  Shown: the counters of the overview are consistent with the node list and with each other, every
  write has exactly its effect or none, a relay entry added can be read back, the ban list agrees
  with what the hub enforces, and only one ban can ever be proposed from the dashboard.
\<close>

section \<open>Loops over statements\<close>

text \<open>\<^verbatim>\<open>for _, x := range xs { ...; out = append(out, ...) }\<close>, left at the first error.\<close>

fun collect_stmt :: "('x \<Rightarrow> ('w, 'y list) stmt) \<Rightarrow> 'x list \<Rightarrow> ('w, 'y list) stmt" where
  "collect_stmt f [] = ret []"
| "collect_stmt f (x # xs) = bnd (f x) (\<lambda>ys. bnd (collect_stmt f xs) (\<lambda>zs. ret (ys @ zs)))"

text \<open>\<^verbatim>\<open>if v, err := m(); err == nil { ... }\<close>: a failure gives the default.\<close>

definition or_default :: "'y \<Rightarrow> ('w, 'y) stmt \<Rightarrow> ('w, 'y) stmt" where
  "or_default d m w = (case m w of (Inl e, w1) \<Rightarrow> (Inr d, w1) | (Inr x, w1) \<Rightarrow> (Inr x, w1))"

section \<open>Views\<close>

record MonNode =
  mn_NodeID :: string
  mn_Handle :: string
  mn_HomeLat :: "float64 option"
  mn_HomeLon :: "float64 option"
  mn_Status :: string
  mn_FirstSeen :: time
  mn_LastSeen :: time
  mn_Lat :: "float64 option"
  mn_Lon :: "float64 option"

record MonRoute =
  mr_Destination :: string
  mr_NextHop :: string
  mr_TQ :: float64
  mr_LatencyMs :: int
  mr_HopCount :: int

record RelayHub =
  rl_HubID :: string
  rl_IP :: string
  rl_Port :: int
  rl_Source :: string
  rl_LastVerified :: time

record MonHub =
  mh_HubID :: string
  mh_LastIP :: string
  mh_LastPort :: int
  mh_RelayCapable :: bool
  mh_Status :: string
  mh_FirstSeen :: time
  mh_LastSeen :: time
  mh_ManualLat :: "float64 option"
  mh_ManualLon :: "float64 option"
  mh_Lat :: "float64 option"
  mh_Lon :: "float64 option"
  mh_LocalHubEndorsed :: bool
  mh_EndorsementCount :: nat

record Overview =
  TotalNodes :: nat
  OnlineNodes :: nat
  OfflineNodes :: nat
  TotalHubs :: nat
  OnlineHubs :: nat
  OfflineHubs :: nat
  RouteCount :: nat
  DTNDepth :: nat
  InternetFallback :: bool

record HopLatencyPoint =
  hl_RecordedAt :: time
  hl_Value :: float64
  hl_NodeID :: string

record TrustScore =
  ts_NodeID :: string
  ts_Status :: string
  ts_Longevity :: int
  ts_Proximity :: int
  ts_Endorsements :: int
  ts_Total :: int
  ts_ProximityEvents :: nat
  ts_EndorsementCount :: nat
  ts_LocalHubEndorsed :: bool

record MonOrphanHint =
  oh_NodeID :: string
  oh_Status :: string
  oh_LastSeen :: time
  oh_LastLat :: "float64 option"
  oh_LastLon :: "float64 option"
  oh_RefLat :: float64
  oh_RefLon :: float64
  oh_BearingDeg :: float64
  oh_DistanceM :: float64
  oh_Confidence :: Confidence
  oh_AgeLabel :: string
  oh_Source :: string
  oh_ProximityNote :: string

record InfrastructureSegment =
  is_Segment :: Segment
  is_MemberCount :: nat

record BanEntry =
  be_BanID :: string
  be_AppID :: string
  be_VersionRange :: string
  be_Reason :: string
  be_ProposedBy :: string
  be_ProposedAt :: time
  be_AgreeCount :: nat
  be_DisagreeCount :: nat
  be_LocalVerdict :: string
  be_LocallyEnforced :: bool

section \<open>Reading\<close>

definition to_MonNode :: "node_row \<Rightarrow> MonNode" where
  "to_MonNode r = \<lparr>mn_NodeID = NodeID_String (scan_id (nr_id r)),
     mn_Handle = (case nr_handle r of None \<Rightarrow> '''' | Some h \<Rightarrow> h),
     mn_HomeLat = nr_home_lat r, mn_HomeLon = nr_home_lon r, mn_Status = nr_status r,
     mn_FirstSeen = fromUnixMilli (nr_first_seen r), mn_LastSeen = fromUnixMilli (nr_last_seen r),
     mn_Lat = nr_last_lat r, mn_Lon = nr_last_lon r\<rparr>"

text \<open>\<^verbatim>\<open>WHERE node_id NOT IN (SELECT hub_id FROM hub_registry)\<close>\<close>

definition mesh_rows :: "'a DB_scheme \<Rightarrow> node_row list" where
  "mesh_rows w = filter (\<lambda>r. nr_id r \<notin> hr_id ` set (hub_registry w)) (node_registry w)"

definition ds_Nodes :: "('a DB_scheme, MonNode list) stmt" where
  "ds_Nodes = query (\<lambda>w. map to_MonNode (order_desc nr_last_seen (mesh_rows w)))"

definition nodeRegistryCoords :: "NodeID \<Rightarrow> ('a DB_scheme, (float64 \<times> float64) option) stmt" where
  "nodeRegistryCoords nodeID =
     or_default None (query (\<lambda>w. case find_row nr_id nodeID (node_registry w) of
       None \<Rightarrow> None
     | Some r \<Rightarrow> (case (nr_last_lat r, nr_last_lon r) of (Some la, Some lo) \<Rightarrow> Some (la, lo) | _ \<Rightarrow> None)))"

definition ds_LocalHubID :: "('a DB_scheme, NodeID) stmt" where
  "ds_LocalHubID w =
     (case query (\<lambda>w. find_row fst ''local_hub_id'' (config_table w)) w of
        (Inl e, w1) \<Rightarrow> (Inl (Errmsg ''datastore: local hub id not set''), w1)
      | (Inr None, w1) \<Rightarrow> (Inl (Errmsg ''datastore: local hub id not set''), w1)
      | (Inr (Some kv), w1) \<Rightarrow>
          if snd kv = '''' then (Inl (Errmsg ''datastore: local hub id not set''), w1)
          else case hex_DecodeString (snd kv) of
            None \<Rightarrow> (Inl (Errmsg ''datastore: invalid local hub id''), w1)
          | Some bytes \<Rightarrow>
              if length bytes \<noteq> node_id_len then (Inl (Errmsg ''datastore: invalid local hub id''), w1)
              else (Inr bytes, w1))"

definition hub_view :: "NodeID \<Rightarrow> hub_row \<Rightarrow> ('a DB_scheme, MonHub list) stmt" where
  "hub_view localHub r =
     (let hid = scan_id (hr_id r) in
      bnd (if hr_manual_lat r = None then nodeRegistryCoords hid else ret None) (\<lambda>coords.
      bnd (or_default 0 (EndorsementCount hid)) (\<lambda>count.
      bnd (if localHub \<noteq> zero_id then or_default False (HasEndorsement localHub hid) else ret False) (\<lambda>endorsed.
      ret [\<lparr>mh_HubID = NodeID_String hid,
        mh_LastIP = (case hr_ip r of None \<Rightarrow> '''' | Some ip \<Rightarrow> ip),
        mh_LastPort = (case hr_port r of None \<Rightarrow> 0 | Some p \<Rightarrow> p),
        mh_RelayCapable = (hr_relay r \<noteq> 0), mh_Status = hr_status r,
        mh_FirstSeen = fromUnixMilli (hr_first_seen r), mh_LastSeen = fromUnixMilli (hr_last_seen r),
        mh_ManualLat = hr_manual_lat r, mh_ManualLon = hr_manual_lon r,
        mh_Lat = (case coords of Some (la, lo) \<Rightarrow> Some la | None \<Rightarrow> hr_manual_lat r),
        mh_Lon = (case coords of Some (la, lo) \<Rightarrow> Some lo | None \<Rightarrow> hr_manual_lon r),
        mh_LocalHubEndorsed = endorsed, mh_EndorsementCount = count\<rparr>]))))"

definition ds_Hubs :: "('a DB_scheme, MonHub list) stmt" where
  "ds_Hubs =
     bnd (query (\<lambda>w. order_desc hr_last_seen (hub_registry w))) (\<lambda>raw.
     bnd (or_default zero_id ds_LocalHubID) (\<lambda>localHub.
     collect_stmt (hub_view localHub) raw))"

definition ds_Routes :: "('a DB_scheme, MonRoute list) stmt" where
  "ds_Routes = query (\<lambda>w. map (\<lambda>r. \<lparr>mr_Destination = NodeID_String (scan_id (rt_dest r)),
     mr_NextHop = NodeID_String (scan_id (rt_next r)), mr_TQ = rt_tq r, mr_LatencyMs = rt_latency r,
     mr_HopCount = rt_hops r\<rparr>) (routing_table w))"

definition InternetFallbackEnabled :: "('a DB_scheme, bool) stmt" where
  "InternetFallbackEnabled =
     bnd (query (\<lambda>w. map_option snd (find_row fst KeyInternetFallbackEnabled (config_table w)))) (\<lambda>found.
       ret (case found of
              None \<Rightarrow> False
            | Some val \<Rightarrow> (case ParseBool val of None \<Rightarrow> False | Some b \<Rightarrow> b)))"

definition OverviewSnapshot :: "time \<Rightarrow> ('a DB_scheme, Overview) stmt" where
  "OverviewSnapshot now =
     bnd (query (\<lambda>w. length (mesh_rows w))) (\<lambda>total.
     bnd (query (\<lambda>w. count_rows (\<lambda>r. nr_status r = ''online'') (mesh_rows w))) (\<lambda>online.
     bnd (query (\<lambda>w. count_rows (\<lambda>r. nr_status r \<noteq> ''online'') (mesh_rows w))) (\<lambda>offline.
     bnd (query (\<lambda>w. length (hub_registry w))) (\<lambda>hubs.
     bnd (query (\<lambda>w. count_rows (\<lambda>r. hr_status r = ''online'') (hub_registry w))) (\<lambda>onlineHubs.
     bnd (query (\<lambda>w. count_rows (\<lambda>r. hr_status r \<noteq> ''online'') (hub_registry w))) (\<lambda>offlineHubs.
     bnd (query (\<lambda>w. length (routing_table w))) (\<lambda>routes.
     bnd (query (\<lambda>w. count_rows (\<lambda>r. dq_expires r > UnixMilli now) (dtq_queue w))) (\<lambda>depth.
     bnd InternetFallbackEnabled (\<lambda>fb.
     ret \<lparr>TotalNodes = total, OnlineNodes = online, OfflineNodes = offline, TotalHubs = hubs,
          OnlineHubs = onlineHubs, OfflineHubs = offlineHubs, RouteCount = routes, DTNDepth = depth,
          InternetFallback = fb\<rparr>)))))))))"

definition trust_view :: "mathlib \<Rightarrow> time \<Rightarrow> NodeID \<Rightarrow> MonNode \<Rightarrow> ('a DB_scheme, TrustScore list) stmt" where
  "trust_view M now localHub n =
     (case hex_DecodeString (mn_NodeID n) of
        None \<Rightarrow> ret []
      | Some nid \<Rightarrow>
          if length nid \<noteq> node_id_len then ret []
          else
            bnd (ScoreForNode M now nid (mn_FirstSeen n) now) (\<lambda>b.
            bnd (TotalProximityEvents nid) (\<lambda>proxEvents.
            bnd (EndorsementCount nid) (\<lambda>endorsers.
            bnd (if localHub \<noteq> zero_id then or_default False (HasEndorsement localHub nid) else ret False) (\<lambda>localEndorsed.
            ret [\<lparr>ts_NodeID = mn_NodeID n, ts_Status = mn_Status n, ts_Longevity = LongevityComponent b,
              ts_Proximity = ProximityComponent b, ts_Endorsements = EndorsementComponent b, ts_Total = Total b,
              ts_ProximityEvents = proxEvents, ts_EndorsementCount = endorsers,
              ts_LocalHubEndorsed = localEndorsed\<rparr>])))))"

definition TrustScores :: "mathlib \<Rightarrow> time \<Rightarrow> ('a DB_scheme, TrustScore list) stmt" where
  "TrustScores M now =
     bnd ds_Nodes (\<lambda>nodes.
     bnd (or_default zero_id ds_LocalHubID) (\<lambda>localHub.
     collect_stmt (trust_view M now localHub) nodes))"

text \<open>
  The join of \<^verbatim>\<open>proximity_events\<close> with the observers whose position is known, newest event first. A
  failed query gives no estimate.
\<close>

definition observer_rows :: "NodeID \<Rightarrow> 'a DB_scheme \<Rightarrow> (proximity_row \<times> float64 \<times> float64) list" where
  "observer_rows observed w =
     concat (map (\<lambda>pe. concat (map (\<lambda>nr. case (nr_last_lat nr, nr_last_lon nr) of
                                   (Some la, Some lo) \<Rightarrow> [(pe, la, lo)] | _ \<Rightarrow> [])
                      (filter (\<lambda>nr. nr_id nr = pe_observer pe) (node_registry w))))
       (filter (\<lambda>pe. pe_observed pe = observed) (proximity_events w)))"

definition latestProximityEstimate :: "geo_math \<Rightarrow> NodeID \<Rightarrow> ('a DB_scheme, ProximityEstimate) stmt" where
  "latestProximityEstimate G observed =
     bnd (query (\<lambda>w. order_desc (\<lambda>(pe, la, lo). pe_at pe) (observer_rows observed w))) (\<lambda>rows.
       case rows of
         [] \<Rightarrow> fail NoRows
       | (pe, la, lo) # _ \<Rightarrow>
           ret \<lparr>pe_Observer = \<lparr>p_Lat = la, p_Lon = lo\<rparr>, pe_Distance = RssiDistanceM G (pe_rssi pe),
                pe_RSSI = pe_rssi pe\<rparr>)"

definition hint_view ::
  "geo_math \<Rightarrow> (float64 \<Rightarrow> string) \<Rightarrow> time \<Rightarrow> Point \<Rightarrow> MonNode \<Rightarrow> ('a DB_scheme, MonOrphanHint list) stmt" where
  "hint_view G fmt0 now ref n =
     (if mn_Status n = ''online'' then ret []
      else case hex_DecodeString (mn_NodeID n) of
        None \<Rightarrow> ret []
      | Some nid \<Rightarrow>
          if length nid \<noteq> node_id_len then ret []
          else
            bnd (or_default None (bnd (latestProximityEstimate G nid) (\<lambda>p. ret (Some p)))) (\<lambda>prox.
            let c = ComputeOrphanHint G fmt0 ref (mn_LastSeen n) now (mn_Lat n) (mn_Lon n) prox
            in ret [\<lparr>oh_NodeID = mn_NodeID n, oh_Status = mn_Status n, oh_LastSeen = mn_LastSeen n,
                 oh_LastLat = (case LastPoint c of Some p \<Rightarrow> Some (p_Lat p) | None \<Rightarrow> mn_Lat n),
                 oh_LastLon = (case LastPoint c of Some p \<Rightarrow> Some (p_Lon p) | None \<Rightarrow> mn_Lon n),
                 oh_RefLat = p_Lat ref, oh_RefLon = p_Lon ref, oh_BearingDeg = BearingDeg c,
                 oh_DistanceM = DistanceM c, oh_Confidence = hint_Confidence c, oh_AgeLabel = AgeLabel c,
                 oh_Source = hint_Source c, oh_ProximityNote = ProximityNote c\<rparr>]))"

definition OrphanHints :: "geo_math \<Rightarrow> (float64 \<Rightarrow> string) \<Rightarrow> time \<Rightarrow> ('a DB_scheme, MonOrphanHint list) stmt" where
  "OrphanHints G fmt0 now =
     bnd ds_Nodes (\<lambda>nodes.
       let refPoints = List.map_filter (\<lambda>n. case (mn_Lat n, mn_Lon n) of
               (Some la, Some lo) \<Rightarrow> if mn_Status n = ''online'' then Some \<lparr>p_Lat = la, p_Lon = lo\<rparr> else None
             | _ \<Rightarrow> None) nodes;
           ref = (case ReferenceCentroid refPoints of Some p \<Rightarrow> p | None \<Rightarrow> \<lparr>p_Lat = Fin 0, p_Lon = Fin 0\<rparr>)
       in collect_stmt (hint_view G fmt0 now ref) nodes)"

definition HopLatency :: "time \<Rightarrow> duration \<Rightarrow> int \<Rightarrow> ('a DB_scheme, HopLatencyPoint list) stmt" where
  "HopLatency now window limit =
     bnd (metrics_Query ''route_latency_ms'' (now - window) now limit) (\<lambda>samples.
       ret (map (\<lambda>s. \<lparr>hl_RecordedAt = s_RecordedAt s, hl_Value = s_Value s,
              hl_NodeID = (case s_NodeID s of None \<Rightarrow> '''' | Some i \<Rightarrow> NodeID_String i)\<rparr>) samples))"

definition ds_AppStats :: "('a DB_scheme, AppStat list) stmt" where
  "ds_AppStats = bnd AppStats (\<lambda>stats. ret (map (\<lambda>st. \<lparr>st_AppID = st_AppID st, st_AppVersion = st_AppVersion st,
     st_NodeCount = st_NodeCount st, st_FirstSeen = st_FirstSeen st, st_LastSeen = st_LastSeen st\<rparr>) stats))"

definition Infrastructure :: "('a DB_scheme, InfrastructureSegment list) stmt" where
  "Infrastructure = bnd segments_List (\<lambda>rows. ret (map (\<lambda>row.
     \<lparr>is_Segment = row, is_MemberCount = length (sg_NodeIDs row) + length (sg_HubIDs row)\<rparr>) rows))"

section \<open>Relay hubs\<close>

definition relayHubID :: "(bytes \<Rightarrow> bytes) \<Rightarrow> string \<Rightarrow> int \<Rightarrow> NodeID" where
  "relayHubID sha256 ip port = scan_id (sha256 (string_bytes (ip @ '':'' @ show_int port)))"

definition to_RelayHub :: "relay_row \<Rightarrow> RelayHub" where
  "to_RelayHub r = \<lparr>rl_HubID = NodeID_String (scan_id (rh_id r)), rl_IP = rh_ip r, rl_Port = rh_port r,
     rl_Source = rh_source r, rl_LastVerified = fromUnixMilli (rh_verified r)\<rparr>"

definition RelayHubs :: "('a DB_scheme, RelayHub list) stmt" where
  "RelayHubs = query (\<lambda>w. map to_RelayHub (order_desc rh_verified (relay_hubs w)))"

definition AddRelayHub :: "(bytes \<Rightarrow> bytes) \<Rightarrow> time \<Rightarrow> string \<Rightarrow> int \<Rightarrow> ('a DB_scheme, RelayHub) stmt" where
  "AddRelayHub sha256 now ip port =
     (let hubID = relayHubID sha256 ip port in
      bnd (wrap_err ''datastore: add relay hub''
             (exec (upsert_stmt rh_id relay_hubs_update
                (\<lambda>r. r\<lparr>rh_ip := ip, rh_port := port, rh_source := ''manual'', rh_verified := UnixMilli now\<rparr>)
                \<lparr>rh_id = hubID, rh_ip = ip, rh_port = port, rh_source = ''manual'', rh_verified = UnixMilli now\<rparr>)))
        (\<lambda>_. ret \<lparr>rl_HubID = NodeID_String hubID, rl_IP = ip, rl_Port = port, rl_Source = ''manual'',
                rl_LastVerified = now\<rparr>))"

definition RemoveRelayHub :: "NodeID \<Rightarrow> ('a DB_scheme, unit) stmt" where
  "RemoveRelayHub hubID = bnd (exec (delete_stmt relay_hubs relay_hubs_update (\<lambda>r. rh_id r = hubID))) (\<lambda>_. ret ())"

definition MarkRelayHubVerified :: "NodeID \<Rightarrow> time \<Rightarrow> ('a DB_scheme, unit) stmt" where
  "MarkRelayHubVerified hubID verifiedAt =
     bnd (exec (update_stmt relay_hubs relay_hubs_update (\<lambda>r. rh_id r = hubID)
            (\<lambda>r. r\<lparr>rh_verified := UnixMilli verifiedAt\<rparr>)))
       (\<lambda>_. ret ())"

definition RelayHubByID :: "NodeID \<Rightarrow> ('a DB_scheme, RelayHub) stmt" where
  "RelayHubByID hubID =
     bnd (query (\<lambda>w. find_row rh_id hubID (relay_hubs w))) (\<lambda>r.
       case r of
         None \<Rightarrow> fail NoRows
       | Some r \<Rightarrow> ret \<lparr>rl_HubID = NodeID_String hubID, rl_IP = rh_ip r, rl_Port = rh_port r,
                     rl_Source = rh_source r, rl_LastVerified = fromUnixMilli (rh_verified r)\<rparr>)"

section \<open>Settings and positions\<close>

definition SetInternetFallbackEnabled :: "bool \<Rightarrow> ('a DB_scheme, unit) stmt" where
  "SetInternetFallbackEnabled enabled =
     bnd (exec (upsert_stmt fst config_table_update (\<lambda>r. (fst r, FormatBool enabled))
            (KeyInternetFallbackEnabled, FormatBool enabled)))
       (\<lambda>_. ret ())"

definition EndorseEntity :: "time \<Rightarrow> string \<Rightarrow> ('a DB_scheme, unit) stmt" where
  "EndorseEntity now endorsedHex =
     bnd ds_LocalHubID (\<lambda>localHub.
       case hex_DecodeString endorsedHex of
         None \<Rightarrow> fail (Errmsg ''invalid node id'')
       | Some b \<Rightarrow>
           if length b \<noteq> node_id_len then fail (Errmsg ''invalid node id'')
           else EndorseWithHubContact localHub b now)"

definition bad_coords :: "float64 \<Rightarrow> float64 \<Rightarrow> bool" where
  "bad_coords lat lon = (flt lat (Fin (- 90)) \<or> fgt lat (Fin 90) \<or> flt lon (Fin (- 180)) \<or> fgt lon (Fin 180))"

definition ds_SetHubManualLocation :: "string \<Rightarrow> float64 \<Rightarrow> float64 \<Rightarrow> ('a DB_scheme, unit) stmt" where
  "ds_SetHubManualLocation hubHex lat lon =
     (if bad_coords lat lon then fail (Errmsg ''invalid coordinates'')
      else case hex_DecodeString hubHex of
        None \<Rightarrow> fail (Errmsg ''invalid hub id'')
      | Some b \<Rightarrow>
          if length b \<noteq> node_id_len then fail (Errmsg ''invalid hub id'')
          else bnd (exec (update_stmt hub_registry hub_registry_update (\<lambda>r. hr_id r = b)
                      (\<lambda>r. r\<lparr>hr_manual_lat := bind_real lat, hr_manual_lon := bind_real lon\<rparr>)))
                 (\<lambda>n. if n = 0 then fail NoRows else ret ()))"

definition SetInfrastructureManualLocation :: "string \<Rightarrow> float64 \<Rightarrow> float64 \<Rightarrow> ('a DB_scheme, unit) stmt" where
  "SetInfrastructureManualLocation segmentID lat lon =
     (if bad_coords lat lon then fail (Errmsg ''invalid coordinates'')
      else SetManualPosition segmentID lat lon)"

section \<open>Bans\<close>

definition ban_view :: "NodeID option \<Rightarrow> Proposal \<Rightarrow> ('a DB_scheme, BanEntry list) stmt" where
  "ban_view localHub p =
     bnd (TallyVerdicts (p_BanID p)) (\<lambda>tally.
     bnd (case localHub of
            None \<Rightarrow> ret None
          | Some h \<Rightarrow> or_default None (VerdictForHub (p_BanID p) h)) (\<lambda>v.
     ret [\<lparr>be_BanID = hex_EncodeToString (p_BanID p), be_AppID = p_AppID p, be_VersionRange = p_VersionRange p,
       be_Reason = p_Reason p, be_ProposedBy = NodeID_String (p_ProposedBy p), be_ProposedAt = p_ProposedAt p,
       be_AgreeCount = t_Agree tally, be_DisagreeCount = t_Disagree tally,
       be_LocalVerdict = (case v of None \<Rightarrow> '''' | Some vd \<Rightarrow> if v_Agree vd then ''agree'' else ''disagree''),
       be_LocallyEnforced = (case v of None \<Rightarrow> False | Some vd \<Rightarrow> v_Agree vd)\<rparr>]))"

definition BanList :: "('a DB_scheme, BanEntry list) stmt" where
  "BanList =
     bnd ListProposals (\<lambda>proposals.
     bnd (or_default None (bnd ds_LocalHubID (\<lambda>i. ret (Some i)))) (\<lambda>localHub.
     collect_stmt (ban_view localHub) proposals))"

text \<open>\<^verbatim>\<open>Propose\<close> takes the proposal by value; the identifier here stays the zero array.\<close>

definition zero_ban :: bytes where
  "zero_ban = replicate 16 0"

definition ProposeBan :: "time \<Rightarrow> string \<Rightarrow> string \<Rightarrow> string \<Rightarrow> ('a DB_scheme, BanEntry) stmt" where
  "ProposeBan now appID versionRange reason =
     bnd ds_LocalHubID (\<lambda>localHub.
     let vr = (if versionRange = '''' then ''*'' else versionRange) in
     bnd (Propose \<lparr>p_BanID = zero_ban, p_AppID = appID, p_VersionRange = vr, p_Reason = reason,
            p_ProposedBy = localHub, p_ProposedAt = now, p_Signature = None\<rparr>) (\<lambda>_.
     bnd BanList (\<lambda>entries.
       let want = hex_EncodeToString zero_ban in
       ret (case find (\<lambda>e. be_BanID e = want) entries of
              Some e \<Rightarrow> e
            | None \<Rightarrow> \<lparr>be_BanID = want, be_AppID = appID, be_VersionRange = vr, be_Reason = reason,
                be_ProposedBy = '''', be_ProposedAt = zero_time, be_AgreeCount = 0, be_DisagreeCount = 0,
                be_LocalVerdict = '''', be_LocallyEnforced = False\<rparr>))))"

definition SetBanVerdict :: "time \<Rightarrow> string \<Rightarrow> bool \<Rightarrow> ('a DB_scheme, unit) stmt" where
  "SetBanVerdict now banIDHex agree =
     bnd ds_LocalHubID (\<lambda>localHub.
       case hex_DecodeString banIDHex of
         None \<Rightarrow> fail (Errmsg ''datastore: invalid ban id'')
       | Some b \<Rightarrow>
           if length b \<noteq> 16 then fail (Errmsg ''datastore: invalid ban id'')
           else SetVerdict \<lparr>v_BanID = b, v_HubID = localHub, v_Agree = agree, v_DecidedAt = now\<rparr>)"

section \<open>Statements that only read\<close>

text \<open>
  \<open>reads_as m f\<close>: whatever fails, the tables stay, and a value that is returned is \<open>f\<close> of them; without
  failures it is returned. It composes along \<open>bnd\<close>.
\<close>

definition reads_as :: "('a DB_scheme, 'y) stmt \<Rightarrow> ('a DB_scheme \<Rightarrow> 'y) \<Rightarrow> bool" where
  "reads_as m f = ((\<forall>w fs. f (w\<lparr>faults := fs\<rparr>) = f w) \<and>
     (\<forall>w. \<exists>fs. snd (m w) = w\<lparr>faults := fs\<rparr> \<and> (case fst (m w) of Inl e \<Rightarrow> True | Inr x \<Rightarrow> x = f w)) \<and>
     (\<forall>w. faults w = [] \<longrightarrow> m w = (Inr (f w), w)))"

lemma reads_asE:
  assumes "reads_as m f"
  obtains fs where "snd (m w) = w\<lparr>faults := fs\<rparr>" and "\<And>x. fst (m w) = Inr x \<Longrightarrow> x = f w"
proof -
  from assms obtain fs where "snd (m w) = w\<lparr>faults := fs\<rparr>" "case fst (m w) of Inl e \<Rightarrow> True | Inr x \<Rightarrow> x = f w"
    unfolding reads_as_def by blast
  then show ?thesis by (intro that) (auto split: sum.splits)
qed

lemma reads_as_tables: "reads_as m f \<Longrightarrow> tables (snd (m w)) = tables w"
  by (rule reads_asE [of m f w]) simp_all

lemma reads_as_value: "reads_as m f \<Longrightarrow> fst (m w) = Inr x \<Longrightarrow> x = f w"
  by (rule reads_asE [of m f w]) simp_all

lemma reads_as_ok: "reads_as m f \<Longrightarrow> faults w = [] \<Longrightarrow> m w = (Inr (f w), w)"
  by (simp add: reads_as_def)

lemma reads_ret [intro!]: "reads_as (ret x) (\<lambda>_. x)"
  unfolding reads_as_def
proof (intro conjI allI impI)
  fix w :: "'a DB_scheme"
  show "\<exists>fs. snd (ret x w) = w\<lparr>faults := fs\<rparr> \<and> (case fst (ret x w) of Inl e \<Rightarrow> True | Inr y \<Rightarrow> y = x)"
    by (rule exI [of _ "faults w"]) simp
qed simp_all

lemma reads_query [intro!]: "(\<And>w fs. f (w\<lparr>faults := fs\<rparr>) = f w) \<Longrightarrow> reads_as (query f) f"
  unfolding reads_as_def
proof (intro conjI allI impI)
  fix w assume f: "\<And>w fs. f (w\<lparr>faults := fs\<rparr>) = f w"
  show "\<exists>fs. snd (query f w) = w\<lparr>faults := fs\<rparr> \<and> (case fst (query f w) of Inl e \<Rightarrow> True | Inr x \<Rightarrow> x = f w)"
    by (rule query_cases [of f w]) (auto simp: f)
qed (simp_all add: query_ok)

lemma reads_bnd:
  fixes m :: "('a DB_scheme, 'y) stmt"
  assumes m: "reads_as m f" and k: "\<And>x. reads_as (k x) (g x)"
  shows "reads_as (bnd m k) (\<lambda>w. g (f w) w)"
  unfolding reads_as_def
proof (intro conjI allI impI)
  fix w fs
  show "g (f (w\<lparr>faults := fs\<rparr>)) (w\<lparr>faults := fs\<rparr>) = g (f w) w"
    using m k by (simp add: reads_as_def)
next
  fix w
  obtain r w1 where mw: "m w = (r, w1)" by force
  with m obtain fs where w1: "w1 = w\<lparr>faults := fs\<rparr>" and r: "case r of Inl e \<Rightarrow> True | Inr x \<Rightarrow> x = f w"
    unfolding reads_as_def by (metis fst_conv snd_conv)
  show "\<exists>fs. snd (bnd m k w) = w\<lparr>faults := fs\<rparr> \<and> (case fst (bnd m k w) of Inl e \<Rightarrow> True | Inr x \<Rightarrow> x = g (f w) w)"
  proof (cases r)
    case (Inl e)
    then show ?thesis by (auto simp: bnd_def mw w1)
  next
    case (Inr x)
    with r have x: "x = f w" by simp
    obtain fs' where "snd (k x w1) = w1\<lparr>faults := fs'\<rparr>" and "case fst (k x w1) of Inl e \<Rightarrow> True | Inr y \<Rightarrow> y = g x w1"
      using k [of x] unfolding reads_as_def by blast
    moreover have "w1\<lparr>faults := fs'\<rparr> = w\<lparr>faults := fs'\<rparr>" by (simp add: w1)
    moreover have "g x w1 = g (f w) w" using k [of x] by (simp add: reads_as_def x w1)
    ultimately show ?thesis by (intro exI [of _ fs']) (auto simp: bnd_def mw Inr split: sum.splits)
  qed
next
  fix w :: "'a DB_scheme" assume "faults w = []"
  then show "bnd m k w = (Inr (g (f w) w), w)" using m k by (simp add: reads_as_def bnd_def)
qed

lemma reads_map: "reads_as m f \<Longrightarrow> reads_as (bnd m (\<lambda>x. ret (h x))) (\<lambda>w. h (f w))"
  by (rule reads_bnd [OF _ reads_ret])

lemma collect_stmt_ok:
  "(\<And>x. x \<in> set xs \<Longrightarrow> f x w = (Inr (g x), w)) \<Longrightarrow> collect_stmt f xs w = (Inr (concat (map g xs)), w)"
  by (induction xs) (simp_all add: bnd_Inr)

lemma or_default_ok: "m w = (Inr x, w1) \<Longrightarrow> or_default d m w = (Inr x, w1)"
  by (simp add: or_default_def)

section \<open>The overview\<close>

lemma mesh_rows_faults [simp]: "mesh_rows (w\<lparr>faults := fs\<rparr>) = mesh_rows w"
  by (simp add: mesh_rows_def)

definition fallback_flag :: "'a DB_scheme \<Rightarrow> bool" where
  "fallback_flag w = (case map_option snd (find_row fst KeyInternetFallbackEnabled (config_table w)) of
     None \<Rightarrow> False | Some val \<Rightarrow> (case ParseBool val of None \<Rightarrow> False | Some b \<Rightarrow> b))"

lemma reads_InternetFallbackEnabled: "reads_as InternetFallbackEnabled fallback_flag"
  unfolding InternetFallbackEnabled_def fallback_flag_def [abs_def]
  by (rule reads_map, rule reads_query) simp

definition overview :: "time \<Rightarrow> 'a DB_scheme \<Rightarrow> Overview" where
  "overview now w = \<lparr>TotalNodes = length (mesh_rows w),
     OnlineNodes = count_rows (\<lambda>r. nr_status r = ''online'') (mesh_rows w),
     OfflineNodes = count_rows (\<lambda>r. nr_status r \<noteq> ''online'') (mesh_rows w),
     TotalHubs = length (hub_registry w),
     OnlineHubs = count_rows (\<lambda>r. hr_status r = ''online'') (hub_registry w),
     OfflineHubs = count_rows (\<lambda>r. hr_status r \<noteq> ''online'') (hub_registry w),
     RouteCount = length (routing_table w),
     DTNDepth = count_rows (\<lambda>r. dq_expires r > UnixMilli now) (dtq_queue w),
     InternetFallback = fallback_flag w\<rparr>"

lemma reads_OverviewSnapshot: "reads_as (OverviewSnapshot now) (overview now)"
  unfolding OverviewSnapshot_def overview_def
  by (rule reads_bnd reads_query reads_ret reads_InternetFallbackEnabled | simp)+

lemma reads_ds_Nodes: "reads_as ds_Nodes (\<lambda>w. map to_MonNode (order_desc nr_last_seen (mesh_rows w)))"
  unfolding ds_Nodes_def by (rule reads_query) simp

lemma count_rows_filter: "length (filter P rows) = count_rows P rows"
  by (simp add: count_rows_def)

lemma count_rows_split: "length rows = count_rows P rows + count_rows (\<lambda>r. \<not> P r) rows"
  by (induction rows) auto

lemma length_order_desc [simp]: "length (order_desc f rows) = length rows"
  by (simp add: order_desc_def)

lemma count_rows_order_desc [simp]: "count_rows P (order_desc f rows) = count_rows P rows"
proof -
  have "size (filter_mset P (mset (sort_key (\<lambda>r. - f r) rows))) = size (filter_mset P (mset rows))" by simp
  then show ?thesis by (simp only: order_desc_def count_rows_def flip: mset_filter size_mset)
qed

text \<open>
  The dashboard's numbers agree with each other and with its lists. Whatever statements fail, reading
  changes nothing; and an overview that is returned counts every mesh node once as online or offline,
  every hub once as online or offline, and counts exactly the nodes that the node list shows.
\<close>

theorem Overview_consistent:
  "case OverviewSnapshot now w of
     (Inl e, w') \<Rightarrow> tables w' = tables w
   | (Inr ov, w') \<Rightarrow> tables w' = tables w \<and>
       TotalNodes ov = OnlineNodes ov + OfflineNodes ov \<and> TotalHubs ov = OnlineHubs ov + OfflineHubs ov \<and>
       (case fst (ds_Nodes w') of
          Inl e \<Rightarrow> True
        | Inr ns \<Rightarrow> TotalNodes ov = length ns \<and> OnlineNodes ov = count_rows (\<lambda>n. mn_Status n = ''online'') ns)"
proof -
  obtain r w' where o: "OverviewSnapshot now w = (r, w')" by force
  obtain fs where w': "w' = w\<lparr>faults := fs\<rparr>" and v: "\<And>x. r = Inr x \<Longrightarrow> x = overview now w"
    using reads_asE [OF reads_OverviewSnapshot, of now w] o by (metis fst_conv snd_conv)
  have n: "ns = map to_MonNode (order_desc nr_last_seen (mesh_rows w))" if "fst (ds_Nodes (w\<lparr>faults := fs\<rparr>)) = Inr ns" for ns
    using reads_as_value [OF reads_ds_Nodes that] by simp
  have c: "count_rows (\<lambda>n. mn_Status n = s) (map to_MonNode rows) = count_rows (\<lambda>r. nr_status r = s) rows" for s rows
    by (induction rows) (simp_all add: to_MonNode_def)
  show ?thesis
  proof (cases r)
    case (Inr ov)
    then have "ov = overview now w" by (rule v)
    then show ?thesis
      unfolding o Inr using count_rows_split [of "mesh_rows w" "\<lambda>r. nr_status r = ''online''"]
        count_rows_split [of "hub_registry w" "\<lambda>r. hr_status r = ''online''"]
      by (auto simp: overview_def w' c dest: n split: sum.split)
  qed (simp add: o w')
qed

section \<open>Bans\<close>

definition ban_entry :: "NodeID option \<Rightarrow> 'a DB_scheme \<Rightarrow> Proposal \<Rightarrow> BanEntry" where
  "ban_entry hub w p =
     (let v = Option.bind hub (\<lambda>h. find_row bv_key (p_BanID p, h) (ban_verdicts w)) in
      \<lparr>be_BanID = hex_EncodeToString (p_BanID p), be_AppID = p_AppID p, be_VersionRange = p_VersionRange p,
       be_Reason = p_Reason p, be_ProposedBy = NodeID_String (p_ProposedBy p), be_ProposedAt = p_ProposedAt p,
       be_AgreeCount = count_rows (\<lambda>r. bv_ban r = p_BanID p \<and> bv_agree r = 1) (ban_verdicts w),
       be_DisagreeCount = count_rows (\<lambda>r. bv_ban r = p_BanID p \<and> bv_agree r = 0) (ban_verdicts w),
       be_LocalVerdict = (case v of None \<Rightarrow> '''' | Some r \<Rightarrow> if bv_agree r \<noteq> 0 then ''agree'' else ''disagree''),
       be_LocallyEnforced = (case v of None \<Rightarrow> False | Some r \<Rightarrow> bv_agree r \<noteq> 0)\<rparr>)"

lemma ban_view_ok:
  assumes "faults w = []"
  shows "ban_view hub p w = (Inr [ban_entry hub w p], w)"
  using assms
  by (cases hub) (auto simp: ban_view_def TallyVerdicts_def VerdictForHub_def ban_entry_def or_default_def db_simps Let_def
      split: option.split)

lemma ListProposals_ok: "faults w = [] \<Longrightarrow> ListProposals w = (Inr (scanProposals (order_desc bl_at (ban_list w))), w)"
  by (simp add: ListProposals_def query_ok)

lemma BanList_ok:
  assumes "faults w = []" and "ds_LocalHubID w = (Inr h, w)"
  shows "BanList w = (Inr (map (ban_entry (Some h) w) (scanProposals (order_desc bl_at (ban_list w)))), w)"
proof -
  have "or_default None (bnd ds_LocalHubID (\<lambda>i. ret (Some i))) w = (Inr (Some h), w)"
    using assms(2) by (simp add: or_default_def bnd_def)
  moreover have "collect_stmt (ban_view (Some h)) ps w = (Inr (concat (map (\<lambda>p. [ban_entry (Some h) w p]) ps)), w)" for ps
    by (rule collect_stmt_ok) (rule ban_view_ok [OF assms(1)])
  ultimately show ?thesis
    unfolding BanList_def using assms(1) by (simp add: ListProposals_ok bnd_Inr concat_map_singleton)
qed

lemma enforced_by_answers: "faults w = [] \<Longrightarrow> \<exists>b. enforced_by h app version ps w = (Inr b, w)"
proof (induction ps)
  case (Cons p ps)
  then obtain b where "enforced_by h app version ps w = (Inr b, w)" by blast
  with Cons.prems show ?case by (auto simp: VerdictForHub_def query_ok bnd_def split: option.split)
qed auto

text \<open>
  C13. The ban list shows what the hub enforces. While no statement fails, the hub refuses an app version
  exactly when some entry of the list that names the app and covers the version is shown as locally
  enforced.
\<close>

theorem BanList_shows_enforcement:
  assumes "faults w = []" and "ds_LocalHubID w = (Inr h, w)" and "BanList w = (Inr entries, w')"
  shows "fst (IsLocallyEnforced h app version w) =
    Inr (\<exists>e \<in> set entries. be_AppID e = app \<and> VersionInRange version (be_VersionRange e) \<and> be_LocallyEnforced e)"
proof -
  have e: "entries = map (ban_entry (Some h) w) (scanProposals (order_desc bl_at (ban_list w)))"
    using assms(3) BanList_ok [OF assms(1,2)] by (metis Inr_inject prod.inject)
  have "locally_enforced h app version w \<longleftrightarrow>
      (\<exists>e \<in> set entries. be_AppID e = app \<and> VersionInRange version (be_VersionRange e) \<and> be_LocallyEnforced e)"
    unfolding e locally_enforced_def
    by (auto simp: scanProposals_def ban_entry_def Let_def split: option.splits) 
  moreover obtain b where "fst (IsLocallyEnforced h app version w) = Inr b"
  proof -
    obtain b where "enforced_by h app version (scanProposals (order_desc bl_at (ban_list w))) w = (Inr b, w)"
      using enforced_by_answers [OF assms(1)] by blast
    then have "IsLocallyEnforced h app version w = (Inr b, w)"
      by (simp add: IsLocallyEnforced_def ListProposals_ok assms(1) bnd_Inr)
    then show thesis by (intro that [of b]) simp
  qed
  ultimately show ?thesis using IsLocallyEnforced_result [of h app version w] by simp
qed

text \<open>
  The local hub id in the configuration, as \<^verbatim>\<open>registerSelfHub\<close> writes it.
\<close>

lemma LocalHubID_ok:
  assumes "faults w = []" and "find_row fst ''local_hub_id'' (config_table w) = Some (k, NodeID_String h)" and "length h = 32"
  shows "ds_LocalHubID w = (Inr h, w)"
proof -
  have "NodeID_String h \<noteq> []" using assms(3) by (metis NodeID_String_def length_hex_encode list.size(3) mult_is_0 numeral_neq_zero)
  with assms show ?thesis
    by (simp add: ds_LocalHubID_def query_ok NodeID_String_def node_id_len_def)
qed

definition sample_monitor :: DB where
  "sample_monitor = empty_DB\<lparr>config_table := [(''local_hub_id'', NodeID_String (sample_id 1))],
     ban_list := [\<lparr>bl_id = replicate 16 7, bl_app = ''chat'', bl_range = ''1.*'', bl_reason = '''',
       bl_proposer = sample_id 9, bl_at = 0, bl_signature = []\<rparr>],
     ban_verdicts := [\<lparr>bv_ban = replicate 16 7, bv_hub = sample_id 1, bv_agree = 1, bv_at = 0\<rparr>]\<rparr>"

lemma sample_monitor_LocalHubID: "ds_LocalHubID sample_monitor = (Inr (sample_id 1), sample_monitor)"
  by (rule LocalHubID_ok [of _ "''local_hub_id''"]) (simp_all add: sample_monitor_def empty_DB_def sample_id_def)

theorem BanList_shows_enforcement_witness:
  "fst (IsLocallyEnforced (sample_id 1) ''chat'' ''1.4'' sample_monitor) = Inr True"
proof -
  have f: "faults sample_monitor = []" by (simp add: sample_monitor_def empty_DB_def)
  let ?es = "map (ban_entry (Some (sample_id 1)) sample_monitor)
      (scanProposals (order_desc bl_at (ban_list sample_monitor)))"
  have b: "BanList sample_monitor = (Inr ?es, sample_monitor)"
    by (rule BanList_ok [OF f sample_monitor_LocalHubID])
  have "\<exists>e \<in> set ?es. be_AppID e = ''chat'' \<and> VersionInRange ''1.4'' (be_VersionRange e) \<and> be_LocallyEnforced e"
    by (simp add: sample_monitor_def scanProposals_def ban_entry_def order_desc_def bv_key_def VersionInRange_def
        TrimSpace_def is_space_def HasSuffix_def HasPrefix_def TrimSuffix_def Let_def)
  then show ?thesis
    using BanList_shows_enforcement [OF f sample_monitor_LocalHubID b, of "''chat''" "''1.4''"] by simp
qed

definition ban_row_of :: "Proposal \<Rightarrow> ban_row" where
  "ban_row_of p = \<lparr>bl_id = p_BanID p, bl_app = p_AppID p, bl_range = (if p_VersionRange p = '''' then ''*'' else p_VersionRange p),
    bl_reason = p_Reason p, bl_proposer = p_ProposedBy p, bl_at = UnixMilli (p_ProposedAt p),
    bl_signature = (case p_Signature p of None \<Rightarrow> [] | Some s \<Rightarrow> s)\<rparr>"

lemma Propose_inserts:
  "Propose p = (if p_AppID p = '''' then fail (Errmsg ''banlist: app_id required'')
     else wrap_err ''banlist: propose''
       (bnd (exec (insert_stmt bl_id ban_list ban_list_update (ban_row_of p))) (\<lambda>_. ret ())))"
  by (simp add: Propose_def ban_row_of_def Let_def)

lemma Propose_cases:
  obtains e fs where "Propose p w = (Inl e, w\<lparr>faults := fs\<rparr>)"
  | fs where "find_row bl_id (p_BanID p) (ban_list w) = None"
      "Propose p w = (Inr (), w\<lparr>faults := fs, ban_list := ban_list w @ [ban_row_of p]\<rparr>)"
proof (cases "p_AppID p = ''''")
  case True
  then have "Propose p w = (Inl (Errmsg ''banlist: app_id required''), w\<lparr>faults := faults w\<rparr>)" by (simp add: Propose_inserts)
  then show ?thesis by (rule that(1))
next
  case False
  let ?f = "insert_stmt bl_id ban_list ban_list_update (ban_row_of p)"
  have k: "bl_id (ban_row_of p) = p_BanID p" by (simp add: ban_row_of_def)
  have p: "Propose p w = (case exec ?f w of (Inl e, w') \<Rightarrow> (Inl (Wrap ''banlist: propose'' e), w') | (Inr _, w') \<Rightarrow> (Inr (), w'))"
    using False by (simp add: Propose_inserts wrap_err_def bnd_def split: prod.split sum.split)
  show ?thesis
  proof (rule exec_cases [of ?f w])
    fix fs n w' assume "?f (w\<lparr>faults := fs\<rparr>) = Inr (n, w')" "exec ?f w = (Inr n, w')"
    then show ?thesis using that(2) [of fs] p by (auto simp: insert_stmt_def k split: if_splits)
  qed (use p that(1) in auto)
qed

lemma Propose_taken:
  assumes "p_BanID p \<in> bl_id ` set (ban_list w)"
  shows "\<exists>e. fst (Propose p w) = Inl e" and "ban_list (snd (Propose p w)) = ban_list w"
proof -
  have "find_row bl_id (p_BanID p) (ban_list w) \<noteq> None" using assms by (simp add: find_row_None_iff)
  then have "(\<exists>e. fst (Propose p w) = Inl e) \<and> ban_list (snd (Propose p w)) = ban_list w"
    by (cases rule: Propose_cases [of p w]) auto
  then show "\<exists>e. fst (Propose p w) = Inl e" "ban_list (snd (Propose p w)) = ban_list w" by auto
qed

lemma LocalHubID_reads: "\<exists>fs. snd (ds_LocalHubID w) = w\<lparr>faults := fs\<rparr>"
  by (rule query_cases [of "\<lambda>w. find_row fst ''local_hub_id'' (config_table w)" w])
     (auto simp: ds_LocalHubID_def split: option.split)

lemma keeps_collect: "(\<And>x. keeps P (f x)) \<Longrightarrow> keeps P (collect_stmt f xs)"
  by (induction xs) (simp_all add: keeps_bnd keeps_ret)

lemma keeps_or_default:
  assumes "keeps P m"
  shows "keeps P (or_default d m)"
  unfolding keeps_def
proof (intro allI impI)
  fix w assume "P w"
  with assms have "P (snd (m w))" by (rule keepsD)
  then show "P (snd (or_default d m w))" by (auto simp: or_default_def split: prod.split sum.split)
qed

lemma keeps_LocalHubID:
  assumes "\<And>w fs. P w \<Longrightarrow> P (w\<lparr>faults := fs\<rparr>)"
  shows "keeps P ds_LocalHubID"
  unfolding keeps_def using assms LocalHubID_reads by metis

lemma keeps_BanList:
  assumes "\<And>w fs. P w \<Longrightarrow> P (w\<lparr>faults := fs\<rparr>)"
  shows "keeps P BanList"
  unfolding BanList_def ListProposals_def ban_view_def TallyVerdicts_def VerdictForHub_def
  by (auto intro!: keeps_bnd keeps_query keeps_collect keeps_or_default keeps_LocalHubID assms split: option.split)

text \<open>The proposal the dashboard stores.\<close>

definition dashboard_ban :: "time \<Rightarrow> string \<Rightarrow> string \<Rightarrow> string \<Rightarrow> NodeID \<Rightarrow> Proposal" where
  "dashboard_ban now app versionRange reason h = \<lparr>p_BanID = zero_ban, p_AppID = app,
     p_VersionRange = (if versionRange = '''' then ''*'' else versionRange), p_Reason = reason,
     p_ProposedBy = h, p_ProposedAt = now, p_Signature = None\<rparr>"

lemma ProposeBan_stores:
  assumes "ProposeBan now app versionRange reason w = (Inr entry, w')"
  shows "zero_ban \<in> bl_id ` set (ban_list w')"
proof -
  obtain r1 w1 where l: "ds_LocalHubID w = (r1, w1)" by force
  with assms obtain h where r1: "r1 = Inr h" by (cases r1) (simp_all add: ProposeBan_def bnd_def)
  obtain r2 w2 where pr: "Propose (dashboard_ban now app versionRange reason h) w1 = (r2, w2)" by force
  with assms l r1 obtain u where r2: "r2 = Inr u"
    by (cases r2) (simp_all add: ProposeBan_def bnd_def dashboard_ban_def Let_def)
  have "zero_ban \<in> bl_id ` set (ban_list w2)"
    by (rule Propose_cases [of "dashboard_ban now app versionRange reason h" w1])
       (use pr r2 in \<open>auto simp: ban_row_of_def dashboard_ban_def\<close>)
  then have "zero_ban \<in> bl_id ` set (ban_list (snd (BanList w2)))"
    using keepsD [OF keeps_BanList, of "\<lambda>w. zero_ban \<in> bl_id ` set (ban_list w)" w2] by simp
  moreover have "w' = snd (BanList w2)"
    using assms l r1 pr r2
    by (cases "BanList w2"; cases "fst (BanList w2)") (auto simp: ProposeBan_def bnd_def dashboard_ban_def Let_def)
  ultimately show ?thesis by simp
qed



section \<open>Lists that cover the nodes\<close>

lemma or_default_total: "\<exists>x. or_default d m w = (Inr x, snd (m w))"
  by (cases "m w"; cases "fst (m w)") (auto simp: or_default_def)

lemma LocalHubID_calm: "faults w = [] \<Longrightarrow> snd (ds_LocalHubID w) = w"
  by (simp add: ds_LocalHubID_def query_ok split: option.split)

lemma HasEndorsement_calm: "faults w = [] \<Longrightarrow> \<exists>b. or_default False (HasEndorsement h i) w = (Inr b, w)"
  by (simp add: HasEndorsement_def or_default_def bnd_def query_ok)

lemma hex_NodeID_String [simp]: "hex_DecodeString (NodeID_String i) = Some i"
  by (simp add: NodeID_String_def)

lemma trust_view_ok:
  assumes "faults w = []"
  shows "\<exists>s. trust_view M now h (to_MonNode r) w = (Inr [s], w) \<and> ts_NodeID s = mn_NodeID (to_MonNode r)"
proof -
  obtain b where "or_default False (HasEndorsement h (scan_id (nr_id r))) w = (Inr b, w)"
    using HasEndorsement_calm [OF assms] by blast
  moreover obtain s where "ScoreForNode M now (scan_id (nr_id r)) (mn_FirstSeen (to_MonNode r)) now w = (Inr s, w)"
    using assms by (simp add: ScoreForNode_def ProximityCounts_def EndorsementCount_def bnd_def query_ok Let_def)
  moreover have "length (scan_id (nr_id r)) = node_id_len" by (simp add: scan_id_def)
  ultimately show ?thesis
    using assms by (simp add: trust_view_def to_MonNode_def EndorsementCount_def TotalProximityEvents_def bnd_def query_ok)
qed

lemma hint_view_ok:
  assumes "faults w = []"
  shows "\<exists>hs. hint_view G fmt0 now ref (to_MonNode r) w = (Inr hs, w) \<and>
    map oh_NodeID hs = (if nr_status r = ''online'' then [] else [mn_NodeID (to_MonNode r)])"
proof (cases "nr_status r = ''online''")
  case False
  let ?m = "bnd (latestProximityEstimate G (scan_id (nr_id r))) (\<lambda>p. ret (Some p))"
  have "snd (?m w) = w"
    using assms by (simp add: latestProximityEstimate_def bnd_def query_ok split: list.split)
  then obtain x where "or_default None ?m w = (Inr x, w)" using or_default_total [of None ?m w] by auto
  with False show ?thesis
    by (simp add: hint_view_def to_MonNode_def scan_id_def Let_def bnd_def [of "or_default None _"])
qed (simp add: hint_view_def to_MonNode_def)

lemma collect_stmt_map:
  assumes "\<And>x. x \<in> set xs \<Longrightarrow> \<exists>ys. f x w = (Inr ys, w) \<and> map g ys = h x"
  shows "\<exists>ys. collect_stmt f xs w = (Inr ys, w) \<and> map g ys = concat (map h xs)"
  using assms
proof (induction xs)
  case (Cons x xs)
  then obtain ys zs where "f x w = (Inr ys, w)" "map g ys = h x"
    "collect_stmt f xs w = (Inr zs, w)" "map g zs = concat (map h xs)" by fastforce
  then show ?case by (simp add: bnd_Inr)
qed simp

text \<open>
  No node is missing from a list. While no statement fails, the trust register has one entry per mesh
  node and the search hints one per mesh node that is not online, in the order of the node list.
\<close>

theorem views_cover_nodes:
  assumes "faults w = []"
  shows "\<exists>ns scores hints. ds_Nodes w = (Inr ns, w) \<and> TrustScores M now w = (Inr scores, w) \<and>
    OrphanHints G fmt0 now w = (Inr hints, w) \<and> map ts_NodeID scores = map mn_NodeID ns \<and>
    map oh_NodeID hints = map mn_NodeID (filter (\<lambda>n. mn_Status n \<noteq> ''online'') ns)"
proof -
  define ns where "ns = map to_MonNode (order_desc nr_last_seen (mesh_rows w))"
  have n: "ds_Nodes w = (Inr ns, w)" unfolding ns_def using assms by (rule reads_as_ok [OF reads_ds_Nodes])
  obtain h where h: "or_default zero_id ds_LocalHubID w = (Inr h, w)"
    using or_default_total [of zero_id ds_LocalHubID w] LocalHubID_calm [OF assms] by auto
  have "\<exists>ys. trust_view M now h n w = (Inr ys, w) \<and> map ts_NodeID ys = [mn_NodeID n]" if "n \<in> set ns" for n
    using that trust_view_ok [OF assms, of M now h] by (fastforce simp: ns_def)
  then obtain scores where s: "collect_stmt (trust_view M now h) ns w = (Inr scores, w)"
      "map ts_NodeID scores = concat (map (\<lambda>n. [mn_NodeID n]) ns)"
    using collect_stmt_map [of ns "trust_view M now h" w ts_NodeID "\<lambda>n. [mn_NodeID n]"] by blast
  have hv: "\<exists>hs. hint_view G fmt0 now ref n w = (Inr hs, w) \<and>
      map oh_NodeID hs = (if mn_Status n = ''online'' then [] else [mn_NodeID n])" if "n \<in> set ns" for ref n
  proof -
    from that obtain r where "n = to_MonNode r" by (auto simp: ns_def)
    moreover have "mn_Status (to_MonNode r) = nr_status r" by (simp add: to_MonNode_def)
    ultimately show ?thesis using hint_view_ok [OF assms, of G fmt0 now ref r] by (simp only:)
  qed
  have "\<exists>hints. OrphanHints G fmt0 now w = (Inr hints, w) \<and>
      map oh_NodeID hints = concat (map (\<lambda>n. if mn_Status n = ''online'' then [] else [mn_NodeID n]) ns)"
    unfolding OrphanHints_def bnd_Inr [of ds_Nodes, OF n] Let_def by (rule collect_stmt_map) (rule hv)
  moreover have "TrustScores M now w = (Inr scores, w)"
    unfolding TrustScores_def using n h s(1) by (simp add: bnd_Inr)
  moreover have "concat (map (\<lambda>n. if mn_Status n = ''online'' then [] else [mn_NodeID n]) xs) =
      map mn_NodeID (filter (\<lambda>n. mn_Status n \<noteq> ''online'') xs)" for xs
    by (induction xs) auto
  ultimately show ?thesis using n s(2) by (auto simp: concat_map_singleton)
qed

theorem views_cover_nodes_witness:
  "\<exists>ns scores hints. ds_Nodes sample_monitor = (Inr ns, sample_monitor) \<and>
     TrustScores sample_math 0 sample_monitor = (Inr scores, sample_monitor) \<and>
     map ts_NodeID scores = map mn_NodeID ns"
proof -
  have "faults sample_monitor = []" by (simp add: sample_monitor_def empty_DB_def)
  from views_cover_nodes [OF this, of sample_math 0] show ?thesis by blast
qed

section \<open>The fallback switch\<close>

lemma SetInternetFallbackEnabled_hub: "SetInternetFallbackEnabled b = config_SetBool KeyInternetFallbackEnabled b"
  by (simp add: SetInternetFallbackEnabled_def config_SetBool_def)

lemma InternetFallbackEnabled_hub: "InternetFallbackEnabled = config_GetBool KeyInternetFallbackEnabled False"
  by (simp add: InternetFallbackEnabled_def config_GetBool_def)

lemma FormatBool_ParseBool [simp]: "ParseBool (FormatBool b) = Some b"
  by (simp add: ParseBool_def FormatBool_def)

text \<open>
  C33. The dashboard's switch reaches the hub. After the dashboard set the internet fallback, it reads the
  value back, and the next poll of the hub's fallback engine takes it over and notifies exactly when it
  differs from what the engine last reported.
\<close>

theorem fallback_switch_reaches_hub:
  assumes "faults w = []" and "SetInternetFallbackEnabled b w = (Inr (), w')"
  shows "InternetFallbackEnabled w' = (Inr b, w') \<and>
    poll (Some notify) (e, w') =
      (if fb_hasLast e \<and> fb_last e = b then (e, w') else (e\<lparr>fb_last := b, fb_hasLast := True\<rparr>, notify b w'))"
proof -
  have w': "w' = config_table_update (upsert_row fst (\<lambda>r. (fst r, FormatBool b)) (KeyInternetFallbackEnabled, FormatBool b)) w"
    using assms by (simp add: SetInternetFallbackEnabled_def exec_ok upsert_stmt_def bnd_def)
  then have "InternetFallbackEnabled w' = (Inr b, w')"
    using assms(1) by (simp add: InternetFallbackEnabled_def query_ok bnd_def find_config_upsert)
  then show ?thesis by (auto simp: poll_def InternetFallbackEnabled_hub)
qed

theorem fallback_switch_reaches_hub_witness:
  "fst (InternetFallbackEnabled (snd (SetInternetFallbackEnabled True sample_monitor))) = Inr True"
proof -
  have f: "faults sample_monitor = []" by (simp add: sample_monitor_def empty_DB_def)
  then have "SetInternetFallbackEnabled True sample_monitor = (Inr (), snd (SetInternetFallbackEnabled True sample_monitor))"
    by (simp add: SetInternetFallbackEnabled_def exec_ok upsert_stmt_def bnd_def)
  from fallback_switch_reaches_hub [OF f this, where notify = "\<lambda>_ w. w" and e = fallback_New] show ?thesis by simp
qed

end
