(* ===== verification/MonitorFeed.thy ===== *)
theory MonitorFeed
  imports Management
begin

text \<open>
  \<^verbatim>\<open>monitor/internal/hubclient/hubclient.go\<close>, \<^verbatim>\<open>monitor/internal/sosfeed/sosfeed.go\<close> and the fan-out of
  \<^verbatim>\<open>monitor/internal/server/server.go\<close>: from the hub's event stream to the browsers. The client decodes
  an event, translates it and offers it to its listeners; the server takes events from its own
  listener channel, files SOS alerts and offers each event to the browsers. The WebSocket and the
  protobuf and JSON decoders are outside: a received message is an input, its decoding a parameter.

  Shown: a browser sees a subsequence of the hub's events, in order; the alert feed holds exactly the
  newest hundred alerts; the delay between connection attempts.
\<close>

section \<open>Events\<close>

record MonEvent =
  ev_Type :: string
  ev_EmittedAtUnixMs :: int
  ev_NodeID :: string
  ev_HubID :: string
  ev_Status :: string
  ev_Destination :: string
  ev_NextHop :: string
  ev_TQ :: float64
  ev_HopCount :: "32 word"
  ev_DTNDepth :: "32 word"
  ev_Enabled :: bool
  ev_AppID :: string
  ev_AppVersion :: string
  ev_VersionRange :: string
  ev_Agree :: bool
  ev_Topic :: string
  ev_Text :: string
  ev_Lat :: float64
  ev_Lon :: float64
  ev_AccuracyM :: float64
  ev_SentAtUnixMs :: int
  ev_PayloadJSON :: bytes

definition zero_event :: "string \<Rightarrow> int \<Rightarrow> MonEvent" where
  "zero_event ty emitted = \<lparr>ev_Type = ty, ev_EmittedAtUnixMs = emitted, ev_NodeID = '''', ev_HubID = '''', ev_Status = '''',
     ev_Destination = '''', ev_NextHop = '''', ev_TQ = Fin 0, ev_HopCount = 0, ev_DTNDepth = 0, ev_Enabled = False,
     ev_AppID = '''', ev_AppVersion = '''', ev_VersionRange = '''', ev_Agree = False, ev_Topic = '''', ev_Text = '''',
     ev_Lat = Fin 0, ev_Lon = Fin 0, ev_AccuracyM = Fin 0, ev_SentAtUnixMs = 0, ev_PayloadJSON = []\<rparr>"

text \<open>
  The structure that \<^verbatim>\<open>json.Unmarshal\<close> fills from an SOS payload. On an error it may be filled in part;
  the flag says whether there was none.
\<close>

record sos_fields =
  sf_Text :: string
  sf_Lat :: float64
  sf_Lon :: float64
  sf_AccuracyM :: float64
  sf_SentAt :: int

type_synonym sos_json = "bytes \<Rightarrow> sos_fields \<times> bool"

definition nodeIDString :: "bytes \<Rightarrow> string" where
  "nodeIDString b = (if length b \<noteq> node_id_len then hex_EncodeToString b else NodeID_String b)"

text \<open>An event without a body, or with one this version does not know, is \<open>None\<close>.\<close>

definition translateEvent :: "sos_json \<Rightarrow> int \<Rightarrow> event_body option \<Rightarrow> MonEvent option" where
  "translateEvent json emitted body = (case body of
     None \<Rightarrow> None
   | Some (EvNodeStatusChanged n st) \<Rightarrow>
       Some ((zero_event ''node_status_changed'' emitted)\<lparr>ev_NodeID := nodeIDString n, ev_Status := st\<rparr>)
   | Some (EvHubStatusChanged h st) \<Rightarrow>
       Some ((zero_event ''hub_status_changed'' emitted)\<lparr>ev_HubID := nodeIDString h, ev_Status := st\<rparr>)
   | Some (EvRouteChanged dst hop tq hops) \<Rightarrow>
       Some ((zero_event ''route_changed'' emitted)\<lparr>ev_Destination := nodeIDString dst, ev_NextHop := nodeIDString hop,
         ev_TQ := tq, ev_HopCount := hops\<rparr>)
   | Some (EvDtnQueueDepthChanged d) \<Rightarrow> Some ((zero_event ''dtn_queue_depth_changed'' emitted)\<lparr>ev_DTNDepth := d\<rparr>)
   | Some (EvInternetFallbackChanged b) \<Rightarrow> Some ((zero_event ''internet_fallback_changed'' emitted)\<lparr>ev_Enabled := b\<rparr>)
   | Some (EvAppPresenceChanged n a v) \<Rightarrow>
       Some ((zero_event ''app_presence_changed'' emitted)\<lparr>ev_NodeID := nodeIDString n, ev_AppID := a, ev_AppVersion := v\<rparr>)
   | Some (EvBanProposalChanged b a r) \<Rightarrow>
       Some ((zero_event ''ban_proposal_changed'' emitted)\<lparr>ev_AppID := a, ev_VersionRange := r\<rparr>)
   | Some (EvBanVerdictChanged b h agree) \<Rightarrow>
       Some ((zero_event ''ban_verdict_changed'' emitted)\<lparr>ev_HubID := nodeIDString h, ev_Agree := agree\<rparr>)
   | Some (EvSosAlertPublished n a t p) \<Rightarrow>
       (let ev = (zero_event ''sos_alert_published'' emitted)\<lparr>ev_NodeID := nodeIDString n, ev_AppID := a, ev_Topic := t,
                   ev_PayloadJSON := p\<rparr>;
            (f, ok) = json p
        in Some (if ok then ev\<lparr>ev_Text := sf_Text f, ev_Lat := sf_Lat f, ev_Lon := sf_Lon f,
                            ev_AccuracyM := sf_AccuracyM f, ev_SentAtUnixMs := sf_SentAt f\<rparr>
                 else ev)))"

section \<open>SOS alerts\<close>

record Alert =
  al_ReceivedAt :: time
  al_NodeID :: string
  al_AppID :: string
  al_Topic :: string
  al_Text :: string
  al_Lat :: float64
  al_Lon :: float64
  al_AccuracyM :: float64
  al_SentAtUnix :: int
  al_RawPayload :: bytes

abbreviation maxAlerts :: nat where "maxAlerts \<equiv> 100"

definition to_Alert :: "sos_json \<Rightarrow> time \<Rightarrow> string \<Rightarrow> string \<Rightarrow> string \<Rightarrow> bytes \<Rightarrow> Alert" where
  "to_Alert json now nodeID appID topic payload =
     (let f = fst (json payload) in
      \<lparr>al_ReceivedAt = now, al_NodeID = nodeID, al_AppID = appID, al_Topic = topic, al_Text = sf_Text f,
       al_Lat = sf_Lat f, al_Lon = sf_Lon f, al_AccuracyM = sf_AccuracyM f, al_SentAtUnix = sf_SentAt f,
       al_RawPayload = (if sf_Text f = '''' then payload else [])\<rparr>)"

definition sos_Add :: "Alert \<Rightarrow> Alert list \<Rightarrow> Alert list" where
  "sos_Add alert alerts = (let as = alert # alerts in if length as > maxAlerts then take maxAlerts as else as)"

definition sos_List :: "Alert list \<Rightarrow> Alert list" where
  "sos_List alerts = alerts"

section \<open>The client and the fan-out\<close>

text \<open>
  \<open>listeners\<close> are the subscribed channels of the client with their capacities; \<open>hubCh\<close> names the one the
  server subscribed. \<open>browsers\<close> are the channels of the connected browsers, of capacity 32.
\<close>

record feed =
  listeners :: "(nat \<times> nat \<times> MonEvent list) list"
  browsers :: "(nat \<times> MonEvent list) list"
  alerts :: "Alert list"

definition Subscribe :: "nat \<Rightarrow> nat \<Rightarrow> 'a feed_scheme \<Rightarrow> 'a feed_scheme" where
  "Subscribe ch cap s = s\<lparr>listeners := AList.update ch (cap, []) (listeners s)\<rparr>"

definition Unsubscribe :: "nat \<Rightarrow> 'a feed_scheme \<Rightarrow> 'a feed_scheme" where
  "Unsubscribe ch s = s\<lparr>listeners := AList.delete ch (listeners s)\<rparr>"

definition client_broadcast :: "MonEvent \<Rightarrow> 'a feed_scheme \<Rightarrow> 'a feed_scheme" where
  "client_broadcast ev s = s\<lparr>listeners := map (\<lambda>(ch, cap, q). (ch, cap, offer cap ev q)) (listeners s)\<rparr>"

text \<open>
  One message of \<^verbatim>\<open>runOnce\<close>: \<open>binary\<close> says whether it is a binary one; \<open>decode\<close> is \<^verbatim>\<open>proto.Unmarshal\<close> into a
  time and a body. Everything else is skipped.
\<close>

definition client_message ::
  "sos_json \<Rightarrow> (bytes \<Rightarrow> (int \<times> event_body option) option) \<Rightarrow> bool \<Rightarrow> bytes \<Rightarrow> 'a feed_scheme \<Rightarrow> 'a feed_scheme" where
  "client_message json decode binary data s =
     (if \<not> binary then s
      else case decode data of
        None \<Rightarrow> s
      | Some (emitted, body) \<Rightarrow>
          (case translateEvent json emitted body of None \<Rightarrow> s | Some ev \<Rightarrow> client_broadcast ev s))"

definition browser_broadcast :: "MonEvent \<Rightarrow> 'a feed_scheme \<Rightarrow> 'a feed_scheme" where
  "browser_broadcast ev s = s\<lparr>browsers := map (\<lambda>(ch, q). (ch, offer 32 ev q)) (browsers s)\<rparr>"

text \<open>One round of \<^verbatim>\<open>fanOutHubEvents\<close>, for an event taken from the listener channel.\<close>

definition fanOut :: "sos_json \<Rightarrow> time \<Rightarrow> MonEvent \<Rightarrow> 'a feed_scheme \<Rightarrow> 'a feed_scheme" where
  "fanOut json now ev s =
     (let s1 = (if ev_Type ev = ''sos_alert_published'' \<and> ev_PayloadJSON ev \<noteq> []
                then s\<lparr>alerts := sos_Add (to_Alert json now (ev_NodeID ev) (ev_AppID ev) (ev_Topic ev) (ev_PayloadJSON ev)) (alerts s)\<rparr>
                else s)
      in browser_broadcast ev s1)"

definition listenerReceive :: "nat \<Rightarrow> 'a feed_scheme \<Rightarrow> MonEvent option \<times> 'a feed_scheme" where
  "listenerReceive ch s =
     (case map_of (listeners s) ch of
        Some (cap, ev # q) \<Rightarrow> (Some ev, s\<lparr>listeners := AList.update ch (cap, q) (listeners s)\<rparr>)
      | _ \<Rightarrow> (None, s))"

definition fanOutHubEvents :: "sos_json \<Rightarrow> time \<Rightarrow> nat \<Rightarrow> 'a feed_scheme \<Rightarrow> 'a feed_scheme" where
  "fanOutHubEvents json now hubCh s =
     (case listenerReceive hubCh s of (None, s1) \<Rightarrow> s1 | (Some ev, s1) \<Rightarrow> fanOut json now ev s1)"

text \<open>A browser's channel in \<^verbatim>\<open>handleBrowserWS\<close>.\<close>

definition addBrowser :: "nat \<Rightarrow> 'a feed_scheme \<Rightarrow> 'a feed_scheme" where
  "addBrowser ch s = s\<lparr>browsers := AList.update ch [] (browsers s)\<rparr>"

definition removeBrowser :: "nat \<Rightarrow> 'a feed_scheme \<Rightarrow> 'a feed_scheme" where
  "removeBrowser ch s = s\<lparr>browsers := AList.delete ch (browsers s)\<rparr>"

definition browserReceive :: "nat \<Rightarrow> 'a feed_scheme \<Rightarrow> MonEvent option \<times> 'a feed_scheme" where
  "browserReceive ch s =
     (case map_of (browsers s) ch of
        Some (ev # q) \<Rightarrow> (Some ev, s\<lparr>browsers := AList.update ch q (browsers s)\<rparr>)
      | _ \<Rightarrow> (None, s))"

section \<open>Reconnecting\<close>

text \<open>
  \<^verbatim>\<open>Run\<close>: the delay before the next connection attempt, after each attempt, whatever became of it. The
  variable that \<^verbatim>\<open>runOnce\<close> resets after a good message is its own.
\<close>

definition next_backoff :: "duration \<Rightarrow> duration" where
  "next_backoff b = (if b < 30 * Second then b * 2 else b)"

fun run_delays :: "nat \<Rightarrow> duration \<Rightarrow> duration list" where
  "run_delays 0 b = []"
| "run_delays (Suc n) b = b # run_delays n (next_backoff b)"

section \<open>Both hops are dropping channels\<close>

definition listener_queue :: "nat \<Rightarrow> 'a feed_scheme \<Rightarrow> MonEvent list" where
  "listener_queue ch s = (case map_of (listeners s) ch of None \<Rightarrow> [] | Some (cap, q) \<Rightarrow> q)"

definition listening :: "nat \<Rightarrow> 'a feed_scheme \<Rightarrow> bool" where
  "listening ch s = (\<exists>q. map_of (listeners s) ch = Some (64, q))"

definition browser_queue :: "nat \<Rightarrow> 'a feed_scheme \<Rightarrow> MonEvent list" where
  "browser_queue ch s = (case map_of (browsers s) ch of None \<Rightarrow> [] | Some q \<Rightarrow> q)"

definition browsing :: "nat \<Rightarrow> 'a feed_scheme \<Rightarrow> bool" where
  "browsing ch s = (\<exists>q. map_of (browsers s) ch = Some q)"

lemma map_of_listeners:
  "map_of (map (\<lambda>(ch, cap, q). (ch, cap, offer cap ev q)) ls) k = map_option (\<lambda>(cap, q). (cap, offer cap ev q)) (map_of ls k)"
  by (induction ls) auto

interpretation hub_listener: drop_channel 64 client_broadcast "listenerReceive ch" "listener_queue ch" "listening ch" for ch
  by unfold_locales
    (auto simp: listening_def listener_queue_def client_broadcast_def listenerReceive_def map_of_listeners update_conv'
      split: option.split list.split)

interpretation browser_channel: drop_channel 32 browser_broadcast "browserReceive ch" "browser_queue ch" "browsing ch" for ch
  by unfold_locales
    (auto simp: browsing_def browser_queue_def browser_broadcast_def browserReceive_def map_of_map_snd update_conv'
      split: option.split list.split)

text \<open>Each hop leaves the other's queues alone.\<close>

lemma feed_frames [simp]:
  "browser_queue b (client_broadcast ev s) = browser_queue b s" "browsing b (client_broadcast ev s) = browsing b s"
  "browser_queue b (snd (listenerReceive ch s)) = browser_queue b s" "browsing b (snd (listenerReceive ch s)) = browsing b s"
  "listener_queue ch (browser_broadcast ev s) = listener_queue ch s" "listening ch (browser_broadcast ev s) = listening ch s"
  "listener_queue ch (snd (browserReceive b s)) = listener_queue ch s" "listening ch (snd (browserReceive b s)) = listening ch s"
  "browser_queue b (s\<lparr>alerts := as\<rparr>) = browser_queue b s" "browsing b (s\<lparr>alerts := as\<rparr>) = browsing b s"
  "listener_queue ch (s\<lparr>alerts := as\<rparr>) = listener_queue ch s" "listening ch (s\<lparr>alerts := as\<rparr>) = listening ch s"
  by (simp_all add: browser_queue_def browsing_def listener_queue_def listening_def client_broadcast_def listenerReceive_def
      browser_broadcast_def browserReceive_def split: option.split list.split)

lemma browserReceive_other [simp]:
  "c \<noteq> b \<Longrightarrow> browser_queue b (snd (browserReceive c s)) = browser_queue b s"
  "c \<noteq> b \<Longrightarrow> browsing b (snd (browserReceive c s)) = browsing b s"
  by (simp_all add: browser_queue_def browsing_def browserReceive_def update_conv' split: option.split list.split)

section \<open>What a browser sees\<close>

datatype feed_op = HubMessage bool bytes | FanOut time | BrowserRead nat

text \<open>The events that browser \<open>b\<close> receives along a run, and the events the hub sent during it.\<close>

fun feed_run ::
  "sos_json \<Rightarrow> (bytes \<Rightarrow> (int \<times> event_body option) option) \<Rightarrow> nat \<Rightarrow> nat \<Rightarrow> feed_op list \<Rightarrow> 'a feed_scheme \<Rightarrow> MonEvent list \<times> 'a feed_scheme" where
  "feed_run json decode hubCh b [] s = ([], s)"
| "feed_run json decode hubCh b (HubMessage bin d # ops) s = feed_run json decode hubCh b ops (client_message json decode bin d s)"
| "feed_run json decode hubCh b (FanOut now # ops) s = feed_run json decode hubCh b ops (fanOutHubEvents json now hubCh s)"
| "feed_run json decode hubCh b (BrowserRead c # ops) s =
     (let (r, s1) = browserReceive c s; (rs, s2) = feed_run json decode hubCh b ops s1
      in (case r of Some ev \<Rightarrow> if c = b then ev # rs else rs | None \<Rightarrow> rs, s2))"

definition message_event :: "sos_json \<Rightarrow> (bytes \<Rightarrow> (int \<times> event_body option) option) \<Rightarrow> feed_op \<Rightarrow> MonEvent option" where
  "message_event json decode op = (case op of
     HubMessage bin d \<Rightarrow> if bin then Option.bind (decode d) (\<lambda>(emitted, body). translateEvent json emitted body) else None
   | _ \<Rightarrow> None)"

definition hub_events :: "sos_json \<Rightarrow> (bytes \<Rightarrow> (int \<times> event_body option) option) \<Rightarrow> feed_op list \<Rightarrow> MonEvent list" where
  "hub_events json decode ops = List.map_filter (message_event json decode) ops"

lemma client_message_event:
  "client_message json decode bin d s =
     (case message_event json decode (HubMessage bin d) of None \<Rightarrow> s | Some ev \<Rightarrow> client_broadcast ev s)"
  by (auto simp: client_message_def message_event_def split: option.split)

lemma offer_subseq: "subseq (offer cap x q @ rest) (q @ x # rest)"
  by (simp add: offer_def list_emb_append_mono list_emb_Cons)

text \<open>What waits for the browser: its own channel, then the server's.\<close>

definition waiting :: "nat \<Rightarrow> nat \<Rightarrow> 'a feed_scheme \<Rightarrow> MonEvent list" where
  "waiting hubCh b s = browser_queue b s @ listener_queue hubCh s"

lemma message_step:
  assumes "listening hubCh s" and "browsing b s"
  shows "listening hubCh (client_message json decode bin d s)" and "browsing b (client_message json decode bin d s)"
    and "subseq (waiting hubCh b (client_message json decode bin d s) @ rest)
      (waiting hubCh b s @ hub_events json decode [HubMessage bin d] @ rest)"
proof -
  have "subseq (browser_queue b s @ offer 64 ev (listener_queue hubCh s) @ rest)
      (browser_queue b s @ listener_queue hubCh s @ ev # rest)" for ev
    by (intro list_emb_append_mono offer_subseq subseq_order.order_refl)
  then show "listening hubCh (client_message json decode bin d s)" "browsing b (client_message json decode bin d s)"
    "subseq (waiting hubCh b (client_message json decode bin d s) @ rest)
      (waiting hubCh b s @ hub_events json decode [HubMessage bin d] @ rest)"
    using assms by (auto simp: client_message_event hub_events_def map_filter_simps waiting_def hub_listener.send_live
        hub_listener.send_queue split: option.split)
qed

lemma fanOut_step:
  assumes "listening hubCh s" and "browsing b s"
  shows "listening hubCh (fanOutHubEvents json now hubCh s)" and "browsing b (fanOutHubEvents json now hubCh s)"
    and "subseq (waiting hubCh b (fanOutHubEvents json now hubCh s) @ rest) (waiting hubCh b s @ rest)"
proof -
  obtain x s1 where x: "listenerReceive hubCh s = (x, s1)" by force
  have l: "listening hubCh s1" "listener_queue hubCh s1 = tl (listener_queue hubCh s)"
    "x = (case listener_queue hubCh s of [] \<Rightarrow> None | x # _ \<Rightarrow> Some x)" "browsing b s1" "browser_queue b s1 = browser_queue b s"
    using hub_listener.recv_live [OF assms(1)] hub_listener.recv_queue [OF assms(1)]
      hub_listener.recv_result [OF assms(1)] feed_frames(3,4) [of _ hubCh s] assms(2) x by simp_all
  have s2: "listening hubCh (fanOut json now y s1)" "browsing b (fanOut json now y s1)"
    "waiting hubCh b (fanOut json now y s1) = offer 32 y (browser_queue b s) @ listener_queue hubCh s1" for y
    using l by (simp_all add: waiting_def fanOut_def Let_def browser_channel.send_live browser_channel.send_queue)
  show "listening hubCh (fanOutHubEvents json now hubCh s)" "browsing b (fanOutHubEvents json now hubCh s)"
    using l s2 by (simp_all add: fanOutHubEvents_def x split: option.split)
  show "subseq (waiting hubCh b (fanOutHubEvents json now hubCh s) @ rest) (waiting hubCh b s @ rest)"
  proof (cases "listener_queue hubCh s")
    case Nil
    then show ?thesis using l by (simp add: fanOutHubEvents_def x waiting_def)
  next
    case (Cons y q)
    then show ?thesis
      using l offer_subseq [of 32 y "browser_queue b s" "q @ rest"] by (simp add: fanOutHubEvents_def x s2) (simp add: waiting_def)
  qed
qed

lemma read_step:
  assumes "listening hubCh s" and "browsing b s" and "browserReceive c s = (x, s1)"
  shows "listening hubCh s1" and "browsing b s1"
    and "(case x of Some e \<Rightarrow> if c = b then [e] else [] | None \<Rightarrow> []) @ waiting hubCh b s1 = waiting hubCh b s"
proof -
  have f: "listening hubCh s1" "listener_queue hubCh s1 = listener_queue hubCh s"
    using feed_frames(7,8) [of hubCh c s] assms(1,3) by simp_all
  have "browsing b s1 \<and> (case x of Some e \<Rightarrow> if c = b then [e] else [] | None \<Rightarrow> []) @ browser_queue b s1 = browser_queue b s"
  proof (cases "c = b")
    case True
    then show ?thesis
      using browser_channel.recv_live [OF assms(2)] browser_channel.recv_queue [OF assms(2)]
        browser_channel.recv_result [OF assms(2)] assms(3) by (cases "browser_queue b s") simp_all
  next
    case False
    then show ?thesis
      using browserReceive_other [OF False, of s] assms(2,3) by (simp split: option.split)
  qed
  with f show "listening hubCh s1" "browsing b s1"
    "(case x of Some e \<Rightarrow> if c = b then [e] else [] | None \<Rightarrow> []) @ waiting hubCh b s1 = waiting hubCh b s"
    by (simp_all add: waiting_def flip: append_assoc)
qed

lemma feed_order:
  assumes "listening hubCh s" and "browsing b s" and "feed_run json decode hubCh b ops s = (received, s')"
  shows "subseq (received @ waiting hubCh b s') (waiting hubCh b s @ hub_events json decode ops)"
  using assms
proof (induction ops arbitrary: s received)
  case Nil
  then show ?case by (simp add: hub_events_def map_filter_simps)
next
  case (Cons op ops)
  note live = Cons.prems(1,2)
  have ev: "hub_events json decode (op # ops) = hub_events json decode [op] @ hub_events json decode ops"
    by (simp add: hub_events_def map_filter_simps split: option.split)
  show ?case
  proof (cases op)
    case (HubMessage bin d)
    with Cons.prems(3) have "feed_run json decode hubCh b ops (client_message json decode bin d s) = (received, s')" by simp
    from Cons.IH [OF message_step(1,2) [OF live] this] message_step(3) [OF live]
    show ?thesis unfolding ev unfolding HubMessage by (rule subseq_order.order_trans)
  next
    case (FanOut now)
    with Cons.prems(3) have "feed_run json decode hubCh b ops (fanOutHubEvents json now hubCh s) = (received, s')" by simp
    from Cons.IH [OF fanOut_step(1,2) [OF live] this] fanOut_step(3) [OF live]
    have "subseq (received @ waiting hubCh b s') (waiting hubCh b s @ hub_events json decode ops)" by (rule subseq_order.order_trans)
    then show ?thesis unfolding ev unfolding FanOut by (simp add: hub_events_def message_event_def map_filter_simps)
  next
    case (BrowserRead c)
    obtain x s1 where x: "browserReceive c s = (x, s1)" by force
    let ?got = "case x of Some e \<Rightarrow> if c = b then [e] else [] | None \<Rightarrow> []"
    obtain rs where r: "feed_run json decode hubCh b ops s1 = (rs, s')" "received = ?got @ rs"
      using Cons.prems(3) x by (auto simp: BrowserRead split: prod.splits option.splits)
    from Cons.IH [OF read_step(1,2) [OF live x] r(1)]
    have "subseq (?got @ rs @ waiting hubCh b s') (?got @ waiting hubCh b s1 @ hub_events json decode ops)"
      by (rule list_emb_append_mono [OF subseq_order.order_refl])
    moreover have "?got @ waiting hubCh b s1 @ hub_events json decode ops = waiting hubCh b s @ hub_events json decode ops"
      using read_step(3) [OF live x] by simp
    moreover have "hub_events json decode [op] = []"
      by (simp add: BrowserRead hub_events_def message_event_def map_filter_simps)
    ultimately show ?thesis
      by (simp only: ev r(2) append_assoc append_Nil)
  qed
qed

text \<open>
  C12. What a browser sees. From the hub's socket to the page there are two queues that drop rather than
  wait. Along any interleaving of messages, fan-outs and reads, by this and other browsers, what the
  browser received is a subsequence of the events the hub sent: in order, none twice, none invented;
  and what it received together with what still waits for it is one too.
\<close>

theorem browser_sees_subsequence:
  assumes "listening hubCh s" and "browsing b s" and "waiting hubCh b s = []"
    and "feed_run json decode hubCh b ops s = (received, s')"
  shows "subseq (received @ waiting hubCh b s') (hub_events json decode ops) \<and> subseq received (hub_events json decode ops)"
proof -
  have "subseq (received @ waiting hubCh b s') (hub_events json decode ops)"
    using feed_order [OF assms(1,2,4)] assms(3) by simp
  moreover have "subseq received (received @ waiting hubCh b s')" by (rule list_emb_prefix) simp
  ultimately show ?thesis by (auto intro: subseq_order.order_trans)
qed

definition no_sos_json :: sos_json where
  "no_sos_json p = (\<lparr>sf_Text = '''', sf_Lat = Fin 0, sf_Lon = Fin 0, sf_AccuracyM = Fin 0, sf_SentAt = 0\<rparr>, False)"

text \<open>A decoder that reads every message as a depth of 1.\<close>

definition sample_decode :: "bytes \<Rightarrow> (int \<times> event_body option) option" where
  "sample_decode d = Some (0, Some (EvDtnQueueDepthChanged 1))"

definition sample_feed :: feed where
  "sample_feed = \<lparr>listeners = [(0, 64, [])], browsers = [(5, [])], alerts = []\<rparr>"

theorem browser_sees_subsequence_witness:
  "let r = feed_run no_sos_json sample_decode 0 5 [HubMessage True [1], FanOut 0, BrowserRead 5] sample_feed
   in length (fst r) = 1 \<and> subseq (fst r) (hub_events no_sos_json sample_decode [HubMessage True [1], FanOut 0, BrowserRead 5])"
proof -
  let ?r = "feed_run no_sos_json sample_decode 0 5 [HubMessage True [1], FanOut 0, BrowserRead 5] sample_feed"
  have "feed_run no_sos_json sample_decode 0 5 [HubMessage True [1], FanOut 0, BrowserRead 5] sample_feed = (fst ?r, snd ?r)" by simp
  from browser_sees_subsequence [OF _ _ _ this]
  have "subseq (fst ?r) (hub_events no_sos_json sample_decode [HubMessage True [1], FanOut 0, BrowserRead 5])"
    by (simp add: sample_feed_def listening_def browsing_def waiting_def browser_queue_def listener_queue_def)
  moreover have "length (fst ?r) = 1"
    by (simp add: sample_feed_def client_message_def sample_decode_def translateEvent_def zero_event_def client_broadcast_def
        offer_def fanOutHubEvents_def listenerReceive_def fanOut_def browser_broadcast_def browserReceive_def)
  ultimately show ?thesis by (simp only: Let_def simp_thms)
qed

section \<open>The alert feed\<close>

text \<open>
  The feed keeps the newest hundred alerts. After any number of alerts, in the order they came in,
  the list holds the last hundred of them, newest first, and nothing else.
\<close>

theorem sos_feed_newest: "sos_List (fold sos_Add as []) = take 100 (rev as)"
proof -
  have "fold sos_Add as xs = take 100 (rev as @ xs)" if "length xs \<le> 100" for xs
    using that
  proof (induction "as" arbitrary: xs)
    case (Cons a as)
    then have "length (sos_Add a xs) \<le> 100" by (simp add: sos_Add_def Let_def)
    from Cons.IH [OF this] Cons.prems show ?case by (simp add: sos_Add_def Let_def min_def take_Cons')
  qed simp
  then show ?thesis by (simp add: sos_List_def)
qed

section \<open>Delays\<close>

lemma next_backoff_closed:
  "(next_backoff ^^ n) Second = (if n \<le> 5 then 2 ^ n * Second else 32 * Second)"
proof (induction n)
  case (Suc n)
  have step: "(next_backoff ^^ Suc n) Second = next_backoff ((next_backoff ^^ n) Second)" by simp
  consider "n \<in> {0, 1, 2, 3, 4}" | "n \<ge> 5" by force
  then show ?case
  proof cases
    case 1
    then show ?thesis unfolding step Suc by (auto simp: next_backoff_def)
  next
    case 2
    then show ?thesis unfolding step Suc by (cases "n = 5") (auto simp: next_backoff_def)
  qed
qed simp

lemma run_delays_nth: "i < n \<Longrightarrow> run_delays n b ! i = (next_backoff ^^ i) b"
proof (induction n b arbitrary: i rule: run_delays.induct)
  case (2 n b)
  then show ?case by (cases i) (simp_all add: funpow_swap1)
qed simp

text \<open>
  Waiting between connection attempts. The delays before the attempts that follow one another are 1,
  2, 4, 8, 16 and then 32 seconds for ever: every attempt is followed by another one after at most 32
  seconds. Once the delay is at its bound, a connection that lived long does not lower it again.
\<close>

theorem reconnect_delays:
  "i < n \<Longrightarrow> run_delays n Second ! i = (if i \<le> 5 then 2 ^ i * Second else 32 * Second) \<and> run_delays n Second ! i \<le> 32 * Second"
proof -
  assume "i < n"
  moreover have "(2::int) ^ i * Second \<le> 2 ^ 5 * Second" if "i \<le> 5"
    using that by (intro mult_right_mono power_increasing) auto
  ultimately show ?thesis by (auto simp: run_delays_nth next_backoff_closed)
qed

theorem reconnect_delays_witness: "run_delays 9 Second ! 8 = 32 * Second"
  using reconnect_delays [of 8 9] by simp

end
