(* ===== verification/MonitorServer.thy ===== *)
theory MonitorServer
  imports Sniff MonitorAuth Datastore MonitorFeed
begin

text \<open>
  \<^verbatim>\<open>monitor/internal/server/server.go\<close> and \<^verbatim>\<open>sniff.go\<close>: the HTTP front end of the dashboard, over the
  account store, the data store and the event feed. A handler takes a request, with the session
  cookie and what decoding the body into its structure gives (\<open>None\<close> on an error), and returns the
  response and the next world. Random bytes, the clock, the relay probe and the WebSocket upgrade of
  a request are arguments; a request is served at one instant, on a path without escapes.

  Shown: no request without a session that is free of the password demand reads or writes data, a
  password change opens the gate, the routing table answers with the longest pattern, and a relay
  entry added over HTTP is deleted under the identifier that the reply printed.
\<close>

section \<open>Requests and responses\<close>

text \<open>What decoding the body into the structure of each handler gives.\<close>

record json_body =
  jb_login :: "(string \<times> string) option"
  jb_password :: "(string \<times> string) option"
  jb_relay :: "(string \<times> int) option"
  jb_coords :: "(float64 \<times> float64) option"
  jb_enabled :: "bool option"
  jb_ban :: "(string \<times> string \<times> string) option"
  jb_agree :: "bool option"

record mon_request =
  mq_Method :: string
  mq_Path :: string
  mq_Host :: string
  mq_RemoteAddr :: string
  mq_Cookie :: "string option"
  mq_window :: string
  mq_User :: string
  mq_Body :: json_body

text \<open>The outside of one request.\<close>

record mon_io =
  io_now :: time
  io_entropy :: "error + bytes"
  io_salt :: bytes
  io_probe :: "string \<Rightarrow> int \<Rightarrow> error option"
  io_upgrade :: "nat option"
  io_file :: "string \<Rightarrow> nat"

record mon_config =
  mc_BindAddr :: string
  mc_addr :: "string option"
  mc_AppVersion :: string
  mc_bcrypt :: bcrypt
  mc_sha256 :: "bytes \<Rightarrow> bytes"
  mc_mathlib :: mathlib
  mc_geo :: geo_math
  mc_fmt0 :: "float64 \<Rightarrow> string"
  mc_ParseDuration :: "string \<Rightarrow> duration option"

record sniff_reply =
  sn_meshId :: string
  sn_appVersion :: string
  sn_dashboard :: string
  sn_services :: "sniffService list"

datatype payload =
    JText string
  | JError error
  | JOk
  | JEmpty
  | JLogin bool
  | JSniff sniff_reply
  | JStatic string
  | JRedirect string
  | JFallback bool
  | JOverview Overview
  | JNodes "MonNode list"
  | JHubs "MonHub list"
  | JRoutes "MonRoute list"
  | JTrust "TrustScore list"
  | JHints "MonOrphanHint list"
  | JRelayHubs "RelayHub list"
  | JRelayHub RelayHub
  | JProbe "error option" time
  | JAppStats "AppStat list"
  | JInfrastructure "InfrastructureSegment list"
  | JLatency "HopLatencyPoint list"
  | JBanList "BanEntry list"
  | JBanEntry BanEntry
  | JAlerts "Alert list"
  | JUpgraded nat "Overview option"

record http_cookie =
  ck_Value :: string
  ck_Path :: string
  ck_HttpOnly :: bool
  ck_SameSiteStrict :: bool
  ck_MaxAge :: int

text \<open>Of the response headers only the session cookie is kept.\<close>

record mon_response =
  rs_Status :: nat
  rs_Cookie :: "http_cookie option"
  rs_Payload :: payload

record mon_world = auth_world +
  mon_feed :: feed

type_synonym handler = "mon_request \<Rightarrow> mon_world \<Rightarrow> mon_response \<times> mon_world"

definition http_Error :: "nat \<Rightarrow> payload \<Rightarrow> mon_response" where
  "http_Error code p = \<lparr>rs_Status = code, rs_Cookie = None, rs_Payload = p\<rparr>"

definition http_NotFound :: mon_response where
  "http_NotFound = http_Error 404 (JText ''404 page not found'')"

definition method_not_allowed :: mon_response where
  "method_not_allowed = http_Error 405 (JText ''method not allowed'')"

definition writeJSON :: "payload \<Rightarrow> mon_response" where
  "writeJSON p = \<lparr>rs_Status = 200, rs_Cookie = None, rs_Payload = p\<rparr>"

definition setSessionCookie :: "string \<Rightarrow> mon_response \<Rightarrow> mon_response" where
  "setSessionCookie token rs = rs\<lparr>rs_Cookie := Some
     \<lparr>ck_Value = token, ck_Path = ''/'', ck_HttpOnly = True, ck_SameSiteStrict = True, ck_MaxAge = 24 * 3600\<rparr>\<rparr>"

definition clearSessionCookie :: "mon_response \<Rightarrow> mon_response" where
  "clearSessionCookie rs = rs\<lparr>rs_Cookie := Some
     \<lparr>ck_Value = '''', ck_Path = ''/'', ck_HttpOnly = True, ck_SameSiteStrict = False, ck_MaxAge = - 1\<rparr>\<rparr>"

text \<open>\<^verbatim>\<open>v, err := m(); if err != nil { http.Error(w, msg, code); return }; writeJSON(w, v)\<close>\<close>

definition reply :: "nat \<Rightarrow> (error \<Rightarrow> payload) \<Rightarrow> ('y \<Rightarrow> payload) \<Rightarrow> (mon_world, 'y) stmt \<Rightarrow> mon_world \<Rightarrow> mon_response \<times> mon_world" where
  "reply code msg p m w = (case m w of (Inl e, w1) \<Rightarrow> (http_Error code (msg e), w1) | (Inr x, w1) \<Rightarrow> (writeJSON (p x), w1))"

abbreviation text_error :: "string \<Rightarrow> error \<Rightarrow> payload" where
  "text_error msg \<equiv> \<lambda>_. JText msg"

section \<open>Sessions\<close>

definition sessionToken :: "mon_request \<Rightarrow> string" where
  "sessionToken r = (case mq_Cookie r of None \<Rightarrow> '''' | Some v \<Rightarrow> v)"

definition mon_session :: "mon_io \<Rightarrow> mon_request \<Rightarrow> mon_world \<Rightarrow> (string \<times> bool) option \<times> mon_world" where
  "mon_session io r w = ValidateSession (io_now io) (sessionToken r) w"

definition requireAuth :: "mon_io \<Rightarrow> handler \<Rightarrow> handler" where
  "requireAuth io next r w =
     (case mon_session io r w of
        (None, w1) \<Rightarrow> (http_Error 401 (JText ''unauthorized''), w1)
      | (Some (username, mustChange), w1) \<Rightarrow>
          if mustChange then (http_Error 403 (JError ErrMustChangePassword), w1)
          else next (r\<lparr>mq_User := username\<rparr>) w1)"

definition requireAuthWS :: "mon_io \<Rightarrow> handler \<Rightarrow> handler" where
  "requireAuthWS io next r w =
     (case mon_session io r w of
        (None, w1) \<Rightarrow> (http_Error 401 (JText ''unauthorized''), w1)
      | (Some (_, mustChange), w1) \<Rightarrow>
          if mustChange then (http_Error 403 (JError ErrMustChangePassword), w1)
          else next r w1)"

definition handleLogin :: "mon_config \<Rightarrow> mon_io \<Rightarrow> handler" where
  "handleLogin cfg io r w =
     (if mq_Method r \<noteq> ''POST'' then (method_not_allowed, w)
      else case jb_login (mq_Body r) of
        None \<Rightarrow> (http_Error 400 (JText ''bad request''), w)
      | Some (username, password) \<Rightarrow>
          (case Login (mc_bcrypt cfg) (io_entropy io) (io_now io) username password (mq_RemoteAddr r) w of
             (Inl e, w1) \<Rightarrow>
               (if e = ErrLockedOut then http_Error 429 (JError e)
                else if e = ErrInvalidCredentials then http_Error 401 (JError e)
                else http_Error 500 (JText ''login failed''), w1)
           | (Inr (token, mustChange), w1) \<Rightarrow> (setSessionCookie token (writeJSON (JLogin mustChange)), w1)))"

definition handleLogout :: handler where
  "handleLogout r w =
     (let w1 = (if sessionToken r \<noteq> '''' then Logout (sessionToken r) w else w)
      in (clearSessionCookie (writeJSON JOk), w1))"

definition handleChangePassword :: "mon_config \<Rightarrow> mon_io \<Rightarrow> handler" where
  "handleChangePassword cfg io r w =
     (if mq_Method r \<noteq> ''POST'' then (method_not_allowed, w)
      else case mon_session io r w of
        (None, w1) \<Rightarrow> (http_Error 401 (JText ''unauthorized''), w1)
      | (Some (username, _), w1) \<Rightarrow>
          (case jb_password (mq_Body r) of
             None \<Rightarrow> (http_Error 400 (JText ''bad request''), w1)
           | Some (current, new) \<Rightarrow>
               (case ChangePassword (mc_bcrypt cfg) (io_salt io) username current new w1 of
                  (Inl e, w2) \<Rightarrow> (if e = ErrInvalidCredentials then http_Error 401 (JError e) else http_Error 400 (JError e), w2)
                | (Inr _, w2) \<Rightarrow> (writeJSON JOk, w2))))"

section \<open>Read handlers\<close>

definition handleOverview :: "mon_io \<Rightarrow> handler" where
  "handleOverview io r w =
     (if mq_Method r \<noteq> ''GET'' then (method_not_allowed, w)
      else reply 500 (text_error ''overview failed'') JOverview (OverviewSnapshot (io_now io)) w)"

definition handleNodes :: handler where
  "handleNodes r w =
     (if mq_Method r \<noteq> ''GET'' then (method_not_allowed, w)
      else reply 500 (text_error ''nodes query failed'') JNodes ds_Nodes w)"

definition handleHubs :: handler where
  "handleHubs r w =
     (if mq_Method r \<noteq> ''GET'' then (method_not_allowed, w)
      else reply 500 (text_error ''hubs query failed'') JHubs ds_Hubs w)"

definition handleRoutes :: handler where
  "handleRoutes r w =
     (if mq_Method r \<noteq> ''GET'' then (method_not_allowed, w)
      else reply 500 (text_error ''routes query failed'') JRoutes ds_Routes w)"

definition handleTrustScores :: "mon_config \<Rightarrow> mon_io \<Rightarrow> handler" where
  "handleTrustScores cfg io r w =
     (if mq_Method r \<noteq> ''GET'' then (method_not_allowed, w)
      else reply 500 (text_error ''trust scores query failed'') JTrust (TrustScores (mc_mathlib cfg) (io_now io)) w)"

definition handleOrphanHints :: "mon_config \<Rightarrow> mon_io \<Rightarrow> handler" where
  "handleOrphanHints cfg io r w =
     (if mq_Method r \<noteq> ''GET'' then (method_not_allowed, w)
      else reply 500 (text_error ''orphan hints query failed'') JHints (OrphanHints (mc_geo cfg) (mc_fmt0 cfg) (io_now io)) w)"

definition handleAppStats :: handler where
  "handleAppStats r w =
     (if mq_Method r \<noteq> ''GET'' then (method_not_allowed, w)
      else reply 500 (text_error ''app stats query failed'') JAppStats ds_AppStats w)"

definition handleInfrastructure :: handler where
  "handleInfrastructure r w =
     (if mq_Method r \<noteq> ''GET'' then (method_not_allowed, w)
      else reply 500 (text_error ''infrastructure query failed'') JInfrastructure Infrastructure w)"

definition handleSosAlerts :: handler where
  "handleSosAlerts r w =
     (if mq_Method r \<noteq> ''GET'' then (method_not_allowed, w)
      else (writeJSON (JAlerts (sos_List (alerts (mon_feed w)))), w))"

definition handleHopLatency :: "mon_config \<Rightarrow> mon_io \<Rightarrow> handler" where
  "handleHopLatency cfg io r w =
     (if mq_Method r \<noteq> ''GET'' then (method_not_allowed, w)
      else let window = (if mq_window r \<noteq> ''''
                         then (case mc_ParseDuration cfg (mq_window r) of
                                 Some d \<Rightarrow> if d > 0 then d else Hour | None \<Rightarrow> Hour)
                         else Hour)
           in reply 500 (text_error ''hop latency query failed'') JLatency (HopLatency (io_now io) window 500) w)"

section \<open>Handlers that write\<close>

text \<open>\<^verbatim>\<open>strings.Trim(s, "/")\<close> and \<^verbatim>\<open>strings.Split(s, "/")\<close>.\<close>

definition Trim_slash :: "string \<Rightarrow> string" where
  "Trim_slash s = rev (dropWhile (\<lambda>c. c = CHR ''/'') (rev (dropWhile (\<lambda>c. c = CHR ''/'') s)))"

fun Split_slash :: "string \<Rightarrow> string list" where
  "Split_slash [] = [[]]"
| "Split_slash (c # s) =
     (if c = CHR ''/'' then [] # Split_slash s
      else case Split_slash s of [] \<Rightarrow> [[c]] | p # ps \<Rightarrow> (c # p) # ps)"

definition path_parts :: "string \<Rightarrow> mon_request \<Rightarrow> string list" where
  "path_parts pre r = Split_slash (Trim_slash (TrimPrefix (mq_Path r) pre))"

definition handleRelayHubs :: "mon_config \<Rightarrow> mon_io \<Rightarrow> handler" where
  "handleRelayHubs cfg io r w =
     (if mq_Method r = ''GET'' then reply 500 (text_error ''relay hubs query failed'') JRelayHubs RelayHubs w
      else if mq_Method r = ''POST'' then
        (case jb_relay (mq_Body r) of
           None \<Rightarrow> (http_Error 400 (JText ''ip and port required''), w)
         | Some (ip, port) \<Rightarrow>
             if ip = '''' \<or> port \<le> 0 then (http_Error 400 (JText ''ip and port required''), w)
             else reply 500 (text_error ''add relay hub failed'') JRelayHub (AddRelayHub (mc_sha256 cfg) (io_now io) ip port) w)
      else (method_not_allowed, w))"

definition handleRelayHubAction :: "mon_io \<Rightarrow> handler" where
  "handleRelayHubAction io r w =
     (let parts = path_parts ''/api/relay-hubs/'' r in
      if parts = [] \<or> parts ! 0 = '''' then (http_NotFound, w)
      else case hex_DecodeString (parts ! 0) of
        None \<Rightarrow> (http_Error 400 (JText ''invalid hub id''), w)
      | Some hubID \<Rightarrow>
          if length hubID \<noteq> node_id_len then (http_Error 400 (JText ''invalid hub id''), w)
          else if length parts = 2 \<and> parts ! 1 = ''probe'' \<and> mq_Method r = ''POST'' then
            (case RelayHubByID hubID w of
               (Inl _, w1) \<Rightarrow> (http_Error 404 (JText ''relay hub not found''), w1)
             | (Inr hub, w1) \<Rightarrow>
                 (let probeErr = io_probe io (rl_IP hub) (rl_Port hub);
                      w2 = (if probeErr = None then snd (MarkRelayHubVerified hubID (io_now io) w1) else w1)
                  in (writeJSON (JProbe probeErr (io_now io)), w2)))
          else if length parts = 1 \<and> mq_Method r = ''DELETE'' then
            reply 500 (text_error ''delete failed'') (\<lambda>_. JOk) (RemoveRelayHub hubID) w
          else (http_NotFound, w))"

definition mon_handleEndorse :: "mon_io \<Rightarrow> handler" where
  "mon_handleEndorse io r w =
     (if mq_Method r \<noteq> ''POST'' then (method_not_allowed, w)
      else let eid = Trim_slash (TrimPrefix (mq_Path r) ''/api/endorse/'') in
        if eid = '''' then (http_NotFound, w)
        else reply 400 JError (\<lambda>_. JOk) (EndorseEntity (io_now io) eid) w)"

definition handleHubAction :: "mon_io \<Rightarrow> handler" where
  "handleHubAction io r w =
     (let parts = path_parts ''/api/hubs/'' r in
      if length parts \<noteq> 2 \<or> parts ! 0 = '''' then (http_NotFound, w)
      else let hubID = parts ! 0; action = parts ! 1 in
        if action = ''endorse'' then
          (if mq_Method r \<noteq> ''POST'' then (method_not_allowed, w)
           else reply 400 JError (\<lambda>_. JOk) (EndorseEntity (io_now io) hubID) w)
        else if action = ''location'' then
          (if mq_Method r \<noteq> ''PATCH'' \<and> mq_Method r \<noteq> ''PUT'' then (method_not_allowed, w)
           else case jb_coords (mq_Body r) of
             None \<Rightarrow> (http_Error 400 (JText ''bad request''), w)
           | Some (lat, lon) \<Rightarrow> reply 400 JError (\<lambda>_. JOk) (ds_SetHubManualLocation hubID lat lon) w)
        else (http_NotFound, w))"

definition handleInfrastructureAction :: handler where
  "handleInfrastructureAction r w =
     (let parts = path_parts ''/api/infrastructure/'' r in
      if parts = [] \<or> parts ! 0 = '''' then (http_NotFound, w)
      else if length parts = 2 \<and> parts ! 1 \<noteq> ''location'' then (http_NotFound, w)
      else if mq_Method r \<noteq> ''PATCH'' \<and> mq_Method r \<noteq> ''PUT'' then (method_not_allowed, w)
      else case jb_coords (mq_Body r) of
        None \<Rightarrow> (http_Error 400 (JText ''bad request''), w)
      | Some (lat, lon) \<Rightarrow> reply 400 JError (\<lambda>_. JOk) (SetInfrastructureManualLocation (parts ! 0) lat lon) w)"

definition handleInternetFallback :: handler where
  "handleInternetFallback r w =
     (if mq_Method r = ''GET'' then reply 500 (text_error ''config query failed'') JFallback InternetFallbackEnabled w
      else if mq_Method r = ''PATCH'' then
        (case jb_enabled (mq_Body r) of
           None \<Rightarrow> (http_Error 400 (JText ''bad request''), w)
         | Some enabled \<Rightarrow> reply 500 (text_error ''config update failed'') (\<lambda>_. JFallback enabled) (SetInternetFallbackEnabled enabled) w)
      else (method_not_allowed, w))"

definition handleBanList :: "mon_io \<Rightarrow> handler" where
  "handleBanList io r w =
     (if mq_Method r = ''GET'' then reply 500 (text_error ''ban list query failed'') JBanList BanList w
      else if mq_Method r = ''POST'' then
        (case jb_ban (mq_Body r) of
           None \<Rightarrow> (http_Error 400 (JText ''app_id and reason required''), w)
         | Some (appID, versionRange, reason) \<Rightarrow>
             if appID = '''' \<or> reason = '''' then (http_Error 400 (JText ''app_id and reason required''), w)
             else reply 500 (text_error ''propose ban failed'') JBanEntry (ProposeBan (io_now io) appID versionRange reason) w)
      else (method_not_allowed, w))"

definition handleBanListAction :: "mon_io \<Rightarrow> handler" where
  "handleBanListAction io r w =
     (let parts = path_parts ''/api/ban-list/'' r in
      if length parts \<noteq> 2 \<or> parts ! 1 \<noteq> ''verdict'' \<or> mq_Method r \<noteq> ''POST'' then (http_NotFound, w)
      else case jb_agree (mq_Body r) of
        None \<Rightarrow> (http_Error 400 (JText ''bad request''), w)
      | Some agree \<Rightarrow> reply 500 (text_error ''verdict failed'') (\<lambda>_. JOk) (SetBanVerdict (io_now io) (parts ! 0) agree) w)"

text \<open>
  The connection of a browser: registered under the channel that the upgrade gives, with the snapshot
  pushed first. Its loop takes events with \<^const>\<open>browserReceive\<close> and ends in \<^const>\<open>removeBrowser\<close>.
\<close>

definition handleBrowserWS :: "mon_io \<Rightarrow> handler" where
  "handleBrowserWS io r w =
     (case io_upgrade io of
        None \<Rightarrow> (http_Error 400 JEmpty, w)
      | Some ch \<Rightarrow>
          (let w1 = w\<lparr>mon_feed := addBrowser ch (mon_feed w)\<rparr>
           in case OverviewSnapshot (io_now io) w1 of
                (Inl _, w2) \<Rightarrow> (http_Error 101 (JUpgraded ch None), w2)
              | (Inr ov, w2) \<Rightarrow> (http_Error 101 (JUpgraded ch (Some ov)), w2)))"

definition closeBrowserWS :: "nat \<Rightarrow> mon_world \<Rightarrow> mon_world" where
  "closeBrowserWS ch w = w\<lparr>mon_feed := removeBrowser ch (mon_feed w)\<rparr>"

section \<open>Discovery and static files\<close>

definition handleSniff :: "mon_config \<Rightarrow> handler" where
  "handleSniff cfg r w =
     (if mq_Method r \<noteq> ''GET'' \<and> mq_Method r \<noteq> ''HEAD'' then (method_not_allowed, w)
      else
        let host = requestHost (mq_Host r);
            port0 = portFromListenAddr (mc_BindAddr cfg);
            port = (case mc_addr cfg of Some a \<Rightarrow> if port0 \<le> 0 then portFromListenAddr a else port0 | None \<Rightarrow> port0);
            dashURL = (if port > 0 then ''http://'' @ JoinHostPort host (show_int port) @ ''/'' else '''');
            (meshID, w1) = (case ds_LocalHubID w of (Inr i, w1) \<Rightarrow> (NodeID_String i, w1) | (Inl _, w1) \<Rightarrow> ('''', w1));
            services = (if port > 0 then [\<lparr>ss_Name = ''QuakeMesh Monitor'', ss_Port = port, ss_URL = dashURL\<rparr>] else [])
        in if mq_Method r = ''HEAD'' then (writeJSON JEmpty, w1)
           else (writeJSON (JSniff \<lparr>sn_meshId = meshID, sn_appVersion = mc_AppVersion cfg, sn_dashboard = dashURL,
                              sn_services = services\<rparr>), w1))"

text \<open>The embedded files: the name that is served; \<open>io_file\<close> gives the status of the file server.\<close>

definition handleStatic :: "mon_io \<Rightarrow> handler" where
  "handleStatic io r w =
     (if mq_Path r = ''/'' then (writeJSON (JStatic ''index.html''), w)
      else if mq_Path r = ''/login'' then (writeJSON (JStatic ''login.html''), w)
      else if mq_Path r = ''/change-password'' then (writeJSON (JStatic ''change-password.html''), w)
      else (http_Error (io_file io (mq_Path r)) (JStatic (mq_Path r)), w))"

section \<open>Routing\<close>

definition server_mux :: "mon_config \<Rightarrow> mon_io \<Rightarrow> (string \<times> handler) list" where
  "server_mux cfg io =
     [(''/sniff'', handleSniff cfg),
      (''/api/sniff'', handleSniff cfg),
      (''/api/login'', handleLogin cfg io),
      (''/api/logout'', handleLogout),
      (''/api/change-password'', handleChangePassword cfg io),
      (''/api/overview'', requireAuth io (handleOverview io)),
      (''/api/nodes'', requireAuth io handleNodes),
      (''/api/hubs'', requireAuth io handleHubs),
      (''/api/routes'', requireAuth io handleRoutes),
      (''/api/orphan-hints'', requireAuth io (handleOrphanHints cfg io)),
      (''/api/trust-scores'', requireAuth io (handleTrustScores cfg io)),
      (''/api/relay-hubs'', requireAuth io (handleRelayHubs cfg io)),
      (''/api/relay-hubs/'', requireAuth io (handleRelayHubAction io)),
      (''/api/metrics/hop-latency'', requireAuth io (handleHopLatency cfg io)),
      (''/api/internet-fallback'', requireAuth io handleInternetFallback),
      (''/api/app-stats'', requireAuth io handleAppStats),
      (''/api/infrastructure'', requireAuth io handleInfrastructure),
      (''/api/infrastructure/'', requireAuth io handleInfrastructureAction),
      (''/api/endorse/'', requireAuth io (mon_handleEndorse io)),
      (''/api/hubs/'', requireAuth io (handleHubAction io)),
      (''/api/ban-list'', requireAuth io (handleBanList io)),
      (''/api/ban-list/'', requireAuth io (handleBanListAction io)),
      (''/api/sos-alerts'', requireAuth io handleSosAlerts),
      (''/ws'', requireAuthWS io (handleBrowserWS io)),
      (''/'', handleStatic io)]"

text \<open>
  \<^verbatim>\<open>http.ServeMux\<close>: a pattern that ends in a slash matches everything below it, the longest one wins.
  A path is cleaned first, and a request for another spelling of it, or for a subtree without its
  slash, is redirected.
\<close>

definition pattern_matches :: "string \<Rightarrow> string \<Rightarrow> bool" where
  "pattern_matches pat path = (pat = path \<or> HasSuffix pat ''/'' \<and> HasPrefix path pat)"

fun mux_match :: "(string \<times> 'h) list \<Rightarrow> string \<Rightarrow> (string \<times> 'h) option" where
  "mux_match [] path = None"
| "mux_match ((pat, h) # ps) path =
     (case mux_match ps path of
        None \<Rightarrow> if pattern_matches pat path then Some (pat, h) else None
      | Some (pat', h') \<Rightarrow> if pattern_matches pat path \<and> length pat \<ge> length pat' then Some (pat, h) else Some (pat', h'))"

fun clean_segments :: "string list \<Rightarrow> string list \<Rightarrow> string list" where
  "clean_segments [] out = rev out"
| "clean_segments (s # ss) out =
     (if s = '''' \<or> s = ''.'' then clean_segments ss out
      else if s = ''..'' then clean_segments ss (drop 1 out)
      else clean_segments ss (s # out))"

definition cleanPath :: "string \<Rightarrow> string" where
  "cleanPath p =
     (let q = (if HasPrefix p ''/'' then p else ''/'' @ p);
          segs = clean_segments (Split_slash q) [];
          np = (if segs = [] then ''/'' else concat (map (\<lambda>s. ''/'' @ s) segs))
      in if HasSuffix q ''/'' \<and> np \<noteq> ''/'' then np @ ''/'' else np)"

definition ServeHTTP :: "mon_config \<Rightarrow> mon_io \<Rightarrow> handler" where
  "ServeHTTP cfg io r w =
     (let mux = server_mux cfg io;
          path = (if mq_Method r = ''CONNECT'' then mq_Path r else cleanPath (mq_Path r))
      in if path \<noteq> '''' \<and> \<not> HasSuffix path ''/'' \<and> path \<notin> fst ` set mux \<and> path @ ''/'' \<in> fst ` set mux
         then (http_Error 301 (JRedirect (path @ ''/'')), w)
         else if path \<noteq> mq_Path r then (http_Error 301 (JRedirect path), w)
         else case mux_match mux path of None \<Rightarrow> (http_NotFound, w) | Some (_, h) \<Rightarrow> h r w)"

section \<open>The dispatch\<close>

lemma HasPrefix_prefixes: "HasPrefix s p \<Longrightarrow> HasPrefix s q \<Longrightarrow> length p = length q \<Longrightarrow> p = q"
  by (simp add: HasPrefix_def)

text \<open>The table answers with an entry that matches, and no entry that matches is longer.\<close>

lemma mux_match_Some:
  assumes "mux_match ps path = Some (pat, h)"
  shows "(pat, h) \<in> set ps \<and> pattern_matches pat path \<and> (\<forall>(q, k) \<in> set ps. pattern_matches q path \<longrightarrow> length q \<le> length pat)"
  using assms
proof (induction ps arbitrary: pat h)
  case (Cons e ps)
  obtain q k where e: "e = (q, k)" by force
  show ?case
  proof (cases "mux_match ps path")
    case None
    then have "\<forall>(q', k') \<in> set ps. \<not> pattern_matches q' path"
      by (induction ps) (auto split: option.splits if_splits)
    with None Cons.prems show ?thesis by (auto simp: e split: if_splits)
  next
    case (Some m)
    obtain q' k' where m: "m = (q', k')" by force
    with Cons.IH Some have "(q', k') \<in> set ps \<and> pattern_matches q' path \<and>
        (\<forall>(q, k) \<in> set ps. pattern_matches q path \<longrightarrow> length q \<le> length q')" by blast
    with Some m Cons.prems show ?thesis by (auto simp: e split: if_splits)
  qed
qed simp

lemma mux_match_None: "mux_match ps path = None \<longleftrightarrow> (\<forall>(q, k) \<in> set ps. \<not> pattern_matches q path)"
  by (induction ps) (auto split: option.splits if_splits)

lemma pattern_matches_same_length:
  "pattern_matches p path \<Longrightarrow> pattern_matches q path \<Longrightarrow> length p = length q \<Longrightarrow> p = q"
  by (auto simp: pattern_matches_def HasPrefix_def)

text \<open>
  The routing table means what \<^verbatim>\<open>ServeMux\<close> promises. Over patterns that are pairwise different, as
  those of the server are, a handler is chosen exactly when its pattern matches the path and is longer
  than every other matching one; and with the pattern of the static files every rooted path has one.
\<close>

theorem mux_longest_wins:
  "distinct (map fst (server_mux cfg io)) \<and>
   (mux_match (server_mux cfg io) path = Some (pat, h) \<longleftrightarrow>
      (pat, h) \<in> set (server_mux cfg io) \<and> pattern_matches pat path \<and>
      (\<forall>(q, k) \<in> set (server_mux cfg io). pattern_matches q path \<and> q \<noteq> pat \<longrightarrow> length q < length pat)) \<and>
   (HasPrefix path ''/'' \<longrightarrow> mux_match (server_mux cfg io) path \<noteq> None)"
proof (intro conjI iffI impI)
  let ?mux = "server_mux cfg io"
  show d: "distinct (map fst ?mux)" by (simp add: server_mux_def)
  {
    assume "mux_match ?mux path = Some (pat, h)"
    note m = mux_match_Some [OF this]
    then have s: "length q < length pat" if "(q, k) \<in> set ?mux" "pattern_matches q path" "q \<noteq> pat" for q k
      using pattern_matches_same_length [of q path pat] that by (metis (no_types, lifting) case_prodD le_neq_implies_less)
    from m s show "(pat, h) \<in> set ?mux" "pattern_matches pat path"
      "\<forall>(q, k) \<in> set ?mux. pattern_matches q path \<and> q \<noteq> pat \<longrightarrow> length q < length pat" by blast+
  next
    assume a: "(pat, h) \<in> set ?mux \<and> pattern_matches pat path \<and>
      (\<forall>(q, k) \<in> set ?mux. pattern_matches q path \<and> q \<noteq> pat \<longrightarrow> length q < length pat)"
    then obtain q k where q: "mux_match ?mux path = Some (q, k)"
      by (metis (no_types, lifting) case_prodD mux_match_None not_Some_eq surj_pair)
    note m = mux_match_Some [OF q]
    with a have "q = pat" by fastforce
    moreover from this m a d have "k = h" by (metis (no_types, lifting) eq_key_imp_eq_value)
    ultimately show "mux_match ?mux path = Some (pat, h)" using q by simp
  next
    assume "HasPrefix path ''/''"
    then have "pattern_matches ''/'' path" by (simp add: pattern_matches_def HasSuffix_def)
    moreover have "(''/'', handleStatic io) \<in> set ?mux" by (simp add: server_mux_def)
    ultimately show "mux_match ?mux path \<noteq> None" unfolding mux_match_None by blast
  }
qed

theorem mux_longest_wins_witness:
  "\<forall>cfg io. mux_match (server_mux cfg io) ''/api/hubs/ab/endorse'' = Some (''/api/hubs/'', requireAuth io (handleHubAction io))"
proof (intro allI)
  fix cfg io
  have "(''/api/hubs/'', requireAuth io (handleHubAction io)) \<in> set (server_mux cfg io)" by (simp add: server_mux_def)
  moreover have "pattern_matches ''/api/hubs/'' ''/api/hubs/ab/endorse''" by (simp add: pattern_matches_def HasSuffix_def HasPrefix_def)
  moreover have "\<forall>(q, k) \<in> set (server_mux cfg io). pattern_matches q ''/api/hubs/ab/endorse'' \<and> q \<noteq> ''/api/hubs/'' \<longrightarrow> length q < length ''/api/hubs/''"
    by (simp add: server_mux_def pattern_matches_def HasSuffix_def HasPrefix_def)
  ultimately show "mux_match (server_mux cfg io) ''/api/hubs/ab/endorse'' = Some (''/api/hubs/'', requireAuth io (handleHubAction io))"
    using mux_longest_wins [of cfg io "''/api/hubs/ab/endorse''" "''/api/hubs/''"] by blast
qed

section \<open>The gate\<close>

definition authorised :: "mon_io \<Rightarrow> mon_request \<Rightarrow> mon_world \<Rightarrow> bool" where
  "authorised io r w = (case fst (mon_session io r w) of Some (u, must) \<Rightarrow> \<not> must | None \<Rightarrow> False)"

text \<open>The payloads that carry something of the database or the feed.\<close>

definition discloses :: "payload \<Rightarrow> bool" where
  "discloses p = (case p of
     JText _ \<Rightarrow> False | JError _ \<Rightarrow> False | JOk \<Rightarrow> False | JEmpty \<Rightarrow> False | JLogin _ \<Rightarrow> False | JSniff _ \<Rightarrow> False
   | JStatic _ \<Rightarrow> False | JRedirect _ \<Rightarrow> False | _ \<Rightarrow> True)"

definition database :: "'a DB_scheme \<Rightarrow> DB" where
  "database w = DB.truncate (tables w)"

lemma database_faults [simp]: "database (w\<lparr>faults := fs\<rparr>) = database w"
  by (simp add: database_def)

lemma database_auth [simp]:
  fixes w :: "'a auth_world_scheme"
  shows "database (w\<lparr>auth_sessions := s\<rparr>) = database w" and "database (w\<lparr>attempts := a\<rparr>) = database w"
  by (simp_all add: database_def tables_def DB.defs)

lemma Login_frame:
  fixes w :: mon_world
  shows "database (snd (Login bc entropy now u p key w)) = database w \<and> mon_feed (snd (Login bc entropy now u p key w)) = mon_feed w"
  unfolding Login_def
  by (cases "checkLockout now key w"; rule query_cases [of "\<lambda>w. find_row au_username u (admin_users w)" w])
     (auto simp: recordFailure_def clearFailures_def Let_def split: option.split sum.split)

lemma session_frame:
  "database (snd (mon_session io r w)) = database w \<and> mon_feed (snd (mon_session io r w)) = mon_feed w"
  by (simp add: mon_session_def ValidateSession_def split: option.split)

text \<open>What a handler may do with a request that has no right to anything.\<close>

definition harmless :: "mon_response \<times> mon_world \<Rightarrow> mon_world \<Rightarrow> bool" where
  "harmless rw w = (\<not> discloses (rs_Payload (fst rw)) \<and> mon_feed (snd rw) = mon_feed w \<and> database (snd rw) = database w)"

lemma harmless_error [simp]: "harmless (http_Error c p, w') w = (\<not> discloses p \<and> mon_feed w' = mon_feed w \<and> database w' = database w)"
  by (simp add: harmless_def http_Error_def)

lemma harmless_json [simp]: "harmless (writeJSON p, w') w = (\<not> discloses p \<and> mon_feed w' = mon_feed w \<and> database w' = database w)"
  by (simp add: harmless_def writeJSON_def)

lemma handleSniff_harmless: "harmless (handleSniff cfg r w) w"
proof -
  obtain x w1 where l: "ds_LocalHubID w = (x, w1)" by force
  with LocalHubID_reads [of w] obtain fs where w1: "w1 = w\<lparr>faults := fs\<rparr>" by auto
  show ?thesis
    by (cases x) (simp_all add: handleSniff_def l w1 Let_def method_not_allowed_def discloses_def)
qed

lemma handleLogin_harmless: "harmless (handleLogin cfg io r w) w"
proof (cases "jb_login (mq_Body r)")
  case (Some up)
  obtain u p where up: "up = (u, p)" by force
  obtain x w1 where l: "Login (mc_bcrypt cfg) (io_entropy io) (io_now io) u p (mq_RemoteAddr r) w = (x, w1)" by force
  have "database w1 = database w \<and> mon_feed w1 = mon_feed w"
    using Login_frame [of "mc_bcrypt cfg" "io_entropy io" "io_now io" u p "mq_RemoteAddr r" w] l by simp
  then show ?thesis
    by (cases x) (auto simp: handleLogin_def Some up l method_not_allowed_def discloses_def harmless_def setSessionCookie_def writeJSON_def
        http_Error_def)
qed (simp add: handleLogin_def method_not_allowed_def discloses_def)

lemma handleLogout_harmless: "harmless (handleLogout r w) w"
  by (simp add: handleLogout_def Logout_def clearSessionCookie_def writeJSON_def harmless_def discloses_def)

lemma handleStatic_harmless: "harmless (handleStatic io r w) w"
  by (simp add: handleStatic_def discloses_def)

lemma requireAuth_harmless:
  assumes "\<not> authorised io r w"
  shows "harmless (requireAuth io h r w) w" and "harmless (requireAuthWS io h r w) w"
proof -
  obtain x w1 where s: "mon_session io r w = (x, w1)" by force
  with session_frame [of io r w] have w1: "database w1 = database w" "mon_feed w1 = mon_feed w" by simp_all
  from assms s show "harmless (requireAuth io h r w) w" "harmless (requireAuthWS io h r w) w"
    by (auto simp: requireAuth_def requireAuthWS_def authorised_def w1 discloses_def split: option.split)
qed

text \<open>What a password change can do: at most rewrite the account of the session.\<close>

definition only_own_account :: "mon_io \<Rightarrow> mon_request \<Rightarrow> mon_world \<Rightarrow> mon_world \<Rightarrow> bool" where
  "only_own_account io r w w' =
     (case fst (mon_session io r w) of
        None \<Rightarrow> False
      | Some (u, _) \<Rightarrow> (\<exists>h. database w' = (database w)\<lparr>admin_users :=
          update_rows (\<lambda>row. au_username row = u) (\<lambda>row. row\<lparr>au_hash := h, au_must_change := 0\<rparr>) (admin_users w)\<rparr>))"

lemma handleChangePassword_bounded:
  "\<not> discloses (rs_Payload (fst (handleChangePassword cfg io r w))) \<and>
   mon_feed (snd (handleChangePassword cfg io r w)) = mon_feed w \<and>
   (database (snd (handleChangePassword cfg io r w)) = database w \<or>
    mq_Method r = ''POST'' \<and> only_own_account io r w (snd (handleChangePassword cfg io r w)))"
proof -
  obtain x w1 where s: "mon_session io r w = (x, w1)" by force
  with session_frame [of io r w] have w1: "database w1 = database w" "mon_feed w1 = mon_feed w" by simp_all
  then have users: "admin_users w1 = admin_users w" by (auto simp: database_def DB.defs tables_def)
  note unf = handleChangePassword_def s method_not_allowed_def http_Error_def writeJSON_def discloses_def
  show ?thesis
  proof (cases "mq_Method r = ''POST'' \<and> x \<noteq> None \<and> jb_password (mq_Body r) \<noteq> None")
    case False
    then show ?thesis using w1 by (auto simp: unf split: option.split)
  next
    case True
    then obtain u m current new where x: "x = Some (u, m)" "jb_password (mq_Body r) = Some (current, new)" "mq_Method r = ''POST''"
      by auto
    show ?thesis
    proof (rule ChangePassword_cases [of "mc_bcrypt cfg" "io_salt io" u current new w1])
      fix e fs assume "ChangePassword (mc_bcrypt cfg) (io_salt io) u current new w1 = (Inl e, w1\<lparr>faults := fs\<rparr>)"
      then show ?thesis using w1 by (simp add: unf x)
    next
      fix h fs
      let ?users = "update_rows (\<lambda>row. au_username row = u) (\<lambda>row. row\<lparr>au_hash := h, au_must_change := 0\<rparr>) (admin_users w1)"
      let ?w2 = "w1\<lparr>faults := fs, auth_sessions := clear_must_change u (auth_sessions w1), admin_users := ?users\<rparr>"
      assume "ChangePassword (mc_bcrypt cfg) (io_salt io) u current new w1 = (Inr (), ?w2)"
      then have h: "handleChangePassword cfg io r w = (writeJSON JOk, ?w2)" by (simp add: unf x)
      have "database ?w2 = (database w1)\<lparr>admin_users := ?users\<rparr>" by (simp add: database_def tables_def DB.defs)
      then have "only_own_account io r w ?w2" using w1 users by (auto simp: only_own_account_def s x)
      then show ?thesis unfolding h using w1 x(3) by (simp add: writeJSON_def discloses_def)
    qed
  qed
qed

text \<open>Every entry of the table is guarded, public and harmless, or the password change.\<close>

inductive guarded :: "mon_config \<Rightarrow> mon_io \<Rightarrow> string \<Rightarrow> handler \<Rightarrow> bool" for cfg io where
  auth: "guarded cfg io pat (requireAuth io h)"
| authWS: "guarded cfg io pat (requireAuthWS io h)"
| sniff: "guarded cfg io pat (handleSniff cfg)"
| login: "guarded cfg io pat (handleLogin cfg io)"
| logout: "guarded cfg io pat handleLogout"
| static: "guarded cfg io pat (handleStatic io)"
| change: "guarded cfg io ''/api/change-password'' (handleChangePassword cfg io)"

lemma server_mux_guarded: "\<forall>(pat, h) \<in> set (server_mux cfg io). guarded cfg io pat h"
  by (simp add: server_mux_def guarded.intros)

lemma guarded_bounded:
  assumes "guarded cfg io pat h" and "\<not> authorised io r w"
  shows "harmless (h r w) w \<or> pat = ''/api/change-password'' \<and> h = handleChangePassword cfg io"
  using assms
  by cases (simp_all add: requireAuth_harmless handleSniff_harmless handleLogin_harmless handleLogout_harmless handleStatic_harmless)

text \<open>A request is redirected, unknown, or handed to the handler of its path.\<close>

lemma ServeHTTP_cases:
  obtains (redirect) p where "ServeHTTP cfg io r w = (http_Error 301 (JRedirect p), w)"
  | (unknown) "ServeHTTP cfg io r w = (http_NotFound, w)"
  | (handled) pat h where "mux_match (server_mux cfg io) (mq_Path r) = Some (pat, h)" "ServeHTTP cfg io r w = h r w"
proof -
  define path where "path = (if mq_Method r = ''CONNECT'' then mq_Path r else cleanPath (mq_Path r))"
  define sub where "sub = (path \<noteq> '''' \<and> \<not> HasSuffix path ''/'' \<and> path \<notin> fst ` set (server_mux cfg io) \<and>
      path @ ''/'' \<in> fst ` set (server_mux cfg io))"
  have s: "ServeHTTP cfg io r w =
     (if sub then (http_Error 301 (JRedirect (path @ ''/'')), w)
      else if path \<noteq> mq_Path r then (http_Error 301 (JRedirect path), w)
      else case mux_match (server_mux cfg io) path of None \<Rightarrow> (http_NotFound, w) | Some (_, h) \<Rightarrow> h r w)"
    unfolding ServeHTTP_def Let_def sub_def path_def ..
  consider "sub \<or> path \<noteq> mq_Path r" | "\<not> sub" "path = mq_Path r" "mux_match (server_mux cfg io) path = None"
    | pat h where "\<not> sub" "path = mq_Path r" "mux_match (server_mux cfg io) path = Some (pat, h)"
    by (cases "mux_match (server_mux cfg io) path") auto
  then show ?thesis
  proof cases
    case 1
    then have "ServeHTTP cfg io r w = (http_Error 301 (JRedirect (if sub then path @ ''/'' else path)), w)" by (auto simp: s)
    then show ?thesis by (rule redirect)
  qed (use unknown handled in \<open>simp_all add: s\<close>)
qed


text \<open>The account of a fresh installation, with a valid session that must change its password.\<close>

definition sample_mon :: mon_world where
  "sample_mon = auth_world.extend
     (sample_auth\<lparr>auth_sessions := [''t'' \<mapsto> \<lparr>as_username = ''Admin'', as_mustChange = True, as_expiresAt = Hour\<rparr>]\<rparr>)
     \<lparr>mon_feed = sample_feed\<rparr>"

definition no_body :: json_body where
  "no_body = \<lparr>jb_login = None, jb_password = None, jb_relay = None, jb_coords = None, jb_enabled = None, jb_ban = None, jb_agree = None\<rparr>"

definition sample_request :: "string \<Rightarrow> string \<Rightarrow> json_body \<Rightarrow> mon_request" where
  "sample_request method path body = \<lparr>mq_Method = method, mq_Path = path, mq_Host = '''', mq_RemoteAddr = ''c'', mq_Cookie = Some ''t'',
     mq_window = '''', mq_User = '''', mq_Body = body\<rparr>"

definition sample_io :: mon_io where
  "sample_io = \<lparr>io_now = 0, io_entropy = Inr [], io_salt = [], io_probe = (\<lambda>_ _. None), io_upgrade = Some 1, io_file = (\<lambda>_. 404)\<rparr>"

definition sample_geo :: geo_math where
  "sample_geo = \<lparr>math_Sin = (\<lambda>_. Fin 0), math_Cos = (\<lambda>_. Fin 1), math_Asin = id, math_Sqrt = id,
     math_Atan2 = (\<lambda>_ _. Fin 0), math_Pow = (\<lambda>_ _. Fin 1)\<rparr>"

definition sample_mon_config :: mon_config where
  "sample_mon_config = \<lparr>mc_BindAddr = ''127.0.0.1:8080'', mc_addr = None, mc_AppVersion = '''', mc_bcrypt = plain_bcrypt,
     mc_sha256 = (\<lambda>b. replicate 32 (of_nat (length b))), mc_mathlib = sample_math, mc_geo = sample_geo, mc_fmt0 = (\<lambda>_. ''0''),
     mc_ParseDuration = (\<lambda>_. None)\<rparr>"


section \<open>Requests that reach their handler\<close>

lemma ServeHTTP_route:
  assumes "cleanPath (mq_Path r) = mq_Path r" and "mux_match (server_mux cfg io) (mq_Path r) = Some (pat, h)"
    and "mq_Path r @ ''/'' \<notin> fst ` set (server_mux cfg io) \<or> mq_Path r \<in> fst ` set (server_mux cfg io)"
  shows "ServeHTTP cfg io r w = h r w"
  using assms by (auto simp: ServeHTTP_def Let_def)

lemma ServeHTTP_change_password:
  "mq_Path r = ''/api/change-password'' \<Longrightarrow> ServeHTTP cfg io r w = handleChangePassword cfg io r w"
  by (rule ServeHTTP_route [of _ _ _ "''/api/change-password''"])
     (simp_all add: cleanPath_def HasPrefix_def HasSuffix_def server_mux_def pattern_matches_def)

lemma ServeHTTP_relay_hubs:
  "mq_Path r = ''/api/relay-hubs'' \<Longrightarrow> ServeHTTP cfg io r w = requireAuth io (handleRelayHubs cfg io) r w"
  by (rule ServeHTTP_route [of _ _ _ "''/api/relay-hubs''"])
     (simp_all add: cleanPath_def HasPrefix_def HasSuffix_def server_mux_def pattern_matches_def)

lemma Split_slash_single: "CHR ''/'' \<notin> set s \<Longrightarrow> Split_slash s = [s]"
  by (induction s) auto

lemma HasSuffix_slash: "HasSuffix s ''/'' \<longleftrightarrow> s \<noteq> [] \<and> last s = CHR ''/''"
  by (induction s rule: rev_induct) (auto simp: HasSuffix_def)

lemma ServeHTTP_relay_action:
  assumes "mq_Path r = ''/api/relay-hubs/'' @ x" and "CHR ''/'' \<notin> set x" and "2 < length x"
  shows "ServeHTTP cfg io r w = requireAuth io (handleRelayHubAction io) r w"
proof (rule ServeHTTP_route)
  have x: "x \<noteq> []" "x \<noteq> ''.''" "x \<noteq> ''..''" "last x \<noteq> CHR ''/''"
    using assms(2,3) last_in_set [of x] by (cases "x = []"; force)+
  have suffix: "\<not> HasSuffix (''/api/relay-hubs/'' @ x) ''/''" using x by (simp add: HasSuffix_slash)
  show "cleanPath (mq_Path r) = mq_Path r"
    using assms(2) x suffix by (simp add: assms(1) cleanPath_def HasPrefix_def Split_slash_single)
  show "mux_match (server_mux cfg io) (mq_Path r) = Some (''/api/relay-hubs/'', requireAuth io (handleRelayHubAction io))"
    using x by (simp add: assms(1) server_mux_def pattern_matches_def HasPrefix_def HasSuffix_slash)
  show "mq_Path r @ ''/'' \<notin> fst ` set (server_mux cfg io) \<or> mq_Path r \<in> fst ` set (server_mux cfg io)"
    using x by (simp add: assms(1) server_mux_def)
qed

lemma authorised_requireAuth:
  assumes "authorised io r w"
  obtains u where "requireAuth io h r w = h (r\<lparr>mq_User := u\<rparr>) w"
proof -
  from assms obtain u where "fst (mon_session io r w) = Some (u, False)" by (auto simp: authorised_def split: option.splits)
  then have "mon_session io r w = (Some (u, False), w)"
    by (auto simp: mon_session_def ValidateSession_def split: option.splits if_splits)
  then have "requireAuth io h r w = h (r\<lparr>mq_User := u\<rparr>) w" by (simp add: requireAuth_def)
  then show ?thesis by (rule that)
qed

text \<open>
  A password change opens the gate. When the server answers the change with success, the request had a
  session and the account's current password, the account accepts from then on what the new hash
  accepts, and every request with that session is served for as long as the session would have been
  valid before.
\<close>

theorem password_change_opens_gate:
  assumes "mq_Path r = ''/api/change-password''" and "ServeHTTP cfg io r w = (rs, w')" and "rs_Status rs = 200"
  shows "\<exists>u must current new h. fst (mon_session io r w) = Some (u, must) \<and> jb_password (mq_Body r) = Some (current, new) \<and>
    accepts (mc_bcrypt cfg) w u current \<and> GenerateFromPassword (mc_bcrypt cfg) (io_salt io) new = Inr h \<and>
    accepts (mc_bcrypt cfg) w' u p = CompareHash (mc_bcrypt cfg) h p \<and>
    (sessionToken r' = sessionToken r \<longrightarrow> authorised io' r' w' = (fst (mon_session io' r' w) \<noteq> None))"
proof -
  let ?bc = "mc_bcrypt cfg"
  have h: "handleChangePassword cfg io r w = (rs, w')" using assms by (simp add: ServeHTTP_change_password)
  note unf = handleChangePassword_def method_not_allowed_def http_Error_def writeJSON_def
  have "\<exists>u must. fst (mon_session io r w) = Some (u, must)"
    using h assms(3) by (cases "mon_session io r w") (auto simp: unf split: if_splits option.splits)
  then obtain u must where v: "fst (mon_session io r w) = Some (u, must)" by blast
  then have s: "mon_session io r w = (Some (u, must), w)"
    by (auto simp: mon_session_def ValidateSession_def split: option.splits if_splits)
  obtain current new where b: "jb_password (mq_Body r) = Some (current, new)"
    using h assms(3) s by (cases "jb_password (mq_Body r)") (auto simp: unf split: if_splits)
  have c: "ChangePassword ?bc (io_salt io) u current new w = (Inr (), w')"
    using h assms(3) s b by (auto simp: unf split: if_splits sum.splits prod.splits)
  from ChangePassword_effect [where bc = ?bc and salt = "io_salt io" and username = u and old = current and new = new and w = w and u = u and p = p]
  obtain g where
    e: "accepts ?bc w u current" "GenerateFromPassword ?bc (io_salt io) new = Inr g" "accepts ?bc w' u p = CompareHash ?bc g p"
      "auth_sessions w' = clear_must_change u (auth_sessions w)"
    unfolding c by (auto simp: if_split)
  from v obtain as where a: "auth_sessions w (sessionToken r) = Some as" "as_username as = u"
    by (auto simp: mon_session_def ValidateSession_def split: option.splits if_splits)
  have "authorised io' r' w' = (fst (mon_session io' r' w) \<noteq> None)" if "sessionToken r' = sessionToken r"
    using that a by (simp add: authorised_def mon_session_def ValidateSession_def e(4) clear_must_change_def)
  with v b e show ?thesis by blast
qed

definition password_body :: json_body where
  "password_body = no_body\<lparr>jb_password := Some (''test1234'', ''quake-2026'')\<rparr>"

theorem password_change_opens_gate_witness:
  "case ServeHTTP sample_mon_config sample_io (sample_request ''POST'' ''/api/change-password'' password_body) sample_mon of
     (rs, w') \<Rightarrow> authorised sample_io (sample_request ''GET'' ''/api/nodes'' no_body) w'"
proof -
  let ?r = "sample_request ''POST'' ''/api/change-password'' password_body"
  let ?q = "sample_request ''GET'' ''/api/nodes'' no_body"
  have path: "mq_Path ?r = ''/api/change-password''" by (simp add: sample_request_def)
  obtain rs w' where s: "ServeHTTP sample_mon_config sample_io ?r sample_mon = (rs, w')" by force
  have "rs_Status rs = 200"
    using s unfolding ServeHTTP_change_password [OF path]
    by (auto simp: handleChangePassword_def sample_request_def mon_session_def ValidateSession_def sessionToken_def sample_mon_def
        auth_world.defs sample_io_def password_body_def ChangePassword_def sample_auth_def auth_New_def DB.defs empty_DB_def
        db_simps update_stmt_def plain_bcrypt_def sample_mon_config_def writeJSON_def no_body_def)
  from password_change_opens_gate [OF path s this, of _ ?q sample_io]
  have "authorised sample_io ?q w' = (fst (mon_session sample_io ?q sample_mon) \<noteq> None)"
    by (auto simp: sessionToken_def sample_request_def)
  then show ?thesis unfolding s
    by (simp add: mon_session_def ValidateSession_def sample_mon_def auth_world.defs sample_io_def sample_request_def sessionToken_def)
qed

section \<open>Relay entries over HTTP\<close>

lemma hex_no_slash: "CHR ''/'' \<notin> set (hex_EncodeToString b)"
proof (induction b)
  case (Cons x b)
  have "hex_digit n \<noteq> CHR ''/''" if "n < 16" for n
  proof
    assume "hex_digit n = CHR ''/''"
    with from_hex_digit [OF that] have "from_hex_char (CHR ''/'') = Some n" by simp
    then show False by (simp add: from_hex_char_def)
  qed
  moreover have "unat x div 16 < 16" using unsigned_less [of x, where 'a = nat] by (simp add: div_less_iff_less_mult)
  ultimately show ?case using Cons by (metis hex_EncodeToString.simps(2) mod_less_divisor set_ConsD zero_less_numeral)
qed simp

lemma path_parts_single:
  assumes "mq_Path r = pre @ x" and "CHR ''/'' \<notin> set x"
  shows "path_parts pre r = [x]"
proof -
  have "dropWhile (\<lambda>c. c = CHR ''/'') y = y" if "CHR ''/'' \<notin> set y" for y
    using that by (cases y) auto
  with assms show ?thesis by (simp add: path_parts_def TrimPrefix_def Trim_slash_def Split_slash_single)
qed

lemma delete_upsert_row:
  assumes "\<And>e. key (upd e) = key e"
  shows "delete_rows (\<lambda>e. key e = key new) (upsert_row key upd new rows) = filter (\<lambda>e. key e \<noteq> key new) rows"
proof -
  have "filter (\<lambda>e. key e \<noteq> k) (map (\<lambda>e. if key e = k then upd e else e) rows) = filter (\<lambda>e. key e \<noteq> k) rows" for k
    by (induction rows) (simp_all add: assms)
  then show ?thesis by (simp add: upsert_row_def delete_rows_def update_rows_def)
qed

definition manual_relay :: "mon_io \<Rightarrow> string \<Rightarrow> int \<Rightarrow> relay_row \<Rightarrow> relay_row" where
  "manual_relay io ip port e = e\<lparr>rh_ip := ip, rh_port := port, rh_source := ''manual'', rh_verified := UnixMilli (io_now io)\<rparr>"

definition relay_added :: "mon_config \<Rightarrow> mon_io \<Rightarrow> string \<Rightarrow> int \<Rightarrow> relay_row list \<Rightarrow> relay_row list" where
  "relay_added cfg io ip port = upsert_row rh_id (manual_relay io ip port)
     \<lparr>rh_id = relayHubID (mc_sha256 cfg) ip port, rh_ip = ip, rh_port = port, rh_source = ''manual'', rh_verified = UnixMilli (io_now io)\<rparr>"

lemma relay_added_row:
  "\<exists>e \<in> set (relay_added cfg io ip port rows). rh_id e = relayHubID (mc_sha256 cfg) ip port \<and> rh_ip e = ip \<and> rh_port e = port"
proof -
  let ?id = "relayHubID (mc_sha256 cfg) ip port"
  have "find_row rh_id ?id (relay_added cfg io ip port rows) = Some (case find_row rh_id ?id rows of
      None \<Rightarrow> \<lparr>rh_id = ?id, rh_ip = ip, rh_port = port, rh_source = ''manual'', rh_verified = UnixMilli (io_now io)\<rparr>
    | Some e \<Rightarrow> manual_relay io ip port e)"
    unfolding relay_added_def by (subst find_row_upsert_row) (simp_all add: manual_relay_def)
  then obtain e where e: "find_row rh_id ?id (relay_added cfg io ip port rows) = Some e" "rh_ip e = ip" "rh_port e = port"
    by (cases "find_row rh_id ?id rows") (simp_all add: manual_relay_def)
  from find_row_Some_in [OF e(1)] e(2,3) show ?thesis by auto
qed

lemma post_relay:
  assumes "authorised io r w" and "faults w = []" and "mq_Path r = ''/api/relay-hubs''" and "mq_Method r = ''POST''"
    and "jb_relay (mq_Body r) = Some (ip, port)" and "ip \<noteq> ''''" and "port > 0"
  shows "ServeHTTP cfg io r w =
    (writeJSON (JRelayHub \<lparr>rl_HubID = NodeID_String (relayHubID (mc_sha256 cfg) ip port), rl_IP = ip, rl_Port = port, rl_Source = ''manual'',
       rl_LastVerified = io_now io\<rparr>), w\<lparr>relay_hubs := relay_added cfg io ip port (relay_hubs w)\<rparr>)"
proof -
  obtain u where "requireAuth io (handleRelayHubs cfg io) r w = handleRelayHubs cfg io (r\<lparr>mq_User := u\<rparr>) w"
    by (rule authorised_requireAuth [OF assms(1)])
  then show ?thesis
    using assms(2-7) by (simp add: ServeHTTP_relay_hubs handleRelayHubs_def reply_def AddRelayHub_def Let_def db_simps upsert_stmt_def
        relay_added_def manual_relay_def [abs_def])
qed

lemma get_relays:
  assumes "authorised io r w" and "faults w = []" and "mq_Path r = ''/api/relay-hubs''" and "mq_Method r = ''GET''"
  shows "ServeHTTP cfg io r w = (writeJSON (JRelayHubs (map to_RelayHub (order_desc rh_verified (relay_hubs w)))), w)"
proof -
  obtain u where "requireAuth io (handleRelayHubs cfg io) r w = handleRelayHubs cfg io (r\<lparr>mq_User := u\<rparr>) w"
    by (rule authorised_requireAuth [OF assms(1)])
  then show ?thesis
    using assms(2-4) by (simp add: ServeHTTP_relay_hubs handleRelayHubs_def reply_def RelayHubs_def query_ok)
qed

lemma delete_relay:
  assumes "authorised io r w" and "faults w = []" and "mq_Path r = ''/api/relay-hubs/'' @ NodeID_String i" and "mq_Method r = ''DELETE''"
    and "length i = 32"
  shows "ServeHTTP cfg io r w = (writeJSON JOk, w\<lparr>relay_hubs := delete_rows (\<lambda>e. rh_id e = i) (relay_hubs w)\<rparr>)"
proof -
  obtain u where u: "requireAuth io (handleRelayHubAction io) r w = handleRelayHubAction io (r\<lparr>mq_User := u\<rparr>) w"
    by (rule authorised_requireAuth [OF assms(1)])
  have slash: "CHR ''/'' \<notin> set (NodeID_String i)" by (simp add: NodeID_String_def hex_no_slash)
  have "ServeHTTP cfg io r w = handleRelayHubAction io (r\<lparr>mq_User := u\<rparr>) w"
    using ServeHTTP_relay_action [OF assms(3) slash] assms(5) u by (simp add: NodeID_String_def)
  moreover have "path_parts ''/api/relay-hubs/'' (r\<lparr>mq_User := u\<rparr>) = [NodeID_String i]"
    by (rule path_parts_single) (simp_all add: assms(3) slash)
  moreover have "NodeID_String i \<noteq> ''''" using assms(5) by (rule NodeID_String_nonempty)
  ultimately show ?thesis
    using assms(2,4,5) by (simp add: handleRelayHubAction_def Let_def reply_def RemoveRelayHub_def db_simps delete_stmt_def node_id_len_def)
qed

lemma authorised_tables:
  "sessionToken q = sessionToken r \<Longrightarrow> auth_sessions w' = auth_sessions w \<Longrightarrow> authorised io r w \<Longrightarrow> authorised io q w'"
  by (cases "auth_sessions w (sessionToken r)") (simp_all add: authorised_def mon_session_def ValidateSession_def split: if_splits)

text \<open>
  What the dashboard adds it can remove. While no statement fails, an authorised request that adds a
  relay entry is answered with the entry, the list shown afterwards contains it, and a request to
  delete the identifier of that answer succeeds and leaves exactly the entries under other
  identifiers, in their order.
\<close>

theorem relay_hub_roundtrip:
  assumes "authorised io r w" and "faults w = []" and "mq_Path r = ''/api/relay-hubs''" and "mq_Method r = ''POST''"
    and "jb_relay (mq_Body r) = Some (ip, port)" and "ip \<noteq> ''''" and "port > 0"
    and "ServeHTTP cfg io r w = (rs, w1)"
  shows "\<exists>hub hubs w2. rs = writeJSON (JRelayHub hub) \<and> rl_IP hub = ip \<and> rl_Port hub = port \<and>
    ServeHTTP cfg io (r\<lparr>mq_Method := ''GET''\<rparr>) w1 = (writeJSON (JRelayHubs hubs), w1) \<and>
    (\<exists>h \<in> set hubs. rl_HubID h = rl_HubID hub \<and> rl_IP h = ip \<and> rl_Port h = port) \<and>
    ServeHTTP cfg io (r\<lparr>mq_Method := ''DELETE'', mq_Path := ''/api/relay-hubs/'' @ rl_HubID hub\<rparr>) w1 = (writeJSON JOk, w2) \<and>
    relay_hubs w2 = filter (\<lambda>e. NodeID_String (rh_id e) \<noteq> rl_HubID hub) (relay_hubs w)"
proof -
  let ?id = "relayHubID (mc_sha256 cfg) ip port" and ?rows = "relay_added cfg io ip port (relay_hubs w)"
  let ?hub = "\<lparr>rl_HubID = NodeID_String ?id, rl_IP = ip, rl_Port = port, rl_Source = ''manual'', rl_LastVerified = io_now io\<rparr>"
  have len: "length ?id = 32" by (simp add: relayHubID_def)
  have rs: "rs = writeJSON (JRelayHub ?hub)" and w1: "w1 = w\<lparr>relay_hubs := ?rows\<rparr>"
    using post_relay [OF assms(1-7), of cfg] assms(8) by simp_all
  have auth: "authorised io q w1" if "sessionToken q = sessionToken r" for q
    using authorised_tables [OF that _ assms(1)] by (simp add: w1)
  have calm: "faults w1 = []" by (simp add: w1 assms(2))
  have "ServeHTTP cfg io (r\<lparr>mq_Method := ''GET''\<rparr>) w1 = (writeJSON (JRelayHubs (map to_RelayHub (order_desc rh_verified (relay_hubs w1)))), w1)"
    by (rule get_relays [OF auth calm]) (simp_all add: assms(3) sessionToken_def)
  moreover have "\<exists>h \<in> set (map to_RelayHub (order_desc rh_verified (relay_hubs w1))). rl_HubID h = rl_HubID ?hub \<and> rl_IP h = ip \<and> rl_Port h = port"
  proof -
    obtain e where "e \<in> set (relay_hubs w1)" "rh_id e = ?id" "rh_ip e = ip" "rh_port e = port"
      using relay_added_row [of cfg io ip port "relay_hubs w"] by (auto simp: w1)
    with len have "rl_HubID (to_RelayHub e) = rl_HubID ?hub \<and> rl_IP (to_RelayHub e) = ip \<and> rl_Port (to_RelayHub e) = port"
      by (simp add: to_RelayHub_def)
    then show ?thesis using \<open>e \<in> set (relay_hubs w1)\<close> by auto
  qed
  moreover have "ServeHTTP cfg io (r\<lparr>mq_Method := ''DELETE'', mq_Path := ''/api/relay-hubs/'' @ rl_HubID ?hub\<rparr>) w1 =
      (writeJSON JOk, w1\<lparr>relay_hubs := delete_rows (\<lambda>e. rh_id e = ?id) (relay_hubs w1)\<rparr>)"
    by (rule delete_relay [OF auth calm _ _ len]) (simp_all add: sessionToken_def)
  moreover have "delete_rows (\<lambda>e. rh_id e = ?id) (relay_hubs w1) = filter (\<lambda>e. NodeID_String (rh_id e) \<noteq> rl_HubID ?hub) (relay_hubs w)"
    using delete_upsert_row [of rh_id "manual_relay io ip port"
        "\<lparr>rh_id = ?id, rh_ip = ip, rh_port = port, rh_source = ''manual'', rh_verified = UnixMilli (io_now io)\<rparr>" "relay_hubs w"]
    by (simp add: w1 relay_added_def manual_relay_def)
  ultimately show ?thesis using rs by force
qed

definition relay_body :: json_body where
  "relay_body = no_body\<lparr>jb_relay := Some (''192.0.2.7'', 47223)\<rparr>"

definition open_mon :: mon_world where
  "open_mon = sample_mon\<lparr>auth_sessions := [''t'' \<mapsto> \<lparr>as_username = ''Admin'', as_mustChange = False, as_expiresAt = Hour\<rparr>]\<rparr>"

theorem relay_hub_roundtrip_witness:
  "\<exists>hub w1. ServeHTTP sample_mon_config sample_io (sample_request ''POST'' ''/api/relay-hubs'' relay_body) open_mon = (writeJSON (JRelayHub hub), w1) \<and>
     rl_IP hub = ''192.0.2.7''"
proof -
  let ?r = "sample_request ''POST'' ''/api/relay-hubs'' relay_body"
  obtain rs w1 where s: "ServeHTTP sample_mon_config sample_io ?r open_mon = (rs, w1)" by force
  have "authorised sample_io ?r open_mon"
    by (simp add: authorised_def mon_session_def ValidateSession_def open_mon_def sample_request_def sessionToken_def sample_io_def)
  from relay_hub_roundtrip [OF this _ _ _ _ _ _ s, of "''192.0.2.7''" 47223] show ?thesis
    unfolding s
    by (auto simp: open_mon_def sample_mon_def auth_world.defs sample_auth_def auth_New_def DB.defs empty_DB_def sample_request_def
        relay_body_def)
qed

end
