(* ===== verification/Migrations.thy ===== *)
theory Migrations
  imports Storage
begin

text \<open>
  \<^verbatim>\<open>core/storage/storage.go\<close> and \<^verbatim>\<open>migrations.go\<close>: how a database file comes to have the schema that
  \<open>Storage\<close> describes. The six migrations are kept as the statements they consist of, over a catalogue
  of untyped tables; the interpreter covers the statements that occur. Every \<^verbatim>\<open>Begin\<close>, \<^verbatim>\<open>Exec\<close>, query
  and \<^verbatim>\<open>Commit\<close> may fail as \<open>disk_faults\<close> scripts it; \<^verbatim>\<open>PRAGMA user_version\<close> takes part in the transaction.

  Shown: a new file gets exactly the schema of \<open>Storage\<close>, an interrupted upgrade leaves the file at the end
  of some migration and resuming it ends where an undisturbed one does, opening twice is opening once, and
  an upgrade keeps every row.
\<close>

section \<open>Tables and statements\<close>

datatype sql_type = BLOB | INTEGER | REAL | TEXT

datatype sql_value = SNull | SInt int | SReal float64 | SText string | SBlob bytes

record column =
  co_name :: string
  co_type :: sql_type
  co_not_null :: bool
  co_default :: sql_value

text \<open>\<open>st_keys\<close> are the primary key and the \<^verbatim>\<open>UNIQUE\<close> constraints, \<open>st_references\<close> the foreign keys.\<close>

record sql_table =
  st_columns :: "column list"
  st_keys :: "string list list"
  st_references :: "(string \<times> string \<times> string) list"
  st_rows :: "sql_value list list"

datatype sql_expr = Col string | Lit sql_value

datatype ddl =
    CREATE_TABLE string "column list" "string list list" "(string \<times> string \<times> string) list"
  | CREATE_INDEX string string "string list"
  | INSERT_SELECT string "string list" "sql_expr list" string
  | DROP_TABLE string
  | RENAME_TABLE string string
  | ADD_COLUMN string column

record disk =
  catalog :: "(string \<times> sql_table) list"
  indexes :: "(string \<times> string \<times> string list) list"
  user_version :: int
  disk_faults :: "bool list"

definition col :: "string \<Rightarrow> sql_type \<Rightarrow> column" where
  "col n t = \<lparr>co_name = n, co_type = t, co_not_null = False, co_default = SNull\<rparr>"

definition req :: "string \<Rightarrow> sql_type \<Rightarrow> column" where
  "req n t = (col n t)\<lparr>co_not_null := True\<rparr>"

definition req0 :: "string \<Rightarrow> column" where
  "req0 n = (req n INTEGER)\<lparr>co_default := SInt 0\<rparr>"

definition col_value :: "column list \<Rightarrow> sql_value list \<Rightarrow> string \<Rightarrow> sql_value" where
  "col_value cols row c = (case map_of (zip (map co_name cols) row) c of None \<Rightarrow> SNull | Some v \<Rightarrow> v)"

fun expr_value :: "column list \<Rightarrow> sql_value list \<Rightarrow> sql_expr \<Rightarrow> sql_value" where
  "expr_value cols row (Col c) = col_value cols row c"
| "expr_value cols row (Lit v) = v"

fun expr_ok :: "column list \<Rightarrow> sql_expr \<Rightarrow> bool" where
  "expr_ok cols (Col c) = (c \<in> co_name ` set cols)"
| "expr_ok cols (Lit v) = True"

definition not_null_ok :: "column list \<Rightarrow> sql_value list \<Rightarrow> bool" where
  "not_null_ok cols row = list_all (\<lambda>c. co_not_null c \<longrightarrow> col_value cols row (co_name c) \<noteq> SNull) cols"

text \<open>A key with a \<^verbatim>\<open>NULL\<close> in it is different from every other.\<close>

definition keys_ok :: "sql_table \<Rightarrow> bool" where
  "keys_ok t = list_all (\<lambda>key. distinct (filter (\<lambda>k. SNull \<notin> set k) (map (\<lambda>row. map (col_value (st_columns t) row) key) (st_rows t)))) (st_keys t)"

text \<open>The row that \<^verbatim>\<open>INSERT INTO t (names) ...\<close> stores.\<close>

definition insert_row :: "column list \<Rightarrow> string list \<Rightarrow> sql_value list \<Rightarrow> sql_value list" where
  "insert_row cols names vals =
     map (\<lambda>c. case map_of (zip names vals) (co_name c) of None \<Rightarrow> co_default c | Some v \<Rightarrow> v) cols"

definition insert_select :: "string list \<Rightarrow> sql_expr list \<Rightarrow> sql_table \<Rightarrow> sql_table \<Rightarrow> error + sql_table" where
  "insert_select names exprs src dst =
     (if \<not> list_all (expr_ok (st_columns src)) exprs \<or> \<not> set names \<subseteq> co_name ` set (st_columns dst) \<or> length names \<noteq> length exprs
      then Inl (Errmsg ''no such column'')
      else let new = map (\<lambda>row. insert_row (st_columns dst) names (map (expr_value (st_columns src) row) exprs)) (st_rows src);
               dst' = dst\<lparr>st_rows := st_rows dst @ new\<rparr>
           in if \<not> list_all (not_null_ok (st_columns dst)) new then Inl NotNullViolation
              else if \<not> keys_ok dst' then Inl UniqueViolation
              else Inr dst')"

fun exec_ddl :: "ddl \<Rightarrow> disk \<Rightarrow> error + disk" where
  "exec_ddl (CREATE_TABLE n cols keys refs) d =
     (if n \<in> fst ` set (catalog d) then Inl (Errmsg ''table already exists'')
      else Inr (d\<lparr>catalog := catalog d @ [(n, \<lparr>st_columns = cols, st_keys = keys, st_references = refs, st_rows = []\<rparr>)]\<rparr>))"
| "exec_ddl (CREATE_INDEX i t cs) d =
     (case map_of (catalog d) t of
        None \<Rightarrow> Inl (Errmsg ''no such table'')
      | Some tab \<Rightarrow>
          if i \<in> fst ` set (indexes d) then Inl (Errmsg ''index already exists'')
          else if \<not> set cs \<subseteq> co_name ` set (st_columns tab) then Inl (Errmsg ''no such column'')
          else Inr (d\<lparr>indexes := indexes d @ [(i, t, cs)]\<rparr>))"
| "exec_ddl (INSERT_SELECT dst names exprs src) d =
     (case (map_of (catalog d) src, map_of (catalog d) dst) of
        (Some s, Some t) \<Rightarrow>
          (case insert_select names exprs s t of
             Inl e \<Rightarrow> Inl e
           | Inr t' \<Rightarrow> Inr (d\<lparr>catalog := map (\<lambda>(n, x). (n, if n = dst then t' else x)) (catalog d)\<rparr>))
      | _ \<Rightarrow> Inl (Errmsg ''no such table''))"
| "exec_ddl (DROP_TABLE n) d =
     (if n \<notin> fst ` set (catalog d) then Inl (Errmsg ''no such table'')
      else Inr (d\<lparr>catalog := filter (\<lambda>(m, _). m \<noteq> n) (catalog d), indexes := filter (\<lambda>(_, t, _). t \<noteq> n) (indexes d)\<rparr>))"
| "exec_ddl (RENAME_TABLE n m) d =
     (if n \<notin> fst ` set (catalog d) then Inl (Errmsg ''no such table'')
      else if m \<in> fst ` set (catalog d) then Inl (Errmsg ''table already exists'')
      else Inr (d\<lparr>catalog := map (\<lambda>(k, t). (if k = n then m else k, t)) (catalog d),
                  indexes := map (\<lambda>(i, t, cs). (i, if t = n then m else t, cs)) (indexes d)\<rparr>))"
| "exec_ddl (ADD_COLUMN n c) d =
     (case map_of (catalog d) n of
        None \<Rightarrow> Inl (Errmsg ''no such table'')
      | Some t \<Rightarrow>
          if co_name c \<in> co_name ` set (st_columns t) then Inl (Errmsg ''duplicate column name'')
          else if co_not_null c \<and> co_default c = SNull then Inl (Errmsg ''Cannot add a NOT NULL column with default value NULL'')
          else let t' = t\<lparr>st_columns := st_columns t @ [c], st_rows := map (\<lambda>r. r @ [co_default c]) (st_rows t)\<rparr>
               in Inr (d\<lparr>catalog := map (\<lambda>(m, x). (m, if m = n then t' else x)) (catalog d)\<rparr>))"

fun exec_script :: "ddl list \<Rightarrow> disk \<Rightarrow> error + disk" where
  "exec_script [] d = Inr d"
| "exec_script (s # ss) d = (case exec_ddl s d of Inl e \<Rightarrow> Inl e | Inr d' \<Rightarrow> exec_script ss d')"

section \<open>The migrations\<close>

definition migration1 :: "ddl list" where
  "migration1 =
    [CREATE_TABLE ''node_registry''
       [col ''node_id'' BLOB, req ''pubkey'' BLOB, req ''first_seen'' INTEGER, req ''last_seen'' INTEGER, col ''last_lat'' REAL,
        col ''last_lon'' REAL, req ''status'' TEXT] [[''node_id'']] [],
     CREATE_TABLE ''routing_table''
       [col ''destination_node_id'' BLOB, req ''next_hop_node_id'' BLOB, req ''tq'' REAL, req ''latency_ms'' INTEGER,
        req ''hop_count'' INTEGER] [[''destination_node_id'']] [],
     CREATE_TABLE ''proximity_events''
       [col ''id'' INTEGER, req ''observer_node_id'' BLOB, req ''observed_node_id'' BLOB, req ''rssi'' INTEGER, req ''transport'' TEXT,
        req ''observed_at'' INTEGER] [[''id'']] [],
     CREATE_INDEX ''idx_proximity_events_observed'' ''proximity_events'' [''observed_node_id''],
     CREATE_TABLE ''trust_endorsements''
       [col ''id'' INTEGER, req ''endorser_node_id'' BLOB, req ''endorsed_node_id'' BLOB, req ''endorsed_at'' INTEGER,
        req ''signature'' BLOB] [[''id''], [''endorser_node_id'', ''endorsed_node_id'']] [],
     CREATE_TABLE ''hub_registry''
       [col ''hub_id'' BLOB, col ''last_ip'' TEXT, col ''last_port'' INTEGER, req0 ''relay_capable''] [[''hub_id'']] [],
     CREATE_TABLE ''relay_hubs''
       [col ''hub_id'' BLOB, req ''ip'' TEXT, req ''port'' INTEGER, req ''source'' TEXT, req ''last_verified'' INTEGER] [[''hub_id'']] [],
     CREATE_TABLE ''app_presence''
       [req ''node_id'' BLOB, req ''app_id'' TEXT, req ''app_name'' TEXT, req ''app_version'' TEXT, req ''last_reported'' INTEGER]
       [[''node_id'', ''app_id'']] [],
     CREATE_TABLE ''ban_list''
       [col ''ban_id'' BLOB, req ''app_id'' TEXT, req ''version_range'' TEXT, req ''reason'' TEXT, req ''proposed_by_hub_id'' BLOB,
        req ''proposed_at'' INTEGER, req ''signature'' BLOB] [[''ban_id'']] [],
     CREATE_TABLE ''ban_verdicts''
       [req ''ban_id'' BLOB, req ''hub_id'' BLOB, req ''agree'' INTEGER, req ''decided_at'' INTEGER]
       [[''ban_id'', ''hub_id'']] [(''ban_id'', ''ban_list'', ''ban_id'')],
     CREATE_TABLE ''dtq_queue''
       [col ''bundle_id'' BLOB, req ''src_node_id'' BLOB, req ''dst_node_id'' BLOB, req ''payload'' BLOB, req ''expires_at'' INTEGER,
        req0 ''retry_count''] [[''bundle_id'']] [],
     CREATE_INDEX ''idx_dtq_queue_dst'' ''dtq_queue'' [''dst_node_id''],
     CREATE_TABLE ''historical_metrics''
       [col ''id'' INTEGER, req ''metric_name'' TEXT, col ''node_id'' BLOB, req ''value'' REAL, req ''recorded_at'' INTEGER] [[''id'']] [],
     CREATE_INDEX ''idx_historical_metrics_name_time'' ''historical_metrics'' [''metric_name'', ''recorded_at''],
     CREATE_TABLE ''admin_users''
       [col ''username'' TEXT, req ''password_hash'' BLOB, req ''salt'' BLOB, req0 ''must_change_password''] [[''username'']] [],
     CREATE_TABLE ''config'' [col ''key'' TEXT, req ''value'' TEXT] [[''key'']] []]"

definition migration2 :: "ddl list" where
  "migration2 =
    [CREATE_TABLE ''node_registry_v2''
       [col ''node_id'' BLOB, col ''pubkey'' BLOB, req ''first_seen'' INTEGER, req ''last_seen'' INTEGER, col ''last_lat'' REAL,
        col ''last_lon'' REAL, req ''status'' TEXT] [[''node_id'']] [],
     INSERT_SELECT ''node_registry_v2''
       [''node_id'', ''pubkey'', ''first_seen'', ''last_seen'', ''last_lat'', ''last_lon'', ''status'']
       [Col ''node_id'', Col ''pubkey'', Col ''first_seen'', Col ''last_seen'', Col ''last_lat'', Col ''last_lon'', Col ''status'']
       ''node_registry'',
     DROP_TABLE ''node_registry'',
     RENAME_TABLE ''node_registry_v2'' ''node_registry'']"

definition migration3 :: "ddl list" where
  "migration3 =
    [CREATE_TABLE ''hub_registry_v2''
       [col ''hub_id'' BLOB, col ''last_ip'' TEXT, col ''last_port'' INTEGER, req0 ''relay_capable'', req ''first_seen'' INTEGER,
        req ''last_seen'' INTEGER, req ''status'' TEXT] [[''hub_id'']] [],
     INSERT_SELECT ''hub_registry_v2''
       [''hub_id'', ''last_ip'', ''last_port'', ''relay_capable'', ''first_seen'', ''last_seen'', ''status'']
       [Col ''hub_id'', Col ''last_ip'', Col ''last_port'', Col ''relay_capable'', Lit (SInt 0), Lit (SInt 0), Lit (SText ''online'')]
       ''hub_registry'',
     DROP_TABLE ''hub_registry'',
     RENAME_TABLE ''hub_registry_v2'' ''hub_registry'']"

definition migration4 :: "ddl list" where
  "migration4 =
    [CREATE_TABLE ''lan_segments''
       [col ''segment_id'' TEXT, req ''gateway_ip'' TEXT, col ''ssid'' TEXT, col ''bssid'' TEXT, req ''first_seen'' INTEGER,
        req ''last_seen'' INTEGER, col ''estimated_lat'' REAL, col ''estimated_lon'' REAL] [[''segment_id'']] [],
     CREATE_TABLE ''lan_segment_members''
       [req ''segment_id'' TEXT, req ''entity_type'' TEXT, req ''entity_id'' BLOB, col ''local_ip'' TEXT, req ''last_seen'' INTEGER]
       [[''segment_id'', ''entity_type'', ''entity_id'']] [(''segment_id'', ''lan_segments'', ''segment_id'')],
     CREATE_INDEX ''idx_lan_segment_members_entity'' ''lan_segment_members'' [''entity_type'', ''entity_id'']]"

definition migration5 :: "ddl list" where
  "migration5 =
    [ADD_COLUMN ''hub_registry'' (col ''manual_lat'' REAL), ADD_COLUMN ''hub_registry'' (col ''manual_lon'' REAL),
     ADD_COLUMN ''lan_segments'' (col ''manual_lat'' REAL), ADD_COLUMN ''lan_segments'' (col ''manual_lon'' REAL)]"

definition migration6 :: "ddl list" where
  "migration6 =
    [ADD_COLUMN ''node_registry'' (col ''handle'' TEXT), ADD_COLUMN ''node_registry'' (col ''home_lat'' REAL),
     ADD_COLUMN ''node_registry'' (col ''home_lon'' REAL)]"

record Migration =
  mi_Version :: int
  mi_SQL :: "ddl list"

definition Migrations_list :: "Migration list" where
  "Migrations_list =
    [\<lparr>mi_Version = 1, mi_SQL = migration1\<rparr>, \<lparr>mi_Version = 2, mi_SQL = migration2\<rparr>, \<lparr>mi_Version = 3, mi_SQL = migration3\<rparr>,
     \<lparr>mi_Version = 4, mi_SQL = migration4\<rparr>, \<lparr>mi_Version = 5, mi_SQL = migration5\<rparr>, \<lparr>mi_Version = 6, mi_SQL = migration6\<rparr>]"

section \<open>Opening\<close>

definition disk_driver :: "(disk, unit) stmt" where
  "disk_driver d = (case disk_faults d of
      [] \<Rightarrow> (Inr (), d)
    | f # fs \<Rightarrow> (if f then Inl SqlFailure else Inr (), d\<lparr>disk_faults := fs\<rparr>))"

definition SchemaVersion :: "(disk, int) stmt" where
  "SchemaVersion = bnd (wrap_err ''storage: read schema version'' disk_driver) (\<lambda>_ d. (Inr (user_version d), d))"

text \<open>What happens between \<^verbatim>\<open>Begin\<close> and the end of \<^verbatim>\<open>Commit\<close>.\<close>

definition migration_body :: "Migration \<Rightarrow> (disk, unit) stmt" where
  "migration_body m =
     bnd (wrap_err (''storage: apply migration '' @ show_int (mi_Version m))
            (bnd disk_driver (\<lambda>_ d. case exec_script (mi_SQL m) d of Inl e \<Rightarrow> (Inl e, d) | Inr d' \<Rightarrow> (Inr (), d')))) (\<lambda>_.
     bnd (wrap_err (''storage: set schema version '' @ show_int (mi_Version m))
            (bnd disk_driver (\<lambda>_ d. (Inr (), d\<lparr>user_version := mi_Version m\<rparr>)))) (\<lambda>_.
     wrap_err (''storage: commit migration '' @ show_int (mi_Version m)) disk_driver))"

text \<open>An error after \<^verbatim>\<open>Begin\<close> rolls back.\<close>

definition applyMigration :: "Migration \<Rightarrow> (disk, unit) stmt" where
  "applyMigration m =
     bnd (wrap_err (''storage: begin migration '' @ show_int (mi_Version m)) disk_driver) (\<lambda>_ d.
       case migration_body m d of
         (Inl e, d') \<Rightarrow> (Inl e, d\<lparr>disk_faults := disk_faults d'\<rparr>)
       | (Inr _, d') \<Rightarrow> (Inr (), d'))"

fun migrate_loop :: "int \<Rightarrow> Migration list \<Rightarrow> (disk, unit) stmt" where
  "migrate_loop current [] = ret ()"
| "migrate_loop current (m # ms) =
     (if mi_Version m \<le> current then migrate_loop current ms
      else bnd (applyMigration m) (\<lambda>_. migrate_loop current ms))"

definition migrate :: "(disk, unit) stmt" where
  "migrate = bnd SchemaVersion (\<lambda>current. migrate_loop current Migrations_list)"

fun pragmas :: "string list \<Rightarrow> (disk, unit) stmt" where
  "pragmas [] = ret ()"
| "pragmas (p # ps) = bnd (wrap_err (''storage: '' @ p) disk_driver) (\<lambda>_. pragmas ps)"

text \<open>\<open>opened\<close> is the error of \<^verbatim>\<open>sql.Open\<close>, if any.\<close>

definition storage_Open :: "string \<Rightarrow> error option \<Rightarrow> (disk, unit) stmt" where
  "storage_Open path opened =
     (case opened of
        Some e \<Rightarrow> fail (Wrap (''storage: open '' @ path) e)
      | None \<Rightarrow>
          bnd (pragmas [''PRAGMA foreign_keys = ON'', ''PRAGMA journal_mode = WAL'', ''PRAGMA busy_timeout = 5000'']) (\<lambda>_. migrate))"

section \<open>Interrupted upgrades\<close>

text \<open>The file without the script of failures.\<close>

definition content :: "disk \<Rightarrow> disk" where
  "content d = d\<lparr>disk_faults := []\<rparr>"

lemma content_simps [simp]:
  "content (d\<lparr>disk_faults := fs\<rparr>) = content d" "content (content d) = content d" "disk_faults (content d) = []"
  "user_version (content d) = user_version d" "catalog (content d) = catalog d"
  by (simp_all add: content_def)

lemma content_id: "disk_faults d = [] \<Longrightarrow> content d = d"
  by (simp add: content_def)

lemma disk_driver_cases:
  obtains fs where "disk_driver d = (Inr (), d\<lparr>disk_faults := fs\<rparr>)"
  | fs where "disk_driver d = (Inl SqlFailure, d\<lparr>disk_faults := fs\<rparr>)"
proof (cases "disk_faults d")
  case Nil
  then have "disk_driver d = (Inr (), d\<lparr>disk_faults := []\<rparr>)" by (simp add: disk_driver_def)
  then show ?thesis by (rule that(1))
next
  case (Cons f fs)
  then show ?thesis
    using that(1) [of fs] that(2) [of fs] by (cases f) (simp_all add: disk_driver_def)
qed

lemma disk_driver_calm [simp]: "disk_driver (content d) = (Inr (), content d)"
  by (simp add: disk_driver_def)

text \<open>No statement looks at the script of failures.\<close>

lemma exec_ddl_faults: "exec_ddl s (d\<lparr>disk_faults := fs\<rparr>) = map_sum id (\<lambda>d'. d'\<lparr>disk_faults := fs\<rparr>) (exec_ddl s d)"
  by (cases s) (auto simp: Let_def split: option.split sum.split)

lemma exec_script_faults: "exec_script ss (d\<lparr>disk_faults := fs\<rparr>) = map_sum id (\<lambda>d'. d'\<lparr>disk_faults := fs\<rparr>) (exec_script ss d)"
  by (induction ss arbitrary: d) (auto simp: exec_ddl_faults split: sum.split)

lemma exec_ddl_version: "exec_ddl s d = Inr d' \<Longrightarrow> user_version d' = user_version d"
  by (cases s) (auto simp: Let_def split: option.splits sum.splits if_splits)

text \<open>One migration either leaves the file as it was or does all of its work.\<close>

lemma applyMigration_cases:
  obtains (failed) e fs where "applyMigration m d = (Inl e, d\<lparr>disk_faults := fs\<rparr>)"
  | (applied) d' where "applyMigration m d = (Inr (), d')" "applyMigration m (content d) = (Inr (), content d')"
      "user_version d' = mi_Version m"
proof (cases "fst (applyMigration m d)")
  case (Inl e)
  have "\<exists>fs. snd (applyMigration m d) = d\<lparr>disk_faults := fs\<rparr>"
  proof (rule disk_driver_cases [of d])
    fix fs assume b: "disk_driver d = (Inr (), d\<lparr>disk_faults := fs\<rparr>)"
    with Inl show ?thesis
      by (cases "migration_body m (d\<lparr>disk_faults := fs\<rparr>)") (auto simp: applyMigration_def bnd_def wrap_err_def split: sum.splits)
  qed (auto simp: applyMigration_def bnd_def wrap_err_def)
  with Inl show ?thesis using failed by (metis prod.collapse)
next
  case (Inr u)
  then obtain fs0 d' where b: "disk_driver d = (Inr (), d\<lparr>disk_faults := fs0\<rparr>)"
    and m: "migration_body m (d\<lparr>disk_faults := fs0\<rparr>) = (Inr (), d')" "applyMigration m d = (Inr (), d')"
    by (cases rule: disk_driver_cases [of d]) (auto simp: applyMigration_def bnd_def wrap_err_def split: sum.splits prod.splits)
  then obtain fs1 d1 where d1: "exec_script (mi_SQL m) (d\<lparr>disk_faults := fs1\<rparr>) = Inr d1"
    and m1: "bnd (wrap_err (''storage: set schema version '' @ show_int (mi_Version m))
            (bnd disk_driver (\<lambda>_ d. (Inr (), d\<lparr>user_version := mi_Version m\<rparr>)))) (\<lambda>_.
     wrap_err (''storage: commit migration '' @ show_int (mi_Version m)) disk_driver) d1 = (Inr (), d')"
    by (cases rule: disk_driver_cases [of "d\<lparr>disk_faults := fs0\<rparr>"])
       (auto simp: migration_body_def bnd_def wrap_err_def split: sum.splits)
  obtain fs2 where d': "d' = d1\<lparr>user_version := mi_Version m, disk_faults := fs2\<rparr>"
  proof (rule disk_driver_cases [of d1])
    fix fs assume c: "disk_driver d1 = (Inr (), d1\<lparr>disk_faults := fs\<rparr>)"
    show ?thesis
      by (rule disk_driver_cases [of "d1\<lparr>disk_faults := fs, user_version := mi_Version m\<rparr>"])
         (use m1 c that in \<open>auto simp: bnd_def wrap_err_def\<close>)
  qed (use m1 in \<open>auto simp: bnd_def wrap_err_def\<close>)
  have "exec_script (mi_SQL m) (content d) = Inr (content d1)"
    using d1 exec_script_faults [of "mi_SQL m" fs1 d] exec_script_faults [of "mi_SQL m" "[]" d]
    by (cases "exec_script (mi_SQL m) d") (auto simp: content_def)
  then have "applyMigration m (content d) = (Inr (), content d')"
    by (simp add: applyMigration_def migration_body_def bnd_def wrap_err_def d') (simp add: disk_driver_def content_def)
  with m(2) show ?thesis by (rule applied) (simp add: d')
qed

text \<open>The pending migrations one after the other.\<close>

fun apply_all :: "Migration list \<Rightarrow> (disk, unit) stmt" where
  "apply_all [] = ret ()"
| "apply_all (m # ms) = bnd (applyMigration m) (\<lambda>_. apply_all ms)"

lemma migrate_loop_pending: "migrate_loop v ms = apply_all (filter (\<lambda>m. v < mi_Version m) ms)"
  by (induction ms) auto

lemma apply_all_version:
  assumes "sorted_wrt (<) (map mi_Version ms)" and "\<forall>m \<in> set ms. user_version d < mi_Version m"
  shows "user_version d \<le> user_version (snd (apply_all ms d))"
  using assms
proof (induction ms arbitrary: d)
  case (Cons m ms)
  show ?case
  proof (cases rule: applyMigration_cases [of m d])
    case (failed e fs)
    then show ?thesis by (simp add: bnd_def)
  next
    case (applied d')
    moreover have "user_version d' \<le> user_version (snd (apply_all ms d'))"
      using Cons applied(3) by (intro Cons.IH) auto
    ultimately show ?thesis using Cons.prems(2) by (simp add: bnd_def)
  qed
qed simp

lemma apply_all_resumes:
  assumes "sorted_wrt (<) (map mi_Version ms)" and "\<forall>m \<in> set ms. user_version d < mi_Version m"
    and "apply_all ms d = (r, d')"
  shows "apply_all (filter (\<lambda>m. user_version d' < mi_Version m) ms) (content d') = apply_all ms (content d)"
  using assms
proof (induction ms arbitrary: d)
  case Nil
  then show ?case by simp
next
  case (Cons m ms)
  show ?case
  proof (cases rule: applyMigration_cases [of m d])
    case (failed e fs)
    with Cons.prems(3) have "d' = d\<lparr>disk_faults := fs\<rparr>" by (simp add: bnd_def)
    with Cons.prems(2) show ?thesis by (simp add: filter_id_conv)
  next
    case (applied d1)
    then have rest: "apply_all ms d1 = (r, d')" using Cons.prems(3) by (simp add: bnd_def)
    have later: "\<forall>k \<in> set ms. user_version d1 < mi_Version k" using Cons.prems(1) applied(3) by simp
    have "user_version d1 \<le> user_version d'" using apply_all_version [OF _ later] Cons.prems(1) rest by simp
    then have "filter (\<lambda>m. user_version d' < mi_Version m) (m # ms) = filter (\<lambda>m. user_version d' < mi_Version m) ms"
      using applied(3) by simp
    then show ?thesis
      using Cons.IH [OF _ later rest] Cons.prems(1) applied(2) by (simp add: bnd_def)
  qed
qed

lemma Migrations_sorted: "sorted_wrt (<) (map mi_Version Migrations_list)"
  by (simp add: Migrations_list_def)

lemma pragmas_cases:
  obtains (failed) e fs where "pragmas ps d = (Inl e, d\<lparr>disk_faults := fs\<rparr>)"
  | (ok) fs where "pragmas ps d = (Inr (), d\<lparr>disk_faults := fs\<rparr>)"
proof -
  have "\<exists>r fs. pragmas ps d = (r, d\<lparr>disk_faults := fs\<rparr>)"
  proof (induction ps arbitrary: d)
    case Nil
    have "pragmas [] d = (Inr (), d\<lparr>disk_faults := disk_faults d\<rparr>)" by simp
    then show ?case by blast
  next
    case (Cons p ps)
    show ?case
    proof (rule disk_driver_cases [of d])
      fix fs assume "disk_driver d = (Inr (), d\<lparr>disk_faults := fs\<rparr>)"
      then show ?thesis using Cons [of "d\<lparr>disk_faults := fs\<rparr>"] by (auto simp: bnd_def wrap_err_def)
    qed (auto simp: bnd_def wrap_err_def)
  qed
  then obtain r fs where "pragmas ps d = (r, d\<lparr>disk_faults := fs\<rparr>)" by blast
  then show ?thesis using failed ok by (cases r) auto
qed

lemma pragmas_calm: "pragmas ps (content d) = (Inr (), content d)"
  by (induction ps) (simp_all add: bnd_def wrap_err_def)

lemma storage_Open_calm:
  "storage_Open path None (content d) = apply_all (filter (\<lambda>m. user_version d < mi_Version m) Migrations_list) (content d)"
  by (simp add: storage_Open_def migrate_def SchemaVersion_def pragmas_calm bnd_def wrap_err_def migrate_loop_pending)

text \<open>What an opening does to the file: nothing, or the pending migrations up to a failure.\<close>

lemma storage_Open_effect:
  "content (snd (storage_Open path opened d)) = content d \<or>
   (\<exists>r d1. content d1 = content d \<and> apply_all (filter (\<lambda>m. user_version d < mi_Version m) Migrations_list) d1 = (r, snd (storage_Open path opened d)))"
proof (cases opened)
  case (Some e)
  then show ?thesis by (simp add: storage_Open_def)
next
  case None
  let ?ps = "[''PRAGMA foreign_keys = ON'', ''PRAGMA journal_mode = WAL'', ''PRAGMA busy_timeout = 5000'']"
  show ?thesis
  proof (cases rule: pragmas_cases [of ?ps d])
    case (failed e fs)
    with None show ?thesis by (simp add: storage_Open_def bnd_def)
  next
    case (ok fs)
    show ?thesis
    proof (rule disk_driver_cases [of "d\<lparr>disk_faults := fs\<rparr>"])
      fix fs' assume "disk_driver (d\<lparr>disk_faults := fs\<rparr>) = (Inr (), d\<lparr>disk_faults := fs, disk_faults := fs'\<rparr>)"
      then have "storage_Open path opened d = apply_all (filter (\<lambda>m. user_version d < mi_Version m) Migrations_list) (d\<lparr>disk_faults := fs'\<rparr>)"
        using None ok by (simp add: storage_Open_def bnd_def migrate_def SchemaVersion_def wrap_err_def migrate_loop_pending)
      then have "content (d\<lparr>disk_faults := fs'\<rparr>) = content d \<and> apply_all (filter (\<lambda>m. user_version d < mi_Version m) Migrations_list)
          (d\<lparr>disk_faults := fs'\<rparr>) = (fst (storage_Open path opened d), snd (storage_Open path opened d))" by simp
      then show ?thesis by blast
    qed (use None ok in \<open>simp add: storage_Open_def bnd_def migrate_def SchemaVersion_def wrap_err_def\<close>)
  qed
qed

text \<open>
  C14. An interrupted upgrade is resumed, not repeated. Whatever fails while a database file is opened, the
  file is left so that opening it again, without failures, gives the result and the file that opening
  the original without failures gives; no migration is applied twice and none is half applied.
\<close>

theorem Open_resumes:
  "storage_Open path' None (content (snd (storage_Open path opened d))) = storage_Open path' None (content d)"
  using storage_Open_effect [of path opened d]
proof
  assume "content (snd (storage_Open path opened d)) = content d"
  then show ?thesis by simp
next
  let ?d' = "snd (storage_Open path opened d)"
  let ?ms = "filter (\<lambda>m. user_version d < mi_Version m) Migrations_list"
  assume "\<exists>r d1. content d1 = content d \<and> apply_all ?ms d1 = (r, ?d')"
  then obtain r d1 where d1: "content d1 = content d" "apply_all ?ms d1 = (r, ?d')" by blast
  then have v: "user_version d1 = user_version d" by (metis content_simps(4))
  have sorted: "sorted_wrt (<) (map mi_Version ?ms)"
    using Migrations_sorted by (simp add: sorted_wrt_map sorted_wrt_filter)
  have later: "\<forall>m \<in> set ?ms. user_version d1 < mi_Version m" by (simp add: v)
  have "filter (\<lambda>m. user_version ?d' < mi_Version m) Migrations_list = filter (\<lambda>m. user_version ?d' < mi_Version m) ?ms"
    using apply_all_version [OF sorted later] d1(2) v by (auto intro: filter_cong)
  then show ?thesis
    using apply_all_resumes [OF sorted later d1(2)] unfolding storage_Open_calm d1(1) [symmetric] by (simp add: storage_Open_calm d1(1) v)
qed

section \<open>A new file\<close>

definition new_disk :: disk where
  "new_disk = \<lparr>catalog = [], indexes = [], user_version = 0, disk_faults = []\<rparr>"

definition schema :: "disk \<Rightarrow> (string \<times> string list \<times> string list list \<times> (string \<times> string \<times> string) list) list" where
  "schema d = map (\<lambda>(n, t). (n, map co_name (st_columns t), st_keys t, st_references t)) (catalog d)"

text \<open>The tables of \<^typ>\<open>DB\<close> with their columns, and the keys and references that \<^const>\<open>db_wf\<close> states.\<close>

definition DB_schema :: "(string \<times> string list \<times> string list list \<times> (string \<times> string \<times> string) list) list" where
  "DB_schema =
    [(''routing_table'', [''destination_node_id'', ''next_hop_node_id'', ''tq'', ''latency_ms'', ''hop_count''], [[''destination_node_id'']], []),
     (''proximity_events'', [''id'', ''observer_node_id'', ''observed_node_id'', ''rssi'', ''transport'', ''observed_at''], [[''id'']], []),
     (''trust_endorsements'', [''id'', ''endorser_node_id'', ''endorsed_node_id'', ''endorsed_at'', ''signature''],
        [[''id''], [''endorser_node_id'', ''endorsed_node_id'']], []),
     (''relay_hubs'', [''hub_id'', ''ip'', ''port'', ''source'', ''last_verified''], [[''hub_id'']], []),
     (''app_presence'', [''node_id'', ''app_id'', ''app_name'', ''app_version'', ''last_reported''], [[''node_id'', ''app_id'']], []),
     (''ban_list'', [''ban_id'', ''app_id'', ''version_range'', ''reason'', ''proposed_by_hub_id'', ''proposed_at'', ''signature''], [[''ban_id'']], []),
     (''ban_verdicts'', [''ban_id'', ''hub_id'', ''agree'', ''decided_at''], [[''ban_id'', ''hub_id'']], [(''ban_id'', ''ban_list'', ''ban_id'')]),
     (''dtq_queue'', [''bundle_id'', ''src_node_id'', ''dst_node_id'', ''payload'', ''expires_at'', ''retry_count''], [[''bundle_id'']], []),
     (''historical_metrics'', [''id'', ''metric_name'', ''node_id'', ''value'', ''recorded_at''], [[''id'']], []),
     (''admin_users'', [''username'', ''password_hash'', ''salt'', ''must_change_password''], [[''username'']], []),
     (''config'', [''key'', ''value''], [[''key'']], []),
     (''node_registry'', [''node_id'', ''pubkey'', ''first_seen'', ''last_seen'', ''last_lat'', ''last_lon'', ''status'', ''handle'', ''home_lat'', ''home_lon''],
        [[''node_id'']], []),
     (''hub_registry'', [''hub_id'', ''last_ip'', ''last_port'', ''relay_capable'', ''first_seen'', ''last_seen'', ''status'', ''manual_lat'', ''manual_lon''],
        [[''hub_id'']], []),
     (''lan_segments'', [''segment_id'', ''gateway_ip'', ''ssid'', ''bssid'', ''first_seen'', ''last_seen'', ''estimated_lat'', ''estimated_lon'',
        ''manual_lat'', ''manual_lon''], [[''segment_id'']], []),
     (''lan_segment_members'', [''segment_id'', ''entity_type'', ''entity_id'', ''local_ip'', ''last_seen''],
        [[''segment_id'', ''entity_type'', ''entity_id'']], [(''segment_id'', ''lan_segments'', ''segment_id'')])]"

text \<open>
  The first version with rows in the two tables that later migrations rebuild; \<open>rest\<close> are the rows of the
  other tables.
\<close>

fun with_rows :: "(string \<Rightarrow> sql_value list list) \<Rightarrow> (string \<times> sql_table) list \<Rightarrow> (string \<times> sql_table) list" where
  "with_rows rows [] = []"
| "with_rows rows ((n, t) # ts) = (n, t\<lparr>st_rows := rows n\<rparr>) # with_rows rows ts"

definition version1 :: "(string \<Rightarrow> sql_value list list) \<Rightarrow> disk" where
  "version1 rows = (case exec_script migration1 new_disk of
     Inl e \<Rightarrow> new_disk | Inr d \<Rightarrow> d\<lparr>catalog := with_rows rows (catalog d), user_version := 1\<rparr>)"

lemma applyMigration_calm:
  assumes "exec_script (mi_SQL m) d = Inr d'" and "disk_faults d = []" and "disk_faults d' = []"
  shows "applyMigration m d = (Inr (), d'\<lparr>user_version := mi_Version m\<rparr>)"
  using assms by (simp add: applyMigration_def migration_body_def bnd_def wrap_err_def disk_driver_def)


lemma column_simps [simp]:
  "co_name (col n t) = n" "co_name (req n t) = n" "co_name (req0 n) = n"
  "co_not_null (col n t) = False" "co_not_null (req n t) = True" "co_not_null (req0 n) = True"
  "co_default (col n t) = SNull" "co_default (req n t) = SNull" "co_default (req0 n) = SInt 0"
  by (simp_all add: col_def req_def req0_def)

definition disk_ok :: "disk \<Rightarrow> bool" where
  "disk_ok d = list_all (\<lambda>(n, t). keys_ok t \<and> list_all (\<lambda>r. length r = length (st_columns t) \<and> not_null_ok (st_columns t) r) (st_rows t)) (catalog d)"

definition rows_of :: "disk \<Rightarrow> string \<Rightarrow> sql_value list list" where
  "rows_of d n = (case map_of (catalog d) n of None \<Rightarrow> [] | Some t \<Rightarrow> st_rows t)"

abbreviation node_columns :: "column \<Rightarrow> column list" where
  "node_columns pubkey \<equiv> [col ''node_id'' BLOB, pubkey, req ''first_seen'' INTEGER, req ''last_seen'' INTEGER, col ''last_lat'' REAL,
     col ''last_lon'' REAL, req ''status'' TEXT]"

abbreviation hub_columns :: "column list" where
  "hub_columns \<equiv> [col ''hub_id'' BLOB, col ''last_ip'' TEXT, col ''last_port'' INTEGER, req0 ''relay_capable'']"

abbreviation hub_columns2 :: "column list" where
  "hub_columns2 \<equiv> [col ''hub_id'' BLOB, col ''last_ip'' TEXT, col ''last_port'' INTEGER, req0 ''relay_capable'', req ''first_seen'' INTEGER,
     req ''last_seen'' INTEGER, req ''status'' TEXT]"

text \<open>A row with as many values as there are columns.\<close>

lemma length_numeral_Suc: "length xs = numeral k \<longleftrightarrow> (\<exists>y ys. xs = y # ys \<and> length ys = pred_numeral k)"
  by (simp add: numeral_eq_Suc length_Suc_conv)

lemma copy_nodes:
  assumes "list_all (\<lambda>r. length r = 7 \<and> not_null_ok (node_columns (req ''pubkey'' BLOB)) r) rows"
    and "keys_ok \<lparr>st_columns = node_columns (req ''pubkey'' BLOB), st_keys = [[''node_id'']], st_references = [], st_rows = rows\<rparr>"
  shows "insert_select [''node_id'', ''pubkey'', ''first_seen'', ''last_seen'', ''last_lat'', ''last_lon'', ''status'']
       [Col ''node_id'', Col ''pubkey'', Col ''first_seen'', Col ''last_seen'', Col ''last_lat'', Col ''last_lon'', Col ''status'']
       \<lparr>st_columns = node_columns (req ''pubkey'' BLOB), st_keys = [[''node_id'']], st_references = [], st_rows = rows\<rparr>
       \<lparr>st_columns = node_columns (col ''pubkey'' BLOB), st_keys = [[''node_id'']], st_references = [], st_rows = []\<rparr> =
     Inr \<lparr>st_columns = node_columns (col ''pubkey'' BLOB), st_keys = [[''node_id'']], st_references = [], st_rows = rows\<rparr>"
proof -
  have "map (\<lambda>row. insert_row (node_columns (col ''pubkey'' BLOB)) [''node_id'', ''pubkey'', ''first_seen'', ''last_seen'', ''last_lat'', ''last_lon'', ''status'']
      (map (expr_value (node_columns (req ''pubkey'' BLOB)) row) [Col ''node_id'', Col ''pubkey'', Col ''first_seen'', Col ''last_seen'', Col ''last_lat'',
         Col ''last_lon'', Col ''status''])) rows = rows"
    using assms(1) by (intro map_idI) (auto simp: list_all_iff length_numeral_Suc length_Suc_conv insert_row_def col_value_def dest!: bspec)
  moreover have "list_all (not_null_ok (node_columns (col ''pubkey'' BLOB))) rows"
    using assms(1) by (auto simp: list_all_iff not_null_ok_def col_value_def)
  moreover have "keys_ok \<lparr>st_columns = node_columns (col ''pubkey'' BLOB), st_keys = [[''node_id'']], st_references = [], st_rows = rows\<rparr>"
    using assms(2) by (simp add: keys_ok_def col_value_def)
  ultimately show ?thesis by (simp add: insert_select_def Let_def)
qed

definition hub_upgrade :: "sql_value list \<Rightarrow> sql_value list" where
  "hub_upgrade r = r @ [SInt 0, SInt 0, SText ''online'']"

lemma copy_hubs:
  assumes "list_all (\<lambda>r. length r = 4 \<and> not_null_ok hub_columns r) rows"
    and "keys_ok \<lparr>st_columns = hub_columns, st_keys = [[''hub_id'']], st_references = [], st_rows = rows\<rparr>"
  shows "insert_select [''hub_id'', ''last_ip'', ''last_port'', ''relay_capable'', ''first_seen'', ''last_seen'', ''status'']
       [Col ''hub_id'', Col ''last_ip'', Col ''last_port'', Col ''relay_capable'', Lit (SInt 0), Lit (SInt 0), Lit (SText ''online'')]
       \<lparr>st_columns = hub_columns, st_keys = [[''hub_id'']], st_references = [], st_rows = rows\<rparr>
       \<lparr>st_columns = hub_columns2, st_keys = [[''hub_id'']], st_references = [], st_rows = []\<rparr> =
     Inr \<lparr>st_columns = hub_columns2, st_keys = [[''hub_id'']], st_references = [], st_rows = map hub_upgrade rows\<rparr>"
proof -
  have "map (\<lambda>row. insert_row hub_columns2 [''hub_id'', ''last_ip'', ''last_port'', ''relay_capable'', ''first_seen'', ''last_seen'', ''status'']
      (map (expr_value hub_columns row) [Col ''hub_id'', Col ''last_ip'', Col ''last_port'', Col ''relay_capable'', Lit (SInt 0), Lit (SInt 0),
         Lit (SText ''online'')])) rows = map hub_upgrade rows"
    using assms(1) by (intro map_cong refl)
      (auto simp: list_all_iff length_numeral_Suc length_Suc_conv insert_row_def col_value_def hub_upgrade_def dest!: bspec)
  moreover have "list_all (not_null_ok hub_columns2) (map hub_upgrade rows)"
    using assms(1) by (auto simp: list_all_iff not_null_ok_def col_value_def hub_upgrade_def length_numeral_Suc length_Suc_conv dest!: bspec)
  moreover have "map (\<lambda>row. map (col_value hub_columns2 row) [''hub_id'']) (map hub_upgrade rows) = map (\<lambda>row. map (col_value hub_columns row) [''hub_id'']) rows"
    using assms(1) by (auto simp: list_all_iff col_value_def hub_upgrade_def length_numeral_Suc length_Suc_conv dest!: bspec)
  then have "keys_ok \<lparr>st_columns = hub_columns2, st_keys = [[''hub_id'']], st_references = [], st_rows = map hub_upgrade rows\<rparr>"
    using assms(2) by (simp add: keys_ok_def del: map_map)
  ultimately show ?thesis by (simp add: insert_select_def Let_def del: map_eq_conv)
qed



lemma version1_simps [simp]: "disk_faults (version1 rows) = []" "user_version (version1 rows) = 1"
  by (simp_all add: version1_def migration1_def new_disk_def)

lemma Open_version1:
  "storage_Open path None (version1 rows) = apply_all (tl Migrations_list) (version1 rows)"
  using storage_Open_calm [of path "version1 rows"] by (simp add: content_id Migrations_list_def)


text \<open>What the statements do to the table under a name.\<close>

definition table_of :: "disk \<Rightarrow> string \<Rightarrow> sql_table option" where
  "table_of d n = map_of (catalog d) n"

definition index_names :: "disk \<Rightarrow> string set" where
  "index_names d = fst ` set (indexes d)"

lemma in_catalog: "n \<in> fst ` set (catalog d) \<longleftrightarrow> table_of d n \<noteq> None"
  by (simp add: table_of_def map_of_eq_None_iff)

lemma map_of_replace: "map_of (map (\<lambda>(m, x). (m, if m = n then t else x)) c) k = (if k = n \<and> map_of c n \<noteq> None then Some t else map_of c k)"
  by (induction c) auto

lemma map_of_rename:
  "map_of c m = None \<Longrightarrow> map_of (map (\<lambda>(k, t). (if k = n then m else k, t)) c) k = (if k = m then map_of c n else if k = n then None else map_of c k)"
proof (induction c)
  case (Cons p c)
  obtain a t where p: "p = (a, t)" by force
  with Cons.prems have "a \<noteq> m" "map_of c m = None" by (simp_all split: if_splits)
  with Cons.IH p show ?case by (auto split: if_splits)
qed simp

lemma map_of_drop: "map_of (filter (\<lambda>(m, _). m \<noteq> n) c) k = (if k = n then None else map_of c k)"
  by (induction c) auto

lemma ddl_create:
  assumes "table_of d n = None"
  obtains d' where "exec_ddl (CREATE_TABLE n cols keys refs) d = Inr d'"
    "table_of d' = (table_of d)(n \<mapsto> \<lparr>st_columns = cols, st_keys = keys, st_references = refs, st_rows = []\<rparr>)"
    "index_names d' = index_names d" "disk_faults d' = disk_faults d"
proof -
  let ?d = "d\<lparr>catalog := catalog d @ [(n, \<lparr>st_columns = cols, st_keys = keys, st_references = refs, st_rows = []\<rparr>)]\<rparr>"
  have "exec_ddl (CREATE_TABLE n cols keys refs) d = Inr ?d" using assms by (simp add: in_catalog)
  moreover have "table_of ?d = (table_of d)(n \<mapsto> \<lparr>st_columns = cols, st_keys = keys, st_references = refs, st_rows = []\<rparr>)"
    using assms by (auto simp: table_of_def fun_eq_iff map_add_def split: option.split)
  ultimately show ?thesis by (rule that) (simp_all add: index_names_def)
qed

lemma ddl_index:
  assumes "table_of d t = Some tab" and "i \<notin> index_names d" and "set cs \<subseteq> co_name ` set (st_columns tab)"
  obtains d' where "exec_ddl (CREATE_INDEX i t cs) d = Inr d'" "table_of d' = table_of d" "disk_faults d' = disk_faults d"
proof -
  have "exec_ddl (CREATE_INDEX i t cs) d = Inr (d\<lparr>indexes := indexes d @ [(i, t, cs)]\<rparr>)"
    using assms by (simp add: table_of_def index_names_def)
  then show ?thesis by (rule that) (simp_all add: table_of_def fun_eq_iff)
qed

lemma ddl_insert:
  assumes "table_of d src = Some s" and "table_of d dst = Some t" and "insert_select names exprs s t = Inr t'"
  obtains d' where "exec_ddl (INSERT_SELECT dst names exprs src) d = Inr d'" "table_of d' = (table_of d)(dst \<mapsto> t')"
    "index_names d' = index_names d" "disk_faults d' = disk_faults d"
proof -
  let ?d = "d\<lparr>catalog := map (\<lambda>(n, x). (n, if n = dst then t' else x)) (catalog d)\<rparr>"
  have "exec_ddl (INSERT_SELECT dst names exprs src) d = Inr ?d" using assms by (simp add: table_of_def)
  moreover have "table_of ?d = (table_of d)(dst \<mapsto> t')" using assms(2) by (auto simp: table_of_def map_of_replace fun_eq_iff)
  ultimately show ?thesis by (rule that) (simp_all add: index_names_def)
qed

lemma ddl_drop:
  assumes "table_of d n \<noteq> None"
  obtains d' where "exec_ddl (DROP_TABLE n) d = Inr d'" "table_of d' = (table_of d)(n := None)"
    "index_names d' \<subseteq> index_names d" "disk_faults d' = disk_faults d"
proof -
  let ?d = "d\<lparr>catalog := filter (\<lambda>(m, _). m \<noteq> n) (catalog d), indexes := filter (\<lambda>(_, t, _). t \<noteq> n) (indexes d)\<rparr>"
  have "exec_ddl (DROP_TABLE n) d = Inr ?d" using assms by (simp add: in_catalog)
  moreover have "table_of ?d = (table_of d)(n := None)" by (auto simp: table_of_def map_of_drop fun_eq_iff)
  ultimately show ?thesis by (rule that) (auto simp: index_names_def)
qed

lemma ddl_rename:
  assumes "table_of d n \<noteq> None" and "table_of d m = None"
  obtains d' where "exec_ddl (RENAME_TABLE n m) d = Inr d'" "table_of d' = (table_of d)(n := None, m := table_of d n)"
    "index_names d' = index_names d" "disk_faults d' = disk_faults d"
proof -
  let ?d = "d\<lparr>catalog := map (\<lambda>(k, t). (if k = n then m else k, t)) (catalog d), indexes := map (\<lambda>(i, t, cs). (i, if t = n then m else t, cs)) (indexes d)\<rparr>"
  have "exec_ddl (RENAME_TABLE n m) d = Inr ?d" using assms by (simp add: in_catalog)
  moreover have "table_of ?d = (table_of d)(n := None, m := table_of d n)"
    using assms(2) by (auto simp: table_of_def map_of_rename fun_eq_iff)
  ultimately show ?thesis by (rule that) (force simp: index_names_def)+
qed

lemma ddl_add:
  assumes "table_of d n = Some t" and "co_name c \<notin> co_name ` set (st_columns t)" and "\<not> co_not_null c"
  obtains d' where "exec_ddl (ADD_COLUMN n c) d = Inr d'"
    "table_of d' = (table_of d)(n \<mapsto> t\<lparr>st_columns := st_columns t @ [c], st_rows := map (\<lambda>r. r @ [co_default c]) (st_rows t)\<rparr>)"
    "index_names d' = index_names d" "disk_faults d' = disk_faults d"
proof -
  let ?t = "t\<lparr>st_columns := st_columns t @ [c], st_rows := map (\<lambda>r. r @ [co_default c]) (st_rows t)\<rparr>"
  let ?d = "d\<lparr>catalog := map (\<lambda>(m, x). (m, if m = n then ?t else x)) (catalog d)\<rparr>"
  have "exec_ddl (ADD_COLUMN n c) d = Inr ?d" using assms by (auto simp: table_of_def)
  moreover have "table_of ?d = (table_of d)(n \<mapsto> ?t)" using assms(1) by (auto simp: table_of_def map_of_replace fun_eq_iff)
  ultimately show ?thesis by (rule that) (simp_all add: index_names_def)
qed

section \<open>An upgrade of the first version\<close>

abbreviation node_table :: "column list \<Rightarrow> sql_value list list \<Rightarrow> sql_table" where
  "node_table cs rows \<equiv>
     \<lparr>st_columns = cs, st_keys = [[''node_id'']], st_references = [], st_rows = rows\<rparr>"

lemma migration2_effect:
  assumes "table_of d ''node_registry'' = Some (node_table (node_columns (req ''pubkey'' BLOB)) rows)" and "table_of d ''node_registry_v2'' = None"
    and "list_all (\<lambda>r. length r = 7 \<and> not_null_ok (node_columns (req ''pubkey'' BLOB)) r) rows"
    and "keys_ok (node_table (node_columns (req ''pubkey'' BLOB)) rows)"
  obtains d' where "exec_script migration2 d = Inr d'"
    "table_of d' = (table_of d)(''node_registry'' \<mapsto> node_table (node_columns (col ''pubkey'' BLOB)) rows)"
    "index_names d' \<subseteq> index_names d" "disk_faults d' = disk_faults d"
proof -
  obtain d1 where d1: "exec_ddl (CREATE_TABLE ''node_registry_v2'' (node_columns (col ''pubkey'' BLOB)) [[''node_id'']] []) d = Inr d1"
    "table_of d1 = (table_of d)(''node_registry_v2'' \<mapsto> node_table (node_columns (col ''pubkey'' BLOB)) [])"
    "index_names d1 = index_names d" "disk_faults d1 = disk_faults d"
    by (rule ddl_create [OF assms(2)])
  obtain d2 where d2: "exec_ddl (INSERT_SELECT ''node_registry_v2''
       [''node_id'', ''pubkey'', ''first_seen'', ''last_seen'', ''last_lat'', ''last_lon'', ''status'']
       [Col ''node_id'', Col ''pubkey'', Col ''first_seen'', Col ''last_seen'', Col ''last_lat'', Col ''last_lon'', Col ''status'']
       ''node_registry'') d1 = Inr d2"
    "table_of d2 = (table_of d1)(''node_registry_v2'' \<mapsto> node_table (node_columns (col ''pubkey'' BLOB)) rows)"
    "index_names d2 = index_names d1" "disk_faults d2 = disk_faults d1"
  proof (rule ddl_insert)
    show "table_of d1 ''node_registry'' = Some (node_table (node_columns (req ''pubkey'' BLOB)) rows)" "table_of d1 ''node_registry_v2'' = Some (node_table (node_columns (col ''pubkey'' BLOB)) [])"
      using assms(1) d1(2) by simp_all
  qed (rule copy_nodes [OF assms(3,4)])
  obtain d3 where d3: "exec_ddl (DROP_TABLE ''node_registry'') d2 = Inr d3" "table_of d3 = (table_of d2)(''node_registry'' := None)"
    "index_names d3 \<subseteq> index_names d2" "disk_faults d3 = disk_faults d2"
  proof (rule ddl_drop)
    show "table_of d2 ''node_registry'' \<noteq> None" using assms(1) d1(2) d2(2) by simp
  qed
  obtain d4 where d4: "exec_ddl (RENAME_TABLE ''node_registry_v2'' ''node_registry'') d3 = Inr d4"
    "table_of d4 = (table_of d3)(''node_registry_v2'' := None, ''node_registry'' := table_of d3 ''node_registry_v2'')"
    "index_names d4 = index_names d3" "disk_faults d4 = disk_faults d3"
  proof (rule ddl_rename)
    show "table_of d3 ''node_registry_v2'' \<noteq> None" "table_of d3 ''node_registry'' = None" using d2(2) d3(2) by simp_all
  qed
  have "exec_script migration2 d = Inr d4" by (simp add: migration2_def d1(1) d2(1) d3(1) d4(1) del: exec_ddl.simps)
  moreover have "table_of d4 = (table_of d)(''node_registry'' \<mapsto> node_table (node_columns (col ''pubkey'' BLOB)) rows)"
    unfolding d4(2) d3(2) d2(2) d1(2) using assms(2) by (auto simp: fun_eq_iff)
  ultimately show ?thesis by (rule that) (use d1 d2 d3 d4 in auto)
qed

abbreviation hub_table :: "column list \<Rightarrow> sql_value list list \<Rightarrow> sql_table" where
  "hub_table cs rows \<equiv> \<lparr>st_columns = cs, st_keys = [[''hub_id'']], st_references = [], st_rows = rows\<rparr>"

lemma migration3_effect:
  assumes "table_of d ''hub_registry'' = Some (hub_table hub_columns rows)" and "table_of d ''hub_registry_v2'' = None"
    and "list_all (\<lambda>r. length r = 4 \<and> not_null_ok hub_columns r) rows" and "keys_ok (hub_table hub_columns rows)"
  obtains d' where "exec_script migration3 d = Inr d'"
    "table_of d' = (table_of d)(''hub_registry'' \<mapsto> hub_table hub_columns2 (map hub_upgrade rows))"
    "index_names d' \<subseteq> index_names d" "disk_faults d' = disk_faults d"
proof -
  obtain d1 where d1: "exec_ddl (CREATE_TABLE ''hub_registry_v2'' hub_columns2 [[''hub_id'']] []) d = Inr d1"
    "table_of d1 = (table_of d)(''hub_registry_v2'' \<mapsto> hub_table hub_columns2 [])"
    "index_names d1 = index_names d" "disk_faults d1 = disk_faults d"
    by (rule ddl_create [OF assms(2)])
  obtain d2 where d2: "exec_ddl (INSERT_SELECT ''hub_registry_v2''
       [''hub_id'', ''last_ip'', ''last_port'', ''relay_capable'', ''first_seen'', ''last_seen'', ''status'']
       [Col ''hub_id'', Col ''last_ip'', Col ''last_port'', Col ''relay_capable'', Lit (SInt 0), Lit (SInt 0), Lit (SText ''online'')]
       ''hub_registry'') d1 = Inr d2"
    "table_of d2 = (table_of d1)(''hub_registry_v2'' \<mapsto> hub_table hub_columns2 (map hub_upgrade rows))"
    "index_names d2 = index_names d1" "disk_faults d2 = disk_faults d1"
  proof (rule ddl_insert)
    show "table_of d1 ''hub_registry'' = Some (hub_table hub_columns rows)" "table_of d1 ''hub_registry_v2'' = Some (hub_table hub_columns2 [])"
      using assms(1) d1(2) by simp_all
  qed (rule copy_hubs [OF assms(3,4)])
  obtain d3 where d3: "exec_ddl (DROP_TABLE ''hub_registry'') d2 = Inr d3" "table_of d3 = (table_of d2)(''hub_registry'' := None)"
    "index_names d3 \<subseteq> index_names d2" "disk_faults d3 = disk_faults d2"
  proof (rule ddl_drop)
    show "table_of d2 ''hub_registry'' \<noteq> None" using assms(1) d1(2) d2(2) by simp
  qed
  obtain d4 where d4: "exec_ddl (RENAME_TABLE ''hub_registry_v2'' ''hub_registry'') d3 = Inr d4"
    "table_of d4 = (table_of d3)(''hub_registry_v2'' := None, ''hub_registry'' := table_of d3 ''hub_registry_v2'')"
    "index_names d4 = index_names d3" "disk_faults d4 = disk_faults d3"
  proof (rule ddl_rename)
    show "table_of d3 ''hub_registry_v2'' \<noteq> None" "table_of d3 ''hub_registry'' = None" using d2(2) d3(2) by simp_all
  qed
  have "exec_script migration3 d = Inr d4"
    using d1(1) d2(1) d3(1) d4(1) by (simp add: migration3_def del: exec_ddl.simps)
  moreover have "table_of d4 = (table_of d)(''hub_registry'' \<mapsto> hub_table hub_columns2 (map hub_upgrade rows))"
    unfolding d4(2) d3(2) d2(2) d1(2) using assms(2) by (auto simp: fun_eq_iff)
  ultimately show ?thesis by (rule that) (use d1 d2 d3 d4 in auto)
qed

lemma migration4_effect:
  assumes "table_of d ''lan_segments'' = None" and "table_of d ''lan_segment_members'' = None"
    and "''idx_lan_segment_members_entity'' \<notin> index_names d"
  obtains s m d' where "exec_script migration4 d = Inr d'"
    "table_of d' = (table_of d)(''lan_segments'' \<mapsto> s, ''lan_segment_members'' \<mapsto> m)" "disk_faults d' = disk_faults d"
    "st_rows s = []" "st_rows m = []" "{''manual_lat'', ''manual_lon''} \<inter> co_name ` set (st_columns s) = {}"
proof -
  let ?s = "[col ''segment_id'' TEXT, req ''gateway_ip'' TEXT, col ''ssid'' TEXT, col ''bssid'' TEXT, req ''first_seen'' INTEGER,
        req ''last_seen'' INTEGER, col ''estimated_lat'' REAL, col ''estimated_lon'' REAL]"
  let ?m = "[req ''segment_id'' TEXT, req ''entity_type'' TEXT, req ''entity_id'' BLOB, col ''local_ip'' TEXT, req ''last_seen'' INTEGER]"
  obtain d1 where d1: "exec_ddl (CREATE_TABLE ''lan_segments'' ?s [[''segment_id'']] []) d = Inr d1"
    "table_of d1 = (table_of d)(''lan_segments'' \<mapsto> \<lparr>st_columns = ?s, st_keys = [[''segment_id'']], st_references = [], st_rows = []\<rparr>)"
    "index_names d1 = index_names d" "disk_faults d1 = disk_faults d"
    by (rule ddl_create [OF assms(1)])
  have "table_of d1 ''lan_segment_members'' = None" using d1(2) assms(2) by simp
  then obtain d2 where d2: "exec_ddl (CREATE_TABLE ''lan_segment_members'' ?m [[''segment_id'', ''entity_type'', ''entity_id'']]
       [(''segment_id'', ''lan_segments'', ''segment_id'')]) d1 = Inr d2"
    "table_of d2 = (table_of d1)(''lan_segment_members'' \<mapsto> \<lparr>st_columns = ?m, st_keys = [[''segment_id'', ''entity_type'', ''entity_id'']],
       st_references = [(''segment_id'', ''lan_segments'', ''segment_id'')], st_rows = []\<rparr>)"
    "index_names d2 = index_names d1" "disk_faults d2 = disk_faults d1"
    by (rule ddl_create)
  obtain d3 where d3: "exec_ddl (CREATE_INDEX ''idx_lan_segment_members_entity'' ''lan_segment_members'' [''entity_type'', ''entity_id'']) d2 = Inr d3"
    "table_of d3 = table_of d2" "disk_faults d3 = disk_faults d2"
  proof (rule ddl_index)
    show "table_of d2 ''lan_segment_members'' = Some \<lparr>st_columns = ?m, st_keys = [[''segment_id'', ''entity_type'', ''entity_id'']],
       st_references = [(''segment_id'', ''lan_segments'', ''segment_id'')], st_rows = []\<rparr>" using d2(2) by simp
    show "''idx_lan_segment_members_entity'' \<notin> index_names d2" using d2(3) d1(3) assms(3) by simp
  qed auto
  have "exec_script migration4 d = Inr d3" using d1(1) d2(1) d3(1) by (simp add: migration4_def del: exec_ddl.simps)
  moreover have "disk_faults d3 = disk_faults d" using d3(3) d2(4) d1(4) by simp
  ultimately show ?thesis by (rule that [OF _ d3(2) [unfolded d2(2) d1(2)]]) simp_all
qed

lemma add_columns:
  assumes "table_of d n = Some t" and "co_name ` set cs \<inter> co_name ` set (st_columns t) = {}" and "distinct (map co_name cs)"
    and "list_all (\<lambda>c. \<not> co_not_null c) cs"
  obtains d' t' where "exec_script (map (ADD_COLUMN n) cs) d = Inr d'" "table_of d' = (table_of d)(n \<mapsto> t')"
    "st_rows t' = map (\<lambda>r. r @ map co_default cs) (st_rows t)" "disk_faults d' = disk_faults d"
  using assms
proof (induction cs arbitrary: d t thesis)
  case Nil
  show ?case by (rule Nil(1) [of d t]) (use Nil(2) in \<open>auto simp: fun_upd_idem\<close>)
next
  case (Cons c cs)
  from Cons.prems(3) have new: "co_name c \<notin> co_name ` set (st_columns t)" by auto
  from Cons.prems(5) have null: "\<not> co_not_null c" by simp
  obtain d1 where d1: "exec_ddl (ADD_COLUMN n c) d = Inr d1"
    "table_of d1 = (table_of d)(n \<mapsto> t\<lparr>st_columns := st_columns t @ [c], st_rows := map (\<lambda>r. r @ [co_default c]) (st_rows t)\<rparr>)"
    "index_names d1 = index_names d" "disk_faults d1 = disk_faults d"
    by (rule ddl_add [OF Cons.prems(2) new null])
  let ?t1 = "t\<lparr>st_columns := st_columns t @ [c], st_rows := map (\<lambda>r. r @ [co_default c]) (st_rows t)\<rparr>"
  have rest: "co_name ` set cs \<inter> co_name ` set (st_columns ?t1) = {}" "table_of d1 n = Some ?t1" "distinct (map co_name cs)"
    "list_all (\<lambda>c. \<not> co_not_null c) cs" using Cons.prems(3-5) d1(2) by auto
  obtain d2 t2 where d2: "exec_script (map (ADD_COLUMN n) cs) d1 = Inr d2" "table_of d2 = (table_of d1)(n \<mapsto> t2)"
    "st_rows t2 = map (\<lambda>r. r @ map co_default cs) (st_rows ?t1)" "disk_faults d2 = disk_faults d1"
    using Cons.IH [OF _ rest(2,1,3,4)] by blast
  show ?case
    by (rule Cons.prems(1) [of d2 t2]) (use d1(1,2,4) d2 in \<open>simp_all del: exec_ddl.simps\<close>)
qed

lemma exec_script_append: "exec_script (ss @ ts) d = (case exec_script ss d of Inl e \<Rightarrow> Inl e | Inr d' \<Rightarrow> exec_script ts d')"
  by (induction ss arbitrary: d) (simp_all split: sum.split del: exec_ddl.simps)

lemma migration5_effect:
  assumes "table_of d ''hub_registry'' = Some (hub_table hub_columns2 rows)" and "table_of d ''lan_segments'' = Some s" and "st_rows s = []"
    and "{''manual_lat'', ''manual_lon''} \<inter> co_name ` set (st_columns s) = {}"
  obtains h s' d' where "exec_script migration5 d = Inr d'" "table_of d' = (table_of d)(''hub_registry'' \<mapsto> h, ''lan_segments'' \<mapsto> s')"
    "st_rows h = map (\<lambda>r. r @ [SNull, SNull]) rows" "st_rows s' = []" "disk_faults d' = disk_faults d"
proof -
  let ?cs = "[col ''manual_lat'' REAL, col ''manual_lon'' REAL]"
  obtain d1 h where d1: "exec_script (map (ADD_COLUMN ''hub_registry'') ?cs) d = Inr d1" "table_of d1 = (table_of d)(''hub_registry'' \<mapsto> h)"
    "st_rows h = map (\<lambda>r. r @ map co_default ?cs) rows" "disk_faults d1 = disk_faults d"
    using add_columns [OF assms(1), of ?cs] by auto
  have "table_of d1 ''lan_segments'' = Some s" using d1(2) assms(2) by simp
  then obtain d2 s' where d2: "exec_script (map (ADD_COLUMN ''lan_segments'') ?cs) d1 = Inr d2" "table_of d2 = (table_of d1)(''lan_segments'' \<mapsto> s')"
    "st_rows s' = map (\<lambda>r. r @ map co_default ?cs) (st_rows s)" "disk_faults d2 = disk_faults d1"
    using add_columns [of d1 "''lan_segments''" s ?cs] assms(4) by auto
  have m: "migration5 = map (ADD_COLUMN ''hub_registry'') ?cs @ map (ADD_COLUMN ''lan_segments'') ?cs" by (simp add: migration5_def)
  have "exec_script migration5 d = Inr d2" unfolding m exec_script_append d1(1) sum.case d2(1) ..
  then show ?thesis by (rule that [of d2 h s']) (use d1 d2 assms(3) in simp_all)
qed

lemma migration6_effect:
  assumes "table_of d ''node_registry'' = Some (node_table (node_columns (col ''pubkey'' BLOB)) rows)"
  obtains n d' where "exec_script migration6 d = Inr d'" "table_of d' = (table_of d)(''node_registry'' \<mapsto> n)"
    "st_rows n = map (\<lambda>r. r @ [SNull, SNull, SNull]) rows" "disk_faults d' = disk_faults d"
proof -
  let ?cs = "[col ''handle'' TEXT, col ''home_lat'' REAL, col ''home_lon'' REAL]"
  have "migration6 = map (ADD_COLUMN ''node_registry'') ?cs" by (simp add: migration6_def)
  then show ?thesis using add_columns [OF assms, of ?cs] that by auto
qed

definition base :: disk where
  "base = (case exec_script migration1 new_disk of Inl e \<Rightarrow> new_disk | Inr d \<Rightarrow> d)"

lemma base_runs: "exec_script migration1 new_disk = Inr base"
proof -
  have "isl (exec_script migration1 new_disk) = False" by code_simp
  then show ?thesis by (cases "exec_script migration1 new_disk") (simp_all add: base_def)
qed

lemma base_lookup:
  "table_of base ''node_registry'' = Some (node_table (node_columns (req ''pubkey'' BLOB)) [])"
  "table_of base ''hub_registry'' = Some (hub_table hub_columns [])"
  "table_of base ''node_registry_v2'' = None" "table_of base ''hub_registry_v2'' = None"
  "table_of base ''lan_segments'' = None" "table_of base ''lan_segment_members'' = None"
  "(''idx_lan_segment_members_entity'' \<in> index_names base) = False"
  by code_simp+

lemma map_of_with_rows: "map_of (with_rows rows c) n = map_option (\<lambda>t. t\<lparr>st_rows := rows n\<rparr>) (map_of c n)"
  by (induction rows c rule: with_rows.induct) auto

lemma version1_lookup:
  "table_of (version1 rows) n = map_option (\<lambda>t. t\<lparr>st_rows := rows n\<rparr>) (table_of base n)"
  "index_names (version1 rows) = index_names base"
  by (simp_all add: table_of_def index_names_def version1_def base_runs map_of_with_rows)

lemma disk_ok_table:
  assumes "disk_ok d" and "table_of d n = Some t"
  shows "keys_ok t" and "list_all (\<lambda>r. length r = length (st_columns t) \<and> not_null_ok (st_columns t) r) (st_rows t)"
  using assms map_of_SomeD [of "catalog d" n t] by (auto simp: disk_ok_def table_of_def list_all_iff)

lemma table_of_version [simp]: "table_of (d\<lparr>user_version := v\<rparr>) = table_of d" "index_names (d\<lparr>user_version := v\<rparr>) = index_names d"
  by (simp_all add: table_of_def index_names_def fun_eq_iff)

text \<open>
  C15. An upgrade keeps every row. A file of the first version whose rows obey its own constraints is brought
  to version 6 without an error; node and hub rows are extended by the new columns, hubs counting as
  online and never seen, and every other table keeps its rows as they are.
\<close>

theorem upgrade_keeps_rows:
  assumes "disk_ok (version1 rows)"
  shows "\<exists>d. storage_Open path None (version1 rows) = (Inr (), d) \<and> user_version d = 6 \<and>
    (\<forall>n. map_option st_rows (table_of d n) =
      (if n = ''node_registry'' then Some (map (\<lambda>r. r @ [SNull, SNull, SNull]) (rows n))
       else if n = ''hub_registry'' then Some (map (\<lambda>r. r @ [SInt 0, SInt 0, SText ''online'', SNull, SNull]) (rows n))
       else if n \<in> {''lan_segments'', ''lan_segment_members''} then Some []
       else map_option st_rows (table_of (version1 rows) n)))"
proof -
  let ?d1 = "version1 rows"
  have t: "table_of ?d1 ''node_registry'' = Some (node_table (node_columns (req ''pubkey'' BLOB)) (rows ''node_registry''))"
    "table_of ?d1 ''hub_registry'' = Some (hub_table hub_columns (rows ''hub_registry''))" by (simp_all add: version1_lookup base_lookup)
  have fresh: "table_of ?d1 ''node_registry_v2'' = None" by (simp add: version1_lookup base_lookup)
  have ok: "list_all (\<lambda>r. length r = 7 \<and> not_null_ok (node_columns (req ''pubkey'' BLOB)) r) (rows ''node_registry'')"
    "keys_ok (node_table (node_columns (req ''pubkey'' BLOB)) (rows ''node_registry''))"
    "list_all (\<lambda>r. length r = 4 \<and> not_null_ok hub_columns r) (rows ''hub_registry'')"
    "keys_ok (hub_table hub_columns (rows ''hub_registry''))"
    using disk_ok_table [OF assms t(1)] disk_ok_table [OF assms t(2)] by (simp_all add: numeral_eq_Suc)
  obtain d2 where d2: "exec_script migration2 ?d1 = Inr d2"
    "table_of d2 = (table_of ?d1)(''node_registry'' \<mapsto> node_table (node_columns (col ''pubkey'' BLOB)) (rows ''node_registry''))"
    "index_names d2 \<subseteq> index_names ?d1" "disk_faults d2 = disk_faults ?d1"
    by (rule migration2_effect [OF t(1) fresh ok(1,2)])
  obtain d3 where d3: "exec_script migration3 (d2\<lparr>user_version := 2\<rparr>) = Inr d3"
    "table_of d3 = (table_of d2)(''hub_registry'' \<mapsto> hub_table hub_columns2 (map hub_upgrade (rows ''hub_registry'')))"
    "index_names d3 \<subseteq> index_names d2" "disk_faults d3 = disk_faults d2"
  proof (rule migration3_effect)
    show "table_of (d2\<lparr>user_version := 2\<rparr>) ''hub_registry'' = Some (hub_table hub_columns (rows ''hub_registry''))"
      "table_of (d2\<lparr>user_version := 2\<rparr>) ''hub_registry_v2'' = None" by (simp_all add: d2(2) version1_lookup base_lookup)
  qed (use ok in simp_all)
  obtain s m d4 where d4: "exec_script migration4 (d3\<lparr>user_version := 3\<rparr>) = Inr d4"
    "table_of d4 = (table_of d3)(''lan_segments'' \<mapsto> s, ''lan_segment_members'' \<mapsto> m)" "disk_faults d4 = disk_faults d3"
    "st_rows s = []" "st_rows m = []" "{''manual_lat'', ''manual_lon''} \<inter> co_name ` set (st_columns s) = {}"
  proof (rule migration4_effect)
    show "table_of (d3\<lparr>user_version := 3\<rparr>) ''lan_segments'' = None" "table_of (d3\<lparr>user_version := 3\<rparr>) ''lan_segment_members'' = None"
      by (simp_all add: d3(2) d2(2) version1_lookup base_lookup)
    show "''idx_lan_segment_members_entity'' \<notin> index_names (d3\<lparr>user_version := 3\<rparr>)" using d3(3) d2(3) version1_lookup(2) base_lookup(7) by auto
  qed simp_all
  obtain h s' d5 where d5: "exec_script migration5 (d4\<lparr>user_version := 4\<rparr>) = Inr d5"
    "table_of d5 = (table_of d4)(''hub_registry'' \<mapsto> h, ''lan_segments'' \<mapsto> s')"
    "st_rows h = map (\<lambda>r. r @ [SNull, SNull]) (map hub_upgrade (rows ''hub_registry''))" "st_rows s' = []" "disk_faults d5 = disk_faults d4"
  proof (rule migration5_effect)
    show "table_of (d4\<lparr>user_version := 4\<rparr>) ''hub_registry'' = Some (hub_table hub_columns2 (map hub_upgrade (rows ''hub_registry'')))"
      "table_of (d4\<lparr>user_version := 4\<rparr>) ''lan_segments'' = Some s" by (simp_all add: d4(2) d3(2))
  qed (use d4 in simp_all)
  obtain n d6 where d6: "exec_script migration6 (d5\<lparr>user_version := 5\<rparr>) = Inr d6" "table_of d6 = (table_of d5)(''node_registry'' \<mapsto> n)"
    "st_rows n = map (\<lambda>r. r @ [SNull, SNull, SNull]) (rows ''node_registry'')" "disk_faults d6 = disk_faults d5"
  proof (rule migration6_effect)
    show "table_of (d5\<lparr>user_version := 5\<rparr>) ''node_registry'' = Some (node_table (node_columns (col ''pubkey'' BLOB)) (rows ''node_registry''))"
      by (simp add: d5(2) d4(2) d3(2) d2(2))
  qed simp_all
  note calm = d2(4) d3(4) d4(3) d5(5) d6(4) version1_simps
  have "storage_Open path None ?d1 = (Inr (), d6\<lparr>user_version := 6\<rparr>)"
    unfolding Open_version1
    by (simp add: Migrations_list_def bnd_def applyMigration_calm [OF _ _ _] d2(1) d3(1) d4(1) d5(1) d6(1) calm)
  moreover have "table_of d6 = (table_of ?d1)(''node_registry'' \<mapsto> n, ''hub_registry'' \<mapsto> h, ''lan_segments'' \<mapsto> s', ''lan_segment_members'' \<mapsto> m)"
    unfolding d6(2) d5(2) d4(2) d3(2) d2(2) by (auto simp: fun_eq_iff)
  ultimately show ?thesis
    using d4(5) d5(3,4) d6(3) by (intro exI [of _ "d6\<lparr>user_version := 6\<rparr>"]) (simp add: hub_upgrade_def)
qed

text \<open>
  A new file gets the schema that the model of the database assumes: version 6, the tables, columns,
  keys and references of \<^const>\<open>DB_schema\<close>, and no row.
\<close>

theorem Open_new_file:
  "case storage_Open path None new_disk of
     (Inl e, d) \<Rightarrow> False
   | (Inr _, d) \<Rightarrow> user_version d = 6 \<and> schema d = DB_schema \<and> list_all (\<lambda>(n, t). st_rows t = []) (catalog d)"
proof -
  have "storage_Open path None new_disk = apply_all Migrations_list new_disk"
    using storage_Open_calm [of path new_disk] by (simp add: content_id new_disk_def Migrations_list_def)
  moreover have "case apply_all Migrations_list new_disk of
     (Inl e, d) \<Rightarrow> False
   | (Inr _, d) \<Rightarrow> user_version d = 6 \<and> schema d = DB_schema \<and> list_all (\<lambda>(n, t). st_rows t = []) (catalog d)" by code_simp
  ultimately show ?thesis by simp
qed

definition sample_rows :: "string \<Rightarrow> sql_value list list" where
  "sample_rows n = (if n = ''hub_registry'' then [[SBlob [1], SNull, SNull, SInt 1]] else [])"

theorem upgrade_keeps_rows_witness:
  "\<exists>d. storage_Open ''hub.db'' None (version1 sample_rows) = (Inr (), d) \<and>
     map_option st_rows (table_of d ''hub_registry'') = Some [[SBlob [1], SNull, SNull, SInt 1, SInt 0, SInt 0, SText ''online'', SNull, SNull]]"
proof -
  have "disk_ok (version1 sample_rows)" by code_simp
  from upgrade_keeps_rows [OF this, of "''hub.db''"] obtain d where d: "storage_Open ''hub.db'' None (version1 sample_rows) = (Inr (), d)"
    and rows: "\<forall>n. map_option st_rows (table_of d n) =
      (if n = ''node_registry'' then Some (map (\<lambda>r. r @ [SNull, SNull, SNull]) (sample_rows n))
       else if n = ''hub_registry'' then Some (map (\<lambda>r. r @ [SInt 0, SInt 0, SText ''online'', SNull, SNull]) (sample_rows n))
       else if n \<in> {''lan_segments'', ''lan_segment_members''} then Some []
       else map_option st_rows (table_of (version1 sample_rows) n))" by blast
  from rows have "map_option st_rows (table_of d ''hub_registry'') =
      Some (map (\<lambda>r. r @ [SInt 0, SInt 0, SText ''online'', SNull, SNull]) (sample_rows ''hub_registry''))" by (rule allE [of _ "''hub_registry''"]) simp
  then show ?thesis
    using d by (intro exI [of _ d]) (simp only: sample_rows_def, simp)
qed

end
