(* ===== verification/MonitorApp.thy ===== *)
theory MonitorApp
  imports MonitorServer Migrations
begin

text \<open>
  The monitor as a process: the choice of the hub's database file
  (\<^verbatim>\<open>monitor/internal/hubdb/resolve.go\<close>), the construction, start and shutdown of the monitor
  (\<^verbatim>\<open>monitor/internal/monitorapp/monitorapp.go\<close>, with \<^verbatim>\<open>New\<close>, \<^verbatim>\<open>Start\<close>, \<^verbatim>\<open>Addr\<close> and \<^verbatim>\<open>Close\<close> of
  \<^verbatim>\<open>monitor/internal/server/server.go\<close>), the reachability probe (\<^verbatim>\<open>monitor/internal/relayprobe\<close>) and
  the settings of \<^verbatim>\<open>monitor/main.go\<close>. File system, listener and dialer are parameters.
\<close>

section \<open>Finding the database\<close>

abbreviation DefaultName :: string where "DefaultName \<equiv> ''quakemeshhub.db''"

record snapshot =
  sh_path :: string
  sh_version :: int
  sh_hubs :: int
  sh_nodes :: int
  sh_size :: int

text \<open>
  What \<^verbatim>\<open>os.Stat\<close>, \<^verbatim>\<open>sql.Open\<close> and the three queries find at a path. A query that fails leaves its field
  at zero.
\<close>

record file_info =
  fi_IsDir :: bool
  fi_Size :: int
  fi_open :: "error option"
  fi_version :: "int option"
  fi_hubs :: "int option"
  fi_nodes :: "int option"

definition scanned :: "int option \<Rightarrow> int" where
  "scanned q = (case q of Some n \<Rightarrow> n | None \<Rightarrow> 0)"

definition inspect :: "(string \<Rightarrow> error + file_info) \<Rightarrow> string \<Rightarrow> error + snapshot" where
  "inspect stat path =
     (case stat path of
        Inl e \<Rightarrow> Inl e
      | Inr info \<Rightarrow>
          if fi_IsDir info then Inl (Errmsg ''is directory'')
          else case fi_open info of
            Some e \<Rightarrow> Inl e
          | None \<Rightarrow> Inr \<lparr>sh_path = path, sh_version = scanned (fi_version info), sh_hubs = scanned (fi_hubs info),
                         sh_nodes = scanned (fi_nodes info), sh_size = fi_Size info\<rparr>)"

definition betterThan :: "snapshot \<Rightarrow> snapshot \<Rightarrow> bool" where
  "betterThan a b =
     (if sh_version a \<noteq> sh_version b then sh_version a > sh_version b
      else if sh_hubs a \<noteq> sh_hubs b then sh_hubs a > sh_hubs b
      else if sh_nodes a \<noteq> sh_nodes b then sh_nodes a > sh_nodes b
      else sh_size a > sh_size b)"

fun inspected :: "(string \<Rightarrow> error + file_info) \<Rightarrow> string list \<Rightarrow> snapshot list" where
  "inspected stat [] = []"
| "inspected stat (c # cs) =
     (case inspect stat c of Inl e \<Rightarrow> inspected stat cs | Inr s \<Rightarrow> s # inspected stat cs)"

definition candidates :: "string list" where
  "candidates = [DefaultName, ''../'' @ DefaultName, ''../hub/'' @ DefaultName]"

definition Resolve :: "(string \<Rightarrow> error + file_info) \<Rightarrow> string \<Rightarrow> string \<times> string" where
  "Resolve stat configured =
     (if configured \<noteq> DefaultName then (configured, '''')
      else case inspected stat candidates of
        [] \<Rightarrow> (configured, '''')
      | s0 # snaps \<Rightarrow>
          (let best = fold (\<lambda>s best. if betterThan s best then s else best) snaps s0
           in if sh_path best \<noteq> configured
              then (sh_path best, ''using '' @ sh_path best @ '' instead of '' @ configured @ '' (schema v'' @
                show_int (sh_version best) @ '', '' @ show_int (sh_hubs best) @ '' hubs, '' @ show_int (sh_nodes best) @
                '' nodes); pass -hub-db to override'')
              else (configured, '''')))"

section \<open>The process\<close>

text \<open>
  \<open>mo_cancel\<close> says whether the consumer of the hub's events runs (\<open>Some True\<close>), was cancelled
  (\<open>Some False\<close>) or was never started; \<open>mo_serving\<close> whether the listener is open, \<open>mo_db\<close> whether the
  database handle is.
\<close>

record Monitor =
  mo_HubWSURL :: string
  mo_cfg :: mon_config
  mo_world :: mon_world
  mo_hubCh :: nat
  mo_cancel :: "bool option"
  mo_serving :: bool
  mo_db :: bool

definition empty_feed :: feed where
  "empty_feed = \<lparr>listeners = [], browsers = [], alerts = []\<rparr>"

text \<open>\<^verbatim>\<open>server.New\<close>: the channel of the server, of capacity 64, subscribed to the client of the hub.\<close>

definition server_New :: "nat \<Rightarrow> auth_world \<Rightarrow> mon_world" where
  "server_New hubCh w = auth_world.extend w \<lparr>mon_feed = Subscribe hubCh 64 empty_feed\<rparr>"

text \<open>
  \<^verbatim>\<open>monitorapp.New\<close>: the database is what \<^verbatim>\<open>storage.Open\<close> gave. When the account cannot be seeded, the
  database is closed; nothing of the monitor is left.
\<close>

definition monitor_New :: "mon_config \<Rightarrow> string \<Rightarrow> bytes \<Rightarrow> nat \<Rightarrow> error + DB \<Rightarrow> error + Monitor" where
  "monitor_New cfg url salt hubCh opened =
     (case opened of
        Inl e \<Rightarrow> Inl (Wrap ''monitorapp: open hub db'' e)
      | Inr db \<Rightarrow>
          (case EnsureDefaultAdmin (mc_bcrypt cfg) salt (auth_New db) of
             (Inl e, _) \<Rightarrow> Inl (Wrap ''monitorapp: seed admin'' e)
           | (Inr _, w) \<Rightarrow>
               Inr \<lparr>mo_HubWSURL = url, mo_cfg = cfg\<lparr>mc_addr := None\<rparr>, mo_world = server_New hubCh w, mo_hubCh = hubCh,
                    mo_cancel = None, mo_serving = False, mo_db = True\<rparr>))"

definition server_Start :: "(string \<Rightarrow> error + string) \<Rightarrow> (Monitor, unit) stmt" where
  "server_Start listen m =
     (case listen (mc_BindAddr (mo_cfg m)) of
        Inl e \<Rightarrow> (Inl (Wrap (''server: listen '' @ mc_BindAddr (mo_cfg m)) e), m)
      | Inr addr \<Rightarrow> (Inr (), m\<lparr>mo_cfg := (mo_cfg m)\<lparr>mc_addr := Some addr\<rparr>, mo_serving := True\<rparr>))"

definition monitor_Start :: "(string \<Rightarrow> error + string) \<Rightarrow> (Monitor, unit) stmt" where
  "monitor_Start listen m = server_Start listen (m\<lparr>mo_cancel := Some True\<rparr>)"

definition monitor_Addr :: "Monitor \<Rightarrow> string" where
  "monitor_Addr m = (case mc_addr (mo_cfg m) of None \<Rightarrow> mc_BindAddr (mo_cfg m) | Some a \<Rightarrow> a)"

text \<open>
  \<^verbatim>\<open>Close\<close>: \<open>shutdown\<close> is the error of \<^verbatim>\<open>http.Server.Shutdown\<close>, which closes the listener in any case
  and fails when requests are still served after five seconds; \<open>db_close\<close> that of \<^verbatim>\<open>DB.Close\<close>.
\<close>

definition server_Close :: "error option \<Rightarrow> (Monitor, unit) stmt" where
  "server_Close shutdown m =
     (case shutdown of None \<Rightarrow> Inr () | Some e \<Rightarrow> Inl e, m\<lparr>mo_serving := False\<rparr>)"

definition monitor_Close :: "error option \<Rightarrow> error option \<Rightarrow> (Monitor, unit) stmt" where
  "monitor_Close shutdown db_close m =
     bnd (server_Close shutdown) (\<lambda>_ m.
       (case db_close of None \<Rightarrow> Inr () | Some e \<Rightarrow> Inl e, m\<lparr>mo_db := False\<rparr>))
     (if mo_cancel m = None then m else m\<lparr>mo_cancel := Some False\<rparr>)"

text \<open>\<^verbatim>\<open>relayprobe.Probe\<close>: \<open>dial\<close> connects to an address, or gives the error of it or of closing it.\<close>

datatype dial_result = DialFailed error | Closed "error option"

definition Probe :: "(string \<Rightarrow> dial_result) \<Rightarrow> string \<Rightarrow> int \<Rightarrow> error option" where
  "Probe dial ip port =
     (let addr = JoinHostPort ip (show_int port)
      in case dial addr of
           DialFailed e \<Rightarrow> Some (Wrap (''relay probe '' @ addr) e)
         | Closed e \<Rightarrow> e)"

text \<open>\<^verbatim>\<open>main\<close>: the address, which the environment changes only where the flag has its default.\<close>

definition monitor_bind :: "string \<Rightarrow> string \<Rightarrow> string" where
  "monitor_bind flag port = (if port \<noteq> '''' \<and> flag = ''0.0.0.0:8082'' then ''0.0.0.0:'' @ port else flag)"

definition monitor_main ::
  "mon_config \<Rightarrow> string \<Rightarrow> string \<Rightarrow> string \<Rightarrow> string \<Rightarrow> (string \<Rightarrow> error + file_info) \<Rightarrow> (string \<Rightarrow> error + DB) \<Rightarrow>
   bytes \<Rightarrow> (string \<Rightarrow> error + string) \<Rightarrow> error + Monitor" where
  "monitor_main settings bindFlag port hubDB hubWS stat open_db salt listen =
     (case monitor_New (settings\<lparr>mc_BindAddr := monitor_bind bindFlag port\<rparr>) hubWS salt 0 (open_db (fst (Resolve stat hubDB))) of
        Inl e \<Rightarrow> Inl (Wrap ''quakemeshmonitor'' e)
      | Inr m \<Rightarrow> (case monitor_Start listen m of
                    (Inl e, _) \<Rightarrow> Inl (Wrap ''quakemeshmonitor'' e)
                  | (Inr _, m') \<Rightarrow> Inr m'))"

section \<open>The file that is chosen\<close>

lemma betterThan_trans: "betterThan a b \<Longrightarrow> betterThan b c \<Longrightarrow> betterThan a c"
  by (simp add: betterThan_def split: if_splits)

lemma betterThan_weak: "betterThan a b \<Longrightarrow> \<not> betterThan c b \<Longrightarrow> betterThan a c"
  by (simp add: betterThan_def split: if_splits)

text \<open>The loop keeps the first of the best.\<close>

lemma fold_first_best:
  assumes "fold (\<lambda>s best. if betterThan s best then s else best) snaps s0 = r"
  shows "\<exists>xs ys. s0 # snaps = xs @ r # ys \<and> list_all (betterThan r) xs \<and> list_all (\<lambda>s. \<not> betterThan s r) ys"
  using assms
proof (induction snaps arbitrary: s0)
  case (Cons s snaps)
  show ?case
  proof (cases "betterThan s s0")
    case True
    with Cons.prems have "fold (\<lambda>s best. if betterThan s best then s else best) snaps s = r" by simp
    from Cons.IH [OF this] obtain xs ys where
      i: "s # snaps = xs @ r # ys" "list_all (betterThan r) xs" "list_all (\<lambda>t. \<not> betterThan t r) ys" by blast
    have "betterThan r s0"
      using i True by (cases xs) (auto intro: betterThan_trans)
    with i True show ?thesis by (intro exI [of _ "s0 # xs"] exI [of _ ys]) simp
  next
    case False
    with Cons.prems have "fold (\<lambda>s best. if betterThan s best then s else best) snaps s0 = r" by simp
    from Cons.IH [OF this] obtain xs ys where
      i: "s0 # snaps = xs @ r # ys" "list_all (betterThan r) xs" "list_all (\<lambda>t. \<not> betterThan t r) ys" by blast
    show ?thesis
    proof (cases xs)
      case Nil
      with i False show ?thesis by (intro exI [of _ "[]"] exI [of _ "s # ys"]) simp
    next
      case (Cons x xs')
      with i False show ?thesis
        by (intro exI [of _ "s0 # s # xs'"] exI [of _ ys]) (auto intro: betterThan_weak)
    qed
  qed
qed (auto intro: exI [of _ "[]"])

text \<open>
  The monitor opens the hub's database. A path that was given is kept. Otherwise the file is the first,
  in the order of the candidates, of those that no other one beats in schema version, hubs, nodes and
  size; a hint is given just when that is another file than the default one, and without any file the
  default name stays.
\<close>

theorem Resolve_first_best:
  "if configured \<noteq> DefaultName then Resolve stat configured = (configured, '''')
   else if inspected stat candidates = [] then Resolve stat configured = (DefaultName, '''')
   else \<exists>xs b ys. inspected stat candidates = xs @ b # ys \<and> list_all (betterThan b) xs \<and> list_all (\<lambda>s. \<not> betterThan s b) ys \<and>
     fst (Resolve stat configured) = sh_path b \<and> (snd (Resolve stat configured) = '''') = (sh_path b = DefaultName)"
proof (cases "configured = DefaultName \<and> inspected stat candidates \<noteq> []")
  case True
  then obtain s0 snaps where s: "inspected stat candidates = s0 # snaps" by (cases "inspected stat candidates") auto
  let ?b = "fold (\<lambda>s best. if betterThan s best then s else best) snaps s0"
  have "fst (Resolve stat configured) = sh_path ?b \<and> (snd (Resolve stat configured) = '''') = (sh_path ?b = DefaultName)"
    using True by (simp add: Resolve_def s Let_def)
  with True fold_first_best [OF refl, of s0 snaps] show ?thesis unfolding s by auto
qed (auto simp: Resolve_def)

section \<open>The first start\<close>

lemma EnsureDefaultAdmin_cases:
  assumes "EnsureDefaultAdmin bc salt w = (Inr x, w')"
  obtains fs where "admin_users w \<noteq> []" "w' = w\<lparr>faults := fs\<rparr>"
  | fs h where "admin_users w = []" "GenerateFromPassword bc salt DefaultPassword = Inr h"
      "w' = w\<lparr>faults := fs, admin_users := [\<lparr>au_username = DefaultUsername, au_hash = h, au_salt = [], au_must_change = 1\<rparr>]\<rparr>"
proof (rule query_cases [of "\<lambda>w. length (admin_users w)" w])
  fix fs assume q: "query (\<lambda>w. length (admin_users w)) w = (Inr (length (admin_users (w\<lparr>faults := fs\<rparr>))), w\<lparr>faults := fs\<rparr>)"
  show thesis
  proof (cases "admin_users w")
    case (Cons r rs)
    with assms q show thesis by (intro that(1) [of fs]) (auto simp: EnsureDefaultAdmin_def bnd_def wrap_err_def)
  next
    case Nil
    with assms q obtain h where h: "GenerateFromPassword bc salt DefaultPassword = Inr h"
      by (auto simp: EnsureDefaultAdmin_def bnd_def wrap_err_def split: sum.splits)
    let ?row = "\<lparr>au_username = DefaultUsername, au_hash = h, au_salt = [], au_must_change = 1\<rparr>"
    let ?f = "insert_stmt au_username admin_users admin_users_update ?row"
    have e: "bnd (wrap_err ''auth: seed default admin'' (exec ?f)) (\<lambda>_. ret ()) (w\<lparr>faults := fs\<rparr>) = (Inr x, w')"
      using assms q h Nil by (simp add: EnsureDefaultAdmin_def bnd_def wrap_err_def)
    show thesis
    proof (rule exec_cases [of ?f "w\<lparr>faults := fs\<rparr>"])
      fix gs n w2 assume "?f (w\<lparr>faults := fs\<rparr>\<lparr>faults := gs\<rparr>) = Inr (n, w2)" "exec ?f (w\<lparr>faults := fs\<rparr>) = (Inr n, w2)"
      with e show thesis
        by (intro that(2) [OF Nil h, of gs]) (auto simp: bnd_def wrap_err_def insert_stmt_def Nil)
    qed (use e in \<open>auto simp: bnd_def wrap_err_def\<close>)
  qed
next
  fix fs assume "query (\<lambda>w. length (admin_users w)) w = (Inl SqlFailure, w\<lparr>faults := fs\<rparr>)"
  with assms show thesis by (simp add: EnsureDefaultAdmin_def bnd_def wrap_err_def)
qed

lemma monitor_New_cases:
  assumes "monitor_New cfg url salt hubCh (Inr db) = Inr m"
  obtains w where "EnsureDefaultAdmin (mc_bcrypt cfg) salt (auth_New db) = (Inr (), w)" "mo_world m = server_New hubCh w"
  using assms by (auto simp: monitor_New_def split: prod.splits sum.splits)

lemma server_New_simps [simp]:
  "admin_users (server_New hubCh w) = admin_users w" "auth_sessions (server_New hubCh w) = auth_sessions w"
  "database (server_New hubCh w) = database w"
  by (simp_all add: server_New_def auth_world.defs database_def tables_def DB.defs)

lemma auth_New_simps [simp]:
  "admin_users (auth_New db) = admin_users db" "auth_sessions (auth_New db) = Map.empty" "database (auth_New db) = database db"
  by (simp_all add: auth_New_def database_def tables_def DB.defs)

text \<open>A session that must change its password is refused everything but that.\<close>

lemma must_change_unauthorised:
  assumes "auth_sessions w = [t \<mapsto> s]" and "as_mustChange s"
  shows "\<not> authorised io r w"
  using assms by (auto simp: authorised_def mon_session_def ValidateSession_def split: option.splits)

lemma Login_first_session:
  assumes "auth_sessions w = Map.empty" and "admin_users w = [row]" and "au_must_change row \<noteq> 0"
    and "try_login bc a w = (Inr (token, must), w')"
  shows "must \<and> at_user a = au_username row \<and> CompareHash bc (au_hash row) (at_password a) \<and> \<not> authorised io r w'"
proof (cases "checkLockout (at_time a) (at_key a) w")
  case None
  show ?thesis
  proof (rule query_cases [of "\<lambda>w. find_row au_username (at_user a) (admin_users w)" w])
    fix fs assume "query (\<lambda>w. find_row au_username (at_user a) (admin_users w)) w =
      (Inr (find_row au_username (at_user a) (admin_users (w\<lparr>faults := fs\<rparr>))), w\<lparr>faults := fs\<rparr>)"
    with assms None have
      e: "must \<and> at_user a = au_username row \<and> CompareHash bc (au_hash row) (at_password a)"
        "auth_sessions w' = [token \<mapsto> \<lparr>as_username = at_user a, as_mustChange = True, as_expiresAt = at_time a + sessionLifetime\<rparr>]"
      by (auto simp: try_login_def Login_def Let_def clearFailures_def split: if_splits sum.splits)
    from must_change_unauthorised [OF e(2)] e(1) show ?thesis by simp
  next
    fix fs assume "query (\<lambda>w. find_row au_username (at_user a) (admin_users w)) w = (Inl SqlFailure, w\<lparr>faults := fs\<rparr>)"
    with assms(4) None show ?thesis by (simp add: try_login_def Login_def)
  qed
qed (use assms(4) in \<open>simp add: try_login_def Login_def\<close>)

text \<open>
  The first start and every later one. On a database without accounts the monitor starts with one
  account whose password hash is that of the default password; whoever logs in first did so as that user
  with a password that the hash accepts, is told to change it, and no request of that session is let
  through to the data. On a database with accounts, a start changes nothing, so a changed password
  stays changed.
\<close>

theorem first_start:
  assumes "monitor_New cfg url salt hubCh (Inr db) = Inr m"
  shows "if admin_users db = []
     then \<exists>h. GenerateFromPassword (mc_bcrypt cfg) salt DefaultPassword = Inr h \<and>
       (case try_login (mc_bcrypt cfg) a (mo_world m) of
          (Inl e, w') \<Rightarrow> True
        | (Inr (token, must), w') \<Rightarrow> must \<and> at_user a = DefaultUsername \<and> CompareHash (mc_bcrypt cfg) h (at_password a) \<and>
            \<not> authorised io r w')
     else database (mo_world m) = database db"
proof -
  obtain w where w: "EnsureDefaultAdmin (mc_bcrypt cfg) salt (auth_New db) = (Inr (), w)" "mo_world m = server_New hubCh w"
    using assms by (rule monitor_New_cases)
  from w(1) show ?thesis
  proof (rule EnsureDefaultAdmin_cases)
    fix fs assume "admin_users (auth_New db) \<noteq> []" "w = auth_New db\<lparr>faults := fs\<rparr>"
    then show ?thesis by (simp add: w(2))
  next
    fix fs h
    let ?row = "\<lparr>au_username = DefaultUsername, au_hash = h, au_salt = [], au_must_change = 1\<rparr>"
    assume h: "admin_users (auth_New db) = []" "GenerateFromPassword (mc_bcrypt cfg) salt DefaultPassword = Inr h"
      "w = auth_New db\<lparr>faults := fs, admin_users := [?row]\<rparr>"
    then have "auth_sessions (mo_world m) = Map.empty" "admin_users (mo_world m) = [?row]" by (simp_all add: w(2))
    from Login_first_session [OF this] h show ?thesis by (fastforce split: prod.split sum.split)
  qed
qed

theorem first_start_witness:
  "case monitor_New sample_mon_config '''' [] 0 (Inr empty_DB) of
     Inl e \<Rightarrow> False
   | Inr m \<Rightarrow> (case try_login plain_bcrypt \<lparr>at_time = 0, at_entropy = Inr [7], at_user = DefaultUsername, at_password = DefaultPassword, at_key = ''c''\<rparr>
        (mo_world m) of (Inl e, w') \<Rightarrow> False | (Inr (token, must), w') \<Rightarrow> must)"
proof -
  let ?a = "\<lparr>at_time = 0, at_entropy = Inr [7], at_user = DefaultUsername, at_password = DefaultPassword, at_key = ''c''\<rparr>"
  have "\<exists>m. monitor_New sample_mon_config '''' [] 0 (Inr empty_DB) = Inr m \<and> (\<exists>y w'. try_login plain_bcrypt ?a (mo_world m) = (Inr y, w'))"
    by (simp add: monitor_New_def EnsureDefaultAdmin_def auth_New_def empty_DB_def DB.defs bnd_def wrap_err_def query_def driver_def exec_def
        insert_stmt_def sample_mon_config_def plain_bcrypt_def server_New_def auth_world.defs try_login_def Login_def checkLockout_def
        clearFailures_def auth_newToken_def Let_def) blast
  then obtain m token must w' where m: "monitor_New sample_mon_config '''' [] 0 (Inr empty_DB) = Inr m"
    "try_login plain_bcrypt ?a (mo_world m) = (Inr (token, must), w')" by auto
  have "mc_bcrypt sample_mon_config = plain_bcrypt" "admin_users empty_DB = []" by (simp_all add: sample_mon_config_def empty_DB_def)
  with first_start [OF m(1), of ?a] m show ?thesis by auto
qed

end
