(* ===== verification/Flood.thy ===== *)
theory Flood
  imports Ogm
begin

text \<open>
  Several hubs that run \<^verbatim>\<open>hub/internal/ogmengine/ogmengine.go\<close> on one network: what happens to the
  datagrams that are under way while no timer fires. The network delivers them in any order, at any
  time, or loses them; a delivery runs \<^const>\<open>handlePacket\<close> of the engine bound to the address, and what that engine
  writes to its socket is under way next, with the engine's own address as its source.

  Shown: whatever is under way, the traffic dies out after a number of steps that the hop budgets
  bound; and the flood of one message costs at most one delivery per datagram under way and two per
  peer entry of each hub that has not seen the message, however the peers are connected.
\<close>

section \<open>Hubs on a network\<close>

record 'a mesh_hub =
  mh_cfg :: "('a DB_scheme) ogm_config"
  mh_engine :: OgmEngine
  mh_db :: "'a DB_scheme"

text \<open>The hubs by the addresses of their sockets; a datagram has a source, a destination and a payload.\<close>

record 'a mesh =
  mesh_hubs :: "(string \<times> 'a mesh_hub) list"
  flight :: "(string \<times> string \<times> bytes) list"

definition received :: "net \<Rightarrow> time \<Rightarrow> UDPAddr \<Rightarrow> bytes \<Rightarrow> 'a mesh_hub \<Rightarrow> 'a mesh_hub \<times> (string \<times> bytes) list" where
  "received N now raddr data h =
     (let (e, w) = handlePacket N (mh_cfg h) now data raddr (mh_engine h, mh_db h)
      in (h\<lparr>mh_engine := e, mh_db := w\<rparr>, drop (length (sent (mh_engine h))) (sent e)))"

definition deliver_datagram :: "net \<Rightarrow> time \<Rightarrow> UDPAddr \<Rightarrow> string \<Rightarrow> bytes \<Rightarrow> 'a mesh \<Rightarrow> 'a mesh" where
  "deliver_datagram N now raddr dst data s =
     (case map_of (mesh_hubs s) dst of
        None \<Rightarrow> s
      | Some h \<Rightarrow>
          let (h', out) = received N now raddr data h
          in s\<lparr>mesh_hubs := AList.update dst h' (mesh_hubs s), flight := flight s @ map (\<lambda>(a, p). (dst, a, p)) out\<rparr>)"

inductive flood_step :: "net \<Rightarrow> 'a mesh \<Rightarrow> 'a mesh \<Rightarrow> bool" for N where
  arrive: "flight s = xs @ (src, dst, data) # ys \<Longrightarrow> addr_String raddr = src \<Longrightarrow>
    flood_step N s (deliver_datagram N now raddr dst data (s\<lparr>flight := xs @ ys\<rparr>))"
| lose: "flight s = xs @ d # ys \<Longrightarrow> flood_step N s (s\<lparr>flight := xs @ ys\<rparr>)"

text \<open>What the engine relies on: \<^verbatim>\<open>proto.Unmarshal\<close> reads what \<^verbatim>\<open>proto.Marshal\<close> wrote.\<close>

definition reads_back :: "net \<Rightarrow> bool" where
  "reads_back N = (\<forall>m b. Marshal_Ogm N m = Some b \<longrightarrow> Unmarshal_Ogm N b = Some m)"

section \<open>What one packet causes\<close>

lemma handlePacket_sends:
  obtains out where "sent (fst (handlePacket N cfg now data raddr (e, w))) = sent e @ out"
    "length out \<le> 2 * length (Peers cfg)"
    "out \<noteq> [] \<Longrightarrow> \<exists>m. Unmarshal_Ogm N data = Some m \<and> length (NodeId m) = 32 \<and> Ttl m \<noteq> 0 \<and>
       list_all (forwards N cfg m (addr_String raddr)) out"
proof (cases "\<exists>m. Unmarshal_Ogm N data = Some m \<and> length (NodeId m) = 32")
  case True
  then obtain m where m: "Unmarshal_Ogm N data = Some m" "length (NodeId m) = 32" by blast
  then have p: "handlePacket N cfg now data raddr (e, w) = handleOgm N cfg now m raddr (e, w)"
    by (simp add: handlePacket_def node_id_len_def)
  from handleOgm_sends [of N cfg now m raddr e w] obtain out where
    "sent (fst (handleOgm N cfg now m raddr (e, w))) = sent e @ out" "length out \<le> 2 * length (Peers cfg)"
    "if Ttl m = 0 then out = [] else True" "list_all (forwards N cfg m (addr_String raddr)) out" by blast
  then show ?thesis using m by (intro that [of out]) (auto simp: p split: if_splits)
next
  case False
  have "sent (handleHello now hello raddr e) = sent e" for hello
    by (simp add: handleHello_def Let_def split: option.split)
  with False show ?thesis
    by (intro that [of "[]"]) (auto simp: handlePacket_def node_id_len_def split: option.split)
qed


section \<open>Any traffic dies out\<close>

definition width :: "'a mesh \<Rightarrow> nat" where
  "width s = fold max (map (\<lambda>(a, h). length (Peers (mh_cfg h))) (mesh_hubs s)) 0"

definition narrow :: "nat \<Rightarrow> 'a mesh \<Rightarrow> bool" where
  "narrow P s = (\<forall>(a, h) \<in> set (mesh_hubs s). length (Peers (mh_cfg h)) \<le> P)"

text \<open>How many steps a datagram may cause when every hub has at most \<open>P\<close> peers.\<close>

definition datagram_weight :: "net \<Rightarrow> nat \<Rightarrow> bytes \<Rightarrow> nat" where
  "datagram_weight N P data = (case Unmarshal_Ogm N data of None \<Rightarrow> 1 | Some m \<Rightarrow> (2 * P + 1) ^ (unat (Ttl m) + 1))"

definition flood_weight :: "net \<Rightarrow> nat \<Rightarrow> 'a mesh \<Rightarrow> nat" where
  "flood_weight N P s = (\<Sum>(src, dst, data) \<leftarrow> flight s. datagram_weight N P data)"

lemma fold_max_ge: "(x :: nat) \<in> set xs \<Longrightarrow> x \<le> fold max xs b"
proof (induction xs arbitrary: b)
  case (Cons y ys)
  have "b \<le> fold max zs b" for zs and b :: nat
    by (induction zs arbitrary: b) (simp, metis fold_simps(2) max.cobounded2 order_trans)
  from this [of "max y b" ys] Cons show ?case by auto
qed simp

lemma narrow_width: "narrow (width s) s"
  by (force simp: narrow_def width_def intro: fold_max_ge)

lemma datagram_weight_pos: "0 < datagram_weight N P data"
  by (simp add: datagram_weight_def split: option.split)

text \<open>What a message makes a hub send weighs less than the message.\<close>

lemma forwarded_weight:
  assumes "reads_back N" and "Unmarshal_Ogm N data = Some m" and "list_all (forwards N cfg m x) out"
    and "length out \<le> 2 * P" and "Ttl m \<noteq> 0"
  shows "(\<Sum>(a, p) \<leftarrow> out. datagram_weight N P p) < datagram_weight N P data"
proof -
  let ?c = "(2 * P + 1) ^ unat (Ttl m)"
  have "datagram_weight N P p = ?c" if ap: "(a, p) \<in> set out" for a p
  proof -
    from ap assms(3) have "forwards N cfg m x (a, p)" by (auto simp: list_all_iff)
    then obtain m' where "Marshal_Ogm N m' = Some p" "unat (Ttl m') + 1 = unat (Ttl m)" by (auto simp: forwards_def)
    with assms(1) show ?thesis by (simp add: reads_back_def datagram_weight_def)
  qed
  then have "map (\<lambda>(a, p). datagram_weight N P p) out = map (\<lambda>_. ?c) out" by auto
  then have "(\<Sum>(a, p) \<leftarrow> out. datagram_weight N P p) = length out * ?c" by (simp only: sum_list_triv of_nat_id)
  also have "\<dots> \<le> 2 * P * ?c" using assms(4) by simp
  also have "\<dots> < (2 * P + 1) * ?c" by simp
  finally show ?thesis using assms(2) by (simp add: datagram_weight_def)
qed

lemma received_sends:
  assumes "received N now raddr data h = (h', out)"
  shows "mh_cfg h' = mh_cfg h" and "length out \<le> 2 * length (Peers (mh_cfg h))"
    and "out \<noteq> [] \<Longrightarrow> \<exists>m. Unmarshal_Ogm N data = Some m \<and> length (NodeId m) = 32 \<and> Ttl m \<noteq> 0 \<and>
      list_all (forwards N (mh_cfg h) m (addr_String raddr)) out"
proof -
  have h: "mh_cfg h' = mh_cfg h"
    "out = drop (length (sent (mh_engine h))) (sent (fst (handlePacket N (mh_cfg h) now data raddr (mh_engine h, mh_db h))))"
    using assms by (auto simp: received_def split: prod.splits)
  show "mh_cfg h' = mh_cfg h" by (rule h(1))
  obtain out' where o: "sent (fst (handlePacket N (mh_cfg h) now data raddr (mh_engine h, mh_db h))) = sent (mh_engine h) @ out'"
    "length out' \<le> 2 * length (Peers (mh_cfg h))"
    "out' \<noteq> [] \<Longrightarrow> \<exists>m. Unmarshal_Ogm N data = Some m \<and> length (NodeId m) = 32 \<and> Ttl m \<noteq> 0 \<and>
       list_all (forwards N (mh_cfg h) m (addr_String raddr)) out'"
    using handlePacket_sends [of N "mh_cfg h" now data raddr "mh_engine h" "mh_db h"] by metis
  have "out = out'" by (simp add: h(2) o(1))
  with o(2) show "length out \<le> 2 * length (Peers (mh_cfg h))" by simp
  from o(3) \<open>out = out'\<close> show "out \<noteq> [] \<Longrightarrow> \<exists>m. Unmarshal_Ogm N data = Some m \<and> length (NodeId m) = 32 \<and> Ttl m \<noteq> 0 \<and>
      list_all (forwards N (mh_cfg h) m (addr_String raddr)) out" by blast
qed

lemma narrow_update:
  assumes "narrow P s" and "map_of (mesh_hubs s) a = Some h" and "mh_cfg h' = mh_cfg h"
  shows "narrow P (s\<lparr>mesh_hubs := AList.update a h' (mesh_hubs s), flight := ds\<rparr>)"
  using assms set_alist_update [of a h' "mesh_hubs s"] by (fastforce simp: narrow_def dest: map_of_SomeD)

lemma flood_step_weight:
  assumes "reads_back N" and "narrow P s" and "flood_step N s s'"
  shows "narrow P s' \<and> flood_weight N P s' < flood_weight N P s"
  using assms(3)
proof cases
  case (lose xs d ys)
  then show ?thesis
    using assms(2) by (auto simp: narrow_def flood_weight_def datagram_weight_pos split: prod.split)
next
  case (arrive xs src dst data ys raddr now)
  have base: "flood_weight N P s = flood_weight N P (s\<lparr>flight := xs @ ys\<rparr>) + datagram_weight N P data"
    by (simp add: flood_weight_def arrive(2))
  show ?thesis
  proof (cases "map_of (mesh_hubs s) dst")
    case None
    with assms(2) base datagram_weight_pos [of N P data] show ?thesis
      by (simp add: arrive(1) deliver_datagram_def narrow_def)
  next
    case (Some h)
    obtain h' out where r: "received N now raddr data h = (h', out)" by force
    have p: "length (Peers (mh_cfg h)) \<le> P" using Some assms(2) by (auto simp: narrow_def dest: map_of_SomeD)
    have "(\<Sum>(a, p) \<leftarrow> out. datagram_weight N P p) < datagram_weight N P data"
    proof (cases "out = []")
      case False
      from received_sends(3) [OF r this] obtain m where
        "Unmarshal_Ogm N data = Some m" "Ttl m \<noteq> 0" "list_all (forwards N (mh_cfg h) m (addr_String raddr)) out" by blast
      with forwarded_weight [OF assms(1) this(1,3) _ this(2), of P] received_sends(2) [OF r] p show ?thesis by linarith
    qed (simp add: datagram_weight_pos)
    moreover have "flood_weight N P s' = flood_weight N P (s\<lparr>flight := xs @ ys\<rparr>) + (\<Sum>(a, p) \<leftarrow> out. datagram_weight N P p)"
      by (simp add: arrive(1) deliver_datagram_def Some r flood_weight_def comp_def case_prod_unfold)
    moreover have "narrow P s'"
      using narrow_update [OF assms(2) Some received_sends(1) [OF r]] by (simp add: arrive(1) deliver_datagram_def Some r)
    ultimately show ?thesis using base by simp
  qed
qed

text \<open>
  C3. No traffic lives for ever. Whatever datagrams are under way between hubs, well-formed or not, in
  whatever order they are delivered, delayed or lost, and however the hubs name each other as peers,
  loops and all: after at most \<open>flood_weight\<close> deliveries and losses nothing is under way any more. The
  bound is the sum, over the datagrams, of \<open>2 * P + 1\<close> to the power of the hop budget plus one, \<open>P\<close> being
  the largest number of peers of a hub.
\<close>

theorem traffic_dies_out:
  assumes "reads_back N" and "(flood_step N ^^ k) s s'"
  shows "k \<le> flood_weight N (width s) s"
proof -
  have "narrow (width s) s' \<and> k + flood_weight N (width s) s' \<le> flood_weight N (width s) s"
    using assms(2)
  proof (induction k arbitrary: s')
    case 0
    then show ?case by (simp add: narrow_width)
  next
    case (Suc k)
    then obtain t where t: "(flood_step N ^^ k) s t" "flood_step N t s'" by auto
    from Suc.IH [OF t(1)] flood_step_weight [OF assms(1) _ t(2)] show ?case by fastforce
  qed
  then show ?thesis by simp
qed


section \<open>One message is forwarded once\<close>

text \<open>The datagrams that carry the message \<open>q\<close> of \<open>i\<close>, or nothing an engine would forward.\<close>

definition carries :: "net \<Rightarrow> NodeID \<Rightarrow> 64 word \<Rightarrow> bytes \<Rightarrow> bool" where
  "carries N i q data = (case Unmarshal_Ogm N data of
     None \<Rightarrow> True
   | Some m \<Rightarrow> length (NodeId m) \<noteq> 32 \<or> NodeId m = i \<and> SequenceNumber m = q)"

definition has_heard :: "NodeID \<Rightarrow> 64 word \<Rightarrow> 'a mesh_hub \<Rightarrow> bool" where
  "has_heard i q h = (i = SelfID (mh_cfg h) \<or>
     (case lastSeq (mh_engine h) (NodeID_String i) of None \<Rightarrow> False | Some l \<Rightarrow> q \<le> l))"

definition fan_out :: "NodeID \<Rightarrow> 64 word \<Rightarrow> (string \<times> 'a mesh_hub) list \<Rightarrow> nat" where
  "fan_out i q hs = (\<Sum>(a, h) \<leftarrow> hs. if has_heard i q h then 0 else 2 * length (Peers (mh_cfg h)))"

lemma lastSeq_acceptOgm [simp]: "lastSeq (fst (acceptOgm N cfg now msg raddr i f (e, w))) = lastSeq e"
proof -
  have [simp]: "lastSeq (storeAlternate r e) = lastSeq e" for r e by (simp add: storeAlternate_def Let_def)
  have [simp]: "lastSeq (fst (maybeUpsertRoute cfg now r (e, w))) = lastSeq e" for r e w
    by (auto simp: maybeUpsertRoute_def Let_def split: prod.split sum.split option.split)
  have [simp]: "lastSeq (rebroadcastStartup N cfg msg x e) = lastSeq e" for x e by (simp add: rebroadcastStartup_def)
  have [simp]: "lastSeq (maybeRebroadcast N cfg msg x e) = lastSeq e" for x e by (simp add: maybeRebroadcast_def Let_def)
  let ?u = "UpsertSeen i now (if ogm_HopCount msg = 0 \<and> i \<noteq> SelfID cfg then upsertPeerHub cfg now i raddr w else w)"
  obtain q w2 where u: "?u = (q, w2)" by force
  show ?thesis
  proof (cases q)
    case (Inl err)
    with u show ?thesis by (simp add: acceptOgm_def Let_def)
  next
    case (Inr c)
    from acceptOgm_Inr [OF u [unfolded Inr]] show ?thesis by (simp add: Let_def)
  qed
qed

lemma handleOgm_hears:
  assumes "length (NodeId m) = 32"
  shows "if NodeId m = SelfID cfg \<or> already_seen (NodeID_String (NodeId m)) m e
    then lastSeq (fst (handleOgm N cfg now m raddr (e, w))) = lastSeq e \<and> sent (fst (handleOgm N cfg now m raddr (e, w))) = sent e
    else lastSeq (fst (handleOgm N cfg now m raddr (e, w))) = (lastSeq e)(NodeID_String (NodeId m) \<mapsto> SequenceNumber m)"
proof -
  have i: "scan_id (NodeId m) = NodeId m" using assms by simp
  show ?thesis
  proof (cases "NodeId m = SelfID cfg \<or> already_seen (NodeID_String (NodeId m)) m e")
    case True
    then show ?thesis
      using handleOgm_replay_frame [of m cfg e N now raddr w "fst (handleOgm N cfg now m raddr (e, w))" "snd (handleOgm N cfg now m raddr (e, w))"]
      by (simp add: i)
  next
    case False
    obtain f e2 where c: "countLink (NodeId m) m raddr e = (f, e2)" by force
    with False countLink_frame(2) [OF c] show ?thesis
      by (simp add: handleOgm_def Let_def i already_seen_def)
  qed
qed

text \<open>A delivery of the message makes the hub hear it; a hub that heard it stays so and sends nothing.\<close>

lemma received_once:
  assumes "received N now raddr data h = (h', out)" and "carries N i q data" and "reads_back N"
  shows "(if has_heard i q h then has_heard i q h' \<and> out = [] else out = [] \<or> has_heard i q h') \<and>
    list_all (\<lambda>(a, p). carries N i q p) out"
proof (cases "\<exists>m. Unmarshal_Ogm N data = Some m \<and> length (NodeId m) = 32")
  case False
  with received_sends(3) [OF assms(1)] have o: "out = []" by blast
  have e: "lastSeq (mh_engine h') = lastSeq (mh_engine h)"
    using False assms(1)
    by (auto simp: received_def handlePacket_def handleHello_def Let_def node_id_len_def split: option.splits if_splits)
  show ?thesis by (simp add: has_heard_def o e received_sends(1) [OF assms(1)])
next
  case True
  then obtain m where m: "Unmarshal_Ogm N data = Some m" "length (NodeId m) = 32" by blast
  with assms(2) have iq: "NodeId m = i" "SequenceNumber m = q" by (simp_all add: carries_def)
  have r: "mh_engine h' = fst (handleOgm N (mh_cfg h) now m raddr (mh_engine h, mh_db h))"
    "out = drop (length (sent (mh_engine h))) (sent (mh_engine h'))"
    using assms(1) m by (auto simp: received_def handlePacket_def node_id_len_def split: prod.splits)
  have heard: "has_heard i q h \<longleftrightarrow> NodeId m = SelfID (mh_cfg h) \<or> already_seen (NodeID_String (NodeId m)) m (mh_engine h)"
    by (simp add: has_heard_def already_seen_def iq split: option.split)
  have "has_heard i q h \<Longrightarrow> has_heard i q h' \<and> out = []" and "\<not> has_heard i q h \<Longrightarrow> has_heard i q h'"
    using handleOgm_hears [OF m(2), of "mh_cfg h" "mh_engine h" N now raddr "mh_db h"] r received_sends(1) [OF assms(1)]
    unfolding heard by (auto simp: has_heard_def iq already_seen_def split: option.splits)
  moreover have "list_all (\<lambda>(a, p). carries N i q p) out"
  proof (cases "out = []")
    case False
    with received_sends(3) [OF assms(1)] m have "list_all (forwards N (mh_cfg h) m (addr_String raddr)) out" by auto
    with assms(3) show ?thesis by (auto simp: list_all_iff forwards_def reads_back_def carries_def iq)
  qed simp
  ultimately show ?thesis by simp
qed

lemma update_split:
  assumes "map_of al k = Some v"
  shows "\<exists>xs ys. al = xs @ (k, v) # ys \<and> AList.update k v' al = xs @ (k, v') # ys"
  using assms
proof (induction al)
  case (Cons kv al)
  obtain k1 v1 where kv: "kv = (k1, v1)" by force
  show ?case
  proof (cases "k1 = k")
    case True
    with Cons.prems show ?thesis by (intro exI [of _ "[]"] exI [of _ al]) (simp add: kv)
  next
    case False
    with Cons obtain xs ys where "al = xs @ (k, v) # ys" "AList.update k v' al = xs @ (k, v') # ys" by (auto simp: kv)
    with False show ?thesis by (intro exI [of _ "kv # xs"] exI [of _ ys]) (simp add: kv)
  qed
qed simp

lemma flood_step_once:
  assumes "reads_back N" and "list_all (\<lambda>(src, dst, data). carries N i q data) (flight s)" and "flood_step N s s'"
  shows "list_all (\<lambda>(src, dst, data). carries N i q data) (flight s') \<and>
    length (flight s') + fan_out i q (mesh_hubs s') < length (flight s) + fan_out i q (mesh_hubs s)"
  using assms(3)
proof cases
  case (lose xs d ys)
  with assms(2) show ?thesis by simp
next
  case (arrive xs src dst data ys raddr now)
  show ?thesis
  proof (cases "map_of (mesh_hubs s) dst")
    case None
    with assms(2) show ?thesis by (simp add: arrive(1,2) deliver_datagram_def)
  next
    case (Some h)
    obtain h' out where r: "received N now raddr data h = (h', out)" by force
    have c: "carries N i q data" using assms(2) by (simp add: arrive(2))
    obtain as bs where u: "mesh_hubs s = as @ (dst, h) # bs" "AList.update dst h' (mesh_hubs s) = as @ (dst, h') # bs"
      using update_split [OF Some] by blast
    have s': "mesh_hubs s' = as @ (dst, h') # bs" "flight s' = xs @ ys @ map (\<lambda>(a, p). (dst, a, p)) out"
      by (simp_all add: arrive(1) deliver_datagram_def Some r u(2))
    have "length out + fan_out i q [(dst, h')] \<le> fan_out i q [(dst, h)]"
      using received_once [OF r c assms(1)] received_sends(1,2) [OF r] by (auto simp: fan_out_def split: if_splits)
    moreover have "list_all (\<lambda>(src, dst, data). carries N i q data) (flight s')"
      using received_once [OF r c assms(1)] assms(2)
      by (simp add: s' arrive(2) list.pred_map comp_def case_prod_unfold)
    ultimately show ?thesis by (simp add: s' u(1) arrive(2) fan_out_def)
  qed
qed


section \<open>A loop of three hubs\<close>

text \<open>A codec for messages without a location whose numbers fit a byte.\<close>

definition byte_ogm :: "bytes \<Rightarrow> Ogm" where
  "byte_ogm b = \<lparr>NodeId = take 32 (drop 4 b), SequenceNumber = ucast (b ! 0), Ttl = ucast (b ! 1), IsStartupAnnounce = (b ! 2 \<noteq> 0),
     LastHopId = drop 36 b, ogm_HopCount = ucast (b ! 3), Lat = None, Lon = None, LocationAccuracyM = None, LocationAtUnixMs = None\<rparr>"

definition byte_net :: net where
  "byte_net = \<lparr>Marshal_Ogm = (\<lambda>m. let b = [ucast (SequenceNumber m), ucast (Ttl m), if IsStartupAnnounce m then 1 else 0, ucast (ogm_HopCount m)]
         @ NodeId m @ LastHopId m in if byte_ogm b = m then Some b else None),
     Marshal_Hello = (\<lambda>_. None), Unmarshal_Ogm = (\<lambda>b. Some (byte_ogm b)), Unmarshal_Hello = (\<lambda>_. None), ResolveUDPAddr = Some\<rparr>"

definition loop_hub :: "nat \<Rightarrow> string list \<Rightarrow> unit mesh_hub" where
  "loop_hub n ps = \<lparr>mh_cfg = sample_cfg\<lparr>SelfID := sample_id n, Peers := ps\<rparr>, mh_engine = ogm_New, mh_db = empty_DB\<rparr>"

text \<open>The first hub has just announced itself to the other two.\<close>

definition loop_mesh :: "unit mesh" where
  "loop_mesh =
     (let e = broadcastOnce byte_net (mh_cfg (loop_hub 1 [''b'', ''c''])) ogm_New
      in \<lparr>mesh_hubs = [(''a'', loop_hub 1 [''b'', ''c'']\<lparr>mh_engine := e\<rparr>), (''b'', loop_hub 2 [''a'', ''c'']), (''c'', loop_hub 3 [''a'', ''b''])],
          flight = map (\<lambda>(a, p). (''a'', a, p)) (sent e)\<rparr>)"

lemma byte_net_reads_back: "reads_back byte_net"
  by (auto simp: reads_back_def byte_net_def Let_def split: if_splits)

theorem traffic_dies_out_witness:
  "\<exists>s'. (flood_step byte_net ^^ 1) loop_mesh s' \<and> 1 \<le> flood_weight byte_net (width loop_mesh) loop_mesh"
proof -
  have "flight loop_mesh \<noteq> []" by code_simp
  then obtain d ds where "flight loop_mesh = d # ds" by (cases "flight loop_mesh") auto
  then have "flood_step byte_net loop_mesh (loop_mesh\<lparr>flight := ds\<rparr>)" using lose [of loop_mesh "[]" d ds] by simp
  then have "(flood_step byte_net ^^ 1) loop_mesh (loop_mesh\<lparr>flight := ds\<rparr>)" by auto
  with traffic_dies_out [OF byte_net_reads_back this] show ?thesis by blast
qed


end
