(* ===== verification/Lifecycle.thy ===== *)
theory Lifecycle
  imports HubApp
begin

text \<open>
  The goroutines of the hub's engines: \<^verbatim>\<open>Start\<close>, the loops and \<^verbatim>\<open>Close\<close> of
  \<^verbatim>\<open>hub/internal/ogmengine/ogmengine.go\<close>, \<^verbatim>\<open>hub/internal/syncengine/syncengine.go\<close>,
  \<^verbatim>\<open>hub/internal/landiscovery/landiscovery.go\<close>, \<^verbatim>\<open>hub/internal/dtnengine/dtnengine.go\<close> and
  \<^verbatim>\<open>hub/internal/fallback/fallback.go\<close>. An engine has at most one socket with a loop that reads it, and loops
  that wait for a ticker; what a datagram or a tick does is the function of the engine's own theory. A
  scheduler chooses which goroutine moves; a choice that is not possible has no next state.

  Shown: once \<^verbatim>\<open>Close\<close> of an engine that closes its socket before it waits has begun, it returns after a
  number of moves that only ticks can prolong, it is never stuck, and no datagram is handled any more. LAN
  discovery waits first and looks at its cancellation only when a read fails: as long as datagrams keep
  arriving its \<^verbatim>\<open>Close\<close> does not return.
\<close>

section \<open>Engines\<close>

datatype read_result = Datagram bytes UDPAddr | ReadTimeout | ReadError

text \<open>
  \<open>el_top_exit\<close>: what the receiving loop checks before it reads, from whether the context is cancelled and
  whether the socket is open. \<open>el_ticks\<close>: the ticker loops with their intervals, whether they work once
  before the first tick, and what they do. \<open>el_close_first\<close>: whether \<^verbatim>\<open>Close\<close> closes the socket before it waits.
\<close>

record 's engine_loops =
  el_socket :: bool
  el_top_exit :: "bool \<Rightarrow> bool \<Rightarrow> bool"
  el_handle :: "time \<Rightarrow> bytes \<Rightarrow> UDPAddr \<Rightarrow> 's \<Rightarrow> 's"
  el_ticks :: "(duration \<times> bool \<times> (time \<Rightarrow> 's \<Rightarrow> 's)) list"
  el_close_first :: bool

datatype receiver = AtTop | Reading | Ended
datatype close_phase = NotClosing | Closing | HasClosed

text \<open>A ticker loop is named by its place; the flag says that its first round is behind it.\<close>

record 's engine =
  eg_open :: bool
  eg_cancelled :: bool
  eg_receiver :: receiver
  eg_tickers :: "(nat \<times> bool) list"
  eg_phase :: close_phase
  eg_state :: 's

definition at_least :: "duration \<Rightarrow> duration" where
  "at_least d = (if d \<le> 0 then Second else d)"

type_synonym 's ticker = "duration \<times> bool \<times> (time \<Rightarrow> 's \<Rightarrow> 's)"

definition ogm_sendLoop :: "net \<Rightarrow> ('a DB_scheme) ogm_config \<Rightarrow> (OgmEngine \<times> 'a DB_scheme) ticker" where
  "ogm_sendLoop N cfg = (ogm_Interval cfg, True, \<lambda>now s. (broadcastOnce N cfg (fst s), snd s))"

definition staleSweepLoop :: "('a DB_scheme) ogm_config \<Rightarrow> (OgmEngine \<times> 'a DB_scheme) ticker" where
  "staleSweepLoop cfg = (at_least (StaleAfter cfg div 2), False, \<lambda>now s. staleSweep cfg now s)"

definition helloLoop :: "net \<Rightarrow> ('a DB_scheme) ogm_config \<Rightarrow> (OgmEngine \<times> 'a DB_scheme) ticker" where
  "helloLoop N cfg = (2 * Second, False, \<lambda>now s. (sendHellos N cfg now (fst s), snd s))"

definition staleProbeLoop :: "net \<Rightarrow> ('a DB_scheme) ogm_config \<Rightarrow> (OgmEngine \<times> 'a DB_scheme) ticker" where
  "staleProbeLoop N cfg = (at_least (StaleAfter cfg div 3), False, \<lambda>now s. staleProbe N cfg now s)"

definition ogm_loops :: "net \<Rightarrow> ('a DB_scheme) ogm_config \<Rightarrow> (OgmEngine \<times> 'a DB_scheme) engine_loops" where
  "ogm_loops N cfg = \<lparr>el_socket = True, el_top_exit = (\<lambda>cancelled open. cancelled), el_handle = handlePacket N cfg,
     el_ticks = [ogm_sendLoop N cfg, staleSweepLoop cfg, helloLoop N cfg, staleProbeLoop N cfg], el_close_first = True\<rparr>"

lemmas ogm_loops_defs = ogm_loops_def ogm_sendLoop_def staleSweepLoop_def helloLoop_def staleProbeLoop_def

definition sync_sendLoop :: "sync_net \<Rightarrow> ('a DB_scheme) sync_config \<Rightarrow> ('a DB_scheme) ticker" where
  "sync_sendLoop N cfg = (sy_Interval cfg, True, \<lambda>now w. snd (gossipOnce N cfg w))"

definition sync_loops :: "sync_net \<Rightarrow> ('a DB_scheme) sync_config \<Rightarrow> ('a DB_scheme) engine_loops" where
  "sync_loops N cfg = \<lparr>el_socket = True, el_top_exit = (\<lambda>cancelled open. cancelled), el_handle = (\<lambda>now data raddr w. sync_receive N cfg data w),
     el_ticks = [sync_sendLoop N cfg], el_close_first = True\<rparr>"

text \<open>\<open>env\<close> is what the beacon reads of the host: the socket's address and the detected context.\<close>

definition ld_sendLoop :: "beacon_codec \<Rightarrow> ('a DB_scheme) ld_config \<Rightarrow> string option \<times> Context \<Rightarrow> ('a DB_scheme) ticker" where
  "ld_sendLoop J cfg env = (ld_Interval cfg, True, \<lambda>now w. snd (sendHubBeacon J cfg (fst env) (snd env) now w))"

definition ld_loops :: "beacon_codec \<Rightarrow> ('a DB_scheme) ld_config \<Rightarrow> string option \<times> Context \<Rightarrow> ('a DB_scheme) engine_loops" where
  "ld_loops J cfg env = \<lparr>el_socket = True, el_top_exit = (\<lambda>cancelled open. \<not> open), el_handle = (\<lambda>now data raddr w. ld_receive J cfg now data w),
     el_ticks = [ld_sendLoop J cfg env], el_close_first = False\<rparr>"

definition dtn_loops :: "('a dtn_world_scheme) dtn_config \<Rightarrow> ('a dtn_world_scheme) engine_loops" where
  "dtn_loops cfg = \<lparr>el_socket = False, el_top_exit = (\<lambda>_ _. True), el_handle = (\<lambda>_ _ _ w. w),
     el_ticks = [(dtn_Interval cfg, False, \<lambda>now w. processOnce cfg now w)], el_close_first = True\<rparr>"

definition fallback_loops ::
  "(bool \<Rightarrow> 'a DB_scheme \<Rightarrow> 'a DB_scheme) option \<Rightarrow> (FallbackEngine \<times> 'a DB_scheme) engine_loops" where
  "fallback_loops notifier = \<lparr>el_socket = False, el_top_exit = (\<lambda>_ _. True), el_handle = (\<lambda>_ _ _ w. w),
     el_ticks = [(5 * Second, True, \<lambda>now s. poll notifier s)], el_close_first = True\<rparr>"

text \<open>
  The loop of \<^verbatim>\<open>hub/internal/hubapp/hubapp.go\<close> that keeps the hub's own row fresh; \<open>ip\<close> and \<open>port\<close> are those of the
  OGM socket. Nothing waits for it when the hub closes.
\<close>

definition liveness_loops :: "hub_env \<Rightarrow> string \<Rightarrow> int \<Rightarrow> ('a hub_world_scheme) engine_loops" where
  "liveness_loops E ip port = \<lparr>el_socket = False, el_top_exit = (\<lambda>_ _. True), el_handle = (\<lambda>_ _ _ w. w),
     el_ticks = [(if OGMInterval (env_cfg E) \<le> 0 then 5 * Second else OGMInterval (env_cfg E), False, \<lambda>now w. snd (registerSelfHub E ip port w))],
     el_close_first = True\<rparr>"

section \<open>Start\<close>

definition launched :: "'s engine_loops \<Rightarrow> 's \<Rightarrow> 's engine" where
  "launched L s = \<lparr>eg_open = el_socket L, eg_cancelled = False, eg_receiver = (if el_socket L then AtTop else Ended),
     eg_tickers = map (\<lambda>(k, (d, first, f)). (k, \<not> first)) (enumerate 0 (el_ticks L)), eg_phase = NotClosing, eg_state = s\<rparr>"

text \<open>\<^verbatim>\<open>time.NewTicker\<close> panics on an interval that is not positive.\<close>

definition tickers_panic :: "'s engine_loops \<Rightarrow> bool" where
  "tickers_panic L = list_ex (\<lambda>(d, first, f). d \<le> 0) (el_ticks L)"

text \<open>
  \<open>resolve\<close> and \<open>listen\<close> are \<^verbatim>\<open>net.ResolveUDPAddr\<close> and \<^verbatim>\<open>net.ListenUDP\<close> on the bind address. Joining the
  multicast group may fail; LAN discovery only logs that.
\<close>

definition udp_Start ::
  "string \<Rightarrow> string \<Rightarrow> (string \<Rightarrow> error option) \<Rightarrow> (string \<Rightarrow> error option) \<Rightarrow> string \<Rightarrow> 's engine_loops \<Rightarrow> 's \<Rightarrow> error + 's engine" where
  "udp_Start resolve_msg listen_msg resolve listen bindAddr L s =
     (case resolve bindAddr of
        Some e \<Rightarrow> Inl (Wrap resolve_msg e)
      | None \<Rightarrow> (case listen bindAddr of Some e \<Rightarrow> Inl (Wrap listen_msg e) | None \<Rightarrow> Inr (launched L s)))"

definition ogm_Start where
  "ogm_Start resolve listen bindAddr N cfg s =
     udp_Start (''ogmengine: resolve bind addr '' @ bindAddr) (''ogmengine: listen '' @ bindAddr) resolve listen bindAddr (ogm_loops N cfg) s"

definition sync_Start where
  "sync_Start resolve listen bindAddr N cfg s =
     udp_Start ''syncengine: resolve bind'' (''syncengine: listen '' @ bindAddr) resolve listen bindAddr (sync_loops N cfg) s"

text \<open>Without an address LAN discovery does nothing: \<open>None\<close>.\<close>

definition ld_Start where
  "ld_Start resolve listen bindAddr J cfg env s =
     (if bindAddr = '''' then Inr None
      else map_sum id Some (udp_Start ''landiscovery: resolve bind'' (''landiscovery: listen '' @ bindAddr) resolve listen bindAddr (ld_loops J cfg env) s))"

section \<open>Loops and Close\<close>

datatype move = Top | Read time read_result | First time nat | Tick time nat | Leave_loop nat | Begin_close | Waited

definition tick_fun :: "'s engine_loops \<Rightarrow> nat \<Rightarrow> time \<Rightarrow> 's \<Rightarrow> 's" where
  "tick_fun L k now s = (if k < length (el_ticks L) then snd (snd (el_ticks L ! k)) now s else s)"

text \<open>
  A read on a closed socket fails. A cancelled loop still works when the tick and the cancellation are both
  ready, since \<^verbatim>\<open>select\<close> picks either.
\<close>

fun engine_move :: "'s engine_loops \<Rightarrow> move \<Rightarrow> 's engine \<Rightarrow> 's engine option" where
  "engine_move L Top g =
     (if eg_receiver g = AtTop
      then Some (g\<lparr>eg_receiver := (if el_top_exit L (eg_cancelled g) (eg_open g) then Ended else Reading)\<rparr>) else None)"
| "engine_move L (Read now r) g =
     (if eg_receiver g \<noteq> Reading \<or> \<not> eg_open g \<and> r \<noteq> ReadError then None
      else Some (case r of
        Datagram data raddr \<Rightarrow> g\<lparr>eg_receiver := AtTop, eg_state := el_handle L now data raddr (eg_state g)\<rparr>
      | _ \<Rightarrow> g\<lparr>eg_receiver := (if eg_cancelled g then Ended else AtTop)\<rparr>))"
| "engine_move L (First now k) g =
     (if (k, False) \<in> set (eg_tickers g)
      then Some (g\<lparr>eg_tickers := map (\<lambda>t. if t = (k, False) then (k, True) else t) (eg_tickers g), eg_state := tick_fun L k now (eg_state g)\<rparr>)
      else None)"
| "engine_move L (Tick now k) g =
     (if (k, True) \<in> set (eg_tickers g) then Some (g\<lparr>eg_state := tick_fun L k now (eg_state g)\<rparr>) else None)"
| "engine_move L (Leave_loop k) g =
     (if (k, True) \<in> set (eg_tickers g) \<and> eg_cancelled g then Some (g\<lparr>eg_tickers := remove1 (k, True) (eg_tickers g)\<rparr>) else None)"
| "engine_move L Begin_close g =
     (if eg_phase g \<noteq> NotClosing then None
      else Some (g\<lparr>eg_cancelled := True, eg_open := (eg_open g \<and> \<not> el_close_first L), eg_phase := Closing\<rparr>))"
| "engine_move L Waited g =
     (if eg_phase g = Closing \<and> eg_receiver g = Ended \<and> eg_tickers g = [] then Some (g\<lparr>eg_open := False, eg_phase := HasClosed\<rparr>) else None)"

fun engine_moves :: "'s engine_loops \<Rightarrow> move list \<Rightarrow> 's engine \<Rightarrow> 's engine option" where
  "engine_moves L [] g = Some g"
| "engine_moves L (m # ms) g = (case engine_move L m g of None \<Rightarrow> None | Some g' \<Rightarrow> engine_moves L ms g')"


section \<open>Close returns\<close>

definition closes_promptly :: "'s engine_loops \<Rightarrow> bool" where
  "closes_promptly L = (el_close_first L \<and> el_top_exit L True True \<and> el_top_exit L True False)"

lemma prompt_engines:
  "closes_promptly (ogm_loops N cfg)" "closes_promptly (sync_loops SN scfg)" "closes_promptly (dtn_loops dcfg)"
  "closes_promptly (fallback_loops notifier)" "closes_promptly (liveness_loops E ip port)"
  by (simp_all add: closes_promptly_def ogm_loops_def sync_loops_def dtn_loops_def fallback_loops_def liveness_loops_def)

lemma New_tickers: "\<not> tickers_panic (sync_loops N (sync_New scfg))" "\<not> tickers_panic (ld_loops J (ld_New lcfg) env)"
  "\<not> tickers_panic (fallback_loops notifier)" "\<not> tickers_panic (liveness_loops E ip port)" "tickers_panic (ogm_loops M cfg) = (ogm_Interval cfg \<le> 0)"
  by (auto simp: tickers_panic_def liveness_loops_def sync_loops_def sync_sendLoop_def ld_loops_def ld_sendLoop_def fallback_loops_def ogm_loops_defs sync_New_def ld_New_def at_least_def)

definition is_tick :: "move \<Rightarrow> bool" where
  "is_tick m = (case m of Tick _ _ \<Rightarrow> True | _ \<Rightarrow> False)"

definition is_datagram :: "move \<Rightarrow> bool" where
  "is_datagram m = (case m of Read now r \<Rightarrow> (case r of Datagram _ _ \<Rightarrow> True | _ \<Rightarrow> False) | _ \<Rightarrow> False)"

text \<open>How many moves other than ticks an engine that is closing has left.\<close>

definition ticker_weight :: "(nat \<times> bool) list \<Rightarrow> nat" where
  "ticker_weight ts = (\<Sum>(k, started) \<leftarrow> ts. if started then 1 else 2)"

definition moves_left :: "'s engine \<Rightarrow> nat" where
  "moves_left g = (if eg_receiver g = Ended then 0 else 1) + ticker_weight (eg_tickers g) + (if eg_phase g = Closing then 1 else 0)"

definition shutting_down :: "'s engine \<Rightarrow> bool" where
  "shutting_down g = (eg_cancelled g \<and> \<not> eg_open g \<and> (eg_phase g = Closing \<or>
     eg_phase g = HasClosed \<and> eg_receiver g = Ended \<and> eg_tickers g = []))"

lemma ticker_weight_remove: "(k, True) \<in> set ts \<Longrightarrow> ticker_weight ts = Suc (ticker_weight (remove1 (k, True) ts))"
  by (induction ts) (auto simp: ticker_weight_def)

lemma ticker_weight_first:
  "ticker_weight (map (\<lambda>t. if t = (k, False) then (k, True) else t) ts) + count_list ts (k, False) = ticker_weight ts"
  by (induction ts) (auto simp: ticker_weight_def)

lemma engine_move_closing:
  assumes "closes_promptly L" and "shutting_down g" and "engine_move L m g = Some g'"
  shows "shutting_down g' \<and> \<not> is_datagram m \<and> (if is_tick m then moves_left g' = moves_left g else moves_left g' < moves_left g)"
proof (cases m)
  case Top
  with assms show ?thesis
    by (auto simp: closes_promptly_def shutting_down_def is_tick_def is_datagram_def moves_left_def split: if_splits)
next
  case (Read now r)
  with assms show ?thesis
    by (auto simp: shutting_down_def is_tick_def is_datagram_def moves_left_def split: if_splits)
next
  case (First now k)
  with assms(3) have k: "(k, False) \<in> set (eg_tickers g)" by (auto split: if_splits)
  then have "count_list (eg_tickers g) (k, False) \<noteq> 0" by (simp add: count_list_0_iff)
  with ticker_weight_first [of k "eg_tickers g"] First assms k show ?thesis
    by (auto simp: shutting_down_def is_tick_def is_datagram_def moves_left_def split: if_splits)
next
  case (Tick now k)
  with assms show ?thesis
    by (auto simp: shutting_down_def is_tick_def is_datagram_def moves_left_def split: if_splits)
next
  case (Leave_loop k)
  with assms(3) have "(k, True) \<in> set (eg_tickers g)" by (auto split: if_splits)
  with ticker_weight_remove [OF this] Leave_loop assms show ?thesis
    by (auto simp: shutting_down_def is_tick_def is_datagram_def moves_left_def split: if_splits)
next
  case Begin_close
  with assms show ?thesis by (auto simp: shutting_down_def split: if_splits)
next
  case Waited
  with assms show ?thesis
    by (auto simp: shutting_down_def is_tick_def is_datagram_def moves_left_def split: if_splits)
qed

lemma engine_moves_closing:
  assumes "closes_promptly L" and "shutting_down g" and "engine_moves L ms g = Some g'"
  shows "shutting_down g' \<and> \<not> list_ex is_datagram ms \<and> length (filter (\<lambda>m. \<not> is_tick m) ms) + moves_left g' \<le> moves_left g"
  using assms(2,3)
proof (induction ms arbitrary: g)
  case (Cons m ms)
  then obtain g1 where "engine_move L m g = Some g1" "engine_moves L ms g1 = Some g'" by (auto split: option.splits)
  with engine_move_closing [OF assms(1) Cons.prems(1)] Cons.IH [of g1] show ?case by (fastforce split: if_splits)
qed simp

lemma closing_enabled:
  assumes "closes_promptly L" and "shutting_down g"
  shows "if eg_phase g = HasClosed then \<forall>m. engine_move L m g = None
    else \<exists>m. \<not> is_tick m \<and> engine_move L m g \<noteq> None"
proof (cases "eg_phase g = HasClosed")
  case True
  with assms(2) have "engine_move L m g = None" for m by (cases m) (auto simp: shutting_down_def)
  with True show ?thesis by simp
next
  case False
  with assms(2) have c: "eg_cancelled g" "eg_phase g = Closing" by (auto simp: shutting_down_def)
  consider "eg_receiver g = AtTop" | "eg_receiver g = Reading" | "eg_receiver g = Ended" "eg_tickers g = []"
    | k st ts where "eg_tickers g = (k, st) # ts"
    by (cases "eg_receiver g"; cases "eg_tickers g") auto
  then show ?thesis
  proof cases
    case 1
    then show ?thesis using False by (intro if_not_P [THEN iffD2] exI [of _ Top]) (simp_all add: is_tick_def)
  next
    case 2
    then show ?thesis using False by (intro if_not_P [THEN iffD2] exI [of _ "Read 0 ReadError"]) (simp_all add: is_tick_def)
  next
    case 3
    then show ?thesis using False c by (intro if_not_P [THEN iffD2] exI [of _ Waited]) (simp_all add: is_tick_def)
  next
    case 4
    have "\<exists>m. \<not> is_tick m \<and> engine_move L m g \<noteq> None"
    proof (cases st)
      case True
      with 4 c show ?thesis by (intro exI [of _ "Leave_loop k"]) (simp add: is_tick_def)
    next
      case st: False
      with 4 c show ?thesis by (intro exI [of _ "First 0 k"]) (simp add: is_tick_def)
    qed
    with False show ?thesis by simp
  qed
qed

lemma length_tickers: "engine_move L m g = Some g' \<Longrightarrow> length (eg_tickers g') \<le> length (eg_tickers g)"
  by (cases m) (auto simp: length_remove1 split: if_splits read_result.splits)

lemma length_tickers_moves: "engine_moves L ms g = Some g' \<Longrightarrow> length (eg_tickers g') \<le> length (eg_tickers g)"
  by (induction ms arbitrary: g) (auto split: option.splits dest: length_tickers intro: order_trans)

lemma ticker_weight_le: "ticker_weight ts \<le> 2 * length ts"
  by (induction ts) (auto simp: ticker_weight_def)

lemma engine_moves_append: "engine_moves L (xs @ ys) g = (case engine_moves L xs g of None \<Rightarrow> None | Some g' \<Rightarrow> engine_moves L ys g')"
  by (induction xs arbitrary: g) (auto split: option.split)


text \<open>OGM with its four loops: closing begins while the receiving loop reads and the flood has not been started.\<close>

definition sample_schedule :: "move list" where
  "sample_schedule = [Read 0 ReadError, Leave_loop 1, First 0 0, Leave_loop 3, Leave_loop 0, Leave_loop 2, Waited]"


section \<open>LAN discovery\<close>

definition arrivals :: "(time \<times> bytes \<times> UDPAddr) list \<Rightarrow> move list" where
  "arrivals ps = concat (map (\<lambda>(now, data, raddr). [Top, Read now (Datagram data raddr)]) ps)"

lemma ld_keeps_reading:
  assumes "eg_receiver g = AtTop" and "eg_open g"
  shows "engine_moves (ld_loops J cfg env) (arrivals ps) g = Some (g\<lparr>eg_state := fold (\<lambda>(now, data, raddr). ld_receive J cfg now data) ps (eg_state g)\<rparr>)"
  using assms by (induction ps arbitrary: g) (auto simp: arrivals_def ld_loops_def)

text \<open>
  C25. LAN discovery's \<^verbatim>\<open>Close\<close> waits for its loops before it closes the socket, and the receiving loop asks
  for the cancellation only after a read that failed. However many datagrams arrive after \<^verbatim>\<open>Close\<close> was called,
  one read after the other, each is still handled in full, and afterwards \<^verbatim>\<open>Close\<close> still cannot return.
\<close>

theorem ld_Close_hangs:
  "\<exists>g. engine_moves (ld_loops J cfg env) (Begin_close # arrivals ps) (launched (ld_loops J cfg env) s) = Some g \<and>
     eg_phase g = Closing \<and> engine_move (ld_loops J cfg env) Waited g = None \<and>
     eg_state g = fold (\<lambda>(now, data, raddr). ld_receive J cfg now data) ps s"
proof -
  let ?g = "(launched (ld_loops J cfg env) s)\<lparr>eg_cancelled := True, eg_phase := Closing\<rparr>"
  have "engine_move (ld_loops J cfg env) Begin_close (launched (ld_loops J cfg env) s) = Some ?g"
    by (simp add: launched_def ld_loops_def)
  moreover have "eg_receiver ?g = AtTop" "eg_open ?g" by (simp_all add: launched_def ld_loops_def)
  note ld_keeps_reading [OF this, of J cfg env ps]
  ultimately show ?thesis by (simp add: launched_def ld_loops_def)
qed

end
