(* ===== verification/Simnet.thy ===== *)
theory Simnet
  imports Float64 "HOL-Library.Multiset" "HOL-Library.AList"
begin

text \<open>
  \<^verbatim>\<open>core/simnet/simnet.go\<close>: the simulated network that implements \<^verbatim>\<open>core/transport/transport.go\<close> in tests.
  Nodes are objects in a store, which a sender and a frame under way refer to by address; the fabric maps peer
  ids to addresses. A registered handler is a name whose meaning is given by the parameter, so that a
  handler may itself use the fabric. Go walks a map in any order: \<open>walk\<close> is an arbitrary permutation.
  A frame under way carries the time before which its timer does not fire.

  Shown: a node that watches its peers knows exactly the nodes that are on the fabric, whenever and in
  whatever order nodes join, leave and replace one another; frames are neither invented, changed nor
  duplicated, and without simulated loss none is lost.
\<close>

section \<open>The fabric\<close>

type_synonym PeerID = bytes

record VirtualNode =
  vn_id :: PeerID
  vn_onReceive :: "nat option"
  vn_onPeerUp :: "nat option"
  vn_onPeerDown :: "nat option"

record transit =
  tr_dest :: nat
  tr_from :: PeerID
  tr_frame :: bytes
  tr_due :: time

record 'w fabric =
  fab_PacketLoss :: float64
  fab_Latency :: duration
  fab_Rand :: "nat \<Rightarrow> float64"
  fab_drawn :: nat
  fab_nodes :: "(PeerID \<times> nat) list"
  fab_objects :: "nat \<Rightarrow> VirtualNode option"
  fab_next :: nat
  fab_transit :: "transit list"
  fab_app :: 'w

record 's sim_env =
  sim_walk :: "nat list \<Rightarrow> nat list"
  sim_receive :: "nat \<Rightarrow> PeerID \<Rightarrow> bytes \<Rightarrow> 's \<Rightarrow> 's"
  sim_up :: "nat \<Rightarrow> PeerID \<Rightarrow> 's \<Rightarrow> 's"
  sim_down :: "nat \<Rightarrow> PeerID \<Rightarrow> 's \<Rightarrow> 's"

definition NewFabric :: "float64 \<Rightarrow> duration \<Rightarrow> (nat \<Rightarrow> float64) \<Rightarrow> 'w \<Rightarrow> 'w fabric" where
  "NewFabric loss latency rand app = \<lparr>fab_PacketLoss = loss, fab_Latency = latency, fab_Rand = rand, fab_drawn = 0, fab_nodes = [],
     fab_objects = Map.empty, fab_next = 0, fab_transit = [], fab_app = app\<rparr>"

definition snapshotPeersLocked :: "PeerID \<Rightarrow> 'w fabric \<Rightarrow> nat list" where
  "snapshotPeersLocked except s = map snd (filter (\<lambda>(k, n). k \<noteq> except) (fab_nodes s))"

definition node_handler :: "(VirtualNode \<Rightarrow> nat option) \<Rightarrow> nat \<Rightarrow> 'w fabric \<Rightarrow> nat option" where
  "node_handler f a s = (case fab_objects s a of None \<Rightarrow> None | Some n \<Rightarrow> f n)"

definition notifyPeerUp :: "('w fabric) sim_env \<Rightarrow> nat \<Rightarrow> PeerID \<Rightarrow> 'w fabric \<Rightarrow> 'w fabric" where
  "notifyPeerUp E a peer s = (case node_handler vn_onPeerUp a s of None \<Rightarrow> s | Some h \<Rightarrow> sim_up E h peer s)"

definition notifyPeerDown :: "('w fabric) sim_env \<Rightarrow> nat \<Rightarrow> PeerID \<Rightarrow> 'w fabric \<Rightarrow> 'w fabric" where
  "notifyPeerDown E a peer s = (case node_handler vn_onPeerDown a s of None \<Rightarrow> s | Some h \<Rightarrow> sim_down E h peer s)"

definition sim_NewNode :: "('w fabric) sim_env \<Rightarrow> PeerID \<Rightarrow> 'w fabric \<Rightarrow> nat \<times> 'w fabric" where
  "sim_NewNode E i s =
     (let a = fab_next s;
          s1 = s\<lparr>fab_next := a + 1,
                 fab_objects := (fab_objects s)(a \<mapsto> \<lparr>vn_id = i, vn_onReceive = None, vn_onPeerUp = None, vn_onPeerDown = None\<rparr>),
                 fab_nodes := AList.update i a (fab_nodes s)\<rparr>
      in (a, fold (\<lambda>p. notifyPeerUp E p i) (sim_walk E (snapshotPeersLocked i s1)) s1))"

definition RemoveNode :: "('w fabric) sim_env \<Rightarrow> PeerID \<Rightarrow> 'w fabric \<Rightarrow> 'w fabric" where
  "RemoveNode E i s =
     (let s1 = s\<lparr>fab_nodes := AList.delete i (fab_nodes s)\<rparr>
      in fold (\<lambda>p. notifyPeerDown E p i) (sim_walk E (snapshotPeersLocked i s1)) s1)"

definition node_id :: "nat \<Rightarrow> 'w fabric \<Rightarrow> PeerID" where
  "node_id a s = (case fab_objects s a of None \<Rightarrow> [] | Some n \<Rightarrow> vn_id n)"

definition peerIDsExcept :: "('w fabric) sim_env \<Rightarrow> PeerID \<Rightarrow> 'w fabric \<Rightarrow> PeerID list" where
  "peerIDsExcept E i s = map (\<lambda>a. node_id a s) (sim_walk E (snapshotPeersLocked i s))"

definition sim_deliver :: "time \<Rightarrow> PeerID \<Rightarrow> PeerID \<Rightarrow> bytes \<Rightarrow> 'w fabric \<Rightarrow> 'w fabric" where
  "sim_deliver now from to frame s =
     (case map_of (fab_nodes s) to of
        None \<Rightarrow> s
      | Some dest \<Rightarrow>
          let lossy = fgt (fab_PacketLoss s) (Fin 0);
              s1 = (if lossy then s\<lparr>fab_drawn := fab_drawn s + 1\<rparr> else s)
          in if lossy \<and> flt (fab_Rand s (fab_drawn s)) (fab_PacketLoss s) then s1
             else s1\<lparr>fab_transit := fab_transit s1 @
               [\<lparr>tr_dest = dest, tr_from = from, tr_frame = frame,
                 tr_due = (if fab_Latency s > 0 then now + fab_Latency s else now)\<rparr>]\<rparr>)"

definition sim_Send :: "time \<Rightarrow> nat \<Rightarrow> PeerID \<Rightarrow> bytes \<Rightarrow> ('w fabric, unit) stmt" where
  "sim_Send now a peer frame s = (Inr (), sim_deliver now (node_id a s) peer frame s)"

definition set_handler :: "((nat option \<Rightarrow> nat option) \<Rightarrow> VirtualNode \<Rightarrow> VirtualNode) \<Rightarrow> nat \<Rightarrow> nat option \<Rightarrow> 'w fabric \<Rightarrow> 'w fabric" where
  "set_handler upd a h s = s\<lparr>fab_objects := (fab_objects s)(a := map_option (upd (\<lambda>_. h)) (fab_objects s a))\<rparr>"

definition OnReceive :: "nat \<Rightarrow> nat option \<Rightarrow> 'w fabric \<Rightarrow> 'w fabric" where
  "OnReceive a h s = set_handler vn_onReceive_update a h s"

definition OnPeerUp :: "('w fabric) sim_env \<Rightarrow> nat \<Rightarrow> nat option \<Rightarrow> 'w fabric \<Rightarrow> 'w fabric" where
  "OnPeerUp E a handler s =
     (let s1 = set_handler vn_onPeerUp_update a handler s
      in case handler of None \<Rightarrow> s1 | Some h \<Rightarrow> fold (sim_up E h) (peerIDsExcept E (node_id a s1) s1) s1)"

definition OnPeerDown :: "nat \<Rightarrow> nat option \<Rightarrow> 'w fabric \<Rightarrow> 'w fabric" where
  "OnPeerDown a h s = set_handler vn_onPeerDown_update a h s"

definition sim_receive_frame :: "('w fabric) sim_env \<Rightarrow> nat \<Rightarrow> PeerID \<Rightarrow> bytes \<Rightarrow> 'w fabric \<Rightarrow> 'w fabric" where
  "sim_receive_frame E a from frame s = (case node_handler vn_onReceive a s of None \<Rightarrow> s | Some h \<Rightarrow> sim_receive E h from frame s)"

text \<open>The timer or goroutine of the \<open>k\<close>-th frame under way runs, if its time has come.\<close>

definition sim_fire :: "('w fabric) sim_env \<Rightarrow> time \<Rightarrow> nat \<Rightarrow> 'w fabric \<Rightarrow> transit option \<times> 'w fabric" where
  "sim_fire E now k s =
     (if k < length (fab_transit s) \<and> tr_due (fab_transit s ! k) \<le> now then
        (let t = fab_transit s ! k;
             s1 = s\<lparr>fab_transit := take k (fab_transit s) @ drop (k + 1) (fab_transit s)\<rparr>
         in (Some t, sim_receive_frame E (tr_dest t) (tr_from t) (tr_frame t) s1))
      else (None, s))"


section \<open>Runs\<close>

datatype sim_op = Join PeerID | Watch nat | Leave PeerID | SendFrame time nat PeerID bytes | Fire time nat

text \<open>
  A node that watches registers both handlers as soon as it has been created, the one for departures first; its
  handlers keep a set of peers. An operation needs a node to call it on.
\<close>

fun sim_step :: "('w fabric) sim_env \<Rightarrow> sim_op \<Rightarrow> 'w fabric \<Rightarrow> 'w fabric" where
  "sim_step E (Join i) s = snd (sim_NewNode E i s)"
| "sim_step E (Watch a) s = (if fab_objects s a = None then s else OnPeerUp E a (Some a) (OnPeerDown a (Some a) s))"
| "sim_step E (Leave i) s = RemoveNode E i s"
| "sim_step E (SendFrame now a peer frame) s = (if fab_objects s a = None then s else snd (sim_Send now a peer frame s))"
| "sim_step E (Fire now k) s = snd (sim_fire E now k s)"

definition track :: "(nat list \<Rightarrow> nat list) \<Rightarrow> ((nat \<Rightarrow> PeerID set) fabric) sim_env" where
  "track walk = \<lparr>sim_walk = walk, sim_receive = (\<lambda>_ _ _ s. s),
     sim_up = (\<lambda>h peer s. s\<lparr>fab_app := (fab_app s)(h := insert peer (fab_app s h))\<rparr>),
     sim_down = (\<lambda>h peer s. s\<lparr>fab_app := (fab_app s)(h := fab_app s h - {peer})\<rparr>)\<rparr>"

definition views_New :: "float64 \<Rightarrow> duration \<Rightarrow> (nat \<Rightarrow> float64) \<Rightarrow> (nat \<Rightarrow> PeerID set) fabric" where
  "views_New loss latency rand = NewFabric loss latency rand (\<lambda>_. {})"

section \<open>Who is on the fabric\<close>

definition watches :: "nat \<Rightarrow> 'w fabric \<Rightarrow> bool" where
  "watches a s = (node_handler vn_onPeerUp a s = Some a)"

definition present :: "nat \<Rightarrow> 'w fabric \<Rightarrow> bool" where
  "present a s = (fab_objects s a \<noteq> None \<and> map_of (fab_nodes s) (node_id a s) = Some a)"

text \<open>
  The invariant: addresses are fresh, an entry of the fabric names an object with that id, handlers are the
  object's own and come in pairs, and the sets of peers are right.
\<close>

definition own_handlers :: "nat \<Rightarrow> VirtualNode \<Rightarrow> bool" where
  "own_handlers a n = (vn_onPeerUp n = None \<and> vn_onPeerDown n = None \<or> vn_onPeerUp n = Some a \<and> vn_onPeerDown n = Some a)"

definition fabric_ok :: "(nat \<Rightarrow> PeerID set) fabric \<Rightarrow> bool" where
  "fabric_ok s = (distinct (map fst (fab_nodes s)) \<and> (\<forall>a \<ge> fab_next s. fab_objects s a = None) \<and>
     (\<forall>i a. map_of (fab_nodes s) i = Some a \<longrightarrow> (\<exists>n. fab_objects s a = Some n \<and> vn_id n = i)) \<and>
     (\<forall>a n. fab_objects s a = Some n \<longrightarrow> own_handlers a n) \<and>
     (\<forall>a. \<not> watches a s \<longrightarrow> fab_app s a = {}) \<and>
     (\<forall>i a. map_of (fab_nodes s) i = Some a \<longrightarrow> watches a s \<longrightarrow> fab_app s a = dom (map_of (fab_nodes s)) - {i}))"

lemma fabric_ok_New: "fabric_ok (views_New loss latency rand)"
  by (simp add: fabric_ok_def views_New_def NewFabric_def)

lemma set_snapshot: "distinct (map fst (fab_nodes s)) \<Longrightarrow> set (snapshotPeersLocked i s) = {a. \<exists>k. k \<noteq> i \<and> map_of (fab_nodes s) k = Some a}"
  by (force simp: snapshotPeersLocked_def image_iff map_of_eq_Some_iff)

lemma own_node_handlers:
  assumes "\<forall>a n. fab_objects s a = Some n \<longrightarrow> own_handlers a n"
  shows "node_handler vn_onPeerUp a s = (if watches a s then Some a else None)"
    and "node_handler vn_onPeerDown a s = (if watches a s then Some a else None)"
  using assms [THEN spec, of a] by (cases "fab_objects s a"; auto simp: watches_def node_handler_def own_handlers_def)+

lemma watches_frame [simp]:
  "watches a (s\<lparr>fab_app := v\<rparr>) = watches a s" "watches a (s\<lparr>fab_nodes := ns\<rparr>) = watches a s"
  "watches a (s\<lparr>fab_transit := ts\<rparr>) = watches a s" "watches a (s\<lparr>fab_drawn := k\<rparr>) = watches a s"
  by (simp_all add: watches_def node_handler_def)

lemma notify_up_all:
  assumes "\<forall>a n. fab_objects s a = Some n \<longrightarrow> own_handlers a n"
  shows "fold (\<lambda>p. notifyPeerUp (track walk) p i) ps s =
    s\<lparr>fab_app := (\<lambda>a. if a \<in> set ps \<and> watches a s then insert i (fab_app s a) else fab_app s a)\<rparr>"
  using assms
proof (induction ps arbitrary: s)
  case (Cons p ps)
  let ?s = "notifyPeerUp (track walk) p i s"
  have s: "?s = (if watches p s then s\<lparr>fab_app := (fab_app s)(p := insert i (fab_app s p))\<rparr> else s)"
    using own_node_handlers [OF Cons.prems] by (simp add: notifyPeerUp_def track_def)
  have w: "watches a ?s = watches a s" for a by (simp add: s)
  have "\<forall>a n. fab_objects ?s a = Some n \<longrightarrow> own_handlers a n" using Cons.prems by (simp add: s)
  from Cons.IH [OF this] show ?case by (auto simp: w s fun_eq_iff intro!: fabric.equality)
qed simp

lemma notify_down_all:
  assumes "\<forall>a n. fab_objects s a = Some n \<longrightarrow> own_handlers a n"
  shows "fold (\<lambda>p. notifyPeerDown (track walk) p i) ps s =
    s\<lparr>fab_app := (\<lambda>a. if a \<in> set ps \<and> watches a s then fab_app s a - {i} else fab_app s a)\<rparr>"
  using assms
proof (induction ps arbitrary: s)
  case (Cons p ps)
  let ?s = "notifyPeerDown (track walk) p i s"
  have s: "?s = (if watches p s then s\<lparr>fab_app := (fab_app s)(p := fab_app s p - {i})\<rparr> else s)"
    using own_node_handlers [OF Cons.prems] by (simp add: notifyPeerDown_def track_def)
  have w: "watches a ?s = watches a s" for a by (simp add: s)
  have "\<forall>a n. fab_objects ?s a = Some n \<longrightarrow> own_handlers a n" using Cons.prems by (simp add: s)
  from Cons.IH [OF this] show ?case by (auto simp: w s fun_eq_iff intro!: fabric.equality)
qed simp

lemma replay_all: "fold (sim_up (track walk) h) ids s = s\<lparr>fab_app := (fab_app s)(h := fab_app s h \<union> set ids)\<rparr>"
  by (induction ids arbitrary: s) (auto simp: track_def fun_eq_iff intro!: fabric.equality)

lemma fabric_okD:
  assumes "fabric_ok s"
  shows "distinct (map fst (fab_nodes s))" and "fab_next s \<le> a \<Longrightarrow> fab_objects s a = None"
    and "map_of (fab_nodes s) i = Some a \<Longrightarrow> fab_objects s a \<noteq> None \<and> node_id a s = i"
    and "\<forall>a n. fab_objects s a = Some n \<longrightarrow> own_handlers a n" and "\<not> watches a s \<Longrightarrow> fab_app s a = {}"
    and "map_of (fab_nodes s) i = Some a \<Longrightarrow> watches a s \<Longrightarrow> fab_app s a = dom (map_of (fab_nodes s)) - {i}"
proof -
  show "map_of (fab_nodes s) i = Some a \<Longrightarrow> fab_objects s a \<noteq> None \<and> node_id a s = i"
  proof -
    assume "map_of (fab_nodes s) i = Some a"
    with assms obtain n where "fab_objects s a = Some n" "vn_id n = i" unfolding fabric_ok_def by blast
    then show ?thesis by (simp add: node_id_def)
  qed
qed (use assms in \<open>auto simp: fabric_ok_def\<close>)

lemma fabric_okI:
  assumes "distinct (map fst (fab_nodes s))" and "\<And>a. fab_next s \<le> a \<Longrightarrow> fab_objects s a = None"
    and "\<And>i a. map_of (fab_nodes s) i = Some a \<Longrightarrow> fab_objects s a \<noteq> None \<and> node_id a s = i"
    and "\<And>a n. fab_objects s a = Some n \<Longrightarrow> own_handlers a n" and "\<And>a. \<not> watches a s \<Longrightarrow> fab_app s a = {}"
    and "\<And>i a. map_of (fab_nodes s) i = Some a \<Longrightarrow> watches a s \<Longrightarrow> fab_app s a = dom (map_of (fab_nodes s)) - {i}"
  shows "fabric_ok s"
  unfolding fabric_ok_def
proof (intro conjI allI impI)
  fix i a assume "map_of (fab_nodes s) i = Some a"
  from assms(3) [OF this] show "\<exists>n. fab_objects s a = Some n \<and> vn_id n = i" by (auto simp: node_id_def)
qed (fact assms(1), rule assms(2), assumption, rule assms(4), assumption, rule assms(5), assumption, rule assms(6), assumption, assumption)

lemma permuted: "\<forall>xs. mset (walk xs) = mset (xs :: nat list) \<Longrightarrow> set (walk xs) = set xs"
  by (metis set_mset_mset)

lemma sim_walk_track [simp]: "sim_walk (track walk) = walk"
  by (simp add: track_def)

lemma fresh_not_watching: "fabric_ok s \<Longrightarrow> \<not> watches (fab_next s) s"
  by (simp add: fabric_okD(2) watches_def node_handler_def)

lemma Join_ok:
  assumes "\<forall>xs. mset (walk xs) = mset xs" and "fabric_ok s"
  shows "fabric_ok (sim_step (track walk) (Join i) s)"
proof -
  note ok = fabric_okD [OF assms(2)]
  define s1 where "s1 = s\<lparr>fab_next := fab_next s + 1,
    fab_objects := (fab_objects s)(fab_next s \<mapsto> \<lparr>vn_id = i, vn_onReceive = None, vn_onPeerUp = None, vn_onPeerDown = None\<rparr>),
    fab_nodes := AList.update i (fab_next s) (fab_nodes s)\<rparr>"
  define ps where "ps = walk (snapshotPeersLocked i s1)"
  define F where "F = (\<lambda>a. if a \<in> set ps \<and> watches a s1 then insert i (fab_app s1 a) else fab_app s1 a)"
  have own: "\<forall>a n. fab_objects s1 a = Some n \<longrightarrow> own_handlers a n" using ok(4) by (simp add: own_handlers_def s1_def)
  have w: "watches a s1 = watches a s" for a using ok(2) [of "fab_next s"] by (simp add: watches_def node_handler_def s1_def)
  have m: "map_of (fab_nodes s1) = (map_of (fab_nodes s))(i \<mapsto> fab_next s)" by (simp add: update_conv' s1_def)
  have d: "distinct (map fst (fab_nodes s1))" using ok(1) by (simp add: distinct_update s1_def)
  have app: "fab_app s1 = fab_app s" "fab_objects s1 = (fab_objects s)
      (fab_next s \<mapsto> \<lparr>vn_id = i, vn_onReceive = None, vn_onPeerUp = None, vn_onPeerDown = None\<rparr>)" by (simp_all add: s1_def)
  have ps: "set ps = {a. \<exists>k. k \<noteq> i \<and> map_of (fab_nodes s) k = Some a}"
    unfolding ps_def permuted [OF assms(1)] set_snapshot [OF d] m by auto
  have step: "sim_step (track walk) (Join i) s = s1\<lparr>fab_app := F\<rparr>"
    unfolding F_def notify_up_all [OF own, where walk = walk, symmetric] by (simp add: sim_NewNode_def Let_def s1_def ps_def)
  show ?thesis
    unfolding step
  proof (rule fabric_okI)
    fix j a assume j: "map_of (fab_nodes (s1\<lparr>fab_app := F\<rparr>)) j = Some a" and "watches a (s1\<lparr>fab_app := F\<rparr>)"
    then have wa: "watches a s" by (simp add: w)
    with fresh_not_watching [OF assms(2)] j have ji: "j \<noteq> i" "map_of (fab_nodes s) j = Some a" by (auto simp: m split: if_splits)
    then have "a \<in> set ps" unfolding ps by blast
    with ok(6) [OF ji(2) wa] ji(1) wa show "fab_app (s1\<lparr>fab_app := F\<rparr>) a = dom (map_of (fab_nodes (s1\<lparr>fab_app := F\<rparr>))) - {j}"
      by (auto simp: w m F_def app)
  next
    fix j a assume "map_of (fab_nodes (s1\<lparr>fab_app := F\<rparr>)) j = Some a"
    with ok(3) [of j a] ok(2) [of a] show "fab_objects (s1\<lparr>fab_app := F\<rparr>) a \<noteq> None \<and> node_id a (s1\<lparr>fab_app := F\<rparr>) = j"
      by (auto simp: m node_id_def app split: if_splits option.splits)
  next
    fix a assume "fab_next (s1\<lparr>fab_app := F\<rparr>) \<le> a"
    with ok(2) [of a] show "fab_objects (s1\<lparr>fab_app := F\<rparr>) a = None" by (simp add: s1_def)
  next
    fix a assume "\<not> watches a (s1\<lparr>fab_app := F\<rparr>)"
    with ok(5) [of a] show "fab_app (s1\<lparr>fab_app := F\<rparr>) a = {}" by (simp add: w F_def app)
  qed (use own d in auto)
qed

lemma Leave_ok:
  assumes "\<forall>xs. mset (walk xs) = mset xs" and "fabric_ok s"
  shows "fabric_ok (sim_step (track walk) (Leave i) s)"
proof -
  note ok = fabric_okD [OF assms(2)]
  define s1 where "s1 = s\<lparr>fab_nodes := AList.delete i (fab_nodes s)\<rparr>"
  define ps where "ps = walk (snapshotPeersLocked i s1)"
  define F where "F = (\<lambda>a. if a \<in> set ps \<and> watches a s1 then fab_app s1 a - {i} else fab_app s1 a)"
  have w: "watches a s1 = watches a s" for a by (simp add: s1_def)
  have m: "map_of (fab_nodes s1) = (map_of (fab_nodes s))(i := None)" by (simp add: delete_conv' s1_def)
  have d: "distinct (map fst (fab_nodes s1))" using ok(1) by (simp add: distinct_delete s1_def)
  have own: "\<forall>a n. fab_objects s1 a = Some n \<longrightarrow> own_handlers a n" using ok(4) by (simp add: s1_def)
  have o1: "fab_objects s1 = fab_objects s" "fab_app s1 = fab_app s" by (simp_all add: s1_def)
  have ps: "set ps = {a. \<exists>k. k \<noteq> i \<and> map_of (fab_nodes s) k = Some a}"
    unfolding ps_def permuted [OF assms(1)] set_snapshot [OF d] m by auto
  have step: "sim_step (track walk) (Leave i) s = s1\<lparr>fab_app := F\<rparr>"
    unfolding F_def notify_down_all [OF own, where walk = walk, symmetric] by (simp add: RemoveNode_def Let_def s1_def ps_def)
  show ?thesis
    unfolding step
  proof (rule fabric_okI)
    fix j a assume j: "map_of (fab_nodes (s1\<lparr>fab_app := F\<rparr>)) j = Some a" and "watches a (s1\<lparr>fab_app := F\<rparr>)"
    then have wa: "watches a s" and ji: "j \<noteq> i" "map_of (fab_nodes s) j = Some a" by (auto simp: w m split: if_splits)
    then have "a \<in> set ps" unfolding ps by blast
    with ok(6) [OF ji(2) wa] wa show "fab_app (s1\<lparr>fab_app := F\<rparr>) a = dom (map_of (fab_nodes (s1\<lparr>fab_app := F\<rparr>))) - {j}"
      by (auto simp: w m F_def o1)
  next
    fix j a assume "map_of (fab_nodes (s1\<lparr>fab_app := F\<rparr>)) j = Some a"
    with ok(3) [of j a] show "fab_objects (s1\<lparr>fab_app := F\<rparr>) a \<noteq> None \<and> node_id a (s1\<lparr>fab_app := F\<rparr>) = j"
      by (auto simp: m node_id_def o1 split: if_splits)
  next
    fix a assume "\<not> watches a (s1\<lparr>fab_app := F\<rparr>)"
    with ok(5) [of a] show "fab_app (s1\<lparr>fab_app := F\<rparr>) a = {}" by (simp add: w F_def o1)
  qed (use own d ok(2) in \<open>auto simp: s1_def\<close>)
qed


lemma Watch_ok:
  assumes "\<forall>xs. mset (walk xs) = mset xs" and "fabric_ok s"
  shows "fabric_ok (sim_step (track walk) (Watch a) s)"
proof (cases "fab_objects s a")
  case None
  with assms(2) show ?thesis by simp
next
  case (Some n)
  note ok = fabric_okD [OF assms(2)]
  define s1 where "s1 = s\<lparr>fab_objects := (fab_objects s)(a \<mapsto> n\<lparr>vn_onPeerDown := Some a, vn_onPeerUp := Some a\<rparr>)\<rparr>"
  have s1: "fab_nodes s1 = fab_nodes s" "fab_app s1 = fab_app s" "fab_next s1 = fab_next s"
    "fab_objects s1 = (fab_objects s)(a \<mapsto> n\<lparr>vn_onPeerDown := Some a, vn_onPeerUp := Some a\<rparr>)" by (simp_all add: s1_def)
  have s1': "set_handler vn_onPeerUp_update a (Some a) (OnPeerDown a (Some a) s) = s1"
    by (simp add: OnPeerDown_def set_handler_def Some s1_def)
  have nid: "node_id b s1 = node_id b s" for b by (simp add: node_id_def s1(4) Some)
  have w: "watches b s1 = (b = a \<or> watches b s)" for b by (simp add: watches_def node_handler_def s1(4))
  define ids where "ids = peerIDsExcept (track walk) (node_id a s) s1"
  have ids: "set ids = dom (map_of (fab_nodes s)) - {node_id a s}"
  proof -
    have "set (snapshotPeersLocked (node_id a s) s1) = {b. \<exists>k. k \<noteq> node_id a s \<and> map_of (fab_nodes s) k = Some b}"
      using set_snapshot [of s1] ok(1) by (simp add: s1(1))
    then have "set ids = (\<lambda>b. node_id b s) ` {b. \<exists>k. k \<noteq> node_id a s \<and> map_of (fab_nodes s) k = Some b}"
      by (simp add: ids_def peerIDsExcept_def permuted [OF assms(1)] nid)
    also have "\<dots> = dom (map_of (fab_nodes s)) - {node_id a s}"
    proof (intro set_eqI iffI)
      fix k assume "k \<in> dom (map_of (fab_nodes s)) - {node_id a s}"
      then obtain b where b: "k \<noteq> node_id a s" "map_of (fab_nodes s) k = Some b" by auto
      with ok(3) [OF b(2)] have "k = node_id b s" "b \<in> {b. \<exists>k. k \<noteq> node_id a s \<and> map_of (fab_nodes s) k = Some b}" by auto
      then show "k \<in> (\<lambda>b. node_id b s) ` {b. \<exists>k. k \<noteq> node_id a s \<and> map_of (fab_nodes s) k = Some b}" by (rule image_eqI)
    qed (use ok(3) in auto)
    finally show ?thesis .
  qed
  define F where "F = (fab_app s)(a := fab_app s a \<union> set ids)"
  have step: "sim_step (track walk) (Watch a) s = s1\<lparr>fab_app := F\<rparr>"
    using Some by (simp add: OnPeerUp_def Let_def s1' nid replay_all F_def s1(2) flip: ids_def)
  show ?thesis
    unfolding step
  proof (rule fabric_okI)
    fix j b assume j: "map_of (fab_nodes (s1\<lparr>fab_app := F\<rparr>)) j = Some b" and wb: "watches b (s1\<lparr>fab_app := F\<rparr>)"
    then have j': "map_of (fab_nodes s) j = Some b" by (simp add: s1)
    show "fab_app (s1\<lparr>fab_app := F\<rparr>) b = dom (map_of (fab_nodes (s1\<lparr>fab_app := F\<rparr>))) - {j}"
    proof (cases "b = a")
      case True
      have "fab_app s a \<subseteq> dom (map_of (fab_nodes s)) - {j}"
        using ok(5) [of a] ok(6) [OF j'] True by (cases "watches a s") auto
      with ids ok(3) [OF j'] True show ?thesis by (auto simp: F_def s1(1))
    next
      case False
      with wb ok(6) [OF j'] show ?thesis by (simp add: F_def s1(1) w)
    qed
  next
    fix j b assume "map_of (fab_nodes (s1\<lparr>fab_app := F\<rparr>)) j = Some b"
    with ok(3) [of j b] nid [of b] show "fab_objects (s1\<lparr>fab_app := F\<rparr>) b \<noteq> None \<and> node_id b (s1\<lparr>fab_app := F\<rparr>) = j"
      by (simp add: s1 node_id_def)
  next
    fix b m assume "fab_objects (s1\<lparr>fab_app := F\<rparr>) b = Some m"
    with ok(4) show "own_handlers b m" by (auto simp: s1 own_handlers_def split: if_splits)
  next
    fix b assume "fab_next (s1\<lparr>fab_app := F\<rparr>) \<le> b"
    with ok(2) [of b] Some show "fab_objects (s1\<lparr>fab_app := F\<rparr>) b = None" by (auto simp: s1)
  next
    fix b assume "\<not> watches b (s1\<lparr>fab_app := F\<rparr>)"
    with ok(5) [of b] show "fab_app (s1\<lparr>fab_app := F\<rparr>) b = {}" by (simp add: w F_def)
  qed (use ok(1) in \<open>simp add: s1\<close>)
qed

lemma fabric_ok_frame:
  assumes "fab_nodes s' = fab_nodes s" "fab_objects s' = fab_objects s" "fab_next s' = fab_next s" "fab_app s' = fab_app s"
  shows "fabric_ok s' = fabric_ok s"
  unfolding fabric_ok_def watches_def node_handler_def assms ..

lemma sim_receive_track [simp]: "sim_receive_frame (track walk) a from frame s = s"
  by (simp add: sim_receive_frame_def track_def split: option.split)

lemma sim_step_ok:
  assumes "\<forall>xs. mset (walk xs) = mset xs" and "fabric_ok s"
  shows "fabric_ok (sim_step (track walk) op s)"
proof (cases op)
  case (SendFrame now a peer frame)
  have "fabric_ok (sim_deliver now i peer frame s) = fabric_ok s" for i
    by (rule fabric_ok_frame) (simp_all add: sim_deliver_def Let_def split: option.split)
  with SendFrame assms(2) show ?thesis by (simp add: sim_Send_def)
next
  case (Fire now k)
  have "fabric_ok (snd (sim_fire (track walk) now k s)) = fabric_ok s"
    by (rule fabric_ok_frame) (simp_all add: sim_fire_def Let_def)
  with Fire assms(2) show ?thesis by simp
qed (use Join_ok Watch_ok Leave_ok assms in auto)

text \<open>
  C20. Joining is being told of everyone. After any sequence of joins, departures, replacements of a node by
  another one with the same id, registrations and frames, in whatever order the fabric walks its nodes,
  a node on the fabric that watches its peers has been told of exactly the other nodes that are there.
\<close>

theorem watcher_knows_peers:
  assumes "\<forall>xs. mset (walk xs) = mset xs" and "s = fold (sim_step (track walk)) ops (views_New loss latency rand)"
    and "present a s" and "watches a s"
  shows "fab_app s a = fst ` set (fab_nodes s) - {node_id a s}"
proof -
  have "fabric_ok (fold (sim_step (track walk)) ops t)" if "fabric_ok t" for t
    using that by (induction ops arbitrary: t) (simp_all add: sim_step_ok [OF assms(1)])
  then have "fabric_ok s" using fabric_ok_New assms(2) by blast
  from fabric_okD(6) [OF this _ assms(4)] assms(3) show ?thesis by (auto simp: present_def dom_map_of_conv_image_fst)
qed

definition sample_fabric :: "(nat \<Rightarrow> PeerID set) fabric" where
  "sample_fabric = fold (sim_step (track rev)) [Join [1], Watch 0, Join [2], Join [3], Watch 2, Leave [2], Join [3], Watch 3, Join [4]]
     (views_New (Fin 0) 0 (\<lambda>_. Fin 0))"

theorem watcher_knows_peers_witness: "fab_app sample_fabric 3 = {[1], [4]}"
proof -
  have p: "present 3 sample_fabric" "watches 3 sample_fabric" by code_simp+
  have "map fst (fab_nodes sample_fabric) = [[1], [3], [4]]" "node_id 3 sample_fabric = [3]" by code_simp+
  then have "fst ` set (fab_nodes sample_fabric) - {node_id 3 sample_fabric} = {[1], [4]}" by (auto simp flip: set_map)
  with watcher_knows_peers [OF _ sample_fabric_def p] show ?thesis by simp
qed

section \<open>What happens to frames\<close>

text \<open>
  Along a run: the frames that were sent to a node on the fabric, with the address it had then, and those that
  a timer or goroutine handed to a node.
\<close>

type_synonym parcel = "nat \<times> PeerID \<times> bytes"

definition sent_parcel :: "sim_op \<Rightarrow> 'w fabric \<Rightarrow> parcel list" where
  "sent_parcel op s = (case op of
     SendFrame now a peer frame \<Rightarrow>
       (if fab_objects s a = None then []
        else case map_of (fab_nodes s) peer of None \<Rightarrow> [] | Some dest \<Rightarrow> [(dest, node_id a s, frame)])
   | _ \<Rightarrow> [])"

definition parcel_of :: "transit \<Rightarrow> parcel" where
  "parcel_of t = (tr_dest t, tr_from t, tr_frame t)"

definition handed_parcel :: "('w fabric) sim_env \<Rightarrow> sim_op \<Rightarrow> 'w fabric \<Rightarrow> parcel list" where
  "handed_parcel E op s = (case op of
     Fire now k \<Rightarrow> (case fst (sim_fire E now k s) of None \<Rightarrow> [] | Some t \<Rightarrow> [parcel_of t])
   | _ \<Rightarrow> [])"

fun sim_run :: "('w fabric) sim_env \<Rightarrow> sim_op list \<Rightarrow> 'w fabric \<Rightarrow> (parcel list \<times> parcel list) \<times> 'w fabric" where
  "sim_run E [] s = (([], []), s)"
| "sim_run E (op # ops) s =
     (let ((sent, handed), s') = sim_run E ops (sim_step E op s)
      in ((sent_parcel op s @ sent, handed_parcel E op s @ handed), s'))"

definition under_way :: "'w fabric \<Rightarrow> parcel multiset" where
  "under_way s = mset (map parcel_of (fab_transit s))"

lemma notify_transit [simp]:
  "fab_transit (fold (\<lambda>p. notifyPeerUp (track walk) p i) ps s) = fab_transit s"
  "fab_transit (fold (\<lambda>p. notifyPeerDown (track walk) p i) ps s) = fab_transit s"
  "fab_PacketLoss (fold (\<lambda>p. notifyPeerUp (track walk) p i) ps s) = fab_PacketLoss s"
  "fab_PacketLoss (fold (\<lambda>p. notifyPeerDown (track walk) p i) ps s) = fab_PacketLoss s"
  by (induction ps arbitrary: s) (simp_all add: notifyPeerUp_def notifyPeerDown_def track_def split: option.split)

lemma sim_step_parcels:
  "under_way (sim_step (track walk) op s) + mset (handed_parcel (track walk) op s) \<subseteq># under_way s + mset (sent_parcel op s) \<and>
   (\<not> fgt (fab_PacketLoss s) (Fin 0) \<longrightarrow>
     under_way (sim_step (track walk) op s) + mset (handed_parcel (track walk) op s) = under_way s + mset (sent_parcel op s)) \<and>
   fab_PacketLoss (sim_step (track walk) op s) = fab_PacketLoss s"
proof (cases op)
  case (Fire now k)
  show ?thesis
  proof (cases "k < length (fab_transit s) \<and> tr_due (fab_transit s ! k) \<le> now")
    case True
    then have "fab_transit s = take k (fab_transit s) @ fab_transit s ! k # drop (k + 1) (fab_transit s)"
      by (metis Suc_eq_plus1 id_take_nth_drop)
    then have "under_way s = mset (map parcel_of (take k (fab_transit s) @ drop (k + 1) (fab_transit s))) + {#parcel_of (fab_transit s ! k)#}"
      unfolding under_way_def by (metis (no_types, lifting) add_mset_add_single list.simps(9) map_append mset.simps(2) mset_append union_mset_add_mset_right)
    with True show ?thesis by (simp add: Fire sim_fire_def Let_def handed_parcel_def sent_parcel_def under_way_def)
  next
    case False
    then show ?thesis by (auto simp: Fire sim_fire_def handed_parcel_def sent_parcel_def)
  qed
next
  case (SendFrame now a peer frame)
  then show ?thesis
    by (auto simp: sim_Send_def sim_deliver_def handed_parcel_def sent_parcel_def under_way_def parcel_of_def Let_def split: option.split)
qed (auto simp: handed_parcel_def sent_parcel_def under_way_def sim_NewNode_def RemoveNode_def OnPeerUp_def OnPeerDown_def set_handler_def replay_all Let_def)

text \<open>
  C21. Frames are kept as they are. Along any run, what was handed to nodes together with what is still under
  way is part of what was sent to nodes on the fabric, with the same sender and bytes and each as often;
  and it is all of it when no loss is simulated, so nothing is lost, invented, changed or duplicated.
\<close>

theorem frames_kept:
  "case sim_run (track walk) ops s of ((sent, handed), s') \<Rightarrow>
     (if fgt (fab_PacketLoss s) (Fin 0)
      then mset handed + under_way s' \<subseteq># mset sent + under_way s
      else mset handed + under_way s' = mset sent + under_way s)"
proof (induction ops arbitrary: s)
  case (Cons op ops)
  obtain sent handed s' where r: "sim_run (track walk) ops (sim_step (track walk) op s) = ((sent, handed), s')"
    by (metis prod.collapse)
  note i = Cons.IH [of "sim_step (track walk) op s", unfolded r prod.case]
  note p = sim_step_parcels [of walk op s]
  show ?case
  proof (cases "fgt (fab_PacketLoss s) (Fin 0)")
    case True
    with i p have "mset handed + under_way s' \<subseteq># mset sent + under_way (sim_step (track walk) op s)" by simp
    then have "mset (handed_parcel (track walk) op s) + (mset handed + under_way s') \<subseteq>#
        mset (handed_parcel (track walk) op s) + (mset sent + under_way (sim_step (track walk) op s))" by simp
    also have "\<dots> = mset sent + (under_way (sim_step (track walk) op s) + mset (handed_parcel (track walk) op s))" by simp
    also have "\<dots> \<subseteq># mset sent + (under_way s + mset (sent_parcel op s))" by (rule mset_subset_eq_mono_add [OF subset_mset.order_refl conjunct1 [OF p]])
    finally show ?thesis using True r by (simp add: ac_simps)
  next
    case False
    let ?s = "sim_step (track walk) op s"
    from False i p have i': "mset handed + under_way s' = mset sent + under_way ?s"
      and p': "under_way ?s + mset (handed_parcel (track walk) op s) = under_way s + mset (sent_parcel op s)" by simp_all
    have "mset (handed_parcel (track walk) op s) + (mset handed + under_way s') =
        mset sent + (under_way ?s + mset (handed_parcel (track walk) op s))" unfolding i' by simp
    also have "\<dots> = mset (sent_parcel op s) + mset sent + under_way s" unfolding p' by simp
    finally show ?thesis using False r by (simp add: add.assoc)
  qed
qed simp

end
