(* ===== verification/Noise.thy ===== *)
theory Noise
  imports Quake_Prelude
begin

text \<open>
  \<^verbatim>\<open>core/noise/noise.go\<close>: the encryption of one link. \<^verbatim>\<open>github.com/flynn/noise\<close> is a parameter \<open>noise_lib\<close>: its
  handshake states and cipher states are opaque, an operation returns an error or a result, and the
  state after it (the Go objects are updated in place). What the wrapper relies on, the Noise XX pattern
  of three messages, is the predicate \<open>xx_pattern\<close>.

  Shown: before the last handshake message nothing is encrypted or decrypted; after it both ends are
  established, each end's sending cipher is the other's receiving one, and every message that one end
  encrypts the other decrypts to the same bytes, in whatever order the two directions alternate.
\<close>

section \<open>The library\<close>

record ('k, 'h, 'c) noise_lib =
  GenerateKeypair :: "error + 'k"
  NewHandshakeState :: "bool \<Rightarrow> 'k \<Rightarrow> error + 'h"
  WriteMessage :: "'h \<Rightarrow> bytes \<Rightarrow> (error + bytes \<times> ('c \<times> 'c) option) \<times> 'h"
  ReadMessage :: "'h \<Rightarrow> bytes \<Rightarrow> (error + bytes \<times> ('c \<times> 'c) option) \<times> 'h"
  lib_PeerStatic :: "'h \<Rightarrow> bytes"
  cs_Encrypt :: "'c \<Rightarrow> bytes \<Rightarrow> (error + bytes) \<times> 'c"
  cs_Decrypt :: "'c \<Rightarrow> bytes \<Rightarrow> (error + bytes) \<times> 'c"

section \<open>Sessions\<close>

abbreviation ErrNotEstablished :: error where "ErrNotEstablished \<equiv> Errmsg ''noise: handshake not established''"

record ('h, 'c) noise_session =
  ns_hs :: 'h
  ns_initiator :: bool
  ns_established :: bool
  ns_sendCipher :: "'c option"
  ns_recvCipher :: "'c option"

definition GenerateStaticKeypair :: "('k, 'h, 'c) noise_lib \<Rightarrow> error + 'k" where
  "GenerateStaticKeypair L = GenerateKeypair L"

definition newSession :: "('k, 'h, 'c) noise_lib \<Rightarrow> bool \<Rightarrow> 'k \<Rightarrow> error + ('h, 'c) noise_session" where
  "newSession L initiator local =
     (case NewHandshakeState L initiator local of
        Inl e \<Rightarrow> Inl e
      | Inr hs \<Rightarrow> Inr \<lparr>ns_hs = hs, ns_initiator = initiator, ns_established = False, ns_sendCipher = None, ns_recvCipher = None\<rparr>)"

definition NewInitiator :: "('k, 'h, 'c) noise_lib \<Rightarrow> 'k \<Rightarrow> error + ('h, 'c) noise_session" where
  "NewInitiator L local = newSession L True local"

definition NewResponder :: "('k, 'h, 'c) noise_lib \<Rightarrow> 'k \<Rightarrow> error + ('h, 'c) noise_session" where
  "NewResponder L local = newSession L False local"

definition maybeFinish :: "('c \<times> 'c) option \<Rightarrow> ('h, 'c) noise_session \<Rightarrow> ('h, 'c) noise_session" where
  "maybeFinish cs s =
     (case cs of
        None \<Rightarrow> s
      | Some (cs0, cs1) \<Rightarrow>
          (if ns_initiator s then s\<lparr>ns_sendCipher := Some cs0, ns_recvCipher := Some cs1\<rparr>
           else s\<lparr>ns_sendCipher := Some cs1, ns_recvCipher := Some cs0\<rparr>)\<lparr>ns_established := True\<rparr>)"

definition WriteHandshakeMessage :: "('k, 'h, 'c) noise_lib \<Rightarrow> bytes \<Rightarrow> (('h, 'c) noise_session, bytes) stmt" where
  "WriteHandshakeMessage L payload s =
     (case WriteMessage L (ns_hs s) payload of
        (Inl e, hs) \<Rightarrow> (Inl e, s\<lparr>ns_hs := hs\<rparr>)
      | (Inr (out, cs), hs) \<Rightarrow> (Inr out, maybeFinish cs (s\<lparr>ns_hs := hs\<rparr>)))"

definition ReadHandshakeMessage :: "('k, 'h, 'c) noise_lib \<Rightarrow> bytes \<Rightarrow> (('h, 'c) noise_session, bytes) stmt" where
  "ReadHandshakeMessage L msg s =
     (case ReadMessage L (ns_hs s) msg of
        (Inl e, hs) \<Rightarrow> (Inl e, s\<lparr>ns_hs := hs\<rparr>)
      | (Inr (payload, cs), hs) \<Rightarrow> (Inr payload, maybeFinish cs (s\<lparr>ns_hs := hs\<rparr>)))"

definition Established :: "('h, 'c) noise_session \<Rightarrow> bool" where
  "Established s = ns_established s"

definition PeerStatic :: "('k, 'h, 'c) noise_lib \<Rightarrow> ('h, 'c) noise_session \<Rightarrow> bytes" where
  "PeerStatic L s = lib_PeerStatic L (ns_hs s)"

text \<open>\<open>None\<close> as a cipher is the nil pointer; it is only looked at when the session is established.\<close>

definition noise_Encrypt :: "('k, 'h, 'c) noise_lib \<Rightarrow> bytes \<Rightarrow> (('h, 'c) noise_session, bytes) stmt" where
  "noise_Encrypt L plaintext s =
     (if \<not> ns_established s then (Inl ErrNotEstablished, s)
      else let (r, c) = cs_Encrypt L (the (ns_sendCipher s)) plaintext in (r, s\<lparr>ns_sendCipher := Some c\<rparr>))"

definition noise_Decrypt :: "('k, 'h, 'c) noise_lib \<Rightarrow> bytes \<Rightarrow> (('h, 'c) noise_session, bytes) stmt" where
  "noise_Decrypt L ciphertext s =
     (if \<not> ns_established s then (Inl ErrNotEstablished, s)
      else let (r, c) = cs_Decrypt L (the (ns_recvCipher s)) ciphertext in (r, s\<lparr>ns_recvCipher := Some c\<rparr>))"

section \<open>What the library promises\<close>

text \<open>
  \<open>linked k h g\<close>: the two ends of one handshake after \<open>k\<close> messages, the writer of the next one first;
  \<open>paired c d\<close>: what \<open>c\<close> encrypts next, \<open>d\<close> decrypts. The third message ends the handshake and yields both
  ends the same two ciphers, in the same order. A failed encryption leaves the cipher as it was.
\<close>

definition xx_pattern ::
  "('k, 'h, 'c) noise_lib \<Rightarrow> (nat \<Rightarrow> 'h \<Rightarrow> 'h \<Rightarrow> bool) \<Rightarrow> ('c \<Rightarrow> 'c \<Rightarrow> bool) \<Rightarrow> bool" where
  "xx_pattern L linked paired =
     ((\<forall>k k' h g. NewHandshakeState L True k = Inr h \<longrightarrow> NewHandshakeState L False k' = Inr g \<longrightarrow> linked 0 h g) \<and>
      (\<forall>n h g p msg cs h'. linked n h g \<longrightarrow> n < 3 \<longrightarrow> WriteMessage L h p = (Inr (msg, cs), h') \<longrightarrow>
         (\<exists>ds g'. ReadMessage L g msg = (Inr (p, ds), g') \<and>
            (if n < 2 then cs = None \<and> ds = None \<and> linked (n + 1) g' h'
             else \<exists>c0 c1 d0 d1. cs = Some (c0, c1) \<and> ds = Some (d0, d1) \<and> paired c0 d0 \<and> paired d1 c1))) \<and>
      (\<forall>c d p ct c'. paired c d \<longrightarrow> cs_Encrypt L c p = (Inr ct, c') \<longrightarrow>
         (\<exists>d'. cs_Decrypt L d ct = (Inr p, d') \<and> paired c' d')) \<and>
      (\<forall>c p e c'. cs_Encrypt L c p = (Inl e, c') \<longrightarrow> c' = c))"

section \<open>Two ends of a link\<close>

text \<open>One handshake message from \<open>a\<close> to \<open>b\<close>; the result is the payload that \<open>b\<close> got.\<close>

definition handshake_message ::
  "('k, 'h, 'c) noise_lib \<Rightarrow> bytes \<Rightarrow> ('h, 'c) noise_session \<times> ('h, 'c) noise_session \<Rightarrow>
   (error + bytes) \<times> ('h, 'c) noise_session \<times> ('h, 'c) noise_session" where
  "handshake_message L payload = (\<lambda>(a, b).
     case WriteHandshakeMessage L payload a of
       (Inl e, a') \<Rightarrow> (Inl e, a', b)
     | (Inr msg, a') \<Rightarrow> (let (r, b') = ReadHandshakeMessage L msg b in (r, a', b')))"

text \<open>The initiator writes the first and the third message, the responder the second.\<close>

definition handshake ::
  "('k, 'h, 'c) noise_lib \<Rightarrow> bytes \<Rightarrow> bytes \<Rightarrow> bytes \<Rightarrow> ('h, 'c) noise_session \<times> ('h, 'c) noise_session \<Rightarrow>
   (error + bytes list) \<times> ('h, 'c) noise_session \<times> ('h, 'c) noise_session" where
  "handshake L p1 p2 p3 = (\<lambda>(a, b).
     case handshake_message L p1 (a, b) of
       (Inl e, s) \<Rightarrow> (Inl e, s)
     | (Inr q1, a1, b1) \<Rightarrow>
         (case handshake_message L p2 (b1, a1) of
            (Inl e, b2, a2) \<Rightarrow> (Inl e, a2, b2)
          | (Inr q2, b2, a2) \<Rightarrow>
              (case handshake_message L p3 (a2, b2) of
                 (Inl e, s) \<Rightarrow> (Inl e, s)
               | (Inr q3, s) \<Rightarrow> (Inr [q1, q2, q3], s))))"

text \<open>
  Traffic: each entry is a message, from the initiator if the flag is set. The result says that the sender
  could not encrypt it (then it is not sent), or what the receiver made of it.
\<close>

fun talk ::
  "('k, 'h, 'c) noise_lib \<Rightarrow> (bool \<times> bytes) list \<Rightarrow> ('h, 'c) noise_session \<times> ('h, 'c) noise_session \<Rightarrow>
   (error + (error + bytes)) list" where
  "talk L [] s = []"
| "talk L ((fromInitiator, p) # ms) (a, b) =
     (if fromInitiator then
        (case noise_Encrypt L p a of
           (Inl e, a') \<Rightarrow> Inl e # talk L ms (a', b)
         | (Inr ct, a') \<Rightarrow> (let (r, b') = noise_Decrypt L ct b in Inr r # talk L ms (a', b')))
      else
        (case noise_Encrypt L p b of
           (Inl e, b') \<Rightarrow> Inl e # talk L ms (a, b')
         | (Inr ct, b') \<Rightarrow> (let (r, a') = noise_Decrypt L ct a in Inr r # talk L ms (a', b'))))"

section \<open>The handshake and after\<close>

lemma xx_new: "xx_pattern L linked paired \<Longrightarrow> NewHandshakeState L True k = Inr h \<Longrightarrow> NewHandshakeState L False k' = Inr g \<Longrightarrow> linked 0 h g"
  by (simp add: xx_pattern_def)

lemma xx_message:
  assumes "xx_pattern L linked paired" and "linked n h g" and "n < 3" and "WriteMessage L h p = (Inr (msg, cs), h')"
  shows "\<exists>ds g'. ReadMessage L g msg = (Inr (p, ds), g') \<and>
    (if n < 2 then cs = None \<and> ds = None \<and> linked (n + 1) g' h'
     else \<exists>c0 c1 d0 d1. cs = Some (c0, c1) \<and> ds = Some (d0, d1) \<and> paired c0 d0 \<and> paired d1 c1)"
proof -
  from assms(1) have "\<forall>n h g p msg cs h'. linked n h g \<longrightarrow> n < 3 \<longrightarrow> WriteMessage L h p = (Inr (msg, cs), h') \<longrightarrow>
         (\<exists>ds g'. ReadMessage L g msg = (Inr (p, ds), g') \<and>
            (if n < 2 then cs = None \<and> ds = None \<and> linked (n + 1) g' h'
             else \<exists>c0 c1 d0 d1. cs = Some (c0, c1) \<and> ds = Some (d0, d1) \<and> paired c0 d0 \<and> paired d1 c1))"
    unfolding xx_pattern_def by (elim conjE)
  with assms(2-4) show ?thesis by blast
qed

lemma xx_cipher:
  assumes "xx_pattern L linked paired" and "paired c d"
  shows "cs_Encrypt L c p = (Inr ct, c') \<Longrightarrow> \<exists>d'. cs_Decrypt L d ct = (Inr p, d') \<and> paired c' d'"
    and "cs_Encrypt L c p = (Inl e, c') \<Longrightarrow> c' = c"
  using assms unfolding xx_pattern_def by blast+

text \<open>One message of the first two keeps both ends open; the third establishes both.\<close>

lemma handshake_message_step:
  assumes "xx_pattern L linked paired" and "linked n (ns_hs a) (ns_hs b)" and "n < 3"
    and "handshake_message L p (a, b) = (Inr q, a', b')"
  shows "q = p \<and> ns_initiator a' = ns_initiator a \<and> ns_initiator b' = ns_initiator b \<and>
    (if n < 2 then linked (n + 1) (ns_hs b') (ns_hs a') \<and> ns_established a' = ns_established a \<and> ns_established b' = ns_established b
     else ns_established a' \<and> ns_established b' \<and>
       (ns_initiator a \<and> \<not> ns_initiator b \<longrightarrow>
          (\<exists>c0 c1 d0 d1. ns_sendCipher a' = Some c0 \<and> ns_recvCipher a' = Some c1 \<and> ns_recvCipher b' = Some d0 \<and>
             ns_sendCipher b' = Some d1 \<and> paired c0 d0 \<and> paired d1 c1)))"
proof -
  from assms(4) obtain msg cs h' where w: "WriteMessage L (ns_hs a) p = (Inr (msg, cs), h')"
    by (auto simp: handshake_message_def WriteHandshakeMessage_def split: prod.splits sum.splits)
  from xx_message [OF assms(1-3) w] obtain ds g' where r: "ReadMessage L (ns_hs b) msg = (Inr (p, ds), g')"
    and n: "if n < 2 then cs = None \<and> ds = None \<and> linked (n + 1) g' h'
      else \<exists>c0 c1 d0 d1. cs = Some (c0, c1) \<and> ds = Some (d0, d1) \<and> paired c0 d0 \<and> paired d1 c1" by blast
  have e: "q = p" "a' = maybeFinish cs (a\<lparr>ns_hs := h'\<rparr>)" "b' = maybeFinish ds (b\<lparr>ns_hs := g'\<rparr>)"
    using assms(4) w r by (auto simp: handshake_message_def WriteHandshakeMessage_def ReadHandshakeMessage_def)
  show ?thesis using n by (auto simp: e maybeFinish_def split: if_splits)
qed

text \<open>Both ends are established and their ciphers belong together.\<close>

definition in_session ::
  "('c \<Rightarrow> 'c \<Rightarrow> bool) \<Rightarrow> ('h, 'c) noise_session \<Rightarrow> ('h, 'c) noise_session \<Rightarrow> bool" where
  "in_session paired a b = (ns_established a \<and> ns_established b \<and>
     (\<exists>c0 c1 d0 d1. ns_sendCipher a = Some c0 \<and> ns_recvCipher a = Some c1 \<and> ns_recvCipher b = Some d0 \<and>
        ns_sendCipher b = Some d1 \<and> paired c0 d0 \<and> paired d1 c1))"

lemma in_session_sym: "in_session paired a b = in_session paired b a"
  by (auto simp: in_session_def)

lemma session_message:
  assumes "xx_pattern L linked paired" and "in_session paired a b"
  shows "case noise_Encrypt L p a of
      (Inl e, a') \<Rightarrow> in_session paired a' b
    | (Inr ct, a') \<Rightarrow> \<exists>b'. noise_Decrypt L ct b = (Inr p, b') \<and> in_session paired a' b'"
proof -
  from assms(2) obtain c0 c1 d0 d1 where s: "ns_established a" "ns_established b" "ns_sendCipher a = Some c0" "ns_recvCipher a = Some c1"
    "ns_recvCipher b = Some d0" "ns_sendCipher b = Some d1" "paired c0 d0" "paired d1 c1" by (auto simp: in_session_def)
  obtain r c' where c: "cs_Encrypt L c0 p = (r, c')" by force
  show ?thesis
  proof (cases r)
    case (Inl e)
    with xx_cipher(2) [OF assms(1) s(7)] c have "c' = c0" by blast
    with Inl s c show ?thesis by (simp add: noise_Encrypt_def in_session_def)
  next
    case (Inr ct)
    with xx_cipher(1) [OF assms(1) s(7)] c obtain d' where "cs_Decrypt L d0 ct = (Inr p, d')" "paired c' d'" by blast
    with Inr s c show ?thesis by (simp add: noise_Encrypt_def noise_Decrypt_def in_session_def)
  qed
qed

lemma talk_decrypts:
  assumes "xx_pattern L linked paired" and "in_session paired a b"
  shows "list_all2 (\<lambda>(_, p) x. case x of Inl e \<Rightarrow> True | Inr r \<Rightarrow> r = Inr p) ms (talk L ms (a, b))"
  using assms(2)
proof (induction ms arbitrary: a b)
  case (Cons m ms)
  obtain ini p where m: "m = (ini, p)" by force
  show ?case
  proof (cases ini)
    case True
    from session_message [OF assms(1) Cons.prems, of p] Cons.IH True show ?thesis
      by (auto simp: m split: prod.splits sum.splits)
  next
    case False
    have "in_session paired b a" using Cons.prems in_session_sym by blast
    from session_message [OF assms(1) this, of p] Cons.IH in_session_sym [of paired] False show ?thesis
      by (auto simp: m split: prod.splits sum.splits)
  qed
qed simp

text \<open>
  C19. A link talks. When an initiator and a responder complete the three handshake messages, each got the
  payloads that the other attached, both are established, and from then on, however the two directions
  interleave, a message that its sender can encrypt is decrypted by the other end to the bytes that were
  sent. After the first two messages neither end was established yet.
\<close>

theorem link_talks:
  assumes "xx_pattern L linked paired" and "NewInitiator L k = Inr a" and "NewResponder L k' = Inr b"
    and "handshake L p1 p2 p3 (a, b) = (Inr qs, a', b')"
  shows "qs = [p1, p2, p3] \<and> Established a' \<and> Established b' \<and>
    list_all2 (\<lambda>(_, p) x. case x of Inl e \<Rightarrow> True | Inr r \<Rightarrow> r = Inr p) ms (talk L ms (a', b')) \<and>
    (\<exists>a1 b1 a2 b2. handshake_message L p1 (a, b) = (Inr p1, a1, b1) \<and> handshake_message L p2 (b1, a1) = (Inr p2, b2, a2) \<and>
       \<not> Established a1 \<and> \<not> Established b1 \<and> \<not> Established a2 \<and> \<not> Established b2)"
proof -
  have new: "NewHandshakeState L True k = Inr (ns_hs a)" "NewHandshakeState L False k' = Inr (ns_hs b)"
    and s0: "ns_initiator a" "\<not> ns_initiator b" "\<not> ns_established a" "\<not> ns_established b"
    using assms(2,3) by (auto simp: NewInitiator_def NewResponder_def newSession_def split: sum.splits)
  from xx_new [OF assms(1) new] have l0: "linked 0 (ns_hs a) (ns_hs b)" .
  from assms(4) obtain q1 q2 q3 a1 b1 a2 b2 where h:
    "handshake_message L p1 (a, b) = (Inr q1, a1, b1)" "handshake_message L p2 (b1, a1) = (Inr q2, b2, a2)"
    "handshake_message L p3 (a2, b2) = (Inr q3, a', b')" "qs = [q1, q2, q3]"
    by (auto simp: handshake_def split: prod.splits sum.splits)
  note st1 = handshake_message_step [OF assms(1) l0 _ h(1)]
  then have l1: "linked 1 (ns_hs b1) (ns_hs a1)" by simp
  note st2 = handshake_message_step [OF assms(1) l1 _ h(2)]
  then have l2: "linked 2 (ns_hs a2) (ns_hs b2)" by (simp add: numeral_2_eq_2)
  note st3 = handshake_message_step [OF assms(1) l2 _ h(3)]
  have "in_session paired a' b'" using st1 st2 st3 s0 by (auto simp: in_session_def)
  with talk_decrypts [OF assms(1) this, of ms] st1 st2 h s0 st3 show ?thesis by (auto simp: Established_def)
qed

section \<open>A library without secrets\<close>

text \<open>Messages carry a counter in clear text; a receiver refuses any other one than the next.\<close>

definition clear_lib :: "(unit, nat, nat) noise_lib" where
  "clear_lib = \<lparr>GenerateKeypair = Inr (), NewHandshakeState = (\<lambda>_ _. Inr 0),
     WriteMessage = (\<lambda>n p. (Inr (of_nat n # p, if n = 2 then Some (0, 100) else None), n + 1)),
     ReadMessage = (\<lambda>n msg. if msg \<noteq> [] \<and> hd msg = of_nat n then (Inr (tl msg, if n = 2 then Some (0, 100) else None), n + 1) else (Inl NoRows, n)),
     lib_PeerStatic = (\<lambda>_. []),
     cs_Encrypt = (\<lambda>n p. (Inr (of_nat n # p), n + 1)),
     cs_Decrypt = (\<lambda>n ct. if ct \<noteq> [] \<and> hd ct = of_nat n then (Inr (tl ct), n + 1) else (Inl NoRows, n))\<rparr>"

lemma clear_lib_xx: "xx_pattern clear_lib (\<lambda>n h g. h = n \<and> g = n) (=)"
  by (auto simp: xx_pattern_def clear_lib_def)

theorem link_talks_witness:
  "\<exists>a b a' b'. NewInitiator clear_lib () = Inr a \<and> NewResponder clear_lib () = Inr b \<and>
     handshake clear_lib [1] [] [3] (a, b) = (Inr [[1], [], [3]], a', b') \<and> Established a' \<and> Established b' \<and>
     list_all2 (\<lambda>(_, p) x. case x of Inl e \<Rightarrow> True | Inr r \<Rightarrow> r = Inr p) [(True, [7]), (False, [8]), (False, [])]
       (talk clear_lib [(True, [7]), (False, [8]), (False, [])] (a', b'))"
proof -
  let ?s = "\<lambda>i. \<lparr>ns_hs = 0, ns_initiator = i, ns_established = False, ns_sendCipher = None, ns_recvCipher = None\<rparr> :: (nat, nat) noise_session"
  have n: "NewInitiator clear_lib () = Inr (?s True)" "NewResponder clear_lib () = Inr (?s False)"
    by (simp_all add: NewInitiator_def NewResponder_def newSession_def clear_lib_def)
  have "fst (handshake clear_lib [1] [] [3] (?s True, ?s False)) = Inr [[1], [], [3]]"
    by code_simp
  then obtain a' b' where h: "handshake clear_lib [1] [] [3] (?s True, ?s False) = (Inr [[1], [], [3]], a', b')"
    by (metis prod.collapse)
  from link_talks [OF clear_lib_xx n h, of "[(True, [7]), (False, [8]), (False, [])]"] n h show ?thesis by blast
qed

end
