(* ===== verification/Sdk.thy ===== *)
theory Sdk
  imports Daemon
begin

text \<open>
  \<^verbatim>\<open>sdk/go/client.go\<close>: the client of the hub's local API, and the HTTP layer between it and the handlers
  of \<^verbatim>\<open>hub/internal/daemonapi/daemonapi.go\<close> (routing by path, status codes, JSON fields, query strings,
  with the server's \<^verbatim>\<open>New\<close>, \<^verbatim>\<open>Start\<close> and \<^verbatim>\<open>Close\<close>). JSON is the field names with their values; strings
  are taken to be UTF-8, which \<^verbatim>\<open>encoding/json\<close> leaves as they are. A client call is a statement on the
  client and the state of the server it talks to; the transport \<open>do\<close> is a parameter, instantiated with
  the daemon's handlers.

  Shown: payloads and node ids survive the encodings; what a client sends is enqueued as it was given,
  what it receives is what waits in the inbox up to the first empty message; a topic arrives unchanged
  when it has no character with a meaning in a query, and is cut at an ampersand; a subscription
  delivers what was published while a poll was open, and never ends on an error status.
\<close>

section \<open>Base64\<close>

text \<open>The standard alphabet.\<close>

definition b64_char :: "nat \<Rightarrow> char" where
  "b64_char n = char_of
     (if n < 26 then n + 65 else if n < 52 then n + 71 else if n < 62 then n - 4 else if n = 62 then 43 else 47)"

text \<open>\<^verbatim>\<open>base64.StdEncoding.EncodeToString\<close>\<close>

fun b64_EncodeToString :: "bytes \<Rightarrow> string" where
  "b64_EncodeToString [] = []"
| "b64_EncodeToString [a] =
     (let x = unat a in [b64_char (x div 4), b64_char (x mod 4 * 16), CHR ''='', CHR ''=''])"
| "b64_EncodeToString [a, b] =
     (let x = unat a; y = unat b
      in [b64_char (x div 4), b64_char (x mod 4 * 16 + y div 16), b64_char (y mod 16 * 4), CHR ''=''])"
| "b64_EncodeToString (a # b # c # rest) =
     (let x = unat a; y = unat b; z = unat c
      in [b64_char (x div 4), b64_char (x mod 4 * 16 + y div 16), b64_char (y mod 16 * 4 + z div 64), b64_char (z mod 64)]
         @ b64_EncodeToString rest)"

section \<open>Requests and responses\<close>

datatype http_body = PlainText string | JsonObject "(string \<times> string) list" "(string \<times> string list) list"

record http_request =
  hq_Method :: string
  hq_Path :: string
  hq_RawQuery :: string
  hq_Session :: string
  hq_Body :: http_body

record http_response =
  hr_Status :: nat
  hr_Body :: http_body

text \<open>
  \<^verbatim>\<open>json.Unmarshal\<close> into a struct: a text that is not an object is an error, an absent field has its zero
  value.
\<close>

definition json_string :: "http_body \<Rightarrow> string \<Rightarrow> string option" where
  "json_string b k = (case b of PlainText _ \<Rightarrow> None | JsonObject ss ls \<Rightarrow> Some (case map_of ss k of None \<Rightarrow> '''' | Some s \<Rightarrow> s))"

definition json_list :: "http_body \<Rightarrow> string \<Rightarrow> string list option" where
  "json_list b k = (case b of PlainText _ \<Rightarrow> None | JsonObject ss ls \<Rightarrow> Some (case map_of ls k of None \<Rightarrow> [] | Some l \<Rightarrow> l))"

text \<open>\<^verbatim>\<open>url.ParseQuery\<close> and \<^verbatim>\<open>Values.Get\<close>: a pair with a semicolon or a bad escape is dropped, the first value counts.\<close>

fun Split_amp :: "string \<Rightarrow> string list" where
  "Split_amp [] = [[]]"
| "Split_amp (c # cs) =
     (case Split_amp cs of
        [] \<Rightarrow> [[c]]
      | p # ps \<Rightarrow> if c = CHR ''&'' then [] # p # ps else (c # p) # ps)"

fun QueryUnescape :: "string \<Rightarrow> string option" where
  "QueryUnescape [] = Some []"
| "QueryUnescape (c # cs) =
     (if c = CHR ''%'' then
        (case cs of
           a # b # rest \<Rightarrow>
             (case (from_hex_char a, from_hex_char b) of
                (Some h, Some l) \<Rightarrow> map_option ((#) (char_of (16 * h + l))) (QueryUnescape rest)
              | _ \<Rightarrow> None)
         | _ \<Rightarrow> None)
      else if c = CHR ''+'' then map_option ((#) (CHR '' '')) (QueryUnescape cs)
      else map_option ((#) c) (QueryUnescape cs))"

definition query_pair :: "string \<Rightarrow> (string \<times> string) option" where
  "query_pair p =
     (if p = [] \<or> CHR '';'' \<in> set p then None
      else case (QueryUnescape (takeWhile (\<lambda>c. c \<noteq> CHR ''='') p), QueryUnescape (drop 1 (dropWhile (\<lambda>c. c \<noteq> CHR ''='') p))) of
        (Some k, Some v) \<Rightarrow> Some (k, v)
      | _ \<Rightarrow> None)"

definition query_Get :: "string \<Rightarrow> string \<Rightarrow> string" where
  "query_Get raw k = (case map_of (List.map_filter query_pair (Split_amp raw)) k of None \<Rightarrow> '''' | Some v \<Rightarrow> v)"

section \<open>The server's side\<close>

text \<open>What the writer of a handler puts on the wire.\<close>

definition respond :: "response \<Rightarrow> http_response" where
  "respond resp = (case resp of
     HttpError code m \<Rightarrow> \<lparr>hr_Status = code, hr_Body = PlainText (m @ [CHR 0x0A])\<rparr>
   | NoContent \<Rightarrow> \<lparr>hr_Status = 204, hr_Body = PlainText ''''\<rparr>
   | JsonRegister token node \<Rightarrow> \<lparr>hr_Status = 200, hr_Body = JsonObject [(''session_token'', token), (''node_id'', node)] []\<rparr>
   | JsonOk \<Rightarrow> \<lparr>hr_Status = 200, hr_Body = JsonObject [] []\<rparr>
   | JsonPayload p \<Rightarrow> \<lparr>hr_Status = 200, hr_Body = JsonObject [(''payload_b64'', b64_EncodeToString p)] []\<rparr>
   | JsonPeers ps \<Rightarrow> \<lparr>hr_Status = 200, hr_Body = JsonObject [] [(''peers'', ps)]\<rparr>
   | NoResponse \<Rightarrow> \<lparr>hr_Status = 200, hr_Body = PlainText ''''\<rparr>)"

definition to_request :: "http_request \<Rightarrow> request" where
  "to_request q = \<lparr>r_Method = hq_Method q, r_SessionHeader = hq_Session q, r_Query = query_Get (hq_RawQuery q)\<rparr>"

definition field :: "http_request \<Rightarrow> string \<Rightarrow> string" where
  "field q k = (case json_string (hq_Body q) k of None \<Rightarrow> '''' | Some s \<Rightarrow> s)"

definition decoded :: "http_request \<Rightarrow> 'b \<Rightarrow> 'b option" where
  "decoded q b = (case hq_Body q of PlainText _ \<Rightarrow> None | JsonObject _ _ \<Rightarrow> Some b)"

text \<open>
  The mux of \<^verbatim>\<open>New\<close>. A subscription is open until its arm fires, so its two steps are served apart; here
  only its refusals are.
\<close>

definition daemon_serve ::
  "('a daemon_world_scheme) daemon_config \<Rightarrow> error + bytes \<Rightarrow> time \<Rightarrow> nat \<Rightarrow> http_request \<Rightarrow>
   'a daemon_world_scheme \<Rightarrow> http_response \<times> 'a daemon_world_scheme" where
  "daemon_serve cfg entropy now ch q w =
     (let r = to_request q;
          (resp, w1) =
            (if hq_Path q = ''/v1/register'' then
               handleRegister cfg entropy now r
                 (decoded q \<lparr>rb_AppID = field q ''app_id'', rb_AppName = field q ''app_name'', rb_AppVersion = field q ''app_version''\<rparr>) w
             else if hq_Path q = ''/v1/send'' then
               handleSend cfg r (decoded q \<lparr>sb_DestNodeID = field q ''dest_node_id'', sb_PayloadB64 = field q ''payload_b64''\<rparr>) w
             else if hq_Path q = ''/v1/receive'' then handleReceive r w
             else if hq_Path q = ''/v1/publish'' then
               handlePublish cfg r (decoded q \<lparr>pb_Topic = field q ''topic'', pb_PayloadB64 = field q ''payload_b64''\<rparr>) w
             else if hq_Path q = ''/v1/subscribe'' then subscribe_open ch r w
             else if hq_Path q = ''/v1/discover-peers'' then handleDiscoverPeers cfg r w
             else (HttpError 404 ''404 page not found'', w))
      in (respond resp, w1))"

text \<open>
  \<^verbatim>\<open>Start\<close>: \<open>mkdir\<close> and \<open>listen\<close> are the file system and the socket; a stale socket file is removed and
  the result of that ignored. \<open>Some\<close> is the listener's address.
\<close>

definition daemon_Start ::
  "(string \<Rightarrow> error option) \<Rightarrow> (string \<Rightarrow> string \<Rightarrow> error + string) \<Rightarrow> string \<Rightarrow> error + string" where
  "daemon_Start mkdir listen listenAddr =
     (case splitListenAddr listenAddr of
        Inl e \<Rightarrow> Inl e
      | Inr (network, addr) \<Rightarrow>
          (case (if network = ''unix'' then mkdir addr else None) of
             Some e \<Rightarrow> Inl (Wrap ''daemonapi: mkdir'' e)
           | None \<Rightarrow> (case listen network addr of
               Inl e \<Rightarrow> Inl (Wrap (''daemonapi: listen '' @ listenAddr) e)
             | Inr a \<Rightarrow> Inr a)))"


section \<open>The client\<close>

record sdk_session =
  sdk_AppID :: string
  sdk_AppName :: string
  sdk_AppVersion :: string
  sdk_NodeID :: bytes

record sdk_client =
  cl_session :: "sdk_session option"
  cl_token :: string

definition sdk_New :: sdk_client where
  "sdk_New = \<lparr>cl_session = None, cl_token = ''''\<rparr>"

text \<open>A transport: \<^verbatim>\<open>httpClient.Do\<close>, whose error is one of the connection.\<close>

type_synonym 'w transport = "http_request \<Rightarrow> ('w, http_response) stmt"

text \<open>
  \<^verbatim>\<open>http.NewRequest\<close> on a path and a query written by the caller: control characters are refused, what
  follows a number sign is the fragment, which must unescape.
\<close>

definition is_ctl :: "char \<Rightarrow> bool" where
  "is_ctl c = ((of_char c :: nat) < 32 \<or> (of_char c :: nat) = 127)"

definition NewRequest :: "string \<Rightarrow> string \<Rightarrow> string \<Rightarrow> string \<Rightarrow> http_body \<Rightarrow> error + http_request" where
  "NewRequest meth path raw token body =
     (if list_ex is_ctl raw \<or> QueryUnescape (drop 1 (dropWhile (\<lambda>c. c \<noteq> CHR ''#'') raw)) = None
      then Inl (Errmsg ''parse'')
      else Inr \<lparr>hq_Method = meth, hq_Path = path, hq_RawQuery = takeWhile (\<lambda>c. c \<noteq> CHR ''#'') raw, hq_Session = token, hq_Body = body\<rparr>)"

definition sdk_do :: "'w transport \<Rightarrow> error + http_request \<Rightarrow> ('w, http_response) stmt" where
  "sdk_do do req = (case req of Inl e \<Rightarrow> fail e | Inr q \<Rightarrow> do q)"

definition body_text :: "http_body \<Rightarrow> string" where
  "body_text b = (case b of PlainText m \<Rightarrow> m | JsonObject _ _ \<Rightarrow> '''')"

definition sdk_post :: "'w transport \<Rightarrow> string \<Rightarrow> http_body \<Rightarrow> string \<Rightarrow> ('w, http_body) stmt" where
  "sdk_post do path body token =
     bnd (sdk_do do (NewRequest ''POST'' path '''' token body)) (\<lambda>resp.
     if hr_Status resp \<ge> 300 then fail (Errmsg (''sdk: '' @ path @ '': '' @ body_text (hr_Body resp)))
     else ret (hr_Body resp))"

text \<open>\<^verbatim>\<open>hex.DecodeString\<close> with its error ignored: the bytes before the fault.\<close>

fun hex_prefix :: "string \<Rightarrow> bytes" where
  "hex_prefix (c # d # s) =
     (case (from_hex_char c, from_hex_char d) of
        (Some h, Some l) \<Rightarrow> of_nat (16 * h + l) # hex_prefix s
      | _ \<Rightarrow> [])"
| "hex_prefix _ = []"

definition sdk_Register ::
  "'w transport \<Rightarrow> string \<Rightarrow> string \<Rightarrow> string \<Rightarrow> string list \<Rightarrow> (sdk_client \<times> 'w, sdk_session) stmt" where
  "sdk_Register do appID appName appVersion capabilities = (\<lambda>(c, w).
     case sdk_post do ''/v1/register''
            (JsonObject [(''app_id'', appID), (''app_name'', appName), (''app_version'', appVersion)] [(''capabilities'', capabilities)]) '''' w of
       (Inl e, w1) \<Rightarrow> (Inl e, (c, w1))
     | (Inr body, w1) \<Rightarrow>
         (case (json_string body ''session_token'', json_string body ''node_id'') of
            (Some token, Some node) \<Rightarrow>
              (let sess = \<lparr>sdk_AppID = appID, sdk_AppName = appName, sdk_AppVersion = appVersion, sdk_NodeID = hex_prefix node\<rparr>
               in (Inr sess, (c\<lparr>cl_token := token, cl_session := Some sess\<rparr>, w1)))
          | _ \<Rightarrow> (Inl (Errmsg ''json''), (c, w1))))"

definition sdk_Send :: "'w transport \<Rightarrow> sdk_client \<Rightarrow> bytes \<Rightarrow> bytes \<Rightarrow> ('w, unit) stmt" where
  "sdk_Send do c destNodeID payload =
     (if cl_token c = '''' then fail (Errmsg ''sdk: not registered'')
      else bnd (sdk_post do ''/v1/send''
             (JsonObject [(''dest_node_id'', hex_EncodeToString destNodeID), (''payload_b64'', b64_EncodeToString payload)] []) (cl_token c))
           (\<lambda>_. ret ()))"

definition sdk_Publish :: "'w transport \<Rightarrow> sdk_client \<Rightarrow> string \<Rightarrow> bytes \<Rightarrow> ('w, unit) stmt" where
  "sdk_Publish do c topic payload =
     bnd (sdk_post do ''/v1/publish'' (JsonObject [(''topic'', topic), (''payload_b64'', b64_EncodeToString payload)] []) (cl_token c))
       (\<lambda>_. ret ())"

text \<open>The payload of a response; an error is one of the JSON or of the base64 decoder.\<close>

definition read_payload :: "http_response \<Rightarrow> error + bytes" where
  "read_payload resp =
     (case json_string (hr_Body resp) ''payload_b64'' of
        None \<Rightarrow> Inl (Errmsg ''json'')
      | Some s \<Rightarrow> (case b64_DecodeString s of None \<Rightarrow> Inl (Errmsg ''base64'') | Some raw \<Rightarrow> Inr raw))"

definition pollReceive :: "'w transport \<Rightarrow> sdk_client \<Rightarrow> ('w, bytes option) stmt" where
  "pollReceive do c =
     bnd (sdk_do do (NewRequest ''GET'' ''/v1/receive'' '''' (cl_token c) (PlainText ''''))) (\<lambda>resp.
     if hr_Status resp = 204 then ret None
     else case read_payload resp of Inl e \<Rightarrow> fail e | Inr raw \<Rightarrow> ret (Some raw))"

text \<open>
  The loop of \<^verbatim>\<open>Receive\<close>, at most \<open>n\<close> rounds of it: the payloads that went into the channel, and whether the
  channel was closed.
\<close>

fun sdk_Receive :: "'w transport \<Rightarrow> sdk_client \<Rightarrow> nat \<Rightarrow> 'w \<Rightarrow> (bytes list \<times> bool) \<times> 'w" where
  "sdk_Receive do c 0 w = (([], False), w)"
| "sdk_Receive do c (Suc n) w =
     (case pollReceive do c w of
        (Inr (Some p), w1) \<Rightarrow> (let ((ps, ended), w2) = sdk_Receive do c n w1 in ((p # ps, ended), w2))
      | (_, w1) \<Rightarrow> (([], True), w1))"

text \<open>A round of \<^verbatim>\<open>Subscribe\<close>: what the loop does with the response of one long poll.\<close>

datatype sub_round = SubStop | SubAgain | SubEmit bytes

definition subscribe_request :: "sdk_client \<Rightarrow> string \<Rightarrow> error + http_request" where
  "subscribe_request c topic =
     NewRequest ''GET'' ''/v1/subscribe'' (''topic='' @ topic @ ''&timeout=25s'') (cl_token c) (PlainText '''')"

definition subscribe_result :: "error + http_response \<Rightarrow> sub_round" where
  "subscribe_result r =
     (case r of
        Inl e \<Rightarrow> SubStop
      | Inr resp \<Rightarrow>
          if hr_Status resp = 204 then SubAgain
          else case read_payload resp of Inl e \<Rightarrow> SubAgain | Inr raw \<Rightarrow> SubEmit raw)"

fun sdk_Subscribe :: "'w transport \<Rightarrow> sdk_client \<Rightarrow> string \<Rightarrow> nat \<Rightarrow> 'w \<Rightarrow> (bytes list \<times> bool) \<times> 'w" where
  "sdk_Subscribe do c topic 0 w = (([], False), w)"
| "sdk_Subscribe do c topic (Suc n) w =
     (let (r, w1) = sdk_do do (subscribe_request c topic) w
      in case subscribe_result r of
           SubStop \<Rightarrow> (([], True), w1)
         | SubAgain \<Rightarrow> sdk_Subscribe do c topic n w1
         | SubEmit p \<Rightarrow> (let ((ps, ended), w2) = sdk_Subscribe do c topic n w1 in ((p # ps, ended), w2)))"

definition sdk_DiscoverPeers :: "'w transport \<Rightarrow> sdk_client \<Rightarrow> string \<Rightarrow> string \<Rightarrow> ('w, bytes list) stmt" where
  "sdk_DiscoverPeers do c appID versionConstraint =
     bnd (sdk_do do (NewRequest ''GET'' ''/v1/discover-peers''
            (''app_id='' @ appID @ (if versionConstraint \<noteq> '''' then ''&version_constraint='' @ versionConstraint else ''''))
            (cl_token c) (PlainText ''''))) (\<lambda>resp.
     case json_list (hr_Body resp) ''peers'' of
       None \<Rightarrow> fail (Errmsg ''json'')
     | Some ps \<Rightarrow> ret (List.map_filter hex_DecodeString ps))"

text \<open>
  The transport to a hub: a blank in the query breaks the request line, which the HTTP server refuses
  before any handler sees the request.
\<close>

definition daemon_do ::
  "('a daemon_world_scheme) daemon_config \<Rightarrow> error + bytes \<Rightarrow> time \<Rightarrow> nat \<Rightarrow> ('a daemon_world_scheme) transport" where
  "daemon_do cfg entropy now ch q w =
     (if CHR '' '' \<in> set (hq_RawQuery q) then (Inr \<lparr>hr_Status = 400, hr_Body = PlainText ''400 Bad Request''\<rparr>, w)
      else let (resp, w1) = daemon_serve cfg entropy now ch q w in (Inr resp, w1))"


section \<open>The encodings\<close>

lemma b64_char_simps [simp]:
  assumes "n < 64"
  shows "b64_value (b64_char n) = Some n" and "b64_char n \<noteq> CHR ''=''" and "(of_char (b64_char n) :: nat) \<noteq> 10"
    and "(of_char (b64_char n) :: nat) \<noteq> 13"
proof -
  show v: "b64_value (b64_char n) = Some n" using assms by (auto simp: b64_value_def b64_char_def Let_def)
  then show "b64_char n \<noteq> CHR ''=''" "(of_char (b64_char n) :: nat) \<noteq> 10" "(of_char (b64_char n) :: nat) \<noteq> 13"
    by (auto simp: b64_value_def Let_def)
qed

lemma pack:
  fixes a b k :: nat
  assumes "b < k"
  shows "(a * k + b) div k = a" and "(a * k + b) mod k = b"
  using assms by simp_all

lemma sextets:
  fixes x y z :: nat
  assumes "x < 256" and "y < 256" and "z < 256"
  shows "x div 4 < 64" "x mod 4 * 16 < 64" "x mod 4 * 16 + y div 16 < 64" "y mod 16 * 4 < 64" "y mod 16 * 4 + z div 64 < 64"
    "z mod 64 < 64" "x div 4 * 4 + (x mod 4 * 16) div 16 = x" "x div 4 * 4 + (x mod 4 * 16 + y div 16) div 16 = x"
    "(x mod 4 * 16 + y div 16) mod 16 * 16 + (y mod 16 * 4) div 4 = y"
    "(x mod 4 * 16 + y div 16) mod 16 * 16 + (y mod 16 * 4 + z div 64) div 4 = y"
    "(y mod 16 * 4 + z div 64) mod 4 * 64 + z mod 64 = z"
proof -
  have d: "y div 16 < 16" "z div 64 < 4" "x mod 4 < 4" "y mod 16 < 16" using assms by auto
  then show "x div 4 < 64" "x mod 4 * 16 < 64" "x mod 4 * 16 + y div 16 < 64" "y mod 16 * 4 < 64" "y mod 16 * 4 + z div 64 < 64"
    "z mod 64 < 64" using assms by linarith+
  show "x div 4 * 4 + (x mod 4 * 16) div 16 = x" "x div 4 * 4 + (x mod 4 * 16 + y div 16) div 16 = x"
    "(x mod 4 * 16 + y div 16) mod 16 * 16 + (y mod 16 * 4) div 4 = y"
    "(x mod 4 * 16 + y div 16) mod 16 * 16 + (y mod 16 * 4 + z div 64) div 4 = y"
    "(y mod 16 * 4 + z div 64) mod 4 * 64 + z mod 64 = z"
    unfolding pack [OF d(1)] pack [OF d(2)] by simp_all
qed

lemma unat_byte [simp]: "unat (a :: byte) < 256"
  using unsigned_less [of a] by simp

lemma of_nat_unat_byte: "x = unat (a :: byte) \<Longrightarrow> of_nat (x mod 256) = a"
  by simp

lemma b64_quads_chars:
  assumes "p < 64" and "q < 64" and "r < 64" and "u < 64"
  shows "b64_quads [b64_char p, b64_char q, CHR ''='', CHR ''=''] = Some [of_nat ((p * 4 + q div 16) mod 256)]"
    and "b64_quads [b64_char p, b64_char q, b64_char r, CHR ''=''] =
      Some [of_nat ((p * 4 + q div 16) mod 256), of_nat ((q mod 16 * 16 + r div 4) mod 256)]"
    and "b64_quads (b64_char p # b64_char q # b64_char r # b64_char u # rest) =
      map_option (\<lambda>bs. of_nat ((p * 4 + q div 16) mod 256) # of_nat ((q mod 16 * 16 + r div 4) mod 256) #
        of_nat ((r mod 4 * 64 + u) mod 256) # bs) (b64_quads rest)"
  using assms by (simp_all add: Let_def del: of_nat_add of_nat_mult)

lemma b64_quads_encode: "b64_quads (b64_EncodeToString bs) = Some bs"
proof (induction bs rule: b64_EncodeToString.induct)
  case (2 a)
  note s = sextets [OF unat_byte [of a] unat_byte [of a] unat_byte [of a]]
  show ?case
    unfolding b64_EncodeToString.simps Let_def b64_quads_chars(1) [OF s(1,2,1,1)] s of_nat_unat_byte [OF refl] ..
next
  case (3 a b)
  note s = sextets [OF unat_byte [of a] unat_byte [of b] unat_byte [of b]]
  show ?case
    unfolding b64_EncodeToString.simps Let_def b64_quads_chars(2) [OF s(1,3,4,1)] s of_nat_unat_byte [OF refl] ..
next
  case (4 a b c rest)
  note s = sextets [OF unat_byte [of a] unat_byte [of b] unat_byte [of c]]
  show ?case
    unfolding b64_EncodeToString.simps Let_def append_Cons append_Nil b64_quads_chars(3) [OF s(1,3,5,6)] s of_nat_unat_byte [OF refl] 4 [OF refl refl refl]
    by simp
qed simp

lemma b64_encode_clean: "\<forall>x \<in> set (b64_EncodeToString bs). (of_char x :: nat) \<noteq> 10 \<and> (of_char x :: nat) \<noteq> 13"
proof (induction bs rule: b64_EncodeToString.induct)
  case (2 a)
  show ?case using sextets [of "unat a" 0 0] by (simp add: Let_def)
next
  case (3 a b)
  show ?case using sextets [of "unat a" "unat b" 0] by (simp add: Let_def)
next
  case (4 a b c rest)
  then show ?case using sextets [of "unat a" "unat b" "unat c"] by (simp add: Let_def)
qed simp

lemma b64_roundtrip [simp]: "b64_DecodeString (b64_EncodeToString bs) = Some bs"
proof -
  have "filter (\<lambda>c. of_char c \<noteq> (10 :: nat) \<and> of_char c \<noteq> (13 :: nat)) (b64_EncodeToString bs) = b64_EncodeToString bs"
    using b64_encode_clean by (simp add: filter_id_conv)
  then show ?thesis by (simp add: b64_DecodeString_def b64_quads_encode)
qed

lemma hex_prefix_encode [simp]: "hex_prefix (hex_EncodeToString bs) = bs"
proof (induction bs)
  case (Cons b bs)
  have "unat b div 16 < 16" "unat b mod 16 < 16" "16 * (unat b div 16) + unat b mod 16 = unat b"
    using unat_byte [of b] by presburger+
  then show ?case by (simp add: Cons from_hex_digit del: of_nat_add of_nat_mult)
qed simp


section \<open>Query strings\<close>

text \<open>The characters that a caller may use in a query without escaping them.\<close>

definition plain_char :: "char \<Rightarrow> bool" where
  "plain_char c = (\<not> is_ctl c \<and> c \<notin> {CHR ''&'', CHR ''%'', CHR ''+'', CHR '';'', CHR ''#'', CHR '' '', CHR ''=''})"

lemma Split_amp_not_Nil [simp]: "Split_amp s \<noteq> []"
  by (cases s) (auto split: list.split)

lemma Split_amp_plain: "list_all plain_char t \<Longrightarrow> Split_amp t = [t]"
  by (induction t) (auto simp: plain_char_def)

lemma Split_amp_append: "list_all plain_char t \<Longrightarrow> Split_amp (t @ CHR ''&'' # u) = t # Split_amp u"
proof (induction t)
  case Nil
  show ?case by (cases "Split_amp u") auto
qed (auto simp: plain_char_def)

lemma QueryUnescape_plain: "list_all plain_char t \<Longrightarrow> QueryUnescape t = Some t"
  by (induction t) (auto simp: plain_char_def)

lemma query_pair_plain:
  assumes "list_all plain_char k" and "list_all plain_char v"
  shows "query_pair (k @ CHR ''='' # v) = Some (k, v)"
proof -
  have t: "takeWhile (\<lambda>c. c \<noteq> CHR ''='') (k @ CHR ''='' # v) = k" "dropWhile (\<lambda>c. c \<noteq> CHR ''='') (k @ CHR ''='' # v) = CHR ''='' # v"
    using assms(1) by (induction k) (auto simp: plain_char_def)
  have "CHR '';'' \<notin> set (k @ CHR ''='' # v)" using assms by (auto simp: list_all_iff plain_char_def)
  with t assms show ?thesis by (simp add: query_pair_def QueryUnescape_plain)
qed

lemma query_Get_first:
  assumes "list_all plain_char k" and "list_all plain_char v"
  shows "query_Get (k @ CHR ''='' # v @ CHR ''&'' # u) k = v" and "query_Get (k @ CHR ''='' # v) k = v"
proof -
  have s: "Split_amp (k @ CHR ''='' # v @ CHR ''&'' # u) = (k @ CHR ''='' # v) # Split_amp u"
    "Split_amp (k @ CHR ''='' # v) = [k @ CHR ''='' # v]" using assms
  proof (induction k)
    case Nil
    { case 1 then show ?case by (simp add: Split_amp_append) next case 2 then show ?case by (simp add: Split_amp_plain) }
  next
    case (Cons c k)
    { case 1 with Cons show ?case by (auto simp: plain_char_def) next case 2 with Cons show ?case by (auto simp: plain_char_def) }
  qed
  show "query_Get (k @ CHR ''='' # v @ CHR ''&'' # u) k = v" "query_Get (k @ CHR ''='' # v) k = v"
    by (simp_all add: query_Get_def s map_filter_def query_pair_plain [OF assms])
qed

lemma plain_no_fragment: "list_all (\<lambda>c. c \<noteq> CHR ''#'') q \<Longrightarrow> takeWhile (\<lambda>c. c \<noteq> CHR ''#'') q = q \<and> dropWhile (\<lambda>c. c \<noteq> CHR ''#'') q = []"
  by (simp add: list_all_iff takeWhile_eq_all_conv dropWhile_eq_Nil_conv)

lemma NewRequest_plain:
  assumes "\<not> list_ex is_ctl raw" and "list_all (\<lambda>c. c \<noteq> CHR ''#'') raw"
  shows "NewRequest m p raw token b =
    Inr \<lparr>hq_Method = m, hq_Path = p, hq_RawQuery = raw, hq_Session = token, hq_Body = b\<rparr>"
  unfolding NewRequest_def plain_no_fragment [OF assms(2), THEN conjunct1] plain_no_fragment [OF assms(2), THEN conjunct2]
  using assms(1) by simp

lemma NewRequest_fields:
  assumes "NewRequest m p raw token b = Inr q"
  shows "hq_Method q = m" and "hq_Path q = p" and "hq_Session q = token" and "hq_RawQuery q = takeWhile (\<lambda>c. c \<noteq> CHR ''#'') raw"
  using assms by (auto simp: NewRequest_def split: if_splits)

lemma subscribe_topic_get:
  assumes "list_all plain_char t" and "list_all plain_char u"
  shows "\<exists>q q'. subscribe_request c t = Inr q \<and> r_Query (to_request q) ''topic'' = t \<and>
    subscribe_request c (t @ ''&'' @ u) = Inr q' \<and> r_Query (to_request q') ''topic'' = t"
proof -
  have k: "list_all plain_char ''topic''" by code_simp
  have ctl: "\<not> list_ex is_ctl v \<and> list_all (\<lambda>c. c \<noteq> CHR ''#'') v" if "list_all plain_char v" for v
    using that by (induction v) (auto simp: plain_char_def)
  have l: "\<not> list_ex is_ctl ''topic=''" "\<not> list_ex is_ctl ''&timeout=25s''" "\<not> is_ctl CHR ''&''" by code_simp+
  have r: "\<exists>q. subscribe_request c v = Inr q \<and> hq_RawQuery q = ''topic='' @ v @ ''&timeout=25s''"
    if v: "\<not> list_ex is_ctl v \<and> list_all (\<lambda>c. c \<noteq> CHR ''#'') v" for v
    using v l by (simp add: subscribe_request_def NewRequest_plain)
  have tu: "\<not> list_ex is_ctl (t @ ''&'' @ u) \<and> list_all (\<lambda>c. c \<noteq> CHR ''#'') (t @ ''&'' @ u)"
    using ctl [OF assms(1)] ctl [OF assms(2)] l(3) by simp
  from r [OF ctl [OF assms(1)]] r [OF tu] obtain q q' where
    q: "subscribe_request c t = Inr q" "hq_RawQuery q = ''topic='' @ t @ ''&timeout=25s''"
    and q': "subscribe_request c (t @ ''&'' @ u) = Inr q'" "hq_RawQuery q' = ''topic='' @ t @ ''&'' @ (u @ ''&timeout=25s'')" by auto
  have "query_Get (hq_RawQuery q) ''topic'' = t"
    using query_Get_first(1) [OF k assms(1), of "''timeout=25s''"] by (simp add: q(2))
  moreover have "query_Get (hq_RawQuery q') ''topic'' = t"
    using query_Get_first(1) [OF k assms(1), of "u @ ''&timeout=25s''"] by (simp add: q'(2))
  ultimately show ?thesis using q(1) q'(1) by (simp add: to_request_def)
qed

text \<open>
  The topic of a subscription. The client pastes the topic into the query as it is. A topic without
  characters that mean something there reaches the handler unchanged; of a topic with an ampersand the
  handler sees only what stands before it, so the subscription is one to another topic.
\<close>

theorem subscribe_topic_arrives:
  assumes "list_all plain_char t" and "list_all plain_char u"
  shows "\<exists>q q'. subscribe_request c t = Inr q \<and> r_Query (to_request q) ''topic'' = t \<and>
    subscribe_request c (t @ ''&'' @ u) = Inr q' \<and> r_Query (to_request q') ''topic'' = t"
  by (rule subscribe_topic_get [OF assms])

theorem subscribe_topic_arrives_witness:
  "\<exists>q. subscribe_request sdk_New ''R&D'' = Inr q \<and> r_Query (to_request q) ''topic'' = ''R''"
proof -
  have "list_all plain_char ''R''" "list_all plain_char ''D''" by code_simp+
  from subscribe_topic_arrives [OF this, of sdk_New] show ?thesis by auto
qed

section \<open>Calls on a hub\<close>

text \<open>A request with the client's token is one of its session.\<close>

lemma session_of_client:
  assumes "sessions w (hq_Session q) = Some sess" and "hq_Session q \<noteq> ''''"
  shows "sessionFromRequest (to_request q) w = Some sess"
  using assms by (simp add: sessionFromRequest_def to_request_def)

lemma post_plain: "NewRequest m p '''' token b =
    Inr \<lparr>hq_Method = m, hq_Path = p, hq_RawQuery = '''', hq_Session = token, hq_Body = b\<rparr>"
  by (rule NewRequest_plain) simp_all

text \<open>
  Sending. A registered client's message reaches the hub's outgoing queue with the session's node as
  its source and exactly the destination and the payload that the app gave, and the call succeeds just
  when the hub queued it.
\<close>

theorem Send_enqueues:
  assumes "sessions w (cl_token c) = Some sess" and "cl_token c \<noteq> ''''" and "length dst = 32" and "d_Sender cfg = Some enqueue"
  shows "sdk_Send (daemon_do cfg entropy now ch) c dst payload w =
    (case enqueue (s_nodeID sess) dst (Some payload) w of
       (Inl e, w1) \<Rightarrow> (Inl (Errmsg (''sdk: /v1/send: enqueue failed'' @ [CHR 0x0A])), w1)
     | (Inr _, w1) \<Rightarrow> (Inr (), w1))"
proof -
  let ?b = "JsonObject [(''dest_node_id'', hex_EncodeToString dst), (''payload_b64'', b64_EncodeToString payload)] []"
  let ?q = "\<lparr>hq_Method = ''POST'', hq_Path = ''/v1/send'', hq_RawQuery = '''', hq_Session = cl_token c, hq_Body = ?b\<rparr>"
  have "hex_EncodeToString dst \<noteq> ''''" using assms(3) by (cases dst) auto
  then have "handleSend cfg (to_request ?q) (decoded ?q \<lparr>sb_DestNodeID = field ?q ''dest_node_id'', sb_PayloadB64 = field ?q ''payload_b64''\<rparr>) w =
      (case enqueue (s_nodeID sess) dst (Some payload) w of (Inl e, w1) \<Rightarrow> (HttpError 500 ''enqueue failed'', w1) | (Inr _, w1) \<Rightarrow> (JsonOk, w1))"
    using session_of_client [of w ?q sess] assms
    by (simp add: handleSend_def decoded_def field_def json_string_def node_id_len_def to_request_def)
  with assms(2) show ?thesis
    by (auto simp: sdk_Send_def sdk_post_def sdk_do_def post_plain daemon_do_def daemon_serve_def bnd_def respond_def body_text_def Let_def
        split: prod.split sum.split)
qed

lemma daemon_receive:
  assumes "sessions w (cl_token c) = Some sess" and "cl_token c \<noteq> ''''"
  shows "pollReceive (daemon_do cfg entropy now ch) c w =
    (case inbox w (s_nodeID sess) of
       [] \<Rightarrow> (Inr None, w)
     | p # queue \<Rightarrow> (Inr p, w\<lparr>inbox := (inbox w)(s_nodeID sess := queue)\<rparr>))"
proof -
  let ?q = "\<lparr>hq_Method = ''GET'', hq_Path = ''/v1/receive'', hq_RawQuery = '''', hq_Session = cl_token c, hq_Body = PlainText ''''\<rparr>"
  have "sessionFromRequest (to_request ?q) w = Some sess" using assms by (intro session_of_client) simp_all
  then show ?thesis
    by (simp add: pollReceive_def sdk_do_def post_plain daemon_do_def daemon_serve_def handleReceive_def bnd_def to_request_def
        respond_def read_payload_def json_string_def Let_def split: list.split option.split)
qed

lemma Receive_drains:
  assumes "sessions w (cl_token c) = Some sess" and "cl_token c \<noteq> ''''" and "inbox w (s_nodeID sess) = q" and "length q < n"
  shows "sdk_Receive (daemon_do cfg entropy now ch) c n w =
    ((map the (takeWhile (\<lambda>p. p \<noteq> None) q), True), w\<lparr>inbox := (inbox w)(s_nodeID sess := drop 1 (dropWhile (\<lambda>p. p \<noteq> None) q))\<rparr>)"
  using assms
proof (induction q arbitrary: w n)
  case Nil
  then obtain k where "n = Suc k" by (cases n) auto
  with Nil daemon_receive [OF Nil.prems(1,2), of cfg entropy now ch] show ?case by (simp add: fun_upd_idem)
next
  case (Cons p q)
  then obtain k where k: "n = Suc k" "length q < k" by (cases n) auto
  let ?w = "w\<lparr>inbox := (inbox w)(s_nodeID sess := q)\<rparr>"
  note poll = daemon_receive [OF Cons.prems(1,2), of cfg entropy now ch, unfolded Cons.prems(3) list.case]
  show ?case
  proof (cases p)
    case None
    with poll k show ?thesis by (simp add: fun_upd_def)
  next
    case (Some b)
    have "sessions ?w (cl_token c) = Some sess" "inbox ?w (s_nodeID sess) = q" using Cons.prems by simp_all
    from Cons.IH [OF this(1) Cons.prems(2) this(2) k(2)] poll k(1) Some show ?thesis by (simp cong: if_cong)
  qed
qed

lemma fold_deliver_self:
  "fold (deliver_self cfg src) ps w = w\<lparr>inbox := (inbox w)(d_SelfID cfg := inbox w (d_SelfID cfg) @ map (\<lambda>p. if p = [] then None else Some p) ps)\<rparr>"
  by (induction ps arbitrary: w) (simp_all add: deliver_self_def DeliverLocal_def fun_upd_idem)

text \<open>
  C23. Receiving ends. On a hub that has just delivered \<open>ps\<close>, the receiving loop of a registered client hands
  over, in order, the messages before the first empty one and then closes its channel, after at most one
  poll more than there are messages; what was behind the empty one stays in the inbox.
\<close>

theorem Receive_ends:
  assumes "sessions w (cl_token c) = Some sess" and "cl_token c \<noteq> ''''" and "s_nodeID sess = d_SelfID cfg"
    and "inbox w (d_SelfID cfg) = []" and "length ps < n"
  shows "case sdk_Receive (daemon_do cfg' entropy now ch) c n (fold (deliver_self cfg src) ps w) of
    ((received, ended), w') \<Rightarrow> received = takeWhile (\<lambda>p. p \<noteq> []) ps \<and> ended \<and>
      pending (d_SelfID cfg) w' = filter (\<lambda>p. p \<noteq> []) (drop (length received) ps)"
proof -
  let ?q = "map (\<lambda>p. if p = [] then None else Some p) ps"
  let ?w = "fold (deliver_self cfg src) ps w"
  have f: "List.map_filter id (map (\<lambda>p. if p = [] then None else Some p) ps) = filter (\<lambda>p. p \<noteq> []) ps" for ps :: "bytes list"
    by (induction ps) (auto simp: map_filter_def)
  have t: "map the (takeWhile (\<lambda>p. p \<noteq> None) ?q) = takeWhile (\<lambda>p. p \<noteq> []) ps" by (induction ps) auto
  have "drop 1 (dropWhile (\<lambda>p. p \<noteq> None) ?q) = map (\<lambda>p. if p = [] then None else Some p) (drop 1 (dropWhile (\<lambda>p. p \<noteq> []) ps))"
    by (induction ps) auto
  then have d: "List.map_filter id (drop 1 (dropWhile (\<lambda>p. p \<noteq> None) ?q)) = filter (\<lambda>p. p \<noteq> []) (drop (length (takeWhile (\<lambda>p. p \<noteq> []) ps)) ps)"
    by (simp only: f) (induction ps, auto)
  have "sessions ?w (cl_token c) = Some sess" "inbox ?w (s_nodeID sess) = ?q" "length ?q < n"
    using assms by (simp_all add: fold_deliver_self)
  from Receive_drains [OF this(1) assms(2) this(2,3), of cfg' entropy now ch] t d assms(3) show ?thesis
    by (simp add: pending_def)
qed

definition sdk_world :: daemon_world where
  "sdk_world = sample_daemon\<lparr>faults := []\<rparr>"

definition sdk_sample :: sdk_client where
  "sdk_sample = sdk_New\<lparr>cl_token := ''tok''\<rparr>"

definition sdk_dcfg :: "daemon_world daemon_config" where
  "sdk_dcfg = sample_dcfg\<lparr>d_Sender := Some (\<lambda>src dst p. ret ())\<rparr>"

lemma sdk_sample_session:
  "sessions sdk_world (cl_token sdk_sample) = Some \<lparr>s_token = ''tok'', s_nodeID = sample_id 1, s_appID = ''sos'', s_appName = '''', s_appVersion = ''1''\<rparr>"
  "cl_token sdk_sample \<noteq> ''''"
  by (simp_all add: sdk_world_def sdk_sample_def sdk_New_def sample_daemon_def DB.defs)

theorem Send_enqueues_witness:
  "fst (sdk_Send (daemon_do sdk_dcfg (Inr []) 0 0) sdk_sample (sample_id 2) [1, 2] sdk_world) = Inr ()"
  using Send_enqueues [OF sdk_sample_session, of "sample_id 2" sdk_dcfg "\<lambda>src dst p. ret ()" "Inr []" 0 0 "[1, 2]"]
  by (simp add: sdk_dcfg_def sample_id_def)

theorem Receive_ends_witness:
  "fst (fst (sdk_Receive (daemon_do sample_dcfg (Inr []) 0 0) sdk_sample 4 (fold (deliver_self sample_dcfg (sample_id 3)) [[5], [], [6]] sdk_world))) = [[5]]"
  using Receive_ends [OF sdk_sample_session, of sample_dcfg "[[5], [], [6]]" 4 sample_dcfg "Inr []" 0 0 "sample_id 3"]
  by (auto simp: sample_dcfg_def sdk_world_def sample_daemon_def DB.defs split: prod.splits)

section \<open>Subscriptions\<close>

lemma subscription_delivers:
  assumes "sessions w (cl_token c) = Some sess" and "cl_token c \<noteq> ''''" and "list_all plain_char t" and "t \<noteq> ''''"
    and "ch \<notin> snd ` set (topics w)"
  shows "\<exists>q w1. subscribe_request c t = Inr q \<and> subscribe_open ch (to_request q) w = (NoResponse, w1) \<and>
    map_option (\<lambda>(resp, _). subscribe_result (Inr (respond resp))) (subscribe_close ArmPayload ch t (cl_token c) (published pubs w1)) =
    (case filter (\<lambda>(t', _). t' = t) pubs of [] \<Rightarrow> None | (_, p) # _ \<Rightarrow> Some (SubEmit p))"
proof -
  obtain q where q: "subscribe_request c t = Inr q" "r_Query (to_request q) ''topic'' = t"
    using subscribe_topic_get [OF assms(3), of "''''" c] by auto
  note m = NewRequest_fields [OF q(1) [unfolded subscribe_request_def]]
  have s: "sessionFromRequest (to_request q) w = Some sess" using session_of_client [of w q sess] assms(1,2) m(3) by simp
  then obtain w1 where o: "subscribe_open ch (to_request q) w = (NoResponse, w1)"
    using m(1) q(2) assms(4) by (simp add: subscribe_open_def to_request_def Let_def)
  have e: "subscribe_result (Inr (respond (JsonPayload p))) = SubEmit p" for p
    by (simp add: subscribe_result_def respond_def read_payload_def json_string_def)
  have "map_option (\<lambda>(resp, _). subscribe_result (Inr (respond resp))) x = map_option (\<lambda>r. subscribe_result (Inr (respond r))) (map_option fst x)"
    for x :: "(response \<times> 'a daemon_world_scheme) option"
    by (cases x) auto
  with subscribe_gets_next [OF o assms(5), of "cl_token c" pubs] have
    "map_option (\<lambda>(resp, _). subscribe_result (Inr (respond resp))) (subscribe_close ArmPayload ch t (cl_token c) (published pubs w1)) =
      (case filter (\<lambda>(t', _). t' = t) pubs of [] \<Rightarrow> None | (_, p) # _ \<Rightarrow> Some (SubEmit p))"
    unfolding q(2) by (simp add: e split: list.split prod.split)
  with q(1) o show ?thesis by blast
qed

text \<open>
  A subscription delivers. While a poll of a registered client is open, what is published on its topic
  waits in the channel of the poll, and the client hands the first of these payloads over as the
  publisher gave it; publications on other topics do not concern it.
\<close>

theorem Subscribe_delivers:
  assumes "sessions w (cl_token c) = Some sess" and "cl_token c \<noteq> ''''" and "list_all plain_char t" and "t \<noteq> ''''"
    and "ch \<notin> snd ` set (topics w)"
  shows "\<exists>q w1. subscribe_request c t = Inr q \<and> subscribe_open ch (to_request q) w = (NoResponse, w1) \<and>
    map_option (\<lambda>(resp, _). subscribe_result (Inr (respond resp))) (subscribe_close ArmPayload ch t (cl_token c) (published pubs w1)) =
    (case filter (\<lambda>(t', _). t' = t) pubs of [] \<Rightarrow> None | (_, p) # _ \<Rightarrow> Some (SubEmit p))"
  by (rule subscription_delivers [OF assms])

theorem Subscribe_delivers_witness:
  "\<exists>q w1. subscribe_request sdk_sample ''news'' = Inr q \<and> subscribe_open 1 (to_request q) sdk_world = (NoResponse, w1) \<and>
    map_option (\<lambda>(resp, _). subscribe_result (Inr (respond resp)))
      (subscribe_close ArmPayload 1 ''news'' (cl_token sdk_sample) (published [(''sos'', [9]), (''news'', [1])] w1)) = Some (SubEmit [1])"
proof -
  have "list_all plain_char ''news''" by code_simp
  moreover have "1 \<notin> snd ` set (topics sdk_world)" by (simp add: sdk_world_def sample_daemon_def DB.defs)
  ultimately show ?thesis
    using Subscribe_delivers [OF sdk_sample_session, of "''news''" 1 "[(''sos'', [9]), (''news'', [1])]"] by simp
qed



section \<open>Discovery\<close>

lemma discover_filter_ids:
  fixes w :: "'a DB_scheme"
  shows "\<exists>ids. fst (discover_filter cfg a ps w) = map NodeID_String ids \<and> set ids \<subseteq> set ps"
proof (induction ps arbitrary: w)
  case (Cons p ps)
  have keep: "\<exists>ids. NodeID_String p # fst (discover_filter cfg a ps v) = map NodeID_String ids \<and> set ids \<subseteq> set (p # ps)"
    and skip: "\<exists>ids. fst (discover_filter cfg a ps v) = map NodeID_String ids \<and> set ids \<subseteq> set (p # ps)"
    for v :: "'a DB_scheme"
  proof -
    obtain ids where i: "fst (discover_filter cfg a ps v) = map NodeID_String ids" "set ids \<subseteq> set ps" using Cons [of v] by blast
    from i show "\<exists>ids. NodeID_String p # fst (discover_filter cfg a ps v) = map NodeID_String ids \<and> set ids \<subseteq> set (p # ps)"
      by (intro exI [of _ "p # ids"]) auto
    from i show "\<exists>ids. fst (discover_filter cfg a ps v) = map NodeID_String ids \<and> set ids \<subseteq> set (p # ps)" by auto
  qed
  show ?case
    using keep skip
    by (simp add: case_prod_unfold Let_def split: sum.split option.split bool.split)
qed simp

lemma map_filter_hex [simp]: "List.map_filter hex_DecodeString (map NodeID_String ids) = ids"
  by (induction ids) (simp_all add: map_filter_def NodeID_String_def)

lemma daemon_do_discover:
  assumes "handleDiscoverPeers cfg (to_request q) w = (resp, w1)" and "hq_Path q = ''/v1/discover-peers''" and "CHR '' '' \<notin> set (hq_RawQuery q)"
  shows "daemon_do cfg entropy now ch q w = (Inr (respond resp), w1)"
  using assms by (simp add: daemon_do_def daemon_serve_def)

lemma discover_query:
  assumes "list_all plain_char app" and "list_all plain_char v"
  shows "query_Get (''app_id='' @ app @ (if v \<noteq> '''' then ''&version_constraint='' @ v else '''')) ''app_id'' = app"
    and "query_Get (''app_id='' @ app @ (if v \<noteq> '''' then ''&version_constraint='' @ v else '''')) ''version_constraint'' = v"
proof -
  have k: "list_all plain_char ''app_id''" "list_all plain_char ''version_constraint''" by code_simp+
  show "query_Get (''app_id='' @ app @ (if v \<noteq> '''' then ''&version_constraint='' @ v else '''')) ''app_id'' = app"
    using query_Get_first(1) [OF k(1) assms(1), of "''version_constraint='' @ v"] query_Get_first(2) [OF k(1) assms(1)] by simp
  have p: "query_pair (''app_id='' @ app) = Some (''app_id'', app)" "query_pair (''version_constraint='' @ v) = Some (''version_constraint'', v)"
    using query_pair_plain [OF k(1) assms(1)] query_pair_plain [OF k(2) assms(2)] by simp_all
  have "Split_amp (''app_id='' @ app) = [''app_id='' @ app]" "Split_amp (''version_constraint='' @ v) = [''version_constraint='' @ v]"
    "Split_amp (''app_id='' @ app @ ''&version_constraint='' @ v) = [''app_id='' @ app, ''version_constraint='' @ v]"
    using Split_amp_plain [OF assms(1)] Split_amp_plain [OF assms(2)] Split_amp_append [OF assms(1), of "''version_constraint='' @ v"]
    by simp_all
  with p show "query_Get (''app_id='' @ app @ (if v \<noteq> '''' then ''&version_constraint='' @ v else '''')) ''version_constraint'' = v"
    by (cases "v = ''''") (simp_all add: query_Get_def map_filter_def del: append_Cons)
qed

lemma discovery_decodes:
  assumes "sessions w (cl_token c) = Some sess" and "cl_token c \<noteq> ''''" and "list_all plain_char app" and "app \<noteq> ''''"
    and "list_all plain_char v" and "d_Apps cfg"
  shows "case DiscoverPeers app v w of
     (Inl e, w1) \<Rightarrow> sdk_DiscoverPeers (daemon_do cfg entropy now ch) c app v w = (Inl (Errmsg ''json''), w1)
   | (Inr peers, w1) \<Rightarrow>
       (let (out, w2) = discover_filter cfg app peers w1
        in \<exists>ids. sdk_DiscoverPeers (daemon_do cfg entropy now ch) c app v w = (Inr ids, w2) \<and>
             out = map NodeID_String ids \<and> set ids \<subseteq> set peers)"
proof -
  have k: "list_all plain_char ''app_id''" "list_all plain_char ''version_constraint''" by code_simp+
  let ?raw = "''app_id='' @ app @ (if v \<noteq> '''' then ''&version_constraint='' @ v else '''')"
  have l: "\<not> list_ex is_ctl ''app_id=''" "\<not> list_ex is_ctl ''&version_constraint=''" by code_simp+
  have c: "\<not> list_ex is_ctl u \<and> list_all (\<lambda>c. c \<noteq> CHR ''#'') u" if "list_all plain_char u" for u
    using that by (induction u) (auto simp: plain_char_def)
  have "\<not> list_ex is_ctl ?raw" "list_all (\<lambda>c. c \<noteq> CHR ''#'') ?raw"
    using c [OF assms(3)] c [OF assms(5)] l by auto
  note q = NewRequest_plain [OF this, of "''GET''" "''/v1/discover-peers''" "cl_token c" "PlainText ''''"]
  let ?q = "\<lparr>hq_Method = ''GET'', hq_Path = ''/v1/discover-peers'', hq_RawQuery = ?raw, hq_Session = cl_token c, hq_Body = PlainText ''''\<rparr>"
  have blank: "CHR '' '' \<notin> set ?raw" using assms(3,5) by (auto simp: list_all_iff plain_char_def)
  have a: "r_Query (to_request ?q) ''app_id'' = app" and vc: "r_Query (to_request ?q) ''version_constraint'' = v"
    using discover_query [OF assms(3,5)] by (simp_all add: to_request_def)
  have s: "sessionFromRequest (to_request ?q) w = Some sess" using assms(1,2) by (intro session_of_client) simp_all
  have h: "handleDiscoverPeers cfg (to_request ?q) w =
      (case DiscoverPeers app v w of
         (Inl e, w1) \<Rightarrow> (HttpError 500 ''discover failed'', w1)
       | (Inr peers, w1) \<Rightarrow> (let (out, w2) = discover_filter cfg app peers w1 in (JsonPeers out, w2)))"
    unfolding handleDiscoverPeers_def s a vc using assms(4,6) by (simp add: to_request_def)
  obtain r w1 where D: "DiscoverPeers app v w = (r, w1)" by force
  show ?thesis
  proof (cases r)
    case (Inl e)
    have "daemon_do cfg entropy now ch ?q w = (Inr (respond (HttpError 500 ''discover failed'')), w1)"
      using h blank by (intro daemon_do_discover) (simp_all add: D Inl)
    then show ?thesis
      unfolding sdk_DiscoverPeers_def q D Inl by (simp add: sdk_do_def bnd_def respond_def json_list_def)
  next
    case (Inr peers)
    obtain out w2 where f: "discover_filter cfg app peers w1 = (out, w2)" by force
    obtain ids where i: "out = map NodeID_String ids" "set ids \<subseteq> set peers" using discover_filter_ids [of cfg app peers w1] f by auto
    have "daemon_do cfg entropy now ch ?q w = (Inr (respond (JsonPeers out)), w2)"
      using h blank f by (intro daemon_do_discover) (simp_all add: D Inr)
    then show ?thesis
      using f i unfolding sdk_DiscoverPeers_def q D Inr by (simp add: sdk_do_def bnd_def respond_def json_list_def)
  qed
qed

text \<open>
  Discovery. A registered client gets the node ids, decoded, that the hub found for the app and the
  version and whose version no enforced ban covers; no other node appears. When the hub fails to look
  them up the call is an error.
\<close>

theorem DiscoverPeers_decodes:
  assumes "sessions w (cl_token c) = Some sess" and "cl_token c \<noteq> ''''" and "list_all plain_char app" and "app \<noteq> ''''"
    and "list_all plain_char v" and "d_Apps cfg"
  shows "case DiscoverPeers app v w of
     (Inl e, w1) \<Rightarrow> sdk_DiscoverPeers (daemon_do cfg entropy now ch) c app v w = (Inl (Errmsg ''json''), w1)
   | (Inr peers, w1) \<Rightarrow>
       (let (out, w2) = discover_filter cfg app peers w1
        in \<exists>ids. sdk_DiscoverPeers (daemon_do cfg entropy now ch) c app v w = (Inr ids, w2) \<and>
             out = map NodeID_String ids \<and> set ids \<subseteq> set peers)"
  by (rule discovery_decodes [OF assms])

definition sdk_apps :: daemon_world where
  "sdk_apps = sdk_world\<lparr>app_presence := [\<lparr>ap_node = sample_id 2, ap_app = ''chat'', ap_name = '''', ap_version = ''2.0'', ap_reported = 5\<rparr>]\<rparr>"

theorem DiscoverPeers_decodes_witness:
  "fst (sdk_DiscoverPeers (daemon_do sample_dcfg (Inr []) 0 0) sdk_sample ''chat'' '''' sdk_apps) = Inr [sample_id 2]"
proof -
  have p: "list_all plain_char ''chat''" "list_all plain_char ''''" by code_simp+
  have s: "sessions sdk_apps (cl_token sdk_sample) = Some \<lparr>s_token = ''tok'', s_nodeID = sample_id 1, s_appID = ''sos'', s_appName = '''', s_appVersion = ''1''\<rparr>"
    using sdk_sample_session(1) by (simp add: sdk_apps_def)
  have a: "''chat'' \<noteq> ''''" "d_Apps sample_dcfg" by (simp_all add: sample_dcfg_def)
  have "fst (DiscoverPeers ''chat'' '''' sdk_apps) = Inr [sample_id 2]"
    "fst (discover_filter sample_dcfg ''chat'' [sample_id 2] (snd (DiscoverPeers ''chat'' '''' sdk_apps))) = [NodeID_String (sample_id 2)]"
    by code_simp+
  then obtain w1 w2 where "DiscoverPeers ''chat'' '''' sdk_apps = (Inr [sample_id 2], w1)"
    "discover_filter sample_dcfg ''chat'' [sample_id 2] w1 = ([NodeID_String (sample_id 2)], w2)" by (metis prod.collapse)
  with DiscoverPeers_decodes [OF s sdk_sample_session(2) p(1) a(1) p(2) a(2), of "Inr []" 0 0] show ?thesis
    by (auto simp: Cons_eq_map_conv)
qed

end
