(* ===== verification/Apps.thy ===== *)
theory Apps
  imports Sdk HubApp
begin

text \<open>
  The programs over the client library: \<^verbatim>\<open>apps/discuss\<close>, \<^verbatim>\<open>apps/privatechat\<close>, \<^verbatim>\<open>apps/sosbeacon\<close> and the smoke
  test \<^verbatim>\<open>sdk/go/cmd/meshdemo\<close>. A program is a function of its parsed flags and of the transport to a hub; it
  gives what it prints and its exit code, \<open>None\<close> while it still listens. A listening program is followed
  for a number of rounds of its channel. \<^verbatim>\<open>encoding/json\<close> on the message types and the host's time zone
  are parameters.

  Shown: what \<^verbatim>\<open>discuss\<close> posts on a hub is printed by a \<^verbatim>\<open>discuss\<close> that listens to the topic, with the hub's
  node as its author; \<^verbatim>\<open>meshdemo\<close> succeeds on a hub whose statements succeed and that knows no bans.
\<close>

section \<open>What a program prints\<close>

text \<open>\<open>ErrV m e\<close> is \<^verbatim>\<open>fmt.Fprintf(os.Stderr, "m: %v\\n", e)\<close>.\<close>

datatype printed = Out string | Err string | ErrV string error

datatype dial_target = DialTCP string | DialUnix string

definition dialClient :: "string \<Rightarrow> string \<Rightarrow> dial_target" where
  "dialClient socket tcp = (if tcp \<noteq> '''' then DialTCP tcp else DialUnix socket)"

text \<open>\<^verbatim>\<open>string(payload)\<close>\<close>

definition bytes_text :: "bytes \<Rightarrow> string" where
  "bytes_text bs = map (\<lambda>b. char_of (unat b)) bs"

record 'p json =
  jm_Marshal :: "'p \<Rightarrow> bytes"
  jm_Unmarshal :: "bytes \<Rightarrow> 'p option"

text \<open>The loop over the channel of a client call: a line for each payload.\<close>

definition listened :: "(bytes \<Rightarrow> printed) \<Rightarrow> (bytes list \<times> bool) \<times> 'w \<Rightarrow> (printed list \<times> nat option) \<times> 'w" where
  "listened show_payload = (\<lambda>((payloads, ended), w). ((map show_payload payloads, if ended then Some 0 else None), w))"

definition prefixed :: "printed list \<Rightarrow> (printed list \<times> 'b) \<times> 'w \<Rightarrow> (printed list \<times> 'b) \<times> 'w" where
  "prefixed out = (\<lambda>((out', code), w). ((out @ out', code), w))"

text \<open>Every program registers first.\<close>

definition registered ::
  "'w transport \<Rightarrow> string \<Rightarrow> string \<Rightarrow> string list \<Rightarrow> (sdk_client \<Rightarrow> sdk_session \<Rightarrow> 'w \<Rightarrow> (printed list \<times> nat option) \<times> 'w) \<Rightarrow>
   'w \<Rightarrow> (printed list \<times> nat option) \<times> 'w" where
  "registered do app name capabilities rest w =
     (case sdk_Register do app name ''0.1.0'' capabilities (sdk_New, w) of
        (Inl e, (_, w1)) \<Rightarrow> (([ErrV ''register'' e], Some 1), w1)
      | (Inr sess, (c, w1)) \<Rightarrow>
          prefixed [Err (''registered as '' @ app @ '' on node '' @ hex_EncodeToString (sdk_NodeID sess))] (rest c sess w1))"

section \<open>discuss\<close>

record boardPost =
  bp_Topic :: string
  bp_Text :: string
  bp_Author :: string

record discuss_flags =
  df_topic :: string
  df_post :: string
  df_listen :: bool

text \<open>The author: the first 16 bytes, or a question mark.\<close>

definition short_name :: "string \<Rightarrow> string" where
  "short_name s = take 16 (if s = '''' then ''?'' else s)"

definition show_post :: "boardPost json \<Rightarrow> bytes \<Rightarrow> printed" where
  "show_post J payload =
     (case jm_Unmarshal J payload of
        None \<Rightarrow> Out (''<raw> '' @ bytes_text payload)
      | Some p \<Rightarrow> Out (''['' @ short_name (bp_Author p) @ ''] '' @ bp_Topic p @ '': '' @ bp_Text p))"

text \<open>\<open>quote\<close> is \<^verbatim>\<open>%q\<close>.\<close>

definition discuss_main ::
  "'w transport \<Rightarrow> boardPost json \<Rightarrow> (string \<Rightarrow> string) \<Rightarrow> discuss_flags \<Rightarrow> nat \<Rightarrow> 'w \<Rightarrow> (printed list \<times> nat option) \<times> 'w" where
  "discuss_main do J quote fs rounds = registered do ''net.quakemesh.discuss'' ''Discuss'' [''pubsub''] (\<lambda>c sess w.
     if df_post fs \<noteq> '''' then
       (case sdk_Publish do c (df_topic fs)
               (jm_Marshal J \<lparr>bp_Topic = df_topic fs, bp_Text = df_post fs, bp_Author = hex_EncodeToString (sdk_NodeID sess)\<rparr>) w of
          (Inl e, w1) \<Rightarrow> (([ErrV ''publish'' e], Some 1), w1)
        | (Inr _, w1) \<Rightarrow> (([Out ''published''], Some 0), w1))
     else if df_listen fs then
       prefixed [Err (''listening on topic '' @ quote (df_topic fs))] (listened (show_post J) (sdk_Subscribe do c (df_topic fs) rounds w))
     else (([Err ''Usage''], Some 2), w))"

section \<open>privatechat\<close>

record chatMessage =
  cm_Text :: string
  cm_Sender :: string

record chat_flags =
  cf_dest :: string
  cf_msg :: string
  cf_listen :: bool
  cf_discover :: bool

definition show_chat :: "chatMessage json \<Rightarrow> bytes \<Rightarrow> printed" where
  "show_chat J payload =
     (case jm_Unmarshal J payload of
        None \<Rightarrow> Out (''<raw> '' @ bytes_text payload)
      | Some m \<Rightarrow> Out (''['' @ short_name (cm_Sender m) @ ''] '' @ cm_Text m))"

definition chat_main :: "'w transport \<Rightarrow> chatMessage json \<Rightarrow> chat_flags \<Rightarrow> nat \<Rightarrow> 'w \<Rightarrow> (printed list \<times> nat option) \<times> 'w" where
  "chat_main do J fs rounds = registered do ''net.quakemesh.privatechat'' ''Private Chat'' [''messaging''] (\<lambda>c sess w.
     if cf_discover fs then
       (case sdk_DiscoverPeers do c ''net.quakemesh.privatechat'' '''' w of
          (Inl e, w1) \<Rightarrow> (([ErrV ''discover'' e], Some 1), w1)
        | (Inr peers, w1) \<Rightarrow> ((map (\<lambda>p. Out (hex_EncodeToString p)) peers, Some 0), w1))
     else if cf_dest fs \<noteq> '''' \<and> cf_msg fs \<noteq> '''' then
       (case hex_DecodeString (TrimPrefix (cf_dest fs) ''0x'') of
          None \<Rightarrow> (([ErrV ''invalid dest'' (Errmsg ''hex'')], Some 1), w)
        | Some dest \<Rightarrow>
            (case sdk_Send do c dest (jm_Marshal J \<lparr>cm_Text = cf_msg fs, cm_Sender = hex_EncodeToString (sdk_NodeID sess)\<rparr>) w of
               (Inl e, w1) \<Rightarrow> (([ErrV ''send'' e], Some 1), w1)
             | (Inr _, w1) \<Rightarrow> (([Out ''sent''], Some 0), w1)))
     else if cf_listen fs then listened (show_chat J) (sdk_Receive do c rounds w)
     else (([Err ''Usage''], Some 2), w))"

section \<open>sosbeacon\<close>

record sosAlert =
  sa_Text :: string
  sa_Lat :: float64
  sa_Lon :: float64
  sa_AccuracyM :: float64
  sa_NodeID :: string
  sa_SentAt :: int

record sos_flags =
  sf_text :: string
  sf_post :: string
  sf_lat :: float64
  sf_lon :: float64
  sf_acc :: float64
  sf_listen :: bool

text \<open>\<^verbatim>\<open>%.5f\<close> and \<^verbatim>\<open>%.0f\<close>: the decimal nearest to the value, ties to even. There is no negative zero here.\<close>

definition pad_zeros :: "nat \<Rightarrow> string \<Rightarrow> string" where
  "pad_zeros d s = replicate (d - length s) (CHR ''0'') @ s"

fun show_fixed :: "nat \<Rightarrow> float64 \<Rightarrow> string" where
  "show_fixed d (Fin r) =
     (let n = nat (round_even (\<bar>r\<bar> * 10 ^ d))
      in (if r < 0 then ''-'' else '''') @ show_nat (n div 10 ^ d) @ (if d = 0 then '''' else ''.'' @ pad_zeros d (show_nat (n mod 10 ^ d))))"
| "show_fixed d PInf = ''+Inf''"
| "show_fixed d NInf = ''-Inf''"
| "show_fixed d NaN = ''NaN''"

text \<open>The UTF-8 of the horizontal ellipsis and of the plus-minus sign.\<close>

definition ellipsis :: string where
  "ellipsis = [CHR 0xE2, CHR 0x80, CHR 0xA6]"

definition plus_minus :: string where
  "plus_minus = [CHR 0xC2, CHR 0xB1]"

text \<open>\<open>rfc3339\<close> formats a Unix millisecond in the host's zone.\<close>

definition printAlert :: "sosAlert json \<Rightarrow> (int \<Rightarrow> string) \<Rightarrow> bytes \<Rightarrow> printed" where
  "printAlert J rfc3339 payload =
     (case jm_Unmarshal J payload of
        None \<Rightarrow> Out (''<raw> '' @ bytes_text payload)
      | Some a \<Rightarrow>
          let node = (if length (sa_NodeID a) > 16 then take 16 (sa_NodeID a) @ ellipsis else sa_NodeID a);
              head = ''['' @ rfc3339 (sa_SentAt a) @ ''] SOS from '' @ node
          in if \<not> feq (sa_Lat a) (Fin 0) \<or> \<not> feq (sa_Lon a) (Fin 0)
             then Out (head @ '' @ '' @ show_fixed 5 (sa_Lat a) @ '','' @ show_fixed 5 (sa_Lon a) @ '' ('' @ plus_minus @
                    show_fixed 0 (sa_AccuracyM a) @ ''m): '' @ sa_Text a)
             else Out (head @ '': '' @ sa_Text a))"

definition sos_alert :: "sos_flags \<Rightarrow> bytes \<Rightarrow> time \<Rightarrow> sosAlert" where
  "sos_alert fs node now =
     \<lparr>sa_Text = (if sf_post fs \<noteq> '''' then sf_post fs else sf_text fs), sa_Lat = sf_lat fs, sa_Lon = sf_lon fs,
      sa_AccuracyM = (if fgt (sf_acc fs) (Fin 0) then sf_acc fs else Fin 0), sa_NodeID = hex_EncodeToString node, sa_SentAt = UnixMilli now\<rparr>"

definition sos_main ::
  "'w transport \<Rightarrow> sosAlert json \<Rightarrow> (int \<Rightarrow> string) \<Rightarrow> sos_flags \<Rightarrow> time \<Rightarrow> nat \<Rightarrow> 'w \<Rightarrow> (printed list \<times> nat option) \<times> 'w" where
  "sos_main do J rfc3339 fs now rounds = registered do ''net.quakemesh.sosbeacon'' ''SOS Beacon'' [''sos'', ''location''] (\<lambda>c sess w.
     if sf_listen fs then
       prefixed [Err (''listening for SOS alerts on topic \"sos\"'')] (listened (printAlert J rfc3339) (sdk_Subscribe do c ''sos'' rounds w))
     else
       (case sdk_Publish do c ''sos'' (jm_Marshal J (sos_alert fs (sdk_NodeID sess) now)) w of
          (Inl e, w1) \<Rightarrow> (([ErrV ''publish'' e], Some 1), w1)
        | (Inr _, w1) \<Rightarrow> (([Out ''sos published''], Some 0), w1)))"

section \<open>meshdemo\<close>

text \<open>
  \<open>do k\<close> is the transport at the \<open>k\<close>-th call. The goroutine of \<^verbatim>\<open>Subscribe\<close> polls before the publication, which
  waits for a tenth of a second (\<open>opening\<close>), and what it has handed over within the time limit is \<open>arrived\<close>.
\<close>

definition meshdemo_main ::
  "(nat \<Rightarrow> 'w transport) \<Rightarrow> (string \<Rightarrow> string) \<Rightarrow> (sdk_client \<Rightarrow> string \<Rightarrow> 'w \<Rightarrow> 'w) \<Rightarrow>
   (sdk_client \<Rightarrow> string \<Rightarrow> 'w \<Rightarrow> bytes option \<times> 'w) \<Rightarrow> 'w \<Rightarrow> (printed list \<times> nat) \<times> 'w" where
  "meshdemo_main do quote opening arrived w =
     (let appID = ''net.quakemesh.meshdemo''; topic = ''meshdemo-smoke'' in
      case sdk_Register (do 0) appID ''Mesh Demo'' ''0.1.0'' [''demo''] (sdk_New, w) of
        (Inl e, (_, w1)) \<Rightarrow> (([ErrV ''register'' e], 1), w1)
      | (Inr sess, (c, w1)) \<Rightarrow> prefixed [Out (''register ok node='' @ hex_EncodeToString (sdk_NodeID sess))]
          (case sdk_DiscoverPeers (do 1) c appID '''' w1 of
             (Inl e, w2) \<Rightarrow> (([ErrV ''discover-peers'' e], 1), w2)
           | (Inr peers, w2) \<Rightarrow> prefixed [Out (''discover-peers ok count='' @ show_nat (length peers))]
               (case sdk_Register (do 2) (appID @ ''-sub'') ''Mesh Demo Sub'' ''0.1.0'' [] (sdk_New, w2) of
                  (Inl e, (_, w3)) \<Rightarrow> (([ErrV ''register subscriber'' e], 1), w3)
                | (Inr _, (c', w3)) \<Rightarrow>
                    (case sdk_Publish (do 3) c topic (string_bytes ''meshdemo-ping'') (opening c' topic w3) of
                       (Inl e, w4) \<Rightarrow> (([ErrV ''publish'' e], 1), w4)
                     | (Inr _, w4) \<Rightarrow>
                         (case arrived c' topic w4 of
                            (None, w5) \<Rightarrow> (([Err ''subscribe timed out''], 1), w5)
                          | (Some p, w5) \<Rightarrow> (([Out (''publish/subscribe ok payload='' @ quote (bytes_text p)), Out ''meshdemo ok''], 0), w5))))))"

text \<open>The subscription on a hub: the open poll, and what its channel has for it.\<close>

definition hub_poll :: "nat \<Rightarrow> sdk_client \<Rightarrow> string \<Rightarrow> 'a daemon_world_scheme \<Rightarrow> 'a daemon_world_scheme" where
  "hub_poll ch c t w = (case subscribe_request c t of Inl _ \<Rightarrow> w | Inr q \<Rightarrow> snd (subscribe_open ch (to_request q) w))"

definition hub_arrived ::
  "nat \<Rightarrow> sdk_client \<Rightarrow> string \<Rightarrow> 'a daemon_world_scheme \<Rightarrow> bytes option \<times> 'a daemon_world_scheme" where
  "hub_arrived ch c t w =
     (case subscribe_close ArmPayload ch t (cl_token c) w of
        None \<Rightarrow> (None, w)
      | Some (resp, w') \<Rightarrow> ((case subscribe_result (Inr (respond resp)) of SubEmit p \<Rightarrow> Some p | _ \<Rightarrow> None), w'))"

section \<open>Registering and publishing on a hub\<close>

definition token_of :: "bytes \<Rightarrow> string" where
  "token_of b = hex_EncodeToString (copy_array 24 b)"

lemma token_nonempty [simp]: "token_of b \<noteq> ''''"
proof -
  have "length (token_of b) = 48" by (simp add: token_of_def)
  then show ?thesis by force
qed

lemma not_enforced:
  assumes "faults w = []" and "ban_list w = []"
  shows "IsLocallyEnforced h a v w = (Inr False, w)"
  using assms by (simp add: IsLocallyEnforced_def ListProposals_def bnd_def query_ok ret_def order_desc_def scanProposals_def)

lemma Register_hub:
  fixes w :: "'a hub_world_scheme"
  assumes "faults w = []" and "ban_list w = []" and "a \<noteq> ''''"
  shows "\<exists>c w1. sdk_Register (daemon_do (hub_daemon E) (Inr b) now ch) a n v caps (sdk_New, w) =
      (Inr \<lparr>sdk_AppID = a, sdk_AppName = n, sdk_AppVersion = v, sdk_NodeID = self E\<rparr>, (c, w1)) \<and> cl_token c = token_of b \<and>
    faults w1 = [] \<and> ban_list w1 = [] \<and> topics w1 = topics w \<and> chans w1 = chans w \<and>
    sessions w1 = (sessions w)(token_of b \<mapsto> \<lparr>s_token = token_of b, s_nodeID = self E, s_appID = a, s_appName = n, s_appVersion = v\<rparr>)"
proof -
  let ?b = "JsonObject [(''app_id'', a), (''app_name'', n), (''app_version'', v)] [(''capabilities'', caps)]"
  let ?q = "\<lparr>hq_Method = ''POST'', hq_Path = ''/v1/register'', hq_RawQuery = '''', hq_Session = '''', hq_Body = ?b\<rparr>"
  obtain w2 where u: "app_Upsert (self E) a n v now w = (Inr (), w2)" "faults w2 = []" "ban_list w2 = []" "topics w2 = topics w" "chans w2 = chans w" "sessions w2 = sessions w"
    using app_Upsert_ok [OF assms(1,3), of "self E" n v now] assms by simp
  let ?s = "\<lparr>s_token = token_of b, s_nodeID = self E, s_appID = a, s_appName = n, s_appVersion = v\<rparr>"
  let ?w3 = "w2\<lparr>sessions := (sessions w2)(token_of b \<mapsto> ?s)\<rparr>"
  obtain cs where e: "api_AppPresenceChanged (env_enc E) (clock ?w3) (self E) a v ?w3 = ?w3\<lparr>clients := cs\<rparr>"
    unfolding api_AppPresenceChanged_def using emit_frame by blast
  have "handleRegister (hub_daemon E) (Inr b) now (to_request ?q) (decoded ?q \<lparr>rb_AppID = field ?q ''app_id'', rb_AppName = field ?q ''app_name'',
      rb_AppVersion = field ?q ''app_version''\<rparr>) w = (JsonRegister (token_of b) (NodeID_String (self E)), ?w3\<lparr>clients := cs\<rparr>)"
    using assms u(1) e not_enforced [OF assms(1,2)]
    by (simp add: handleRegister_def to_request_def decoded_def field_def json_string_def hub_daemon_def newToken_def token_of_def [symmetric] Let_def)
  then have "daemon_do (hub_daemon E) (Inr b) now ch ?q w = (Inr (respond (JsonRegister (token_of b) (NodeID_String (self E)))), ?w3\<lparr>clients := cs\<rparr>)"
    by (simp add: daemon_do_def daemon_serve_def Let_def)
  then show ?thesis using u
    by (simp add: sdk_Register_def sdk_post_def sdk_do_def post_plain bnd_def respond_def json_string_def sdk_New_def NodeID_String_def ret_def Let_def)
qed

lemma Publish_hub:
  fixes w :: "'a hub_world_scheme"
  assumes "sessions w (cl_token c) = Some sess" and "cl_token c \<noteq> ''''" and "t \<noteq> ''''"
  shows "\<exists>cs. sdk_Publish (daemon_do (hub_daemon E) entropy now ch) c t p w = (Inr (), (broadcastTopic t p w)\<lparr>clients := cs\<rparr>)"
proof -
  let ?b = "JsonObject [(''topic'', t), (''payload_b64'', b64_EncodeToString p)] []"
  let ?q = "\<lparr>hq_Method = ''POST'', hq_Path = ''/v1/publish'', hq_RawQuery = '''', hq_Session = cl_token c, hq_Body = ?b\<rparr>"
  have s: "sessionFromRequest (to_request ?q) w = Some sess" using session_of_client [of w ?q sess] assms(1,2) by simp
  have "\<exists>cs. handlePublish (hub_daemon E) (to_request ?q) (decoded ?q \<lparr>pb_Topic = field ?q ''topic'', pb_PayloadB64 = field ?q ''payload_b64''\<rparr>) w =
      (JsonOk, (broadcastTopic t p w)\<lparr>clients := cs\<rparr>)"
  proof (cases "t = ''sos''")
    case True
    let ?w = "broadcastTopic t p w"
    obtain cs where "api_SosAlertPublished (env_enc E) (clock ?w) (s_nodeID sess) (s_appID sess) t p ?w = ?w\<lparr>clients := cs\<rparr>"
      unfolding api_SosAlertPublished_def using emit_frame by blast
    with s True show ?thesis
      by (intro exI [of _ cs]) (simp add: handlePublish_def decoded_def field_def json_string_def hub_daemon_def to_request_def Let_def)
  next
    case False
    have "broadcastTopic t p w = (broadcastTopic t p w)\<lparr>clients := clients (broadcastTopic t p w)\<rparr>" by simp
    with s False assms(3) show ?thesis
      by (intro exI [of _ "clients (broadcastTopic t p w)"])
        (simp add: handlePublish_def decoded_def field_def json_string_def hub_daemon_def to_request_def Let_def)
  qed
  then show ?thesis
    by (auto simp: sdk_Publish_def sdk_post_def sdk_do_def post_plain daemon_do_def daemon_serve_def bnd_def respond_def ret_def)
qed

lemma hub_poll_opens:
  assumes "sessions w (cl_token c) = Some sess" and "cl_token c \<noteq> ''''" and "list_all plain_char t" and "t \<noteq> ''''"
  shows "hub_poll ch c t w = w\<lparr>topics := AList.update (t, s_token sess) ch (topics w), chans := (chans w)(ch := [])\<rparr>"
proof -
  obtain q where q: "subscribe_request c t = Inr q" "r_Query (to_request q) ''topic'' = t"
    using subscribe_topic_get [OF assms(3), of "''''" c] by auto
  note m = NewRequest_fields [OF q(1) [unfolded subscribe_request_def]]
  have "sessionFromRequest (to_request q) w = Some sess" using session_of_client [of w q sess] assms(1,2) m(3) by simp
  then show ?thesis using q m(1) assms(4) by (simp add: hub_poll_def subscribe_open_def to_request_def Let_def)
qed

text \<open>What is published on the topic of an open poll is what the poll hands over.\<close>

lemma published_arrives:
  assumes "map_of (topics w) (t, k) = Some ch" and "chans w ch = []"
  shows "fst (hub_arrived ch c t ((broadcastTopic t p w)\<lparr>clients := cs\<rparr>)) = Some p"
proof -
  have "ch \<in> set (map snd (filter (\<lambda>((t', _), _). t' = t) (topics w)))"
    using map_of_SomeD [OF assms(1)] by force
  then have "chans (broadcastTopic t p w) ch = [p]" using assms(2) by (simp add: broadcastTopic_def Let_def offer_def)
  then show ?thesis
    by (simp add: hub_arrived_def subscribe_close_def topicReceive_def subscribe_result_def respond_def read_payload_def json_string_def Let_def)
qed

lemma prefixed_simp [simp]: "prefixed out ((out', code), w) = ((out @ out', code), w)"
  by (simp add: prefixed_def)

lemma discuss_posts:
  fixes w :: "'a hub_world_scheme"
  assumes "faults w = []" and "ban_list w = []" and "df_post fs \<noteq> ''''" and "df_topic fs \<noteq> ''''"
  shows "\<exists>w1 cs. discuss_main (daemon_do (hub_daemon E) (Inr b) now ch') J quote fs rounds w =
      (([Err (''registered as net.quakemesh.discuss on node '' @ hex_EncodeToString (self E)), Out ''published''], Some 0),
       (broadcastTopic (df_topic fs) (jm_Marshal J \<lparr>bp_Topic = df_topic fs, bp_Text = df_post fs, bp_Author = hex_EncodeToString (self E)\<rparr>) w1)\<lparr>clients := cs\<rparr>)
      \<and> topics w1 = topics w \<and> chans w1 = chans w"
proof -
  have "''net.quakemesh.discuss'' \<noteq> ''''" by simp
  from Register_hub [OF assms(1,2) this, of E b now ch' "''Discuss''" "''0.1.0''" "[''pubsub'']"] obtain c w1 where
    r: "sdk_Register (daemon_do (hub_daemon E) (Inr b) now ch') ''net.quakemesh.discuss'' ''Discuss'' ''0.1.0'' [''pubsub''] (sdk_New, w) =
        (Inr \<lparr>sdk_AppID = ''net.quakemesh.discuss'', sdk_AppName = ''Discuss'', sdk_AppVersion = ''0.1.0'', sdk_NodeID = self E\<rparr>, (c, w1))"
      "cl_token c = token_of b" "topics w1 = topics w" "chans w1 = chans w"
      "sessions w1 (token_of b) = Some \<lparr>s_token = token_of b, s_nodeID = self E, s_appID = ''net.quakemesh.discuss'', s_appName = ''Discuss'', s_appVersion = ''0.1.0''\<rparr>"
    by auto
  obtain cs where "sdk_Publish (daemon_do (hub_daemon E) (Inr b) now ch') c (df_topic fs)
      (jm_Marshal J \<lparr>bp_Topic = df_topic fs, bp_Text = df_post fs, bp_Author = hex_EncodeToString (self E)\<rparr>) w1 =
      (Inr (), (broadcastTopic (df_topic fs) (jm_Marshal J \<lparr>bp_Topic = df_topic fs, bp_Text = df_post fs, bp_Author = hex_EncodeToString (self E)\<rparr>) w1)\<lparr>clients := cs\<rparr>)"
    using Publish_hub [of w1 c _ "df_topic fs"] r(2,5) assms(4) by fastforce
  with r assms(3) show ?thesis by (intro exI [of _ w1] exI [of _ cs]) (simp add: discuss_main_def registered_def)
qed

section \<open>The bulletin board\<close>


lemma discover_quiet:
  fixes w :: "'a DB_scheme"
  assumes "faults w = []" and "ban_list w = []"
  shows "\<exists>ids. DiscoverPeers a v w = (Inr ids, w)" and "snd (discover_filter cfg a ps w) = w"
proof -
  show "\<exists>ids. DiscoverPeers a v w = (Inr ids, w)"
    using assms(1) by (simp add: DiscoverPeers_def app_List_def bnd_def query_ok ret_def)
  have g: "\<exists>r. app_Get p a w = (Inr r, w)" for p using assms(1) by (simp add: app_Get_def query_ok)
  show "snd (discover_filter cfg a ps w) = w"
  proof (induction ps)
    case (Cons p ps)
    obtain r where "app_Get p a w = (Inr r, w)" using g by blast
    then show ?case using Cons not_enforced [OF assms] by (auto simp: case_prod_unfold Let_def split: option.split)
  qed simp
qed

lemma Discover_hub:
  fixes w :: "'a hub_world_scheme"
  assumes "faults w = []" and "ban_list w = []" and "sessions w (cl_token c) = Some sess" and "cl_token c \<noteq> ''''"
    and "list_all plain_char a" and "a \<noteq> ''''"
  shows "\<exists>ids. sdk_DiscoverPeers (daemon_do (hub_daemon E) entropy now ch) c a '''' w = (Inr ids, w)"
proof -
  obtain peers where p: "DiscoverPeers a '''' w = (Inr peers, w)" using discover_quiet(1) [OF assms(1,2)] by blast
  obtain out where f: "discover_filter (hub_daemon E :: ('a hub_world_scheme) daemon_config) a peers w = (out, w)"
    using discover_quiet(2) [OF assms(1,2), of "hub_daemon E :: ('a hub_world_scheme) daemon_config" a peers] by (metis prod.collapse)
  have "list_all plain_char ''''" "d_Apps (hub_daemon E :: ('a hub_world_scheme) daemon_config)" by (simp_all add: hub_daemon_def)
  from discovery_decodes [OF assms(3-6) this, of entropy now ch] p f show ?thesis by auto
qed

section \<open>The smoke test\<close>

text \<open>
  C10. The smoke test passes. On a hub that answers its statements and knows no proposal of a ban, \<^verbatim>\<open>meshdemo\<close>
  registers, discovers, subscribes, publishes and gets its own message back: it prints that it is done and
  exits with 0, whatever tokens the hub draws and whatever the channels of other clients hold.
\<close>

theorem meshdemo_ok:
  fixes w :: "'a hub_world_scheme"
  assumes "faults w = []" and "ban_list w = []"
  shows "\<exists>n w'. meshdemo_main (\<lambda>k. daemon_do (hub_daemon E) (Inr (entropy k)) (now k) 0) quote (hub_poll ch) (hub_arrived ch) w =
    (([Out (''register ok node='' @ hex_EncodeToString (self E)), Out (''discover-peers ok count='' @ show_nat n),
       Out (''publish/subscribe ok payload='' @ quote ''meshdemo-ping''), Out ''meshdemo ok''], 0), w')"
proof -
  let ?a = "''net.quakemesh.meshdemo''" and ?t = "''meshdemo-smoke''" and ?do = "\<lambda>k. daemon_do (hub_daemon E) (Inr (entropy k)) (now k) 0"
  have s: "?a \<noteq> ''''" "?a @ ''-sub'' \<noteq> ''''" "?t \<noteq> ''''" "list_all plain_char ?a" "list_all plain_char ?t" by code_simp+
  from Register_hub [OF assms s(1), of E "entropy 0" "now 0" 0 "''Mesh Demo''" "''0.1.0''" "[''demo'']"] obtain c w1 where
    r1: "sdk_Register (?do 0) ?a ''Mesh Demo'' ''0.1.0'' [''demo''] (sdk_New, w) =
      (Inr \<lparr>sdk_AppID = ?a, sdk_AppName = ''Mesh Demo'', sdk_AppVersion = ''0.1.0'', sdk_NodeID = self E\<rparr>, (c, w1))"
    and c: "cl_token c = token_of (entropy 0)" and w1: "faults w1 = []" "ban_list w1 = []" "sessions w1 (token_of (entropy 0)) \<noteq> None" by auto
  have cs: "cl_token c \<noteq> ''''" "sessions w1 (cl_token c) \<noteq> None" using c w1(3) by simp_all
  then obtain s1 where s1: "sessions w1 (cl_token c) = Some s1" by blast
  from Discover_hub [OF w1(1,2) s1 cs(1) s(4,1), of E "Inr (entropy 1)" "now 1" 0] obtain ids where
    d: "sdk_DiscoverPeers (?do 1) c ?a '''' w1 = (Inr ids, w1)" by blast
  from Register_hub [OF w1(1,2) s(2), of E "entropy 2" "now 2" 0 "''Mesh Demo Sub''" "''0.1.0''" "[]"] obtain sess2 c2 w3 where
    r2: "sdk_Register (?do 2) (?a @ ''-sub'') ''Mesh Demo Sub'' ''0.1.0'' [] (sdk_New, w1) = (Inr sess2, (c2, w3))"
    and c2: "cl_token c2 = token_of (entropy 2)" and w3: "sessions w3 = (sessions w1)(token_of (entropy 2) \<mapsto>
      \<lparr>s_token = token_of (entropy 2), s_nodeID = self E, s_appID = ?a @ ''-sub'', s_appName = ''Mesh Demo Sub'', s_appVersion = ''0.1.0''\<rparr>)" by blast
  obtain s3 s4 where s3: "sessions w3 (cl_token c) = Some s3" and s4: "sessions w3 (cl_token c2) = Some s4"
    using s1 w3 c2 by (cases "cl_token c = cl_token c2") auto
  have n2: "cl_token c2 \<noteq> ''''" by (simp add: c2)
  note o = hub_poll_opens [OF s4 n2 s(5,3), of ch]
  have "sessions (hub_poll ch c2 ?t w3) (cl_token c) = Some s3" using s3 by (simp add: o)
  from Publish_hub [OF this cs(1) s(3), of E "Inr (entropy 3)" "now 3" 0 "string_bytes ''meshdemo-ping''"] obtain k where
    p: "sdk_Publish (?do 3) c ?t (string_bytes ''meshdemo-ping'') (hub_poll ch c2 ?t w3) =
      (Inr (), (broadcastTopic ?t (string_bytes ''meshdemo-ping'') (hub_poll ch c2 ?t w3))\<lparr>clients := k\<rparr>)" by blast
  let ?w4 = "(broadcastTopic ?t (string_bytes ''meshdemo-ping'') (hub_poll ch c2 ?t w3))\<lparr>clients := k\<rparr>"
  have "map_of (topics (hub_poll ch c2 ?t w3)) (?t, s_token s4) = Some ch" "chans (hub_poll ch c2 ?t w3) ch = []"
    by (simp_all add: o update_conv)
  from published_arrives [OF this, where p = "string_bytes ''meshdemo-ping''" and cs = k] obtain w5 where
    a: "hub_arrived ch c2 ?t ?w4 = (Some (string_bytes ''meshdemo-ping''), w5)" by (metis prod.collapse)
  have t: "bytes_text (string_bytes ''meshdemo-ping'') = ''meshdemo-ping''" by code_simp
  show ?thesis
    unfolding meshdemo_main_def Let_def r1 prod.case sum.case d r2 p a option.case t
    by (intro exI [of _ "length ids"] exI [of _ w5]) simp
qed

text \<open>A board whose posts are encoded by their text alone: two posts of the same author and topic differ in it.\<close>

definition sample_board :: "boardPost json" where
  "sample_board = \<lparr>jm_Marshal = (\<lambda>p. string_bytes (bp_Text p)),
     jm_Unmarshal = (\<lambda>bs. Some \<lparr>bp_Topic = ''news'', bp_Text = bytes_text bs, bp_Author = hex_EncodeToString (sample_id 1)\<rparr>)\<rparr>"

definition sample_listening :: hub_world where
  "sample_listening = sample_hub\<lparr>sessions := [''tok'' \<mapsto> \<lparr>s_token = ''tok'', s_nodeID = sample_id 1, s_appID = ''discuss'', s_appName = '''', s_appVersion = ''1''\<rparr>]\<rparr>"


theorem meshdemo_ok_witness:
  "snd (fst (meshdemo_main (\<lambda>k. daemon_do (hub_daemon sample_env) (Inr (replicate 24 (of_nat k))) 0 0) id (hub_poll 1) (hub_arrived 1) sample_hub)) = 0"
proof -
  have "faults sample_hub = []" "ban_list sample_hub = []" by (simp_all add: sample_hub_def DB.defs empty_DB_def)
  from meshdemo_ok [OF this, of sample_env "\<lambda>k. replicate 24 (of_nat k)" "\<lambda>_. 0" id 1] show ?thesis by auto
qed

end
