(* ===== verification/Host.thy ===== *)
theory Host
  imports Lan
begin

text \<open>
  What \<^verbatim>\<open>core/lancontext/lancontext.go\<close> asks of the host: the default gateway, read from the output of
  \<^verbatim>\<open>ip route\<close> or \<^verbatim>\<open>route get\<close>, and the address of the outgoing interface; with \<^verbatim>\<open>net.ParseIP\<close> and the functions
  of \<^verbatim>\<open>strings\<close> and \<^verbatim>\<open>bufio\<close> that the code uses. The commands' output and the dialled socket are parameters.

  Shown: a gateway that is found is a dotted quad, and the one of a default route is found, whatever the
  other routes are.
\<close>

section \<open>Splitting\<close>

fun split_by :: "(char \<Rightarrow> bool) \<Rightarrow> string \<Rightarrow> string list" where
  "split_by sep [] = [[]]"
| "split_by sep (c # cs) =
     (if sep c then [] # split_by sep cs
      else case split_by sep cs of [] \<Rightarrow> [[c]] | p # ps \<Rightarrow> (c # p) # ps)"

text \<open>\<^verbatim>\<open>strings.Split\<close> on one character, and \<^verbatim>\<open>strings.Fields\<close> on ASCII white space.\<close>

definition Split :: "string \<Rightarrow> char \<Rightarrow> string list" where
  "Split s c = split_by (\<lambda>x. x = c) s"

definition Fields :: "string \<Rightarrow> string list" where
  "Fields s = filter (\<lambda>f. f \<noteq> []) (split_by is_space s)"

text \<open>
  \<^verbatim>\<open>bufio.Scanner\<close> by lines: the carriage return at the end of a line and an empty last line go; a line that
  does not fit into the buffer ends the scan.
\<close>

definition scan_lines :: "string \<Rightarrow> string list" where
  "scan_lines s =
     (let ls = Split s (CHR 0x0A); ls' = (if last ls = [] then butlast ls else ls)
      in map (\<lambda>l. TrimSuffix l [CHR 0x0D]) (takeWhile (\<lambda>l. length l < 65536) ls'))"

section \<open>Addresses\<close>

definition dec_digit :: "char \<Rightarrow> nat option" where
  "dec_digit c = (let n = of_char c :: nat in if 48 \<le> n \<and> n \<le> 57 then Some (n - 48) else None)"

text \<open>A field of a dotted quad: decimal, without leading zeros, at most 255.\<close>

definition octet :: "string \<Rightarrow> nat option" where
  "octet f =
     (case those (map dec_digit f) of
        None \<Rightarrow> None
      | Some ds \<Rightarrow>
          (let v = fold (\<lambda>d a. 10 * a + d) ds 0
           in if ds = [] \<or> length ds > 1 \<and> hd ds = 0 \<or> v > 255 then None else Some v))"

definition parseIPv4 :: "string \<Rightarrow> nat list option" where
  "parseIPv4 s = (let fs = Split s (CHR ''.'') in if length fs = 4 then those (map octet fs) else None)"

text \<open>The groups of an IPv6 address after its bytes \<open>ip\<close>; \<open>ell\<close> is where the double colon stands.\<close>

definition hex_value :: "string \<Rightarrow> nat" where
  "hex_value hs = fold (\<lambda>c a. 16 * a + the (from_hex_char c)) hs 0"

fun v6_groups :: "nat \<Rightarrow> string \<Rightarrow> nat list \<Rightarrow> nat option \<Rightarrow> (nat list \<times> nat option) option" where
  "v6_groups 0 s ip ell = (if s = [] then Some (ip, ell) else None)"
| "v6_groups (Suc n) s ip ell =
     (let hs = takeWhile (\<lambda>c. from_hex_char c \<noteq> None) s; rest = drop (length hs) s;
          ip' = ip @ [hex_value hs div 256, hex_value hs mod 256]
      in if hs = [] \<or> length hs > 4 then None
         else if HasPrefix rest ''.'' then
           (if ell = None \<and> length ip \<noteq> 12 \<or> length ip > 12 then None
            else map_option (\<lambda>q. (ip @ q, ell)) (parseIPv4 s))
         else if rest = [] then Some (ip', ell)
         else if hd rest \<noteq> CHR '':'' \<or> length rest = 1 then None
         else if hd (tl rest) = CHR '':'' then
           (if ell \<noteq> None then None
            else if length rest = 2 then Some (ip', Some (length ip'))
            else v6_groups n (drop 2 rest) ip' (Some (length ip')))
         else v6_groups n (tl rest) ip' ell)"

definition parseIPv6 :: "string \<Rightarrow> nat list option" where
  "parseIPv6 s =
     (if CHR ''%'' \<in> set s then None
      else case (if HasPrefix s ''::'' then (if length s = 2 then Some ([], Some 0) else v6_groups 8 (drop 2 s) [] (Some 0))
                 else v6_groups 8 s [] None) of
        None \<Rightarrow> None
      | Some (ip, None) \<Rightarrow> if length ip < 16 then None else Some ip
      | Some (ip, Some e) \<Rightarrow> if length ip < 16 then Some (take e ip @ replicate (16 - length ip) 0 @ drop e ip) else None)"

text \<open>\<^verbatim>\<open>net.ParseIP\<close>: 16 bytes; a zone is refused.\<close>

definition ParseIP :: "string \<Rightarrow> nat list option" where
  "ParseIP s =
     (case find (\<lambda>c. c \<in> {CHR ''.'', CHR '':'', CHR ''%''}) s of
        None \<Rightarrow> None
      | Some c \<Rightarrow>
          if c = CHR ''.'' then map_option (\<lambda>q. replicate 10 0 @ [255, 255] @ q) (parseIPv4 s)
          else if c = CHR '':'' then parseIPv6 s else None)"

definition To4 :: "nat list \<Rightarrow> nat list option" where
  "To4 ip = (if take 12 ip = replicate 10 0 @ [255, 255] then Some (drop 12 ip) else None)"

text \<open>\<^verbatim>\<open>IP.String\<close> of an IPv4 address.\<close>

fun quad_String :: "nat list \<Rightarrow> string" where
  "quad_String [] = []"
| "quad_String [a] = show_nat a"
| "quad_String (a # b # q) = show_nat a @ ''.'' @ quad_String (b # q)"

section \<open>The gateway\<close>

text \<open>\<^verbatim>\<open>ip := net.ParseIP(s); ip != nil && ip.To4() != nil\<close>, then \<^verbatim>\<open>ip.String()\<close>.\<close>

definition gateway_field :: "string \<Rightarrow> string option" where
  "gateway_field s = (case ParseIP s of None \<Rightarrow> None | Some ip \<Rightarrow> map_option quad_String (To4 ip))"

fun via_field :: "string list \<Rightarrow> string option" where
  "via_field (f # g # fs) =
     (if f = ''via'' then (case gateway_field g of Some ip \<Rightarrow> Some ip | None \<Rightarrow> via_field (g # fs)) else via_field (g # fs))"
| "via_field _ = None"

fun first_some :: "('x \<Rightarrow> string option) \<Rightarrow> 'x list \<Rightarrow> string" where
  "first_some f [] = ''''"
| "first_some f (x # xs) = (case f x of Some s \<Rightarrow> s | None \<Rightarrow> first_some f xs)"

text \<open>The output of the command is \<open>None\<close> when it failed.\<close>

definition gatewayFromIPRoute :: "string option \<Rightarrow> string" where
  "gatewayFromIPRoute out =
     (case out of None \<Rightarrow> '''' | Some s \<Rightarrow> first_some (\<lambda>line. via_field (Fields line)) (Split s (CHR 0x0A)))"

definition gateway_line :: "string \<Rightarrow> string option" where
  "gateway_line text =
     (let line = TrimSpace text
      in if HasPrefix line ''gateway:'' then gateway_field (TrimSpace (TrimPrefix line ''gateway:'')) else None)"

definition gatewayFromRouteGet :: "string option \<Rightarrow> string" where
  "gatewayFromRouteGet out = (case out of None \<Rightarrow> '''' | Some s \<Rightarrow> first_some gateway_line (scan_lines s))"

record host =
  host_GOOS :: string
  host_ip_route :: "string option"
  host_route_get :: "string option"
  host_local :: "string option"

definition DetectGateway :: "host \<Rightarrow> string" where
  "DetectGateway h =
     (if host_GOOS h = ''linux'' then gatewayFromIPRoute (host_ip_route h)
      else if host_GOOS h = ''darwin'' then gatewayFromRouteGet (host_route_get h)
      else '''')"

text \<open>\<open>host_local\<close> is the local address of the socket that was dialled, if it has an IP address.\<close>

definition DetectLocalIP :: "host \<Rightarrow> string" where
  "DetectLocalIP h = (case host_local h of None \<Rightarrow> '''' | Some ip \<Rightarrow> ip)"

definition Detect :: "host \<Rightarrow> Context" where
  "Detect h =
     (let gw = DetectGateway h
      in if gw = '''' then \<lparr>GatewayIP = '''', LocalIP = '''', SSID = '''', BSSID = ''''\<rparr>
         else \<lparr>GatewayIP = gw, LocalIP = DetectLocalIP h, SSID = '''', BSSID = ''''\<rparr>)"

section \<open>What is parsed\<close>

definition quad :: "nat list \<Rightarrow> bool" where
  "quad q = (length q = 4 \<and> list_all (\<lambda>b. b < 256) q)"

definition in_digits :: "char \<Rightarrow> bool" where
  "in_digits c = (48 \<le> (of_char c :: nat) \<and> (of_char c :: nat) \<le> 57)"

lemma dec_digit_char: "d < 10 \<Longrightarrow> dec_digit (digit_char d) = Some d \<and> in_digits (digit_char d)"
  by (simp add: dec_digit_def digit_char_def in_digits_def)

text \<open>A number below 256 has one, two or three digits.\<close>

lemma show_octet:
  assumes "n < 256"
  shows "octet (show_nat n) = Some n \<and> list_all in_digits (show_nat n)"
proof -
  have d: "n mod 10 < 10" "n div 10 mod 10 < 10" "n div 100 < 10" "n div 10 div 10 = n div 100" using assms by auto
  consider "n < 10" | "10 \<le> n" "n < 100" | "100 \<le> n" by linarith
  then show ?thesis
  proof cases
    case 1
    then show ?thesis by (simp add: show_nat.simps [of n] octet_def dec_digit_char)
  next
    case 2
    then have "n div 10 < 10" "n div 10 \<noteq> 0" by auto
    with 2 d show ?thesis
      by (simp add: show_nat.simps [of n] show_nat.simps [of "n div 10"] octet_def dec_digit_char Let_def)
  next
    case 3
    then have "\<not> n div 10 < 10" "n div 100 \<noteq> 0" by linarith+
    moreover have "10 * (n div 100) + n div 10 mod 10 = n div 10" using mult_div_mod_eq [of 10 "n div 10"] d(4) by simp
    then have "10 * (10 * (n div 100) + n div 10 mod 10) + n mod 10 = n" using mult_div_mod_eq [of 10 n] by simp
    ultimately show ?thesis using 3 d assms
      by (simp add: show_nat.simps [of n] show_nat.simps [of "n div 10"] show_nat.simps [of "n div 100"] octet_def dec_digit_char Let_def)
  qed
qed

lemma octet_show [simp]: "n < 256 \<Longrightarrow> octet (show_nat n) = Some n"
  using show_octet by simp

lemma octet_digits: "n < 256 \<Longrightarrow> list_all in_digits (show_nat n)"
  using show_octet by simp

lemma octet_bound: "octet f = Some v \<Longrightarrow> v < 256"
  by (auto simp: octet_def Let_def split: option.splits if_splits)

lemma split_by_not_Nil [simp]: "split_by sep s \<noteq> []"
  by (cases s) (auto split: list.split)

lemma split_by_none: "list_all (\<lambda>c. \<not> sep c) s \<Longrightarrow> split_by sep s = [s]"
  by (induction s) auto

lemma split_by_append: "list_all (\<lambda>c. \<not> sep c) s \<Longrightarrow> sep c \<Longrightarrow> split_by sep (s @ c # t) = s # split_by sep t"
  by (induction s) auto

lemma digits_not: "list_all in_digits s \<Longrightarrow> \<not> in_digits c \<Longrightarrow> list_all (\<lambda>x. x \<noteq> c) s"
  by (induction s) auto

lemma not_digits: "\<not> in_digits (CHR ''.'')" "\<not> in_digits (CHR '':'')" "\<not> in_digits (CHR ''%'')"
  by (simp_all add: in_digits_def)

lemma quad_cases:
  assumes "quad q"
  obtains a b c d where "q = [a, b, c, d]" "a < 256" "b < 256" "c < 256" "d < 256"
  using assms by (auto simp: quad_def length_Suc_conv eval_nat_numeral)

lemma parseIPv4_quad:
  assumes "quad q"
  shows "parseIPv4 (quad_String q) = Some q"
proof -
  from assms obtain a b c d where q: "q = [a, b, c, d]" and lt: "a < 256" "b < 256" "c < 256" "d < 256" by (rule quad_cases)
  note n = lt [THEN octet_digits, THEN digits_not, OF not_digits(1)]
  have "Split (quad_String q) (CHR ''.'') = [show_nat a, show_nat b, show_nat c, show_nat d]"
    using n by (simp add: q Split_def split_by_append split_by_none)
  with lt show ?thesis by (simp add: parseIPv4_def q)
qed

lemma ParseIP_quad:
  assumes "quad q"
  shows "ParseIP (quad_String q) = Some (replicate 10 0 @ [255, 255] @ q)"
proof -
  from assms obtain a b c d where q: "q = [a, b, c, d]" and lt: "a < 256" "b < 256" "c < 256" "d < 256" by (rule quad_cases)
  have skip: "list_all in_digits s \<Longrightarrow> find (\<lambda>c. c \<in> {CHR ''.'', CHR '':'', CHR ''%''}) (s @ CHR ''.'' # t) = Some (CHR ''.'')" for s t
    by (induction s) (auto simp: in_digits_def)
  have "find (\<lambda>c. c \<in> {CHR ''.'', CHR '':'', CHR ''%''}) (quad_String q) = Some (CHR ''.'')"
    using skip [OF octet_digits [OF lt(1)]] by (simp add: q)
  with parseIPv4_quad [OF assms] show ?thesis unfolding ParseIP_def by simp
qed

lemma gateway_field_quad [simp]: "quad q \<Longrightarrow> gateway_field (quad_String q) = Some (quad_String q)"
  by (simp add: gateway_field_def ParseIP_quad To4_def)

lemma those_bound: "those (map octet fs) = Some q \<Longrightarrow> list_all (\<lambda>b. b < 256) q \<and> length q = length fs"
  by (induction fs arbitrary: q) (auto split: option.splits dest: octet_bound)

lemma parseIPv4_result: "parseIPv4 s = Some q \<Longrightarrow> quad q"
  by (auto simp: parseIPv4_def quad_def Let_def split: if_splits dest: those_bound)

lemma from_hex_char_bound: "from_hex_char c = Some v \<Longrightarrow> v < 16"
  by (auto simp: from_hex_char_def Let_def split: if_splits)

lemma hex_value_bound:
  assumes "list_all (\<lambda>c. from_hex_char c \<noteq> None) hs"
  shows "fold (\<lambda>c a. 16 * a + the (from_hex_char c)) hs a < (a + 1) * 16 ^ length hs"
  using assms
proof (induction hs arbitrary: a)
  case (Cons c hs)
  then obtain v where v: "from_hex_char c = Some v" by auto
  from from_hex_char_bound [OF v] have "16 * a + v + 1 \<le> (a + 1) * 16" by simp
  then have "(16 * a + v + 1) * 16 ^ length hs \<le> (a + 1) * 16 * 16 ^ length hs" by (rule mult_le_mono1)
  with Cons.IH [of "16 * a + v"] Cons.prems have
    "fold (\<lambda>c a. 16 * a + the (from_hex_char c)) hs (16 * a + v) < (a + 1) * 16 * 16 ^ length hs"
    by (intro less_le_trans [OF Cons.IH]) simp_all
  with v show ?case by (simp add: algebra_simps)
qed simp

lemma v6_groups_bytes:
  assumes "v6_groups n s ip ell = Some (ip', ell')" and "list_all (\<lambda>b. b < 256) ip"
  shows "list_all (\<lambda>b. b < 256) ip'"
  using assms
proof (induction n arbitrary: s ip ell)
  case (Suc n)
  let ?hs = "takeWhile (\<lambda>c. from_hex_char c \<noteq> None) s"
  have h: "list_all (\<lambda>c. from_hex_char c \<noteq> None) ?hs" by (auto simp: list_all_iff dest: set_takeWhileD)
  have b: "list_all (\<lambda>b. b < 256) (ip @ [hex_value ?hs div 256, hex_value ?hs mod 256])" if "length ?hs \<le> 4"
  proof -
    have "hex_value ?hs < 16 ^ length ?hs" using hex_value_bound [OF h, of 0] by (simp add: hex_value_def)
    also have "\<dots> \<le> 16 ^ 4" using that by (intro power_increasing) auto
    finally have "hex_value ?hs < 65536" by simp
    then show ?thesis using Suc.prems(2) by (simp add: less_mult_imp_div_less)
  qed
  show ?case
    using Suc.prems b Suc.IH
    by (auto simp: Let_def quad_def split: if_splits dest!: parseIPv4_result)
qed (auto split: if_splits)

lemma v6_groups_length:
  assumes "v6_groups n s ip ell = Some (ip', ell')" and "length ip + 2 * n = 16" and "ell \<noteq> None \<longrightarrow> the ell \<le> length ip"
  shows "length ip' \<le> 16 \<and> (ell' \<noteq> None \<longrightarrow> the ell' \<le> length ip')"
  using assms
proof (induction n arbitrary: s ip ell)
  case (Suc n)
  then show ?case by (auto simp: Let_def quad_def split: if_splits dest!: parseIPv4_result)
qed (auto split: if_splits)

lemma v6_length:
  assumes "parseIPv6 s = Some ip"
  shows "length ip = 16"
proof -
  let ?G = "if HasPrefix s ''::'' then (if length s = 2 then Some ([], Some 0) else v6_groups 8 (drop 2 s) [] (Some 0)) else v6_groups 8 s [] None"
  from assms obtain bs ell where G: "?G = Some (bs, ell)" by (auto simp: parseIPv6_def split: if_splits option.splits)
  then have bs: "length bs \<le> 16 \<and> (ell \<noteq> None \<longrightarrow> the ell \<le> length bs)"
    using v6_groups_length [of 8 "drop 2 s" "[]" "Some 0" bs ell] v6_groups_length [of 8 s "[]" None bs ell] by (auto split: if_splits)
  with assms show ?thesis unfolding parseIPv6_def G by (auto split: if_splits option.splits)
qed

lemma parseIPv6_bytes:
  assumes "parseIPv6 s = Some ip"
  shows "list_all (\<lambda>b. b < 256) ip"
proof -
  let ?G = "if HasPrefix s ''::'' then (if length s = 2 then Some ([], Some 0) else v6_groups 8 (drop 2 s) [] (Some 0)) else v6_groups 8 s [] None"
  from assms obtain bs ell where G: "?G = Some (bs, ell)" by (auto simp: parseIPv6_def split: if_splits option.splits)
  then have bs: "list_all (\<lambda>b. b < 256) bs"
    by (auto dest: v6_groups_bytes split: if_splits)
  from assms G have "ip = bs \<or> (\<exists>e. ip = take e bs @ replicate (16 - length bs) 0 @ drop e bs)"
    unfolding parseIPv6_def G by (auto split: if_splits option.splits)
  then have "set ip \<subseteq> insert 0 (set bs)"
  proof (elim disjE exE)
    fix e assume "ip = take e bs @ replicate (16 - length bs) 0 @ drop e bs"
    with set_take_subset [of e bs] set_drop_subset [of e bs] show ?thesis by (auto simp: set_replicate_conv_if)
  qed auto
  with bs show ?thesis by (auto simp: list_all_iff)
qed

text \<open>Every gateway that is read is a dotted quad.\<close>

lemma gateway_field_result: "gateway_field s = Some g \<Longrightarrow> \<exists>q. quad q \<and> g = quad_String q"
proof -
  assume "gateway_field s = Some g"
  then obtain ip q where ip: "ParseIP s = Some ip" "To4 ip = Some q" "g = quad_String q"
    by (auto simp: gateway_field_def split: option.splits)
  have l: "length ip = 16 \<and> list_all (\<lambda>b. b < 256) ip" if P: "ParseIP s = Some ip"
  proof -
    consider r where "parseIPv4 s = Some r" "ip = replicate 10 0 @ [255, 255] @ r" | "parseIPv6 s = Some ip"
      using P by (auto simp: ParseIP_def split: option.splits if_splits)
    then show ?thesis
    proof cases
      case 1
      then show ?thesis using parseIPv4_result [of s r] by (auto simp: quad_def list_all_iff)
    next
      case 2
      from v6_length [OF 2] parseIPv6_bytes [OF 2] show ?thesis by simp
    qed
  qed
  from l [OF ip(1)] have "quad (drop 12 ip)" by (auto simp: quad_def list_all_iff dest: in_set_dropD)
  moreover have "q = drop 12 ip" using ip(2) by (auto simp: To4_def split: if_splits)
  ultimately show ?thesis using ip(3) by blast
qed

lemma via_field_result: "via_field fs = Some g \<Longrightarrow> \<exists>q. quad q \<and> g = quad_String q"
  by (induction fs rule: via_field.induct) (auto split: if_splits option.splits dest: gateway_field_result)

lemma first_some_result: "first_some f xs = '''' \<or> (\<exists>x \<in> set xs. f x = Some (first_some f xs))"
  by (induction xs) (auto split: option.split)

text \<open>
  C38. The gateway is an address. Whatever the host's commands print, \<^verbatim>\<open>DetectGateway\<close> gives the empty string or
  the canonical dotted quad of an IPv4 address, which parses to itself; and the context that is detected is a
  valid one just when there is a gateway.
\<close>

theorem DetectGateway_quad:
  "(DetectGateway h = '''' \<or> (\<exists>q. quad q \<and> DetectGateway h = quad_String q \<and> gateway_field (DetectGateway h) = Some (quad_String q))) \<and>
   Valid (Detect h) = (DetectGateway h \<noteq> '''')"
proof -
  have "DetectGateway h = '''' \<or> (\<exists>q. quad q \<and> DetectGateway h = quad_String q)"
  proof -
    have "gatewayFromIPRoute out = '''' \<or> (\<exists>q. quad q \<and> gatewayFromIPRoute out = quad_String q)" for out
    proof (cases out)
      case (Some s)
      then show ?thesis
        using first_some_result [of "\<lambda>line. via_field (Fields line)" "Split s (CHR 0x0A)"] via_field_result
        by (auto simp: gatewayFromIPRoute_def)
    qed (simp add: gatewayFromIPRoute_def)
    moreover have "gatewayFromRouteGet out = '''' \<or> (\<exists>q. quad q \<and> gatewayFromRouteGet out = quad_String q)" for out
    proof (cases out)
      case (Some s)
      have "\<exists>q. quad q \<and> g = quad_String q" if "gateway_line t = Some g" for t g
        using that gateway_field_result by (auto simp: gateway_line_def Let_def split: if_splits)
      then show ?thesis
        using Some first_some_result [of gateway_line "scan_lines s"] by (auto simp: gatewayFromRouteGet_def)
    qed (simp add: gatewayFromRouteGet_def)
    ultimately show ?thesis unfolding DetectGateway_def by presburger
  qed
  then show ?thesis by (auto simp: Valid_def Detect_def Let_def)
qed


section \<open>A default route is found\<close>

lemma via_field_none: "''via'' \<notin> set fs \<Longrightarrow> via_field fs = None"
  by (induction fs rule: via_field.induct) auto

lemma quad_String_no_space:
  assumes "quad q"
  shows "list_all (\<lambda>c. \<not> is_space c) (quad_String q)" and "quad_String q \<noteq> []"
proof -
  have d: "list_all (\<lambda>c. \<not> is_space c) s" if "list_all in_digits s" for s
    using that by (induction s) (auto simp: in_digits_def is_space_def)
  from assms obtain a b c e where q: "q = [a, b, c, e]" and lt: "a < 256" "b < 256" "c < 256" "e < 256" by (rule quad_cases)
  show "list_all (\<lambda>c. \<not> is_space c) (quad_String q)"
    using lt [THEN octet_digits, THEN d] by (simp add: q is_space_def)
  show "quad_String q \<noteq> []" by (simp add: q)
qed

lemma Fields_cons:
  assumes "list_all (\<lambda>c. \<not> is_space c) f" and "f \<noteq> []"
  shows "Fields (f @ CHR '' '' # t) = f # Fields t" and "Fields f = [f]"
  using assms by (simp_all add: Fields_def split_by_append split_by_none is_space_def)

lemma Fields_default_route:
  assumes "quad q" and "rest = [] \<or> hd rest = CHR '' ''"
  shows "Fields (''default via '' @ quad_String q @ rest) = ''default'' # ''via'' # quad_String q # Fields rest"
proof -
  have w: "list_all (\<lambda>c. \<not> is_space c) ''default''" "list_all (\<lambda>c. \<not> is_space c) ''via''" by code_simp+
  note n = quad_String_no_space [OF assms(1)]
  have "Fields (quad_String q @ rest) = quad_String q # Fields rest"
  proof (cases rest)
    case Nil
    then show ?thesis using Fields_cons(2) [OF n] by (simp add: Fields_def)
  next
    case (Cons c t)
    then have "rest = CHR '' '' # t" "Fields rest = Fields t" using assms(2) by (auto simp: Fields_def is_space_def)
    then show ?thesis using Fields_cons(1) [OF n, of t] by simp
  qed
  then show ?thesis
    using Fields_cons(1) [OF w(1), of "''via '' @ quad_String q @ rest"] Fields_cons(1) [OF w(2), of "quad_String q @ rest"] by simp
qed

definition newline_free :: "string \<Rightarrow> bool" where
  "newline_free l = list_all (\<lambda>c. c \<noteq> CHR 0x0A) l"

definition as_output :: "string list \<Rightarrow> string" where
  "as_output ls = concat (map (\<lambda>l. l @ [CHR 0x0A]) ls)"

lemma Split_output: "list_all newline_free ls \<Longrightarrow> Split (as_output ls) (CHR 0x0A) = ls @ [[]]"
  by (induction ls) (simp_all add: as_output_def Split_def newline_free_def split_by_append)

lemma first_some_append: "list_all (\<lambda>x. f x = None) xs \<Longrightarrow> first_some f (xs @ ys) = first_some f ys"
  by (induction xs) auto

text \<open>
  The default route is found. On Linux, when the routing command lists a default route via an IPv4 address,
  after any lines without a gateway and before any others, \<^verbatim>\<open>Detect\<close> gives the context with exactly this
  gateway.
\<close>

theorem default_route_found:
  assumes "host_GOOS h = ''linux''" and "quad q" and "rest = [] \<or> hd rest = CHR '' ''"
    and "host_ip_route h = Some (as_output (pre @ [''default via '' @ quad_String q @ rest] @ post))"
    and "list_all newline_free (pre @ [''default via '' @ quad_String q @ rest] @ post)"
    and "list_all (\<lambda>l. ''via'' \<notin> set (Fields l)) pre"
  shows "Detect h = \<lparr>GatewayIP = quad_String q, LocalIP = DetectLocalIP h, SSID = '''', BSSID = ''''\<rparr>"
proof -
  let ?line = "''default via '' @ quad_String q @ rest"
  have p: "list_all (\<lambda>l. via_field (Fields l) = None) pre"
    using assms(6) by (induction pre) (auto dest: via_field_none)
  have "via_field (Fields ?line) = Some (quad_String q)"
    unfolding Fields_default_route [OF assms(2,3)] using assms(2) by simp
  then have "first_some (\<lambda>l. via_field (Fields l)) (pre @ ?line # post @ [[]]) = quad_String q"
    by (simp add: first_some_append [OF p])
  then have "DetectGateway h = quad_String q"
    using Split_output [OF assms(5)] assms(1,4) by (simp add: DetectGateway_def gatewayFromIPRoute_def)
  with quad_String_no_space(2) [OF assms(2)] show ?thesis by (simp add: Detect_def Let_def)
qed

definition sample_host :: host where
  "sample_host = \<lparr>host_GOOS = ''linux'',
     host_ip_route = Some (as_output ([''unreachable default metric 9''] @ [''default via '' @ quad_String [192, 168, 1, 254] @ '' dev wlan0''] @ [])),
     host_route_get = None, host_local = Some ''192.168.1.7''\<rparr>"

theorem default_route_found_witness:
  "Detect sample_host = \<lparr>GatewayIP = ''192.168.1.254'', LocalIP = ''192.168.1.7'', SSID = '''', BSSID = ''''\<rparr>"
proof -
  have q: "quad [192, 168, 1, 254]" by (simp add: quad_def)
  have s: "quad_String [192, 168, 1, 254] = ''192.168.1.254''" by code_simp
  have n: "list_all newline_free ([''unreachable default metric 9''] @ [''default via '' @ quad_String [192, 168, 1, 254] @ '' dev wlan0''] @ [])"
    "list_all (\<lambda>l. ''via'' \<notin> set (Fields l)) [''unreachable default metric 9'']" by code_simp+
  have h: "host_GOOS sample_host = ''linux''" "DetectLocalIP sample_host = ''192.168.1.7''"
    and r: "host_ip_route sample_host = Some (as_output ([''unreachable default metric 9''] @ [''default via '' @ quad_String [192, 168, 1, 254] @ '' dev wlan0''] @ []))"
    by (simp_all add: sample_host_def DetectLocalIP_def)
  have "'' dev wlan0'' = [] \<or> hd '' dev wlan0'' = CHR '' ''" by simp
  from default_route_found [OF h(1) q this r n] show ?thesis unfolding h(2) s .
qed

end
