(* ===== verification/Programs.thy ===== *)
theory Programs
  imports HubApp Host MonitorApp
begin

text \<open>
  The programs around the hub and the monitor: \<^verbatim>\<open>hub/main.go\<close> (flags, peers, start, banner, shutdown), the
  banner of \<^verbatim>\<open>monitor/main.go\<close>, and the node that \<^verbatim>\<open>core/mobile/mobile.go\<close> gives to the Android app. Flags are
  taken as parsed.

  Shown: a list of peers survives the flag, with any blanks around the commas; every line of a banner is as wide
  as its frame, whatever bytes the configuration holds.
\<close>

section \<open>The hub's main\<close>

record hub_flags =
  fl_identity :: string
  fl_db :: string
  fl_ogm_addr :: string
  fl_peers :: string
  fl_management_addr :: string
  fl_ogm_interval :: duration
  fl_stale_after :: duration
  fl_dtn_ttl :: duration
  fl_app_socket :: string
  fl_heartbeat_addr :: string
  fl_discovery_bind :: string

definition loopbackManagementAddr :: string where
  "loopbackManagementAddr = ''127.0.0.1:8083''"

text \<open>The values of flags that are not given.\<close>

definition default_flags :: hub_flags where
  "default_flags = \<lparr>fl_identity = ''quakemeshhub.identity'', fl_db = ''quakemeshhub.db'', fl_ogm_addr = ''0.0.0.0:47222'',
     fl_peers = '''', fl_management_addr = loopbackManagementAddr, fl_ogm_interval = OGMInterval DefaultConfig,
     fl_stale_after = cfg_StaleAfter DefaultConfig, fl_dtn_ttl = DTNTTL DefaultConfig, fl_app_socket = AppSocket DefaultConfig,
     fl_heartbeat_addr = HeartbeatAddr DefaultConfig, fl_discovery_bind = DiscoveryBind DefaultConfig\<rparr>"

definition flag_peers :: "string \<Rightarrow> string list" where
  "flag_peers peers =
     (if peers = '''' then [] else filter (\<lambda>p. p \<noteq> '''') (map TrimSpace (Split peers (CHR '',''))))"

definition main_config :: "string \<Rightarrow> hub_flags \<Rightarrow> Config" where
  "main_config version fs = DefaultConfig\<lparr>cfg_AppVersion := version, IdentityPath := fl_identity fs, DBPath := fl_db fs,
     OGMBindAddr := fl_ogm_addr fs, cfg_Peers := cfg_Peers DefaultConfig @ flag_peers (fl_peers fs), ManagementAddr := fl_management_addr fs,
     OGMInterval := fl_ogm_interval fs, cfg_StaleAfter := fl_stale_after fs, DTNTTL := fl_dtn_ttl fs, AppSocket := fl_app_socket fs,
     HeartbeatAddr := fl_heartbeat_addr fs, DiscoveryBind := fl_discovery_bind fs\<rparr>"

text \<open>
  What became of the program: it ended with a message, or it ran with its parts, and left those that \<^verbatim>\<open>Close\<close>
  had not stopped when it was interrupted.
\<close>

datatype main_result = Fatal string | Ran "part list" "part list"

definition hub_main ::
  "string \<Rightarrow> hub_flags \<Rightarrow> error + bytes \<Rightarrow> error + unit \<Rightarrow> (part \<Rightarrow> bool) \<Rightarrow> (string \<times> int) option \<Rightarrow> hub_env \<Rightarrow> fs \<Rightarrow>
   'a hub_world_scheme \<Rightarrow> main_result \<times> fs \<times> 'a hub_world_scheme" where
  "hub_main version fs gen opened ok addr E f w =
     (case hub_New gen opened (E\<lparr>env_cfg := main_config version fs\<rparr>) f of
        (Inl e, f1) \<Rightarrow> (Fatal ''New'', f1, w)
      | (Inr E1, f1) \<Rightarrow>
          (case hub_Start E1 ok addr w of
             (Some m, _, w1) \<Rightarrow> (Fatal m, f1, w1)
           | (None, running, w1) \<Rightarrow> (Ran running (hub_Close (env_cfg E1) running), f1, w1)))"

section \<open>Runes\<close>

definition rune_cont :: "char \<Rightarrow> bool" where
  "rune_cont c = (128 \<le> (of_char c :: nat) \<and> (of_char c :: nat) < 192)"

text \<open>
  How many bytes a UTF-8 sequence has that begins with \<open>c\<close>, and how many the one has that begins with \<open>c\<close> and goes
  on in \<open>s\<close>: 0 when there is none. The bounds of the second byte exclude overlong forms, surrogates and what is
  beyond the last code point.
\<close>

definition rune_size :: "char \<Rightarrow> nat" where
  "rune_size c =
     (let a = of_char c :: nat
      in if a < 128 then 1 else if 194 \<le> a \<and> a \<le> 223 then 2 else if 224 \<le> a \<and> a \<le> 239 then 3
         else if 240 \<le> a \<and> a \<le> 244 then 4 else 0)"

definition second_ok :: "char \<Rightarrow> char \<Rightarrow> bool" where
  "second_ok c x =
     (let a = of_char c :: nat; b = of_char x :: nat
      in (a = 224 \<longrightarrow> 160 \<le> b) \<and> (a = 237 \<longrightarrow> b < 160) \<and> (a = 240 \<longrightarrow> 144 \<le> b) \<and> (a = 244 \<longrightarrow> b < 144))"

definition rune_len :: "char \<Rightarrow> string \<Rightarrow> nat" where
  "rune_len c s =
     (let rest = take (rune_size c - 1) s
      in if length rest = rune_size c - 1 \<and> list_all rune_cont rest \<and> (case rest of [] \<Rightarrow> True | x # _ \<Rightarrow> second_ok c x) then rune_size c else 0)"

text \<open>
  \<^verbatim>\<open>[]rune(s)\<close>, each rune as the bytes that \<^verbatim>\<open>string\<close> makes of it: a byte that begins no sequence becomes the
  replacement character.
\<close>

definition replacement_char :: string where
  "replacement_char = [CHR 0xEF, CHR 0xBF, CHR 0xBD]"

function runes :: "string \<Rightarrow> string list" where
  "runes [] = []"
| "runes (c # s) =
     (let n = rune_len c s
      in if n = 0 then replacement_char # runes s else (c # take (n - 1) s) # runes (drop (n - 1) s))"
  by pat_completeness auto
termination by (relation "measure length") auto

section \<open>Banners\<close>

abbreviation banner_width :: nat where "banner_width \<equiv> 60"

definition banner_pad :: "string \<Rightarrow> string" where
  "banner_pad s =
     (let n = length (runes s)
      in if banner_width \<le> n then concat (take banner_width (runes s)) else s @ replicate (banner_width - n) (CHR '' ''))"

text \<open>The box drawing characters \<open>U+2550\<close> to \<open>U+2563\<close> by their last byte.\<close>

definition box :: "char \<Rightarrow> string" where
  "box c = [CHR 0xE2, CHR 0x95, c]"

definition banner_rule :: "char \<Rightarrow> char \<Rightarrow> string" where
  "banner_rule left right = box left @ box (CHR 0x90) @ concat (replicate banner_width (box (CHR 0x90))) @ box (CHR 0x90) @ box right"

definition banner_line :: "string \<Rightarrow> string" where
  "banner_line s = box (CHR 0x91) @ '' '' @ banner_pad s @ '' '' @ box (CHR 0x91)"

definition banner_sep :: string where
  "banner_sep = banner_rule (CHR 0xA0) (CHR 0xA3)"

definition banner_top :: string where
  "banner_top = banner_rule (CHR 0x94) (CHR 0x97)"

definition banner_end :: string where
  "banner_end = banner_rule (CHR 0x9A) (CHR 0x9D)"

definition shortID :: "string \<Rightarrow> string" where
  "shortID hex = (if length hex \<le> 24 then hex else take 20 hex @ [CHR 0xE2, CHR 0x80, CHR 0xA6])"

definition hostIP :: "host \<Rightarrow> string" where
  "hostIP h = (if DetectLocalIP h \<noteq> '''' then DetectLocalIP h else ''(unknown)'')"

definition banner_if :: "bool \<Rightarrow> string list \<Rightarrow> string list" where
  "banner_if b ls = (if b then ls else [])"

definition hub_banner :: "string \<Rightarrow> host \<Rightarrow> Config \<Rightarrow> string \<Rightarrow> string list" where
  "hub_banner version h cfg nodeID =
     [banner_top, banner_line '''', banner_line (''  QuakeMeshHub  v'' @ version), banner_line ''  Private mesh backbone'',
      banner_line (''  Host IP      '' @ hostIP h), banner_line '''', banner_sep, banner_line ''  IDENTITY'', banner_sep,
      banner_line (''  Node ID      '' @ shortID nodeID), banner_sep, banner_line ''  LISTENERS'', banner_sep,
      banner_line (''  OGM          '' @ OGMBindAddr cfg), banner_line (''  Management   '' @ ManagementAddr cfg)]
     @ banner_if (HeartbeatAddr cfg \<noteq> '''') [banner_line (''  Heartbeat    '' @ HeartbeatAddr cfg)]
     @ banner_if (DiscoveryBind cfg \<noteq> '''') [banner_line (''  Discovery    '' @ DiscoveryBind cfg),
         banner_line ''               multicast 239.255.42.99:47223'']
     @ banner_if (AppSocket cfg \<noteq> '''') [banner_line (''  App SDK      '' @ AppSocket cfg)]
     @ banner_if (cfg_Peers cfg \<noteq> []) ([banner_sep, banner_line ''  PEERS'', banner_sep] @ map (\<lambda>p. banner_line (''  '' @ p)) (cfg_Peers cfg))
     @ [banner_sep, banner_line ''  STORAGE'', banner_sep, banner_line (''  Database     '' @ DBPath cfg),
        banner_line (''  Identity     '' @ IdentityPath cfg), banner_line '''', banner_end]"

definition monitor_banner :: "string \<Rightarrow> host \<Rightarrow> string \<Rightarrow> string \<Rightarrow> string \<Rightarrow> string list" where
  "monitor_banner version h bindAddr hubDB hubWS =
     [banner_top, banner_line '''', banner_line (''  QuakeMeshMonitor  v'' @ version), banner_line ''  Mesh admin dashboard'',
      banner_line (''  Host IP      '' @ hostIP h), banner_line '''', banner_sep, banner_line ''  LISTENERS'', banner_sep,
      banner_line (''  Dashboard    http://'' @ bindAddr), banner_sep, banner_line ''  HUB'', banner_sep,
      banner_line (''  Database     '' @ hubDB), banner_line (''  Events       '' @ hubWS), banner_line '''', banner_end]"

section \<open>The mobile node\<close>

text \<open>The frames that the registered sink was given, \<open>None\<close> without a sink.\<close>

record mobile_node =
  mn_identity :: Identity
  mn_sink :: "(string \<times> bytes) list option"

definition mobile_NewNode ::
  "crypto \<Rightarrow> error + bytes \<Rightarrow> error option \<Rightarrow> string \<Rightarrow> string \<Rightarrow> (fs \<times> disk, mobile_node) stmt" where
  "mobile_NewNode cr gen opened identityPath dbPath = (\<lambda>(f, d).
     case LoadOrCreate cr gen identityPath f of
       (Inl e, f1) \<Rightarrow> (Inl (Wrap ''mobile: identity'' e), (f1, d))
     | (Inr ident, f1) \<Rightarrow>
         (case storage_Open dbPath opened d of
            (Inl e, d1) \<Rightarrow> (Inl (Wrap ''mobile: storage'' e), (f1, d1))
          | (Inr _, d1) \<Rightarrow> (Inr \<lparr>mn_identity = ident, mn_sink = None\<rparr>, (f1, d1))))"

definition mobile_NodeID :: "mobile_node \<Rightarrow> string" where
  "mobile_NodeID n = NodeID_String (id_NodeID (mn_identity n))"

definition SetFrameSink :: "bool \<Rightarrow> mobile_node \<Rightarrow> mobile_node" where
  "SetFrameSink given n = n\<lparr>mn_sink := (if given then Some [] else None)\<rparr>"

text \<open>The message of the code also quotes the id.\<close>

definition OnFrameReceived :: "string \<Rightarrow> bytes \<Rightarrow> (mobile_node, unit) stmt" where
  "OnFrameReceived peerHex frame =
     (if hex_DecodeString peerHex = None \<and> length peerHex > 0 then fail (Wrap ''mobile: invalid peer id'' (Errmsg ''hex'')) else ret ())"

definition EmitFrame :: "string \<Rightarrow> bytes \<Rightarrow> (mobile_node, unit) stmt" where
  "EmitFrame peerHex frame n =
     (case mn_sink n of
        None \<Rightarrow> (Inl (Errmsg ''mobile: no FrameSink registered''), n)
      | Some frames \<Rightarrow> (Inr (), n\<lparr>mn_sink := Some (frames @ [(peerHex, frame)])\<rparr>))"

section \<open>Widths\<close>

lemma rune_len_append:
  assumes "t = [] \<or> \<not> rune_cont (hd t)"
  shows "rune_len c (s @ t) = rune_len c s"
proof (cases "rune_size c - 1 \<le> length s")
  case False
  let ?n = "rune_size c - 1"
  have "rune_len c s = 0" using False by (simp add: rune_len_def Let_def)
  moreover have "\<not> (length (take ?n (s @ t)) = ?n \<and> list_all rune_cont (take ?n (s @ t)))"
  proof (cases t)
    case (Cons d ds)
    then have "take ?n (s @ t) = s @ d # take (?n - length s - 1) ds" using False by (simp add: take_Cons')
    with Cons assms show ?thesis by simp
  qed (use False in simp)
  then have "rune_len c (s @ t) = 0" unfolding rune_len_def Let_def by (simp only: simp_thms if_False conj_assoc [symmetric])
  ultimately show ?thesis by simp
qed (simp add: rune_len_def)

lemma rune_len_le: "rune_len c s \<le> Suc (length s)"
  by (auto simp: rune_len_def Let_def)

lemma rune_len_take: "rune_len c s = Suc n \<Longrightarrow> rune_len c (take n s @ v) = Suc n"
  by (auto simp: rune_len_def Let_def split: if_splits)

lemma runes_append:
  assumes "t = [] \<or> \<not> rune_cont (hd t)"
  shows "runes (s @ t) = runes s @ runes t"
proof (induction s rule: runes.induct)
  case (2 c s)
  note l = rune_len_append [OF assms, of c s] rune_len_le [of c s]
  show ?case
  proof (cases "rune_len c s")
    case 0
    with 2(1) [OF refl] l show ?thesis by simp
  next
    case (Suc n)
    with 2(2) [OF refl] l show ?thesis by simp
  qed
qed simp

definition rune :: "string \<Rightarrow> bool" where
  "rune x = (\<exists>c u. x = c # u \<and> (\<forall>v. rune_len c (u @ v) = length x))"

lemma runes_rune: "rune x \<Longrightarrow> runes (x @ v) = x # runes v"
  by (auto simp: rune_def)

lemma rune_ascii: "(of_char c :: nat) < 128 \<Longrightarrow> rune [c]"
  by (simp add: rune_def rune_len_def rune_size_def)

lemma rune_box: "rune_cont c \<Longrightarrow> rune (box c)"
  by (simp add: rune_def box_def rune_len_def rune_size_def second_ok_def rune_cont_def)

lemma rune_replacement: "rune replacement_char"
  by (simp add: rune_def replacement_char_def rune_len_def rune_size_def second_ok_def rune_cont_def)

lemma runes_are_runes: "list_all rune (runes s)"
proof (induction s rule: runes.induct)
  case (2 c s)
  show ?case
  proof (cases "rune_len c s")
    case 0
    with 2(1) [OF refl] show ?thesis by (simp add: rune_replacement)
  next
    case (Suc n)
    then have "n \<le> length s" using rune_len_le [of c s] by simp
    with rune_len_take [OF Suc] have "rune (c # take n s)" by (simp add: rune_def)
    with 2(2) [OF refl] Suc show ?thesis by simp
  qed
qed simp

lemma runes_concat: "list_all rune xs \<Longrightarrow> runes (concat xs) = xs"
  by (induction xs) (simp_all add: runes_rune)

lemma runes_blanks: "runes (replicate k (CHR '' '')) = replicate k '' ''"
  using runes_concat [of "replicate k '' ''"] rune_ascii [of "CHR '' ''"] by (simp add: list_all_iff concat_replicate_single)

lemma banner_pad_width [simp]: "length (runes (banner_pad s)) = banner_width"
proof (cases "banner_width \<le> length (runes s)")
  case True
  have "list_all rune (take banner_width (runes s))" using runes_are_runes [of s] by (auto simp: list_all_iff dest: in_set_takeD)
  with True show ?thesis by (simp add: banner_pad_def runes_concat)
next
  case False
  have "replicate k (CHR '' '') = [] \<or> \<not> rune_cont (hd (replicate k (CHR '' '')))" for k by (cases k) (simp_all add: rune_cont_def)
  from runes_append [OF this, of s] False show ?thesis by (simp add: banner_pad_def runes_blanks Let_def)
qed


text \<open>How many runes a printed line has.\<close>

definition line_width :: "string \<Rightarrow> nat" where
  "line_width l = length (runes l)"

lemma rune_box_chars: "rune (box (CHR 0x90))" "rune (box (CHR 0x91))" "rune (box (CHR 0x94))" "rune (box (CHR 0x97))"
  "rune (box (CHR 0x9A))" "rune (box (CHR 0x9D))" "rune (box (CHR 0xA0))" "rune (box (CHR 0xA3))"
  by (simp_all add: rune_box rune_cont_def)

lemma width_line [simp]: "line_width (banner_line s) = 64"
proof -
  have b: "rune '' ''" using rune_ascii [of "CHR '' ''"] by simp
  have "runes (banner_line s) = [box (CHR 0x91), '' ''] @ runes (banner_pad s) @ ['' '', box (CHR 0x91)]"
    using runes_append [of "'' '' @ box (CHR 0x91)" "banner_pad s"] runes_rune [OF b] runes_rune [OF rune_box_chars(2)]
      runes_rune [OF b, of "banner_pad s @ '' '' @ box (CHR 0x91)"] runes_rune [OF rune_box_chars(2), of "[]"]
    by (simp add: banner_line_def rune_cont_def)
  then show ?thesis by (simp add: line_width_def)
qed

lemma width_rule: "rune (box l) \<Longrightarrow> rune (box r) \<Longrightarrow> line_width (banner_rule l r) = 64"
proof -
  assume lr: "rune (box l)" "rune (box r)"
  let ?xs = "[box l, box (CHR 0x90)] @ replicate banner_width (box (CHR 0x90)) @ [box (CHR 0x90), box r]"
  have "list_all rune ?xs" using lr rune_box_chars(1) by (simp add: list_all_iff)
  moreover have "banner_rule l r = concat ?xs" by (simp add: banner_rule_def)
  ultimately have "runes (banner_rule l r) = ?xs" by (simp only: runes_concat)
  then show ?thesis by (simp add: line_width_def)
qed

lemma width_rules [simp]: "line_width banner_sep = 64" "line_width banner_top = 64" "line_width banner_end = 64"
  by (simp_all add: banner_sep_def banner_top_def banner_end_def width_rule rune_box_chars)

lemma width_banner_if [simp]: "list_all P (banner_if b ls) = (b \<longrightarrow> list_all P ls)"
  by (simp add: banner_if_def)

text \<open>
  Banners are boxes. Every line of the hub's and of the monitor's banner has 64 characters, whatever bytes the
  addresses, paths, peers and versions hold, valid UTF-8 or not, and however long they are.
\<close>

theorem banner_aligned:
  "list_all (\<lambda>l. line_width l = 64) (hub_banner version h cfg nodeID @ monitor_banner version' h bindAddr hubDB hubWS)"
  by (simp add: hub_banner_def monitor_banner_def) (simp add: list_all_iff)

section \<open>The list of peers\<close>

definition blank :: "string \<Rightarrow> bool" where
  "blank s = list_all is_space s"

text \<open>An entry of the flag: an address between blanks; without one when only blanks stand there.\<close>

definition peer_entry :: "string \<times> string \<times> string \<Rightarrow> bool" where
  "peer_entry e = (case e of (before, p, after) \<Rightarrow>
     blank before \<and> blank after \<and> CHR '','' \<notin> set p \<and> (p = [] \<or> \<not> is_space (hd p) \<and> \<not> is_space (last p)))"

definition entry_text :: "string \<times> string \<times> string \<Rightarrow> string" where
  "entry_text e = (case e of (before, p, after) \<Rightarrow> before @ p @ after)"

fun comma_join :: "string list \<Rightarrow> string" where
  "comma_join [] = []"
| "comma_join [s] = s"
| "comma_join (s # t # ss) = s @ CHR '','' # comma_join (t # ss)"

lemma dropWhile_blank: "blank b \<Longrightarrow> dropWhile is_space (b @ s) = dropWhile is_space s"
  by (induction b) (auto simp: blank_def)

lemma TrimSpace_entry: "peer_entry e \<Longrightarrow> TrimSpace (entry_text e) = fst (snd e)"
proof -
  assume "peer_entry e"
  then obtain b p a where e: "e = (b, p, a)" "blank b" "blank a" "p = [] \<or> \<not> is_space (hd p) \<and> \<not> is_space (last p)"
    by (cases e) (auto simp: peer_entry_def)
  have r: "blank (rev a)" using e(3) by (auto simp: blank_def list_all_iff)
  show ?thesis
  proof (cases "p = []")
    case True
    have d: "dropWhile is_space (b @ a) = []" unfolding dropWhile_eq_Nil_conv using e(2,3) by (auto simp: blank_def list_all_iff)
    have "TrimSpace (b @ a) = []" unfolding TrimSpace_def d by simp
    with True e(1) show ?thesis by (simp add: entry_text_def)
  next
    case False
    then have "dropWhile is_space (p @ a) = p @ a" using e(4) by (cases p) auto
    moreover have "dropWhile is_space (rev p) = rev p" using False e(4) by (cases p rule: rev_cases) auto
    ultimately show ?thesis
      using dropWhile_blank [OF e(2), of "p @ a"] dropWhile_blank [OF r, of "rev p"] e(1) by (simp add: TrimSpace_def entry_text_def)
  qed
qed

lemma entry_no_comma: "peer_entry e \<Longrightarrow> list_all (\<lambda>c. c \<noteq> CHR '','') (entry_text e)"
  by (cases e) (auto simp: peer_entry_def entry_text_def blank_def list_all_iff is_space_def)

lemma Split_comma_join:
  "ss \<noteq> [] \<Longrightarrow> list_all (list_all (\<lambda>c. c \<noteq> CHR '','')) ss \<Longrightarrow> Split (comma_join ss) (CHR '','') = ss"
  by (induction ss rule: comma_join.induct) (simp_all add: Split_def split_by_none split_by_append)

text \<open>
  C39. The flag for the peers. Whatever blanks stand around the commas and however many entries are empty, the hub's
  configuration gets exactly the addresses, in their order.
\<close>

theorem peers_flag:
  assumes "list_all peer_entry es" and "fl_peers fs = comma_join (map entry_text es)"
  shows "cfg_Peers (main_config version fs) = filter (\<lambda>p. p \<noteq> '''') (map (fst \<circ> snd) es)"
proof (cases "fl_peers fs = ''''")
  case True
  have "filter (\<lambda>p. p \<noteq> '''') (map (fst \<circ> snd) es) = []"
  proof (cases es)
    case (Cons e es')
    then have "es' = []" "entry_text e = ''''" using True assms(2) by (cases es'; simp)+
    then show ?thesis by (cases e) (simp add: Cons entry_text_def)
  qed simp
  with True show ?thesis by (simp add: main_config_def flag_peers_def DefaultConfig_def)
next
  case False
  then have "es \<noteq> []" using assms(2) by auto
  moreover have "list_all (list_all (\<lambda>c. c \<noteq> CHR '','')) (map entry_text es)"
    using assms(1) by (auto simp: list_all_iff dest: entry_no_comma [unfolded list_all_iff])
  ultimately have "Split (fl_peers fs) (CHR '','') = map entry_text es" using Split_comma_join [of "map entry_text es"] assms(2) by simp
  moreover have "map TrimSpace (map entry_text es) = map (fst \<circ> snd) es"
    using assms(1) by (auto simp: list_all_iff TrimSpace_entry)
  ultimately show ?thesis using False by (simp add: main_config_def flag_peers_def DefaultConfig_def cong: map_cong)
qed

theorem peers_flag_witness:
  "cfg_Peers (main_config ''1'' (default_flags\<lparr>fl_peers := '' a:1 , b:2,,''\<rparr>)) = [''a:1'', ''b:2'']"
proof -
  let ?es = "[('' '', ''a:1'', '' ''), ('' '', ''b:2'', ''''), ('''', '''', ''''), ('''', '''', '''')]"
  have "list_all peer_entry ?es" by code_simp
  from peers_flag [OF this, of "default_flags\<lparr>fl_peers := '' a:1 , b:2,,''\<rparr>" "''1''"] show ?thesis by (simp add: entry_text_def)
qed

end
