(* ===== verification/Servers.thy ===== *)
theory Servers
  imports HubApp MonitorApp
begin

text \<open>
  The servers of the hub and the client that the monitor connects with: routing, \<^verbatim>\<open>Start\<close> and the WebSocket
  handler of \<^verbatim>\<open>hub/internal/managementapi/managementapi.go\<close>, routing and \<^verbatim>\<open>Start\<close> of
  \<^verbatim>\<open>hub/internal/nodeheartbeat/nodeheartbeat.go\<close>, and \<^verbatim>\<open>New\<close>, \<^verbatim>\<open>Run\<close> and \<^verbatim>\<open>runOnce\<close> of
  \<^verbatim>\<open>monitor/internal/hubclient/hubclient.go\<close>. The listener, the dialled connection and what is read from it are
  parameters.

  Shown: at any time the registered clients of the management API are exactly those whose handler still runs, so
  none is left behind and none is missed; the monitor's client waits 1, 2, 4, \<open>\<dots>\<close>, 32 seconds between its
  attempts, whether or not the connections in between succeeded.
\<close>

section \<open>Routing\<close>

datatype 'h mux_answer = MuxHandler 'h | MuxRedirect string | MuxNotFound

definition mux_route :: "(string \<times> 'h) list \<Rightarrow> string \<Rightarrow> string \<Rightarrow> 'h mux_answer" where
  "mux_route mux meth path =
     (let p = (if meth = ''CONNECT'' then path else cleanPath path)
      in if p \<noteq> '''' \<and> \<not> HasSuffix p ''/'' \<and> p \<notin> fst ` set mux \<and> p @ ''/'' \<in> fst ` set mux then MuxRedirect (p @ ''/'')
         else if p \<noteq> path then MuxRedirect p
         else case mux_match mux p of None \<Rightarrow> MuxNotFound | Some (_, h) \<Rightarrow> MuxHandler h)"

datatype mgmt_handler = MgmtWS | MgmtSniff

definition mgmt_mux :: "(string \<times> mgmt_handler) list" where
  "mgmt_mux = [(''/ws'', MgmtWS), (''/sniff'', MgmtSniff), (''/api/sniff'', MgmtSniff)]"

datatype hb_handler = HbHeartbeat | HbSOS | HbEndorse | HbSniff

definition hb_mux :: "(string \<times> hb_handler) list" where
  "hb_mux = [(''/v1/heartbeat'', HbHeartbeat), (''/v1/sos'', HbSOS), (''/v1/endorse'', HbEndorse), (''/sniff'', HbSniff),
     (''/api/sniff'', HbSniff)]"

section \<open>Start\<close>

text \<open>\<open>listen\<close> is \<^verbatim>\<open>net.Listen\<close> over TCP; the result is the address the server got.\<close>

definition mgmt_Start :: "(string \<Rightarrow> error + string) \<Rightarrow> string \<Rightarrow> error + string" where
  "mgmt_Start listen addr = (case listen addr of Inl e \<Rightarrow> Inl (Wrap (''managementapi: listen '' @ addr) e) | Inr a \<Rightarrow> Inr a)"

text \<open>Without an address the heartbeat server does nothing.\<close>

definition hb_Start :: "(string \<Rightarrow> error + string) \<Rightarrow> string \<Rightarrow> error + string option" where
  "hb_Start listen addr =
     (if addr = '''' then Inr None
      else case listen addr of Inl e \<Rightarrow> Inl (Wrap (''nodeheartbeat: listen '' @ addr) e) | Inr a \<Rightarrow> Inr (Some a))"

section \<open>WebSocket clients of the management API\<close>

text \<open>
  The handlers that run, each named by its channel, with whether its reading goroutine has ended; and what has been
  written to the connections. \<open>WsClose\<close> is \<^verbatim>\<open>Close\<close>: \<^verbatim>\<open>http.Server.Shutdown\<close> does not touch a connection that was
  taken over by a WebSocket.
\<close>

record 'w ws_server =
  ws_handlers :: "(nat \<times> bool) list"
  ws_written :: "(nat \<times> bytes) list"
  ws_world :: 'w

datatype ws_event = WsUpgrade nat bool | WsReaderEnds nat | WsPush nat bool | WsReturn nat | WsPublish ManagementEvent | WsClose

definition ws_gone :: "nat \<Rightarrow> ('a mgmt_world_scheme) ws_server \<Rightarrow> ('a mgmt_world_scheme) ws_server" where
  "ws_gone ch s = s\<lparr>ws_handlers := AList.delete ch (ws_handlers s), ws_world := removeClient ch (ws_world s)\<rparr>"

fun handleWS :: "event_codec \<Rightarrow> ws_event \<Rightarrow> ('a mgmt_world_scheme) ws_server \<Rightarrow> ('a mgmt_world_scheme) ws_server" where
  "handleWS enc (WsUpgrade ch ok) s =
     (if ok \<and> ch \<notin> fst ` set (ws_handlers s)
      then s\<lparr>ws_handlers := ws_handlers s @ [(ch, False)], ws_world := addClient ch (ws_world s)\<rparr> else s)"
| "handleWS enc (WsReaderEnds ch) s =
     (if ch \<in> fst ` set (ws_handlers s) then s\<lparr>ws_handlers := AList.update ch True (ws_handlers s)\<rparr> else s)"
| "handleWS enc (WsPush ch ok) s =
     (if ch \<notin> fst ` set (ws_handlers s) then s
      else case clientReceive ch (ws_world s) of
        (None, _) \<Rightarrow> s
      | (Some payload, w1) \<Rightarrow>
          if ok then s\<lparr>ws_world := w1, ws_written := ws_written s @ [(ch, payload)]\<rparr>
          else ws_gone ch (s\<lparr>ws_world := w1\<rparr>))"
| "handleWS enc (WsReturn ch) s = (if (ch, True) \<in> set (ws_handlers s) then ws_gone ch s else s)"
| "handleWS enc (WsPublish ev) s = s\<lparr>ws_world := Publish enc ev (ws_world s)\<rparr>"
| "handleWS enc WsClose s = s"

definition ws_start :: "'a mgmt_world_scheme \<Rightarrow> ('a mgmt_world_scheme) ws_server" where
  "ws_start w = \<lparr>ws_handlers = [], ws_written = [], ws_world = w\<lparr>clients := []\<rparr>\<rparr>"

definition ws_clean :: "('a mgmt_world_scheme) ws_server \<Rightarrow> bool" where
  "ws_clean s = (map fst (clients (ws_world s)) = map fst (ws_handlers s) \<and> distinct (map fst (ws_handlers s)))"

lemma update_keys: "k \<in> fst ` set al \<Longrightarrow> map fst (AList.update k v al) = map fst al"
  by (induction al) auto

lemma update_new: "k \<notin> fst ` set al \<Longrightarrow> AList.update k v al = al @ [(k, v)]"
  by (induction al) auto

lemma map_fst_delete: "map fst (AList.delete k al) = filter (\<lambda>x. x \<noteq> k) (map fst al)"
  by (induction al) (auto simp: AList.delete_eq)

lemma clientReceive_keys: "map fst (clients (snd (clientReceive ch w))) = map fst (clients w)"
proof (cases "map_of (clients w) ch")
  case (Some q)
  then have "ch \<in> fst ` set (clients w)" by (force dest: map_of_SomeD)
  with Some show ?thesis by (cases q) (simp_all add: clientReceive_def update_keys)
qed (simp add: clientReceive_def)

lemma ws_gone_clean: "ws_clean s \<Longrightarrow> ws_clean (ws_gone ch s)"
  by (simp add: ws_clean_def ws_gone_def removeClient_def map_fst_delete)

lemma handleWS_clean: "ws_clean s \<Longrightarrow> ws_clean (handleWS enc e s)"
proof (cases e)
  case (WsUpgrade ch ok)
  assume c: "ws_clean s"
  then have "fst ` set (clients (ws_world s)) = fst ` set (ws_handlers s)" unfolding ws_clean_def by (metis list.set_map)
  with c WsUpgrade show ?thesis by (auto simp: ws_clean_def addClient_def update_new)
next
  case (WsPush ch ok)
  assume c: "ws_clean s"
  then have "ws_clean (s\<lparr>ws_world := snd (clientReceive ch (ws_world s))\<rparr>)" by (simp add: ws_clean_def clientReceive_keys)
  with c ws_gone_clean [OF this] WsPush show ?thesis
    by (auto simp: ws_clean_def split: prod.split option.split)
next
  case (WsPublish ev)
  assume "ws_clean s"
  with WsPublish show ?thesis by (auto simp: ws_clean_def Publish_def broadcast_def o_def case_prod_unfold split: option.split)
next
  case (WsReturn ch)
  assume "ws_clean s"
  with WsReturn show ?thesis by (simp add: ws_gone_clean)
qed (auto simp: ws_clean_def update_keys)

text \<open>
  C22. Nobody is left behind. After any sequence of connections, failed writes, disconnections, published events and
  even after \<^verbatim>\<open>Close\<close>, the clients the management API keeps channels for are exactly those whose handler still
  runs, each once and in the order they connected.
\<close>

theorem ws_clients_are_handlers:
  "map fst (clients (ws_world (fold (handleWS enc) events (ws_start w)))) = map fst (ws_handlers (fold (handleWS enc) events (ws_start w))) \<and>
   distinct (map fst (ws_handlers (fold (handleWS enc) events (ws_start w))))"
proof -
  have "ws_clean s \<Longrightarrow> ws_clean (fold (handleWS enc) events s)" for s :: "('a mgmt_world_scheme) ws_server"
    by (induction events arbitrary: s) (simp_all add: handleWS_clean)
  moreover have "ws_clean (ws_start w)" by (simp add: ws_clean_def ws_start_def)
  ultimately show ?thesis by (simp add: ws_clean_def)
qed

section \<open>The monitor's connection to the hub\<close>

datatype hub_read = HubReadFails error | HubMsg bool bytes

text \<open>Reading until the connection fails, or, with no error, until the context is cancelled.\<close>

fun read_hub ::
  "sos_json \<Rightarrow> (bytes \<Rightarrow> (int \<times> event_body option) option) \<Rightarrow> hub_read list \<Rightarrow> 'a feed_scheme \<Rightarrow> error option \<times> 'a feed_scheme" where
  "read_hub json decode [] s = (None, s)"
| "read_hub json decode (HubReadFails e # rs) s = (Some (Wrap ''read hub event'' e), s)"
| "read_hub json decode (HubMsg binary data # rs) s = read_hub json decode rs (client_message json decode binary data s)"

text \<open>An attempt: what \<^verbatim>\<open>url.Parse\<close> and the dialler answer, and the reads of the connection.\<close>

record attempt =
  at_parse :: "error option"
  at_dial :: "error option"
  at_reads :: "hub_read list"

definition runOnce ::
  "sos_json \<Rightarrow> (bytes \<Rightarrow> (int \<times> event_body option) option) \<Rightarrow> attempt \<Rightarrow> 'a feed_scheme \<Rightarrow> error option \<times> 'a feed_scheme" where
  "runOnce json decode a s =
     (case at_parse a of
        Some e \<Rightarrow> (Some (Wrap ''parse hub url'' e), s)
      | None \<Rightarrow> (case at_dial a of Some e \<Rightarrow> (Some (Wrap ''dial hub'' e), s) | None \<Rightarrow> read_hub json decode (at_reads a) s))"

text \<open>\<^verbatim>\<open>Run\<close> until it is cancelled in a wait: the errors of the attempts with the waits after them.\<close>

fun client_Run ::
  "sos_json \<Rightarrow> (bytes \<Rightarrow> (int \<times> event_body option) option) \<Rightarrow> attempt list \<Rightarrow> duration \<Rightarrow> 'a feed_scheme \<Rightarrow>
   (error option \<times> duration) list \<times> 'a feed_scheme" where
  "client_Run json decode [] backoff s = ([], s)"
| "client_Run json decode (a # as) backoff s =
     (let (r, s1) = runOnce json decode a s; (rest, s2) = client_Run json decode as (next_backoff backoff) s1
      in ((r, backoff) # rest, s2))"

lemma client_Run_waits: "map snd (fst (client_Run json decode as backoff s)) = run_delays (length as) backoff"
  by (induction as arbitrary: backoff s) (simp_all add: case_prod_unfold Let_def)

lemma length_run_delays: "length (run_delays n b) = n"
  by (induction n arbitrary: b) simp_all

text \<open>
  Reconnecting. Whatever the attempts to connect and the connections do, the monitor's client waits 1, 2, 4, 8,
  16 seconds and from then on 32 seconds after each of them; in particular a connection that worked for a long
  time does not shorten the wait after it.
\<close>

theorem reconnect_waits:
  "map snd (fst (client_Run json decode rounds Second s)) = map (\<lambda>i. 2 ^ min i 5 * Second) [0..<length rounds]"
proof (rule nth_equalityI)
  fix i assume "i < length (map snd (fst (client_Run json decode rounds Second s)))"
  then have "i < length rounds" by (simp add: client_Run_waits length_run_delays)
  with reconnect_delays [OF this] show "map snd (fst (client_Run json decode rounds Second s)) ! i = map (\<lambda>i. 2 ^ min i 5 * Second) [0..<length rounds] ! i"
    by (simp add: client_Run_waits min_def)
qed (simp add: client_Run_waits length_run_delays)

end
