(* ===== verification/Spec2Isabelle.thy ===== *)
theory Spec2Isabelle
  imports MonitorApp Flood Lifecycle Simnet Noise Apps Programs Servers
begin

text \<open>
  Verification of QuakeMesh: the hub, the monitor, the shared core, the client library and the reference apps of
  the Go program under \<^verbatim>\<open>src/\<close>.

  \<^bold>\<open>The program.\<close> A hub (\<^verbatim>\<open>hub/\<close>) is one process around one SQLite file. Its routing engine floods originator
  messages (OGMs) over UDP and keeps the routing table; its sync engine gossips registries with other hubs; its
  DTN engine stores bundles and delivers them when their destination is online and has a route; its servers take
  heartbeats and alarms of mesh nodes, serve apps over a local socket, and push every change as an event to the
  monitor. The monitor (\<^verbatim>\<open>monitor/\<close>) is a second process on the same file: a dashboard over HTTP with accounts and
  sessions, fed by the hub's events. Both rest on \<^verbatim>\<open>core/\<close>. Apps use \<^verbatim>\<open>sdk/go\<close>.

  \<^bold>\<open>How it is modelled.\<close> Structures are records, enumerations datatypes, table rows records in lists. An operation
  that may fail is a statement \<open>'w \<Rightarrow> (error + 'a) \<times> 'w\<close> on a world (\<open>Quake_Prelude\<close>): every early return is a
  branch, and the world that an error leaves behind is part of the result. The world of the database carries a
  script of failures \<open>faults\<close>: each statement that reaches the driver consumes one entry and fails if it says so,
  so a theorem without an assumption on \<open>faults\<close> holds whichever statements fail. Worlds extend each other as records
  do: the database, the management API's channels, the daemon's sessions and inboxes, the hub's clock and random
  bytes. Machine integers are words where they wrap (\<^verbatim>\<open>uint32\<close>, \<^verbatim>\<open>uint64\<close> of the wire), times and durations are
  nanoseconds in \<open>int\<close>, \<^verbatim>\<open>float64\<close> is IEEE binary64 with every operation rounded (\<open>Float64\<close>; there is no
  negative zero). Goroutines are steps of a scheduler; a channel is the list of what waits in it.

  \<^bold>\<open>Theories and sources.\<close>

  \<^item> \<open>Quake_Prelude\<close>: types, errors, statements, rows, named collections. \<open>Contracts\<close>: the interfaces as locales
    (\<open>keyed_store\<close>, \<open>last_writer_wins\<close>, \<open>drop_channel\<close>) that the stores and channels discharge for their own
    operations; further interfaces stand with their clients (\<open>liveness\<close> in \<open>Registry\<close>, \<open>dtn_client\<close> in \<open>Dtn\<close>,
    \<open>ogm_client\<close> in \<open>Ogm\<close>, \<open>sync_client\<close> in \<open>Sync\<close>) and are interpreted where the hub wires them.
  \<^item> \<open>Float64\<close>, \<open>Routing\<close>: \<^verbatim>\<open>core/routing\<close>. \<open>Identity\<close>: \<^verbatim>\<open>core/identity\<close>. \<open>Location\<close>: \<^verbatim>\<open>core/location\<close>. \<open>Noise\<close>:
    \<^verbatim>\<open>core/noise\<close>. \<open>Simnet\<close>: \<^verbatim>\<open>core/simnet\<close>, \<^verbatim>\<open>core/transport\<close>. \<open>Trust\<close>: \<^verbatim>\<open>core/trust\<close>. \<open>MetricStore\<close>:
    \<^verbatim>\<open>core/metrics\<close>. \<open>Banlist\<close>: \<^verbatim>\<open>core/banlist\<close>. \<open>AppPresence\<close>: \<^verbatim>\<open>core/apppresence\<close>. \<open>Lan\<close>, \<open>Host\<close>:
    \<^verbatim>\<open>core/lancontext\<close>, \<^verbatim>\<open>core/lansegments\<close>, \<^verbatim>\<open>core/lanbeacon\<close>.
  \<^item> \<open>Storage\<close>, \<open>Migrations\<close>: \<^verbatim>\<open>core/storage\<close>, the schema with its constraints and the opening of a file through its
    six migrations, statement by statement.
  \<^item> \<open>Registry\<close>: \<^verbatim>\<open>hub/internal/registry\<close>. \<open>ConfigFallback\<close>: \<^verbatim>\<open>configstore\<close>, \<^verbatim>\<open>fallback\<close>. \<open>Dtn\<close>: \<^verbatim>\<open>core/dtn\<close>,
    \<^verbatim>\<open>hub/internal/dtnengine\<close>. \<open>Ogm\<close>: \<^verbatim>\<open>ogmengine\<close>; \<open>Flood\<close>: several hubs on one network. \<open>Sync\<close>:
    \<^verbatim>\<open>syncengine\<close>. \<open>Management\<close>, \<open>Servers\<close>: \<^verbatim>\<open>managementapi\<close>. \<open>Daemon\<close>: \<^verbatim>\<open>daemonapi\<close>. \<open>Heartbeat\<close>:
    \<^verbatim>\<open>nodeheartbeat\<close>, \<^verbatim>\<open>landiscovery\<close>. \<open>Sniff\<close>: their identity pages. \<open>Lifecycle\<close>: Start, loops and Close of the
    engines. \<open>HubApp\<close>: \<^verbatim>\<open>hubapp\<close>, the wiring, every input of the running hub as one step of \<open>hub_step\<close>, start and
    shutdown. \<open>Programs\<close>: \<^verbatim>\<open>hub/main.go\<close>, the banners, \<^verbatim>\<open>core/mobile\<close>.
  \<^item> \<open>MonitorAuth\<close>: \<^verbatim>\<open>monitor/internal/auth\<close>. \<open>Datastore\<close>: \<^verbatim>\<open>datastore\<close>. \<open>MonitorFeed\<close>: \<^verbatim>\<open>hubclient\<close>,
    \<^verbatim>\<open>sosfeed\<close>, the fan-out. \<open>MonitorServer\<close>: \<^verbatim>\<open>server\<close>. \<open>MonitorApp\<close>: \<^verbatim>\<open>hubdb\<close>, \<^verbatim>\<open>monitorapp\<close>,
    \<^verbatim>\<open>relayprobe\<close>, \<^verbatim>\<open>monitor/main.go\<close>. \<open>Servers\<close>: the reconnecting client.
  \<^item> \<open>Sdk\<close>: \<^verbatim>\<open>sdk/go\<close> and the HTTP layer below it. \<open>Apps\<close>: \<^verbatim>\<open>apps/*\<close> and \<^verbatim>\<open>sdk/go/cmd/meshdemo\<close>.

  \<^bold>\<open>What is shown.\<close>

  \<^item> Of the hub as a whole: whatever it receives and whichever statements fail, no stored route is unsound or leads to
    the hub itself; no pass loses a bundle that is unexpired and undeliverable; which parts run after which start.
  \<^item> Of the mesh: traffic dies out after a bounded number of deliveries, whatever the links; one OGM costs at most one
    forwarding per hub and link; replays change nothing; failover is exact.
  \<^item> Of the stores: atomicity under failures, exact reports, the constraints of the schema, migrations that can be
    interrupted anywhere; gossip that converges to the newest version in any order.
  \<^item> Of the channels: what a client, a browser or an app receives is a subsequence, in order, of what was sent;
    the clients of the management API are those whose handler runs.
  \<^item> Of the monitor: the session gate on every path, the login throttle, the forced change of the first password.
  \<^item> Of the goroutines: Close of an engine returns after a bounded number of moves besides ticks; the one of
    LAN discovery does not, as long as datagrams arrive.
  \<^item> Of the programs on top: a post on a topic is printed by a listener; the smoke test passes on any hub without
    bans; a subscription that is refused polls for ever.

  \<^bold>\<open>Bounds and fuel.\<close> The receiving loops of the client library take a number of rounds; the theorems say how many
  are enough (one more than there are messages) or hold for every number. Float operations are exact up to the
  binary64 rounding; overflow gives infinities. A mesh's traffic is bounded by a weight that counts, for each
  datagram, what it can still cause with its time to live and the widest fan-out. Lines of \<^verbatim>\<open>bufio.Scanner\<close> are
  cut at its buffer of 65536 bytes.

  \<^bold>\<open>Parameters.\<close> What is not under \<^verbatim>\<open>src/\<close> is an argument: protobuf and JSON encodings, ed25519, SHA-256, bcrypt, the
  Noise library, the transcendental functions of \<^verbatim>\<open>math\<close>, name resolution, listeners and dialled sockets, the
  output of the routing commands, clocks and random bytes. Laws that a theorem needs of them are hypotheses of
  that theorem, and its witness has a concrete function that satisfies them.

  \<^bold>\<open>Not modelled.\<close> \<^verbatim>\<open>core/wire\<close> is generated from the protobuf files; the Android app is Kotlin; the static files of the
  dashboard are data. The bytes of HTTP, JSON and WebSocket frames, TLS, and the order in which SQLite gives rows
  without an \<^verbatim>\<open>ORDER BY\<close> beyond the order of insertion are outside. Calls under a mutex are single steps. White
  space is that of ASCII. Log lines are not part of any result.
\<close>

end
